(* ===== verification/JsPrelude.thy ===== *)
theory JsPrelude
  imports Main "HOL-Library.Sublist" "HOL-Library.Char_ord" "HOL-Library.List_Lexorder"
begin

text \<open>
  Shared vocabulary of the development: the parts of the JavaScript string, array, Set and
  JSON libraries that the modelled sources call, with the generic lemmas the components rest
  on.

  A JavaScript string is a \<^typ>\<open>string\<close>, read as the UTF-8 encoding of the text.  Every
  character the sources compare against is ASCII (or the byte order mark, three bytes), and
  UTF-8 keeps ASCII characters as themselves and never uses their bytes for anything else, so
  splitting, prefix, suffix and substring tests agree with the code on every text;
  \<^const>\<open>length\<close> and the string order agree with the code's on ASCII text.
\<close>

named_theorems js_simps \<open>unfolding of the JavaScript library operations\<close>

section \<open>Strings\<close>

abbreviation starts_with :: "string \<Rightarrow> string \<Rightarrow> bool" where
  "starts_with s p \<equiv> prefix p s"

abbreviation ends_with :: "string \<Rightarrow> string \<Rightarrow> bool" where
  "ends_with s p \<equiv> suffix p s"

abbreviation js_includes :: "string \<Rightarrow> string \<Rightarrow> bool" where
  "js_includes s p \<equiv> sublist p s"

text \<open>\<^verbatim>\<open>s.indexOf(c)\<close> for a single character; \<^term>\<open>None\<close> is the code's \<^verbatim>\<open>-1\<close>.\<close>

definition index_of :: "char \<Rightarrow> string \<Rightarrow> nat option" where
  "index_of c s = (if c \<in> set s then Some (length (takeWhile (\<lambda>x. x \<noteq> c) s)) else None)"

text \<open>\<^verbatim>\<open>s.split(c)\<close> for a single separator character: never empty.\<close>

fun split_on :: "char \<Rightarrow> string \<Rightarrow> string list" where
  "split_on c [] = [[]]"
| "split_on c (x # xs) =
     (if x = c then [] # split_on c xs
      else (case split_on c xs of [] \<Rightarrow> [[x]] | y # ys \<Rightarrow> (x # y) # ys))"

text \<open>\<^verbatim>\<open>xs.join(sep)\<close>.\<close>

fun join_with :: "string \<Rightarrow> string list \<Rightarrow> string" where
  "join_with sep [] = []"
| "join_with sep [x] = x"
| "join_with sep (x # y # ys) = x @ sep @ join_with sep (y # ys)"

text \<open>\<^verbatim>\<open>s.trim()\<close> on the ASCII white space.\<close>

definition is_space :: "char \<Rightarrow> bool" where
  "is_space c = (of_char c \<in> {9, 10, 11, 12, 13, 32 :: nat})"

definition js_trim :: "string \<Rightarrow> string" where
  "js_trim s = rev (dropWhile is_space (rev (dropWhile is_space s)))"

text \<open>ASCII case folding of one character.\<close>

definition ascii_lower_char :: "char \<Rightarrow> char" where
  "ascii_lower_char c =
     (let n = (of_char c :: nat) in if 65 \<le> n \<and> n \<le> 90 then char_of (n + 32) else c)"

definition ascii_upper_char :: "char \<Rightarrow> char" where
  "ascii_upper_char c =
     (let n = (of_char c :: nat) in if 97 \<le> n \<and> n \<le> 122 then char_of (n - 32) else c)"

text \<open>\<^verbatim>\<open>s.toUpperCase()\<close> on ASCII text (HTTP methods).\<close>

definition js_upper :: "string \<Rightarrow> string" where
  "js_upper s = map ascii_upper_char s"

section \<open>Arrays and sets\<close>

text \<open>\<^verbatim>\<open>[...new Set(xs)]\<close>: the distinct elements in the order of their first occurrence.\<close>

fun js_uniq :: "'a list \<Rightarrow> 'a list" where
  "js_uniq [] = []"
| "js_uniq (x # xs) = x # removeAll x (js_uniq xs)"

lemma set_js_uniq [simp]: "set (js_uniq xs) = set xs"
  by (induction xs) auto

lemma distinct_js_uniq [simp]: "distinct (js_uniq xs)"
  by (induction xs) (auto simp: distinct_removeAll)

lemma js_uniq_distinct: "distinct xs \<Longrightarrow> js_uniq xs = xs"
  by (induction xs) auto

section \<open>JSON values and service errors\<close>

text \<open>
  A JSON value as \<^verbatim>\<open>JSON.parse\<close> returns it.  An object keeps its entries in the order of the
  text, a number its text: no modelled code inspects one.
\<close>

datatype json =
    JNull
  | JBool bool
  | JNum string
  | JStr string
  | JArr "json list"
  | JObj "(string \<times> json) list"

text \<open>\<^verbatim>\<open>obj[key]\<close> of a parsed object: the last entry of a repeated key wins.\<close>

definition obj_get :: "(string \<times> json) list \<Rightarrow> string \<Rightarrow> json option" where
  "obj_get fields k = map_of (rev fields) k"

text \<open>The error codes of \<^verbatim>\<open>ServiceError\<close> that the modelled operations raise.\<close>

datatype service_error = NOT_FOUND | BAD_REQUEST | UNPROCESSABLE | CONFLICT | INTERNAL

type_synonym 'a result = "service_error + 'a"

section \<open>Lemmas on strings\<close>

lemma index_of_None: "index_of c s = None \<longleftrightarrow> c \<notin> set s"
  by (simp add: index_of_def)

lemma takeWhile_neq_append: "c \<notin> set p \<Longrightarrow> takeWhile (\<lambda>x. x \<noteq> c) (p @ c # q) = p"
  by (induction p) auto

lemma index_of_append: "c \<notin> set p \<Longrightarrow> index_of c (p @ c # q) = Some (length p)"
  by (simp add: index_of_def takeWhile_neq_append)

lemma index_of_SomeD:
  assumes "index_of c s = Some n"
  shows "s = take n s @ c # drop (Suc n) s" and "c \<notin> set (take n s)" and "n < length s"
proof -
  from assms have "c \<in> set s" by (auto simp: index_of_def split: if_splits)
  then obtain p q where s: "s = p @ c # q" and p: "c \<notin> set p"
    by (meson split_list_first)
  from assms have n: "n = length p" unfolding s index_of_append [OF p] by simp
  show "s = take n s @ c # drop (Suc n) s" using n by (simp add: s)
  show "c \<notin> set (take n s)" using n p by (simp add: s)
  show "n < length s" using n by (simp add: s)
qed

lemma split_on_not_Nil [simp]: "split_on c s \<noteq> []"
  by (induction s) (auto split: list.splits)

lemma split_on_free [simp]: "c \<notin> set s \<Longrightarrow> split_on c s = [s]"
  by (induction s) auto

lemma split_on_append: "c \<notin> set p \<Longrightarrow> split_on c (p @ c # q) = p # split_on c q"
  by (induction p) auto

lemma split_on_pieces: "p \<in> set (split_on c s) \<Longrightarrow> c \<notin> set p"
proof (induction s arbitrary: p)
  case (Cons x xs)
  then show ?case by (auto split: if_splits list.splits)
qed simp

lemma join_split_on: "join_with [c] (split_on c s) = s"
proof (induction s)
  case (Cons x xs)
  show ?case
  proof (cases "split_on c xs")
    case (Cons y ys)
    then show ?thesis using Cons.IH by (cases ys) auto
  qed (use Cons.IH in simp)
qed simp

lemma split_on_chars: "p \<in> set (split_on c s) \<Longrightarrow> set p \<subseteq> set s"
proof (induction s arbitrary: p)
  case (Cons x xs)
  then show ?case by (fastforce split: if_splits list.splits)
qed simp

lemma prefix_snoc_nth:
  "prefix p s \<and> length p < length s \<and> s ! length p = c \<longleftrightarrow> prefix (p @ [c]) s"
proof
  assume h: "prefix p s \<and> length p < length s \<and> s ! length p = c"
  then obtain z where "s = p @ z" by (auto simp: prefix_def)
  with h show "prefix (p @ [c]) s" by (cases z) auto
qed (auto simp: prefix_def nth_append)

lemma first_split_unique:
  assumes "p @ c # s = p' @ c # s'" and "c \<notin> set p" and "c \<notin> set p'"
  shows "p = p'" and "s = s'"
proof -
  show "p = p'" using takeWhile_neq_append assms by metis
  with assms(1) show "s = s'" by simp
qed

section \<open>Lemmas on case folding\<close>

lemma of_char_less_256 [simp]: "(of_char c :: nat) < 256"
  by (metis mod_less_divisor of_char_mod_256 zero_less_numeral)

lemma of_char_lower:
  "(of_char (ascii_lower_char c) :: nat) =
     (if 65 \<le> (of_char c :: nat) \<and> of_char c \<le> (90 :: nat) then of_char c + 32 else of_char c)"
  by (auto simp: ascii_lower_char_def Let_def)

lemma ascii_lower_char_idem [simp]: "ascii_lower_char (ascii_lower_char c) = ascii_lower_char c"
  using of_char_lower [of c] by (auto simp: ascii_lower_char_def [of "ascii_lower_char c"] Let_def)

lemma ascii_lower_char_eq_iff:
  assumes "\<not> (65 \<le> (of_char d :: nat) \<and> of_char d \<le> (90 :: nat))"
    and "\<not> (97 \<le> (of_char d :: nat) \<and> of_char d \<le> (122 :: nat))"
  shows "ascii_lower_char c = d \<longleftrightarrow> c = d"
proof
  assume eq: "ascii_lower_char c = d"
  with of_char_lower [of c] assms(2) have "(of_char c :: nat) = of_char d"
    by (auto split: if_splits)
  then show "c = d" by (simp add: of_char_eq_iff)
next
  assume "c = d"
  with assms(1) show "ascii_lower_char c = d" by (auto simp: ascii_lower_char_def Let_def)
qed

lemma ascii_lower_char_punct [simp]:
  "ascii_lower_char c = CHR ''*'' \<longleftrightarrow> c = CHR ''*''"
  "ascii_lower_char c = CHR ''.'' \<longleftrightarrow> c = CHR ''.''"
  "ascii_lower_char c = CHR ''/'' \<longleftrightarrow> c = CHR ''/''"
  by (rule ascii_lower_char_eq_iff; simp)+

lemma ascii_lower_char_punct_flip [simp]:
  "CHR ''*'' = ascii_lower_char c \<longleftrightarrow> c = CHR ''*''"
  "CHR ''.'' = ascii_lower_char c \<longleftrightarrow> c = CHR ''.''"
  "CHR ''/'' = ascii_lower_char c \<longleftrightarrow> c = CHR ''/''"
  by (metis ascii_lower_char_punct)+

end
