(* ===== verification/PathMatch.thy ===== *)
theory PathMatch
  imports JsPrelude
begin

text \<open>
  The request matchers of \<^verbatim>\<open>packages/api/src/lib/path-match.ts\<close>: host patterns (which decide
  where a credential is injected), path patterns with their five rules, ASCII case folding and
  the list of model provider hosts.
\<close>

section \<open>Definitions\<close>

definition asciiLower :: "string \<Rightarrow> string" where
  "asciiLower s = map ascii_lower_char s"

definition asciiUpper :: "string \<Rightarrow> string" where
  "asciiUpper s = map ascii_upper_char s"

text \<open>A \<^verbatim>\<open>*\<close> anywhere except the last character.\<close>

definition hasMidPathWildcard :: "string \<Rightarrow> bool" where
  "hasMidPathWildcard pat = (length pat > 1 \<and> CHR ''*'' \<in> set (butlast pat))"

text \<open>A \<^verbatim>\<open>*\<close> inside a segment is \<open>prefix*suffix\<close>.\<close>

definition segmentMatches :: "string \<Rightarrow> string \<Rightarrow> bool" where
  "segmentMatches segment pat =
     (case index_of CHR ''*'' pat of
        None \<Rightarrow> segment = pat
      | Some pos \<Rightarrow>
          (let pre = take pos pat; suf = drop (pos + 1) pat in
           starts_with segment pre \<and> ends_with segment suf \<and>
           length segment \<ge> length pre + length suf))"

definition segmentWildcardMatches :: "string \<Rightarrow> string \<Rightarrow> bool" where
  "segmentWildcardMatches path pat =
     (let segs = split_on CHR ''/'' path;
          patSegs = split_on CHR ''/'' pat;
          pathSegs =
            (if length patSegs > 1 \<and> last patSegs = [] \<and> last segs \<noteq> [] \<and>
                length segs + 1 = length patSegs
             then segs @ [[]] else segs);
          trailingWild = (last patSegs = ''*'');
          fixedPats = (if trailingWild then butlast patSegs else patSegs)
      in (if trailingWild then \<not> length pathSegs < length fixedPats + 1
          else length pathSegs = length patSegs) \<and>
         list_all
           (\<lambda>i. segmentMatches (if i < length pathSegs then pathSegs ! i else []) (fixedPats ! i))
           [0..<length fixedPats])"

definition stripQuery :: "string \<Rightarrow> string" where
  "stripQuery requestPath = hd (split_on CHR ''?'' requestPath)"

definition pathMatches :: "string \<Rightarrow> string \<Rightarrow> bool" where
  "pathMatches requestPath pat =
     (let path = stripQuery requestPath in
      if pat = ''*'' then True
      else if hasMidPathWildcard pat then segmentWildcardMatches path pat
      else if ends_with pat ''/*'' then
        (let pre = take (length pat - 2) pat in
         path = pre \<or>
         (starts_with path pre \<and> length pre < length path \<and> path ! length pre = CHR ''/''))
      else if ends_with pat ''*'' then starts_with path (take (length pat - 1) pat)
      else path = pat)"

definition countChar :: "string \<Rightarrow> char \<Rightarrow> nat" where
  "countChar value ch = count_list value ch"

text \<open>One host label against one pattern label.\<close>

definition labelMatches :: "string \<Rightarrow> string \<Rightarrow> bool" where
  "labelMatches hostLabel patternLabel =
     (if length hostLabel = 0 then False
      else case index_of CHR ''*'' patternLabel of
        None \<Rightarrow> asciiLower hostLabel = asciiLower patternLabel
      | Some star \<Rightarrow>
          (let pre = take star patternLabel; suf = drop (star + 1) patternLabel in
           if CHR ''*'' \<in> set suf then False
           else length hostLabel > length pre + length suf \<and>
                asciiLower (take (length pre) hostLabel) = asciiLower pre \<and>
                asciiLower (drop (length hostLabel - length suf) hostLabel) = asciiLower suf))"

definition multiWildcardMatches :: "string \<Rightarrow> string \<Rightarrow> bool" where
  "multiWildcardMatches requestHost pat =
     (let hostLabels = split_on CHR ''.'' requestHost;
          patternLabels = split_on CHR ''.'' pat
      in length hostLabels = length patternLabels \<and>
         list_all (\<lambda>(hostLabel, patternLabel). labelMatches hostLabel patternLabel)
           (zip hostLabels patternLabels))"

definition hostMatches :: "string \<Rightarrow> string \<Rightarrow> bool" where
  "hostMatches requestHost pat =
     (if countChar pat CHR ''*'' \<ge> 2 then multiWildcardMatches requestHost pat
      else case index_of CHR ''*'' pat of
        None \<Rightarrow> asciiLower requestHost = asciiLower pat
      | Some star \<Rightarrow>
          (let pre = take star pat; suf = drop (star + 1) pat in
           length requestHost \<ge> length pre + length suf \<and>
           asciiLower (take (length pre) requestHost) = asciiLower pre \<and>
           asciiLower (drop (length requestHost - length suf) requestHost) = asciiLower suf))"

definition isLlmHost :: "string \<Rightarrow> bool" where
  "isLlmHost host =
     (let h = hd (split_on CHR '':'' host) in
      js_includes h ''anthropic.com'' \<or>
      js_includes h ''openai.com'' \<or>
      js_includes h ''chatgpt.com'' \<or>
      js_includes h ''deepseek.com'' \<or>
      js_includes h ''groq.com'' \<or>
      js_includes h ''openrouter.ai'' \<or>
      js_includes h ''moonshot.cn'' \<or>
      js_includes h ''generativelanguage.googleapis.com'')"

section \<open>Reference definitions\<close>

text \<open>
  The segment glob as a recursion over both lists of segments: a standalone last \<^verbatim>\<open>*\<close> takes one
  or more remaining segments, every other pattern segment takes exactly one.
\<close>

fun segGlob :: "string list \<Rightarrow> string list \<Rightarrow> bool" where
  "segGlob ss [] = (ss = [])"
| "segGlob [] (p # ps) = False"
| "segGlob (s # ss) (p # ps) =
     (if ps = [] \<and> p = ''*'' then True else segmentMatches s p \<and> segGlob ss ps)"

section \<open>Case folding\<close>

lemma asciiLower_simps [simp]:
  "asciiLower [] = []"
  "asciiLower (c # s) = ascii_lower_char c # asciiLower s"
  "asciiLower (s @ t) = asciiLower s @ asciiLower t"
  "length (asciiLower s) = length s"
  "asciiLower (asciiLower s) = asciiLower s"
  by (simp_all add: asciiLower_def)

lemma asciiLower_take: "asciiLower (take n s) = take n (asciiLower s)"
  and asciiLower_drop: "asciiLower (drop n s) = drop n (asciiLower s)"
  by (simp_all add: asciiLower_def take_map drop_map)

lemma star_asciiLower [simp]: "CHR ''*'' \<in> set (asciiLower s) \<longleftrightarrow> CHR ''*'' \<in> set s"
  by (auto simp: asciiLower_def image_iff)

lemma index_of_asciiLower [simp]: "index_of CHR ''*'' (asciiLower s) = index_of CHR ''*'' s"
proof -
  have "length (takeWhile (\<lambda>x. x \<noteq> CHR ''*'') (asciiLower s)) =
      length (takeWhile (\<lambda>x. x \<noteq> CHR ''*'') s)"
    by (induction s) auto
  then show ?thesis by (simp add: index_of_def)
qed

lemma count_star_asciiLower [simp]: "countChar (asciiLower s) CHR ''*'' = countChar s CHR ''*''"
  by (induction s) (auto simp: countChar_def)

lemma split_dot_asciiLower:
  "split_on CHR ''.'' (asciiLower s) = map asciiLower (split_on CHR ''.'' s)"
  by (induction s) (auto split: list.splits)

lemmas ascii_fold = asciiLower_take asciiLower_drop split_dot_asciiLower

section \<open>Hosts\<close>

lemma labelMatches_fold: "labelMatches (asciiLower h) (asciiLower p) = labelMatches h p"
  by (auto simp: labelMatches_def Let_def simp flip: ascii_fold split: option.splits)

lemma multiWildcardMatches_list_all2:
  "multiWildcardMatches h p \<longleftrightarrow>
     list_all2 labelMatches (split_on CHR ''.'' h) (split_on CHR ''.'' p)"
  by (auto simp: multiWildcardMatches_def list_all2_iff list_all_iff Let_def)

lemma multiWildcardMatches_fold:
  "multiWildcardMatches (asciiLower h) (asciiLower p) = multiWildcardMatches h p"
  by (simp add: multiWildcardMatches_list_all2 split_dot_asciiLower list_all2_map1 list_all2_map2
      labelMatches_fold)

lemma hostMatches_fold: "hostMatches (asciiLower h) (asciiLower p) = hostMatches h p"
  by (auto simp: hostMatches_def multiWildcardMatches_fold Let_def simp flip: ascii_fold
      split: option.splits)

lemma hostMatches_cong:
  assumes "asciiLower h = asciiLower h'" and "asciiLower p = asciiLower p'"
  shows "hostMatches h p = hostMatches h' p'"
  by (metis assms hostMatches_fold)

lemma index_of_star_append:
  "CHR ''*'' \<notin> set pre \<Longrightarrow> index_of CHR ''*'' (pre @ CHR ''*'' # suf) = Some (length pre)"
  by (rule index_of_append)

text \<open>
  A string decomposes around a fixed prefix and suffix exactly when it is long enough and both
  ends agree.
\<close>

lemma sandwich_iff:
  "(\<exists>mid. s = pre @ mid @ suf) \<longleftrightarrow>
     length pre + length suf \<le> length s \<and> take (length pre) s = pre \<and>
     drop (length s - length suf) s = suf"
proof
  assume r: "length pre + length suf \<le> length s \<and> take (length pre) s = pre \<and>
     drop (length s - length suf) s = suf"
  define mid where "mid = take (length s - length suf - length pre) (drop (length pre) s)"
  have "s = take (length s - length suf) s @ suf"
    using r append_take_drop_id [of "length s - length suf" s] by simp
  also have "take (length s - length suf) s = pre @ mid"
    using r take_add [of "length pre" "length s - length suf - length pre" s]
    by (simp add: mid_def)
  finally show "\<exists>mid. s = pre @ mid @ suf" by auto
qed auto

lemma sandwich_nonempty_iff:
  "(\<exists>mid. mid \<noteq> [] \<and> s = pre @ mid @ suf) \<longleftrightarrow>
     length pre + length suf < length s \<and> take (length pre) s = pre \<and>
     drop (length s - length suf) s = suf"
proof -
  have "mid \<noteq> [] \<longleftrightarrow> length pre + length suf < length s" if "s = pre @ mid @ suf" for mid
    by (simp add: that)
  then have "(\<exists>mid. mid \<noteq> [] \<and> s = pre @ mid @ suf) \<longleftrightarrow>
      length pre + length suf < length s \<and> (\<exists>mid. s = pre @ mid @ suf)"
    by blast
  then show ?thesis by (auto simp: sandwich_iff)
qed

lemma hostMatches_exact:
  "CHR ''*'' \<notin> set p \<Longrightarrow> hostMatches h p \<longleftrightarrow> asciiLower h = asciiLower p"
  by (auto simp: hostMatches_def countChar_def count_list_0_iff index_of_def)

lemma hostMatches_one_star:
  assumes "CHR ''*'' \<notin> set pre" and "CHR ''*'' \<notin> set suf"
  shows "hostMatches h (pre @ CHR ''*'' # suf) \<longleftrightarrow>
    (\<exists>mid. asciiLower h = asciiLower pre @ mid @ asciiLower suf)"
proof -
  have "countChar (pre @ CHR ''*'' # suf) CHR ''*'' = 1"
    using assms by (simp add: countChar_def count_list_append count_list_0_iff)
  then show ?thesis
    by (auto simp: hostMatches_def index_of_star_append [OF assms(1)] sandwich_iff Let_def ascii_fold)
qed

lemma hostMatches_any [simp]: "hostMatches h ''*''"
  using hostMatches_one_star [of "[]" "[]" h] by simp

lemma labelMatches_literal:
  "CHR ''*'' \<notin> set p \<Longrightarrow> labelMatches h p \<longleftrightarrow> h \<noteq> [] \<and> asciiLower h = asciiLower p"
  by (auto simp: labelMatches_def index_of_def)

lemma labelMatches_one_star:
  assumes "CHR ''*'' \<notin> set pre" and "CHR ''*'' \<notin> set suf"
  shows "labelMatches h (pre @ CHR ''*'' # suf) \<longleftrightarrow>
    (\<exists>mid. mid \<noteq> [] \<and> asciiLower h = asciiLower pre @ mid @ asciiLower suf)"
  using assms(2)
  by (auto simp: labelMatches_def index_of_star_append [OF assms(1)] sandwich_nonempty_iff Let_def
      ascii_fold)

lemma labelMatches_two_stars:
  assumes "CHR ''*'' \<notin> set pre" and "CHR ''*'' \<in> set suf"
  shows "\<not> labelMatches h (pre @ CHR ''*'' # suf)"
  using assms(2) by (simp add: labelMatches_def index_of_star_append [OF assms(1)] Let_def)

lemma labelMatches_nonempty: "labelMatches h p \<Longrightarrow> h \<noteq> []"
  by (auto simp: labelMatches_def)

lemma labelMatches_iff:
  "labelMatches hl pl \<longleftrightarrow> hl \<noteq> [] \<and>
     (if CHR ''*'' \<notin> set pl then asciiLower hl = asciiLower pl
      else \<exists>pre mid suf. pl = pre @ CHR ''*'' # suf \<and> CHR ''*'' \<notin> set (pre @ suf) \<and> mid \<noteq> [] \<and>
             asciiLower hl = asciiLower pre @ mid @ asciiLower suf)"
proof (cases "CHR ''*'' \<in> set pl")
  case True
  then obtain pre suf where pl: "pl = pre @ CHR ''*'' # suf" and pre: "CHR ''*'' \<notin> set pre"
    by (meson split_list_first)
  have "(\<exists>p mid q. pl = p @ CHR ''*'' # q \<and> CHR ''*'' \<notin> set (p @ q) \<and> mid \<noteq> [] \<and>
          asciiLower hl = asciiLower p @ mid @ asciiLower q) \<longleftrightarrow>
      CHR ''*'' \<notin> set suf \<and> (\<exists>mid. mid \<noteq> [] \<and> asciiLower hl = asciiLower pre @ mid @ asciiLower suf)"
    (is "?l = ?r")
  proof
    assume ?l
    then obtain p mid q where *: "pl = p @ CHR ''*'' # q" "CHR ''*'' \<notin> set (p @ q)" "mid \<noteq> []"
      "asciiLower hl = asciiLower p @ mid @ asciiLower q" by blast
    have "p = pre" "q = suf"
      using first_split_unique [of p "CHR ''*''" q pre suf] * pl pre by simp_all
    with * show ?r by auto
  next
    assume ?r
    with pl pre show ?l by auto
  qed
  moreover have "labelMatches hl pl \<longleftrightarrow>
      CHR ''*'' \<notin> set suf \<and> (\<exists>mid. mid \<noteq> [] \<and> asciiLower hl = asciiLower pre @ mid @ asciiLower suf)"
    using labelMatches_one_star [OF pre, of suf hl] labelMatches_two_stars [OF pre, of suf hl]
    by (auto simp: pl)
  ultimately show ?thesis using True labelMatches_nonempty [of hl pl] by simp blast
qed (simp add: labelMatches_literal)

lemma hostMatches_many_stars:
  "countChar p CHR ''*'' \<ge> 2 \<Longrightarrow>
     hostMatches h p \<longleftrightarrow> list_all2 labelMatches (split_on CHR ''.'' h) (split_on CHR ''.'' p)"
  by (simp add: hostMatches_def multiWildcardMatches_list_all2)

section \<open>Paths\<close>

lemma stripQuery_idem [simp]: "CHR ''?'' \<notin> set p \<Longrightarrow> stripQuery p = p"
  by (simp add: stripQuery_def)

lemma stripQuery_free: "CHR ''?'' \<notin> set (stripQuery r)"
  using split_on_pieces [OF hd_in_set [OF split_on_not_Nil]] by (simp add: stripQuery_def)

lemma stripQuery_append: "CHR ''?'' \<notin> set p \<Longrightarrow> stripQuery (p @ CHR ''?'' # q) = p"
  by (simp add: stripQuery_def split_on_append)

lemma pathMatches_strip: "pathMatches (stripQuery r) pat = pathMatches r pat"
  by (simp add: pathMatches_def stripQuery_free)

lemma pathMatches_cong: "stripQuery r = stripQuery r' \<Longrightarrow> pathMatches r pat = pathMatches r' pat"
  by (metis pathMatches_strip)

lemma pathMatches_any [simp]: "pathMatches r ''*''"
  by (simp add: pathMatches_def)

lemma suffix_single_iff: "suffix [x] s \<longleftrightarrow> s \<noteq> [] \<and> last s = x"
  by (cases s rule: rev_cases) auto

lemma pathMatches_literal:
  assumes "CHR ''*'' \<notin> set pat"
  shows "pathMatches r pat \<longleftrightarrow> stripQuery r = pat"
proof -
  have "\<not> hasMidPathWildcard pat" using assms by (auto simp: hasMidPathWildcard_def dest: in_set_butlastD)
  moreover have "\<not> suffix ''/*'' pat" "\<not> suffix ''*'' pat" using assms by (auto simp: suffix_def)
  ultimately show ?thesis using assms by (auto simp: pathMatches_def Let_def)
qed

lemma segmentMatches_literal: "CHR ''*'' \<notin> set p \<Longrightarrow> segmentMatches s p \<longleftrightarrow> s = p"
  by (auto simp: segmentMatches_def index_of_def)

lemma segmentMatches_one_star:
  assumes "CHR ''*'' \<notin> set pre"
  shows "segmentMatches s (pre @ CHR ''*'' # suf) \<longleftrightarrow> (\<exists>mid. s = pre @ mid @ suf)"
proof -
  have "prefix pre s \<and> suffix suf s \<and> length pre + length suf \<le> length s \<longleftrightarrow>
      length pre + length suf \<le> length s \<and> take (length pre) s = pre \<and>
      drop (length s - length suf) s = suf"
    by (metis append_eq_conv_conj append_take_drop_id length_drop diff_diff_cancel add_leD2
        prefix_def suffix_def suffix_length_le take_is_prefix suffix_drop append_eq_append_conv)
  then show ?thesis
    by (auto simp: segmentMatches_def index_of_star_append [OF assms] sandwich_iff Let_def)
qed

lemma segGlob_list_all2:
  "segGlob ss ps \<longleftrightarrow>
     (if ps \<noteq> [] \<and> last ps = ''*''
      then length ps \<le> length ss \<and> list_all2 segmentMatches (take (length ps - 1) ss) (butlast ps)
      else list_all2 segmentMatches ss ps)"
proof (induction ss ps rule: segGlob.induct)
  case (3 s ss p ps)
  show ?case
  proof (cases "ps = []")
    case False
    then obtain q qs where ps: "ps = q # qs" by (cases ps) auto
    then show ?thesis using 3 False by (auto split: if_splits)
  qed simp
qed auto

text \<open>The slash-optional rule: the path's segments as the matcher compares them.\<close>

definition slashOptional :: "string list \<Rightarrow> string list \<Rightarrow> string list" where
  "slashOptional segs patSegs =
     (if length patSegs > 1 \<and> last patSegs = [] \<and> last segs \<noteq> [] \<and>
         length segs + 1 = length patSegs
      then segs @ [[]] else segs)"

lemma segmentWildcardMatches_segGlob:
  "segmentWildcardMatches path pat \<longleftrightarrow>
     segGlob (slashOptional (split_on CHR ''/'' path) (split_on CHR ''/'' pat)) (split_on CHR ''/'' pat)"
proof -
  define ss where "ss = slashOptional (split_on CHR ''/'' path) (split_on CHR ''/'' pat)"
  define ps where "ps = split_on CHR ''/'' pat"
  have ps: "ps \<noteq> []" by (simp add: ps_def)
  have "segmentWildcardMatches path pat \<longleftrightarrow>
      (if last ps = ''*'' then length ps \<le> length ss else length ss = length ps) \<and>
      list_all (\<lambda>i. segmentMatches (if i < length ss then ss ! i else [])
         ((if last ps = ''*'' then butlast ps else ps) ! i))
        [0..<length (if last ps = ''*'' then butlast ps else ps)]"
    using ps
    by (auto simp: segmentWildcardMatches_def slashOptional_def ss_def ps_def Let_def Suc_le_eq
        not_less simp del: split_on.simps)
  also have "\<dots> \<longleftrightarrow> segGlob ss ps"
  proof (cases "last ps = ''*''")
    case True
    then show ?thesis using ps
      by (auto simp: segGlob_list_all2 list_all_iff list_all2_conv_all_nth)
  next
    case False
    then show ?thesis using ps
      by (auto simp: segGlob_list_all2 list_all_iff list_all2_conv_all_nth)
  qed
  finally show ?thesis by (simp add: ss_def ps_def)
qed

lemma hasMidPathWildcard_suffixed:
  "CHR ''*'' \<notin> set p \<Longrightarrow> CHR ''*'' \<notin> set q \<Longrightarrow> \<not> hasMidPathWildcard (p @ q @ ''*'')"
  by (auto simp: hasMidPathWildcard_def butlast_append)

lemma pathMatches_mid:
  "hasMidPathWildcard pat \<Longrightarrow>
     pathMatches r pat \<longleftrightarrow>
     segGlob (slashOptional (split_on CHR ''/'' (stripQuery r)) (split_on CHR ''/'' pat))
       (split_on CHR ''/'' pat)"
  by (auto simp: pathMatches_def segmentWildcardMatches_segGlob hasMidPathWildcard_def Let_def)

lemma pathMatches_slash_star:
  assumes "CHR ''*'' \<notin> set p"
  shows "pathMatches r (p @ ''/*'') \<longleftrightarrow> stripQuery r = p \<or> prefix (p @ ''/'') (stripQuery r)"
proof -
  have nm: "\<not> hasMidPathWildcard (p @ ''/*'')"
    using hasMidPathWildcard_suffixed [of p "''/''"] assms by simp
  moreover have "suffix ''/*'' (p @ ''/*'')" by (simp add: suffix_def)
  ultimately show ?thesis using prefix_snoc_nth [of p "stripQuery r" "CHR ''/''"]
    by (auto simp: pathMatches_def Let_def)
qed

lemma pathMatches_raw_star:
  assumes "CHR ''*'' \<notin> set p" and "\<not> suffix ''/'' p"
  shows "pathMatches r (p @ ''*'') \<longleftrightarrow> prefix p (stripQuery r)"
proof -
  have nm: "\<not> hasMidPathWildcard (p @ ''*'')"
    using hasMidPathWildcard_suffixed [of p "[]"] assms by simp
  have "\<not> suffix ''/*'' (p @ ''*'')"
    using assms(2) by (auto simp: suffix_def append_eq_append_conv2 Cons_eq_append_conv)
  then show ?thesis using nm by (auto simp: pathMatches_def Let_def)
qed

text \<open>Whatever a pattern matches starts with the pattern's literal text before its first star, up
  to one trailing slash of that text.\<close>

lemma join_with_Cons:
  "join_with sep (x # xs) = x @ (if xs = [] then [] else sep @ join_with sep xs)"
  by (cases xs) auto

lemma join_with_snoc: "xs \<noteq> [] \<Longrightarrow> join_with sep (xs @ [x]) = join_with sep xs @ sep @ x"
  by (induction xs) (auto simp: join_with_Cons)

lemma segmentMatches_literal_prefix:
  assumes "segmentMatches s p" and "prefix lit p" and "CHR ''*'' \<notin> set lit"
  shows "prefix lit s"
proof (cases "CHR ''*'' \<in> set p")
  case True
  then obtain a b where p: "p = a @ CHR ''*'' # b" "CHR ''*'' \<notin> set a" by (meson split_list_first)
  have "prefix lit a" using assms(2,3) by (auto simp: p(1) prefix_append prefix_Cons)
  then show ?thesis using assms(1) segmentMatches_one_star [OF p(2)]
    by (auto simp: p(1) prefix_def)
next
  case False
  then show ?thesis using assms segmentMatches_literal by auto
qed

lemma segGlob_literal_prefix:
  "segGlob ss ps \<Longrightarrow> prefix lit (join_with ''/'' ps) \<Longrightarrow> CHR ''*'' \<notin> set lit \<Longrightarrow>
   prefix lit (join_with ''/'' ss)"
proof (induction ss ps arbitrary: lit rule: segGlob.induct)
  case (3 s ss p ps)
  show ?case
  proof (cases "ps = [] \<and> p = ''*''")
    case True
    with 3 show ?thesis by (auto simp: prefix_Cons)
  next
    case False
    with 3 have m: "segmentMatches s p" and g: "segGlob ss ps" by (simp_all split: if_splits)
    show ?thesis
    proof (cases "prefix lit p")
      case True
      with m 3(4) show ?thesis
        by (auto simp: join_with_Cons dest: segmentMatches_literal_prefix intro: prefix_prefix)
    next
      case False
      with 3(3) obtain lit' where l: "ps \<noteq> []" "lit = p @ lit'" "prefix lit' (''/'' @ join_with ''/'' ps)"
        by (auto simp: join_with_Cons prefix_append split: if_splits)
      then have s: "s = p" using m 3(4) segmentMatches_literal by auto
      from l(1) g have ss: "ss \<noteq> []" by (cases ss; cases ps) auto
      show ?thesis
      proof (cases lit')
        case (Cons c lit'')
        with l(3) have "c = CHR ''/''" "prefix lit'' (join_with ''/'' ps)" by auto
        with 3(1)[OF \<open>\<not> (ps = [] \<and> p = ''*'')\<close> g] 3(4) l(2) Cons show ?thesis
          by (simp add: join_with_Cons s ss)
      qed (simp add: join_with_Cons s l(2))
    qed
  qed
qed auto

lemma pathMatches_literal_prefix:
  assumes "pathMatches r pat" and "prefix lit pat" and "CHR ''*'' \<notin> set lit"
  shows "prefix lit (stripQuery r @ ''/'')"
proof (cases "hasMidPathWildcard pat")
  case True
  let ?path = "split_on CHR ''/'' (stripQuery r)"
  have "prefix lit (join_with ''/'' (slashOptional ?path (split_on CHR ''/'' pat)))"
    using assms segGlob_literal_prefix pathMatches_mid [OF True] join_split_on by metis
  moreover have "prefix (join_with ''/'' (slashOptional ?path (split_on CHR ''/'' pat))) (stripQuery r @ ''/'')"
    by (auto simp: slashOptional_def join_with_snoc join_split_on simp del: split_on.simps)
  ultimately show ?thesis by (rule prefix_order.trans)
next
  case False
  show ?thesis
  proof (cases "CHR ''*'' \<in> set pat")
    case True
    with False have "last pat = CHR ''*''" "CHR ''*'' \<notin> set (butlast pat)"
      by (cases pat rule: rev_cases; auto simp: hasMidPathWildcard_def split: if_splits)+
    then obtain p where p: "pat = p @ ''*''" "CHR ''*'' \<notin> set p"
      using True by (cases pat rule: rev_cases) auto
    then have lit: "prefix lit p" using assms(2,3) by (auto simp: prefix_append prefix_Cons)
    show ?thesis
    proof (cases "suffix ''/'' p")
      case True
      then obtain q where q: "p = q @ ''/''" by (auto simp: suffix_def)
      have "prefix p (stripQuery r @ ''/'')"
        using assms(1) pathMatches_slash_star [of q r] p by (auto simp: q prefix_def)
      with lit show ?thesis by (rule prefix_order.trans)
    next
      case False
      have "prefix p (stripQuery r)" using assms(1) pathMatches_raw_star [OF p(2) False] p by simp
      with lit show ?thesis by (meson prefix_order.trans prefix_prefix)
    qed
  next
    case False
    then show ?thesis using assms pathMatches_literal by (auto intro: prefix_prefix)
  qed
qed

lemma pathMatches_trailing_star:
  assumes "CHR ''*'' \<notin> set p" and "prefix p (stripQuery r @ ''/'')"
  shows "pathMatches r (p @ ''*'')"
proof (cases "suffix ''/'' p")
  case True
  then obtain q where q: "p = q @ ''/''" by (auto simp: suffix_def)
  have "stripQuery r = q \<or> prefix (q @ ''/'') (stripQuery r)"
    using assms(2) by (auto simp: q)
  then show ?thesis using pathMatches_slash_star [of q r] assms(1) by (simp add: q)
next
  case False
  have "prefix p (stripQuery r)"
    using assms(2) False by (auto simp: suffix_def prefix_snoc)
  then show ?thesis using pathMatches_raw_star [OF assms(1) False] by simp
qed

section \<open>Properties\<close>

text \<open>
  A host pattern with exactly one \<^verbatim>\<open>*\<close> matches a host iff, ignoring ASCII case, the host is
  the text before the \<^verbatim>\<open>*\<close>, then any text, possibly none, then the text after it.
\<close>

theorem hostMatches_single_star_spec:
  assumes "CHR ''*'' \<notin> set pre" and "CHR ''*'' \<notin> set suf"
  shows "hostMatches h (pre @ CHR ''*'' # suf) \<longleftrightarrow>
    (\<exists>mid. asciiLower h = asciiLower pre @ mid @ asciiLower suf)"
  using assms by (rule hostMatches_one_star)

theorem hostMatches_single_star_spec_witness:
  "hostMatches ''API.example.com'' (''api'' @ CHR ''*'' # ''.example.com'') \<longleftrightarrow>
    (\<exists>mid. asciiLower ''API.example.com'' = asciiLower ''api'' @ mid @ asciiLower ''.example.com'')"
  by (rule hostMatches_single_star_spec) simp_all

text \<open>
  A host pattern with two or more \<^verbatim>\<open>*\<close> is anchored label by label: it matches iff the host
  has as many labels as the pattern, none of them is empty, and each label matches its pattern
  label, where a literal label matches only itself (ignoring ASCII case), a label with one
  \<^verbatim>\<open>*\<close> needs at least one character for it, and a label with more than one \<^verbatim>\<open>*\<close> never matches.
\<close>

theorem hostMatches_multi_star_spec:
  assumes "countChar p CHR ''*'' \<ge> 2"
  shows "hostMatches h p \<longleftrightarrow>
    list_all2 (\<lambda>hl pl. hl \<noteq> [] \<and>
      (if CHR ''*'' \<notin> set pl then asciiLower hl = asciiLower pl
       else \<exists>pre mid suf. pl = pre @ CHR ''*'' # suf \<and> CHR ''*'' \<notin> set (pre @ suf) \<and> mid \<noteq> [] \<and>
              asciiLower hl = asciiLower pre @ mid @ asciiLower suf))
      (split_on CHR ''.'' h) (split_on CHR ''.'' p)"
  unfolding hostMatches_many_stars [OF assms] labelMatches_iff [abs_def] by (rule refl)

theorem hostMatches_multi_star_spec_witness:
  "hostMatches ''b.s3.eu.amazonaws.com'' ''*.s3.*.amazonaws.com'' \<longleftrightarrow>
    list_all2 (\<lambda>hl pl. hl \<noteq> [] \<and>
      (if CHR ''*'' \<notin> set pl then asciiLower hl = asciiLower pl
       else \<exists>pre mid suf. pl = pre @ CHR ''*'' # suf \<and> CHR ''*'' \<notin> set (pre @ suf) \<and> mid \<noteq> [] \<and>
              asciiLower hl = asciiLower pre @ mid @ asciiLower suf))
      (split_on CHR ''.'' ''b.s3.eu.amazonaws.com'') (split_on CHR ''.'' ''*.s3.*.amazonaws.com'')"
  by (rule hostMatches_multi_star_spec) code_simp

text \<open>
  The five rules of a path pattern.  The query string never matters; \<^verbatim>\<open>*\<close> matches
  everything; a \<^verbatim>\<open>*\<close> before the last character makes the pattern a segment glob, which agrees
  with the recursive reference matcher at the same depth (a missing final slash is supplied);
  \<^verbatim>\<open>p/*\<close> matches \<^verbatim>\<open>p\<close> and everything below it; \<^verbatim>\<open>p*\<close> is a raw prefix; a pattern without
  \<^verbatim>\<open>*\<close> matches only itself.
\<close>

theorem pathMatches_rules:
  "pathMatches r ''*'' \<and>
   pathMatches r pat = pathMatches (stripQuery r) pat \<and>
   (hasMidPathWildcard pat \<longrightarrow>
     pathMatches r pat =
     segGlob (slashOptional (split_on CHR ''/'' (stripQuery r)) (split_on CHR ''/'' pat))
       (split_on CHR ''/'' pat)) \<and>
   (CHR ''*'' \<notin> set p \<longrightarrow>
     pathMatches r (p @ ''/*'') = (stripQuery r = p \<or> prefix (p @ ''/'') (stripQuery r))) \<and>
   (CHR ''*'' \<notin> set p \<and> \<not> suffix ''/'' p \<longrightarrow>
     pathMatches r (p @ ''*'') = prefix p (stripQuery r)) \<and>
   (CHR ''*'' \<notin> set p \<longrightarrow> pathMatches r p = (stripQuery r = p))"
  by (simp add: pathMatches_strip pathMatches_mid pathMatches_slash_star pathMatches_raw_star
      pathMatches_literal)

theorem pathMatches_rules_witness:
  "pathMatches ''/emails/7'' ''/*/7'' = segGlob [[], ''emails'', ''7''] [[], ''*'', ''7''] \<and>
   pathMatches ''/emails/7'' (''/emails'' @ ''/*'') \<and>
   pathMatches ''/emails/7'' (''/emails'' @ ''*'') \<and> \<not> pathMatches ''/emails/7'' ''/emails''"
proof -
  have "hasMidPathWildcard ''/*/7''" by code_simp
  moreover have "slashOptional [[], ''emails'', ''7''] [[], ''*'', ''7''] = [[], ''emails'', ''7'']"
    by (simp add: slashOptional_def)
  ultimately show ?thesis
    using pathMatches_rules [of "''/emails/7''" "''/*/7''" "''/emails''"]
    by (simp add: suffix_def del: segGlob.simps)
qed

end
