(* ===== verification/PolicyTypes.thy ===== *)
theory PolicyTypes
  imports JsPrelude
begin

text \<open>
  The rule, request and decision shapes of the first-match policy engine
  (\<^verbatim>\<open>packages/api/src/services/policy-translation/types.ts\<close>).  An optional or nullable field
  is an \<^typ>\<open>'a option\<close>; an optional flag that is only ever set to true is a \<^typ>\<open>bool\<close>.
\<close>

datatype rate_window = Minute | Hour | Day

datatype level = Organization | Workspace

datatype rule_action = Allow | Block

datatype graphql_op_kind = Query | Mutation

record old_condition =
  cond_target :: string
  cond_operator :: string
  cond_value :: string
  cond_key :: "string option"

record policy_request =
  req_host :: string
  req_path :: string
  req_method :: string
  req_body :: "string option"
  req_agentId :: string
  req_userIds :: "string list option"
  req_groupIds :: "string list option"
  req_hasInjections :: bool
  req_isLlmHost :: bool
  req_winningConnectionId :: "string option"

record decision =
  dec_action :: rule_action
  dec_requireApproval :: bool
  dec_rateLimit :: "int option"
  dec_rateLimitWindow :: "rate_window option"
  dec_byDefault :: bool

datatype new_identity = AgentIdentity string | UserIdentity string | GroupIdentity string

datatype rule_source = Custom | AppPermission | Blocklist | DefaultSource | Equipment | Grant

text \<open>
  The four kinds of target: network (host, path, method), app (provider, tools, connection
  scope), connection (id, provider when resolved, tools, method filter), secret (host patterns).
\<close>

datatype new_target =
    NetworkTarget string "string option" "string option"
  | AppTarget string "string list" "level option"
  | ConnectionTarget string "string option" "string list" "string option"
  | SecretTarget "string list"

record new_rule =
  rule_scope :: level
  rule_priority :: int
  rule_isDefault :: bool
  rule_source_of :: rule_source
  rule_name :: string
  rule_identities :: "new_identity list"
  rule_targets :: "new_target list"
  rule_action_of :: rule_action
  rule_requireApproval :: bool
  rule_rateLimit :: "int option"
  rule_rateLimitWindow :: "rate_window option"
  rule_conditions :: "old_condition list option"

datatype policy_outcome =
    RuleOutcome new_rule
  | DenyDefault level "new_rule option"
  | AllowOutcome bool

end
