(* ===== verification/EndpointMatch.thy ===== *)
theory EndpointMatch
  imports PathMatch PolicyTypes
begin

text \<open>
  The request-level matcher of
  \<^verbatim>\<open>packages/api/src/services/policy-translation/endpoint-match.ts\<close>: path, method and body
  conditions, with the bridge from a git pack service to its discovery request.
\<close>

section \<open>Definitions\<close>

definition conditionMatches :: "old_condition \<Rightarrow> string option \<Rightarrow> bool" where
  "conditionMatches c body =
     (if cond_target c = ''body'' \<and> cond_operator c = ''contains'' then
        (case body of
           None \<Rightarrow> False
         | Some b \<Rightarrow> js_includes (asciiLower b) (asciiLower (cond_value c)))
      else True)"

definition conditionsMatch :: "old_condition list option \<Rightarrow> string option \<Rightarrow> bool" where
  "conditionsMatch conditions body =
     (case conditions of
        None \<Rightarrow> True
      | Some cs \<Rightarrow> if cs = [] then True else list_all (\<lambda>c. conditionMatches c body) cs)"

definition isGitDiscovery :: "string \<Rightarrow> string \<Rightarrow> bool" where
  "isGitDiscovery path service =
     (let qIdx = index_of (CHR ''?'') path;
          base = (case qIdx of None \<Rightarrow> path | Some i \<Rightarrow> take i path);
          query = (case qIdx of None \<Rightarrow> [] | Some i \<Rightarrow> drop (i + 1) path)
      in ends_with base ''/info/refs'' \<and>
         list_ex (\<lambda>p. p = ''service='' @ service) (split_on (CHR ''&'') query))"

definition GIT_PACK_SERVICES :: "string list" where
  "GIT_PACK_SERVICES = [''git-receive-pack'', ''git-upload-pack'']"

record endpoint_pattern =
  ep_pathPattern :: string
  ep_method :: "string option"
  ep_conditions :: "old_condition list option"

text \<open>The loop over the pack services: the first that bridges decides.\<close>

fun gitBridge :: "policy_request \<Rightarrow> endpoint_pattern \<Rightarrow> string list \<Rightarrow> bool" where
  "gitBridge request pattern [] = False"
| "gitBridge request pattern (service # services) =
     (if ends_with (ep_pathPattern pattern) (''/'' @ service) \<and> isGitDiscovery (req_path request) service
      then conditionsMatch (ep_conditions pattern) (req_body request)
      else gitBridge request pattern services)"

definition endpointMatches :: "policy_request \<Rightarrow> endpoint_pattern \<Rightarrow> bool" where
  "endpointMatches request pattern =
     (let direct =
            pathMatches (req_path request) (ep_pathPattern pattern) \<and>
            (case ep_method pattern of
               None \<Rightarrow> True
             | Some m \<Rightarrow> asciiLower m = asciiLower (req_method request)) \<and>
            conditionsMatch (ep_conditions pattern) (req_body request)
      in if direct then True
         else if asciiLower (req_method request) = ''get''
         then gitBridge request pattern GIT_PACK_SERVICES
         else False)"

section \<open>Lemmas\<close>

lemma conditionsMatch_iff:
  "conditionsMatch cs body \<longleftrightarrow> (\<forall>c \<in> set (case cs of None \<Rightarrow> [] | Some l \<Rightarrow> l). conditionMatches c body)"
  by (auto simp: conditionsMatch_def list_all_iff split: option.splits)

lemma gitBridge_iff:
  "gitBridge request pattern ss \<longleftrightarrow>
     conditionsMatch (ep_conditions pattern) (req_body request) \<and>
     (\<exists>s \<in> set ss. ends_with (ep_pathPattern pattern) (''/'' @ s) \<and> isGitDiscovery (req_path request) s)"
  by (induction ss) auto

lemma endpointMatches_iff:
  "endpointMatches request pattern \<longleftrightarrow>
     conditionsMatch (ep_conditions pattern) (req_body request) \<and>
     (pathMatches (req_path request) (ep_pathPattern pattern) \<and>
        (\<forall>m. ep_method pattern = Some m \<longrightarrow> asciiLower m = asciiLower (req_method request)) \<or>
      asciiLower (req_method request) = ''get'' \<and>
        (\<exists>s \<in> set GIT_PACK_SERVICES. ends_with (ep_pathPattern pattern) (''/'' @ s) \<and>
           isGitDiscovery (req_path request) s))"
  by (auto simp: endpointMatches_def gitBridge_iff Let_def split: option.splits)

text \<open>Fewer conditions match more.\<close>

lemma endpointMatches_conditions_mono:
  assumes "endpointMatches request \<lparr>ep_pathPattern = p, ep_method = m, ep_conditions = cs\<rparr>"
    and "conditionsMatch cs' (req_body request)"
  shows "endpointMatches request \<lparr>ep_pathPattern = p, ep_method = m, ep_conditions = cs'\<rparr>"
  using assms by (simp add: endpointMatches_iff)

text \<open>The verdict depends on the method only up to ASCII case.\<close>

lemma endpointMatches_method_case:
  "asciiLower m = asciiLower (req_method request) \<Longrightarrow>
   endpointMatches (request\<lparr>req_method := m\<rparr>) pattern = endpointMatches request pattern"
  by (simp add: endpointMatches_iff)

lemma split_on_query:
  "CHR ''?'' \<notin> set b \<Longrightarrow> isGitDiscovery (b @ CHR ''?'' # q) s \<longleftrightarrow>
     ends_with b ''/info/refs'' \<and> (''service='' @ s) \<in> set (split_on (CHR ''&'') q)"
  by (auto simp: isGitDiscovery_def index_of_append list_ex_iff)

lemma isGitDiscovery_refs:
  assumes "CHR ''?'' \<notin> set b" and "req = (b @ ''/info/refs'') @ CHR ''?'' # q"
    and "(''service='' @ s) \<in> set (split_on (CHR ''&'') q)"
  shows "isGitDiscovery req s"
proof -
  have "CHR ''?'' \<notin> set (b @ ''/info/refs'')" using assms(1) by simp
  from split_on_query [OF this, of q s] assms(3) suffixI [of "b @ ''/info/refs''" b "''/info/refs''"]
  show ?thesis unfolding assms(2) by blast
qed

section \<open>Properties\<close>

text \<open>
  A rule on a git pack service (a pattern ending in the slash and the service name) covers the
  discovery request that precedes it: a GET of any path ending in /info/refs whose query string
  holds the service parameter among its parameters matches whenever the rule's conditions do, whatever
  method the rule names.\<close>

theorem endpointMatches_git_bridge:
  assumes "s \<in> set GIT_PACK_SERVICES" and "CHR ''?'' \<notin> set b"
    and "CHR ''&'' \<notin> set q1" and "asciiLower (req_method request) = ''get''"
    and "req_path request = b @ ''/info/refs?'' @ q1 @ ''&service='' @ s \<or>
         req_path request = b @ ''/info/refs?service='' @ s"
    and "ends_with p (''/'' @ s)"
  shows "endpointMatches request \<lparr>ep_pathPattern = p, ep_method = m, ep_conditions = cs\<rparr> =
    conditionsMatch cs (req_body request)"
proof -
  define sv where "sv = ''service='' @ s"
  have amp: "split_on (CHR ''&'') sv = [sv]"
    using assms(1) by (intro split_on_free) (auto simp: sv_def GIT_PACK_SERVICES_def)
  have "\<exists>q. req_path request = (b @ ''/info/refs'') @ CHR ''?'' # q \<and> sv \<in> set (split_on (CHR ''&'') q)"
    using assms(5)
  proof
    assume "req_path request = b @ ''/info/refs?'' @ q1 @ ''&service='' @ s"
    then have "req_path request = (b @ ''/info/refs'') @ CHR ''?'' # (q1 @ CHR ''&'' # sv)"
      by (simp add: sv_def)
    moreover have "sv \<in> set (split_on (CHR ''&'') (q1 @ CHR ''&'' # sv))"
      by (simp add: split_on_append [OF assms(3)] amp)
    ultimately show ?thesis by blast
  next
    assume "req_path request = b @ ''/info/refs?service='' @ s"
    then have "req_path request = (b @ ''/info/refs'') @ CHR ''?'' # sv" by (simp add: sv_def)
    then show ?thesis using amp by (metis list.set_intros(1))
  qed
  then have "isGitDiscovery (req_path request) s"
    using isGitDiscovery_refs [OF assms(2)] unfolding sv_def by blast
  with assms show ?thesis by (auto simp: endpointMatches_iff)
qed

theorem endpointMatches_git_bridge_witness:
  "endpointMatches
     \<lparr>req_host = ''github.com'', req_path = ''/a/b/info/refs?service=git-upload-pack'', req_method = ''GET'',
      req_body = None, req_agentId = ''a1'', req_userIds = None, req_groupIds = None,
      req_hasInjections = True, req_isLlmHost = False, req_winningConnectionId = None\<rparr>
     \<lparr>ep_pathPattern = ''/*/*/git-upload-pack'', ep_method = Some ''POST'', ep_conditions = None\<rparr>"
  by (subst endpointMatches_git_bridge [of "''git-upload-pack''" "''/a/b''" "[]"]; code_simp)

end
