(* ===== verification/JsJson.thy ===== *)
theory JsJson
  imports JsPrelude
begin

text \<open>
  The part of the JavaScript JSON library that the policy engine calls: \<^verbatim>\<open>JSON.parse\<close> as a
  recursive-descent parser for the JSON grammar.  The nesting of the text bounds the recursion,
  which is given as fuel; \<^verbatim>\<open>json_parse\<close> supplies two units per character, and the lemmas below
  show that this is always enough.
\<close>

section \<open>Lexical elements\<close>

definition json_ws :: "char \<Rightarrow> bool" where
  "json_ws c = (c = CHR '' '' \<or> c = CHR 0x09 \<or> c = CHR 0x0A \<or> c = CHR 0x0D)"

definition skip_ws :: "string \<Rightarrow> string" where
  "skip_ws s = dropWhile json_ws s"

definition is_digit :: "char \<Rightarrow> bool" where
  "is_digit c = (CHR ''0'' \<le> c \<and> c \<le> CHR ''9'')"

definition hex_value :: "char \<Rightarrow> nat option" where
  "hex_value c =
     (if CHR ''0'' \<le> c \<and> c \<le> CHR ''9'' then Some (of_char c - 48)
      else if CHR ''a'' \<le> c \<and> c \<le> CHR ''f'' then Some (of_char c - 87)
      else if CHR ''A'' \<le> c \<and> c \<le> CHR ''F'' then Some (of_char c - 55)
      else None)"

text \<open>The value of four hexadecimal digits at the front of a text.\<close>

fun hex4 :: "string \<Rightarrow> nat option" where
  "hex4 (a # b # c # d # _) =
     (case (hex_value a, hex_value b, hex_value c, hex_value d) of
        (Some w, Some x, Some y, Some z) \<Rightarrow> Some (((w * 16 + x) * 16 + y) * 16 + z)
      | _ \<Rightarrow> None)"
| "hex4 _ = None"

text \<open>The UTF-8 bytes of a code point (a lone surrogate in its three generalised bytes).\<close>

definition utf8 :: "nat \<Rightarrow> string" where
  "utf8 n = map char_of
     (if n < 0x80 then [n]
      else if n < 0x800 then [0xC0 + n div 64, 0x80 + n mod 64]
      else if n < 0x10000 then [0xE0 + n div 4096, 0x80 + n div 64 mod 64, 0x80 + n mod 64]
      else [0xF0 + n div 262144, 0x80 + n div 4096 mod 64, 0x80 + n div 64 mod 64, 0x80 + n mod 64])"

text \<open>A second escaped surrogate after the first: the pair's low half and the text after it.\<close>

definition low_surrogate :: "string \<Rightarrow> nat option" where
  "low_surrogate s =
     (if prefix (CHR 0x5C # ''u'') s
      then (case hex4 (drop 2 s) of
              Some n \<Rightarrow> if 0xDC00 \<le> n \<and> n < 0xE000 then Some n else None
            | None \<Rightarrow> None)
      else None)"

text \<open>The characters of a string literal after its opening quote, and the text after it.\<close>

function json_chars :: "string \<Rightarrow> string \<Rightarrow> (string \<times> string) option" where
  "json_chars [] acc = None"
| "json_chars (c # cs) acc =
     (if c = CHR 0x22 then Some (acc, cs)
      else if c = CHR 0x5C then
        (case cs of
           [] \<Rightarrow> None
         | e # r \<Rightarrow>
             if e = CHR 0x22 \<or> e = CHR 0x5C \<or> e = CHR ''/'' then json_chars r (acc @ [e])
             else if e = CHR ''b'' then json_chars r (acc @ [CHR 0x08])
             else if e = CHR ''f'' then json_chars r (acc @ [CHR 0x0C])
             else if e = CHR ''n'' then json_chars r (acc @ [CHR 0x0A])
             else if e = CHR ''r'' then json_chars r (acc @ [CHR 0x0D])
             else if e = CHR ''t'' then json_chars r (acc @ [CHR 0x09])
             else if e = CHR ''u'' then
               (case hex4 r of
                  None \<Rightarrow> None
                | Some n \<Rightarrow>
                    if 0xD800 \<le> n \<and> n < 0xDC00 then
                      (case low_surrogate (drop 4 r) of
                         Some m \<Rightarrow> json_chars (drop 10 r)
                           (acc @ utf8 (0x10000 + (n - 0xD800) * 1024 + (m - 0xDC00)))
                       | None \<Rightarrow> json_chars (drop 4 r) (acc @ utf8 n))
                    else json_chars (drop 4 r) (acc @ utf8 n))
             else None)
      else if of_char c < (32 :: nat) then None
      else json_chars cs (acc @ [c]))"
  by pat_completeness auto
termination
  by (relation "measure (\<lambda>(s, acc). length s)") auto

text \<open>A number's text and the text after it.\<close>

definition json_digits :: "string \<Rightarrow> (string \<times> string) option" where
  "json_digits s =
     (let ds = takeWhile is_digit s in if ds = [] then None else Some (ds, dropWhile is_digit s))"

definition json_int :: "string \<Rightarrow> (string \<times> string) option" where
  "json_int s =
     (case json_digits s of
        None \<Rightarrow> None
      | Some (ds, r) \<Rightarrow>
          if hd ds = CHR ''0'' then Some (''0'', tl ds @ r) else Some (ds, r))"

definition json_frac :: "string \<Rightarrow> (string \<times> string) option" where
  "json_frac s =
     (case s of
        c # r \<Rightarrow>
          if c = CHR ''.'' then map_option (\<lambda>(ds, r'). (c # ds, r')) (json_digits r)
          else Some ([], s)
      | [] \<Rightarrow> Some ([], s))"

definition json_exp :: "string \<Rightarrow> (string \<times> string) option" where
  "json_exp s =
     (case s of
        c # r \<Rightarrow>
          if c = CHR ''e'' \<or> c = CHR ''E'' then
            (case r of
               d # r' \<Rightarrow>
                 if d = CHR ''+'' \<or> d = CHR ''-''
                 then map_option (\<lambda>(ds, r''). (c # d # ds, r'')) (json_digits r')
                 else map_option (\<lambda>(ds, r''). (c # ds, r'')) (json_digits r)
             | [] \<Rightarrow> None)
          else Some ([], s)
      | [] \<Rightarrow> Some ([], s))"

definition json_number :: "string \<Rightarrow> (string \<times> string) option" where
  "json_number s =
     (let (sign, r0) = (case s of c # r \<Rightarrow> if c = CHR ''-'' then ([c], r) else ([], s) | [] \<Rightarrow> ([], s))
      in case json_int r0 of
           None \<Rightarrow> None
         | Some (i, r1) \<Rightarrow>
             (case json_frac r1 of
                None \<Rightarrow> None
              | Some (f, r2) \<Rightarrow>
                  (case json_exp r2 of
                     None \<Rightarrow> None
                   | Some (e, r3) \<Rightarrow> Some (sign @ i @ f @ e, r3))))"

section \<open>Values\<close>

fun jvalue :: "nat \<Rightarrow> string \<Rightarrow> (json \<times> string) option"
and jelems :: "nat \<Rightarrow> string \<Rightarrow> json list \<Rightarrow> (json \<times> string) option"
and jmembers :: "nat \<Rightarrow> string \<Rightarrow> (string \<times> json) list \<Rightarrow> (json \<times> string) option" where
  "jvalue 0 s = None"
| "jvalue (Suc n) s =
     (case skip_ws s of
        [] \<Rightarrow> None
      | c # cs \<Rightarrow>
          if c = CHR ''{'' then
            (if prefix ''}'' (skip_ws cs) then Some (JObj [], tl (skip_ws cs)) else jmembers n cs [])
          else if c = CHR ''['' then
            (if prefix '']'' (skip_ws cs) then Some (JArr [], tl (skip_ws cs)) else jelems n cs [])
          else if c = CHR 0x22 then map_option (\<lambda>(x, r). (JStr x, r)) (json_chars cs [])
          else if prefix ''true'' (c # cs) then Some (JBool True, drop 4 (c # cs))
          else if prefix ''false'' (c # cs) then Some (JBool False, drop 5 (c # cs))
          else if prefix ''null'' (c # cs) then Some (JNull, drop 4 (c # cs))
          else map_option (\<lambda>(x, r). (JNum x, r)) (json_number (c # cs)))"
| "jelems 0 s acc = None"
| "jelems (Suc n) s acc =
     (case jvalue n s of
        None \<Rightarrow> None
      | Some (v, r) \<Rightarrow>
          (case skip_ws r of
             [] \<Rightarrow> None
           | c # r' \<Rightarrow>
               if c = CHR '','' then jelems n r' (acc @ [v])
               else if c = CHR '']'' then Some (JArr (acc @ [v]), r')
               else None))"
| "jmembers 0 s acc = None"
| "jmembers (Suc n) s acc =
     (case skip_ws s of
        [] \<Rightarrow> None
      | q # r \<Rightarrow>
          if q = CHR 0x22 then
            (case json_chars r [] of
               None \<Rightarrow> None
             | Some (k, r1) \<Rightarrow>
                 (case skip_ws r1 of
                    [] \<Rightarrow> None
                  | d # r2 \<Rightarrow>
                      if d = CHR '':'' then
                        (case jvalue n r2 of
                           None \<Rightarrow> None
                         | Some (v, r3) \<Rightarrow>
                             (case skip_ws r3 of
                                [] \<Rightarrow> None
                              | c # r4 \<Rightarrow>
                                  if c = CHR '','' then jmembers n r4 (acc @ [(k, v)])
                                  else if c = CHR ''}'' then Some (JObj (acc @ [(k, v)]), r4)
                                  else None))
                      else None))
          else None)"

definition json_parse :: "string \<Rightarrow> json option" where
  "json_parse s =
     (case jvalue (2 * length s + 1) s of
        None \<Rightarrow> None
      | Some (v, r) \<Rightarrow> if skip_ws r = [] then Some v else None)"

section \<open>The fuel is enough\<close>

lemma length_skip_ws: "length (skip_ws s) \<le> length s"
  by (simp add: skip_ws_def length_dropWhile_le)

lemma skip_ws_ConsD: "skip_ws s = c # r \<Longrightarrow> length r < length s"
  using length_skip_ws [of s] by simp

lemma json_chars_shorter: "json_chars s acc = Some (v, r) \<Longrightarrow> length r < length s"
proof (induction s arbitrary: acc rule: length_induct)
  case (1 s)
  have IH: "length r < length t" if "json_chars t b = Some (v, r)" "length t < length s" for t b
    using 1 that by blast
  show ?case
  proof (cases s)
    case (Cons c cs)
    have IH': "length r < length s" if "json_chars t b = Some (v, r)" "length t < length s" for t b
      using IH [OF that] that(2) by simp
    show ?thesis using "1.prems" IH'
      by (auto simp: Cons split: if_splits list.splits option.splits)
  qed (use "1.prems" in simp)
qed

lemma json_digits_shorter: "json_digits s = Some (v, r) \<Longrightarrow> length r < length s"
proof -
  assume "json_digits s = Some (v, r)"
  then have "takeWhile is_digit s \<noteq> []" "r = dropWhile is_digit s"
    by (auto simp: json_digits_def Let_def split: if_splits)
  then show ?thesis using length_dropWhile_le [of is_digit]
    by (cases s) (auto simp: less_Suc_eq_le split: if_splits)
qed

lemma json_digits_append: "json_digits s = Some (v, r) \<Longrightarrow> s = v @ r \<and> v \<noteq> []"
  by (auto simp: json_digits_def Let_def split: if_splits)

lemma json_int_shorter: "json_int s = Some (v, r) \<Longrightarrow> length r < length s"
  by (auto simp: json_int_def neq_Nil_conv split: option.splits if_splits
      dest!: json_digits_append)

lemma json_frac_shorter: "json_frac s = Some (v, r) \<Longrightarrow> length r \<le> length s"
  by (auto simp: json_frac_def split: list.splits if_splits dest!: json_digits_shorter)

lemma json_exp_shorter: "json_exp s = Some (v, r) \<Longrightarrow> length r \<le> length s"
  by (auto simp: json_exp_def split: list.splits if_splits dest!: json_digits_shorter)

lemma json_number_shorter: "json_number s = Some (v, r) \<Longrightarrow> length r < length s"
  by (fastforce simp: json_number_def split: list.splits if_splits option.splits prod.splits
      dest: json_int_shorter json_frac_shorter json_exp_shorter)

lemma json_shorter_aux:
  "(\<forall>s v r. jvalue n s = Some (v, r) \<longrightarrow> length r < length s) \<and>
   (\<forall>s es v r. jelems n s es = Some (v, r) \<longrightarrow> length r < length s) \<and>
   (\<forall>s ms v r. jmembers n s ms = Some (v, r) \<longrightarrow> length r < length s)"
proof (induction n)
  case (Suc n)
  then have V: "\<And>s v r. jvalue n s = Some (v, r) \<Longrightarrow> length r < length s"
    and E: "\<And>s es v r. jelems n s es = Some (v, r) \<Longrightarrow> length r < length s"
    and M: "\<And>s ms v r. jmembers n s ms = Some (v, r) \<Longrightarrow> length r < length s"
    by blast+
  have "length r < length s" if "jvalue (Suc n) s = Some (v, r)" for s v r
  proof (cases "skip_ws s")
    case (Cons c cs)
    have "length cs < length s" using skip_ws_ConsD [OF Cons] .
    moreover have "length (tl (skip_ws cs)) \<le> length cs" using length_skip_ws [of cs] by simp
    moreover have "length r < length (c # cs)" if "json_number (c # cs) = Some (x, r)" for x
      using json_number_shorter [OF that] .
    ultimately show ?thesis using that unfolding jvalue.simps(2) Cons list.case
      by (auto simp del: prefix_code split: if_split_asm dest: E M json_chars_shorter)
  qed (use that in simp)
  moreover have "length r < length s" if "jelems (Suc n) s es = Some (v, r)" for s es v r
    using that unfolding jelems.simps(2)
    by (auto split: option.split_asm list.split_asm if_split_asm dest!: V E skip_ws_ConsD)
  moreover have "length r < length s" if "jmembers (Suc n) s ms = Some (v, r)" for s ms v r
    using that unfolding jmembers.simps(2)
    by (auto split: option.split_asm list.split_asm if_split_asm
        dest!: V M skip_ws_ConsD json_chars_shorter)
  ultimately show ?case by blast
qed simp

lemmas json_shorter = json_shorter_aux [THEN conjunct1, rule_format]
  json_shorter_aux [THEN conjunct2, THEN conjunct1, rule_format]
  json_shorter_aux [THEN conjunct2, THEN conjunct2, rule_format]

text \<open>One more unit of fuel than two per character changes nothing.\<close>

lemma json_fuel_step:
  "(\<forall>s. 2 * length s < n \<longrightarrow> jvalue (Suc n) s = jvalue n s) \<and>
   (\<forall>s es. 2 * length s + 1 < n \<longrightarrow> jelems (Suc n) s es = jelems n s es) \<and>
   (\<forall>s ms. 2 * length s + 1 < n \<longrightarrow> jmembers (Suc n) s ms = jmembers n s ms)"
proof (induction n)
  case (Suc n)
  then have V: "\<And>s. 2 * length s < n \<Longrightarrow> jvalue (Suc n) s = jvalue n s"
    and E: "\<And>s es. 2 * length s + 1 < n \<Longrightarrow> jelems (Suc n) s es = jelems n s es"
    and M: "\<And>s ms. 2 * length s + 1 < n \<Longrightarrow> jmembers (Suc n) s ms = jmembers n s ms"
    by blast+
  have "jvalue (Suc (Suc n)) s = jvalue (Suc n) s" if "2 * length s < Suc n" for s
  proof (cases "skip_ws s")
    case (Cons c cs)
    have "2 * length cs + 1 < n" using skip_ws_ConsD [OF Cons] that by simp
    then have "jelems (Suc n) cs [] = jelems n cs []" "jmembers (Suc n) cs [] = jmembers n cs []"
      by (rule E M)+
    then show ?thesis by (simp only: jvalue.simps Cons list.case)
  qed simp
  moreover have "jelems (Suc (Suc n)) s es = jelems (Suc n) s es" if "2 * length s + 1 < Suc n" for s es
  proof -
    have v: "jvalue (Suc n) s = jvalue n s" using that by (intro V) simp
    have "jelems (Suc n) r' fs = jelems n r' fs"
      if "jvalue n s = Some (x, r)" "skip_ws r = c # r'" for x r c r' fs
      using json_shorter(1) [OF that(1)] skip_ws_ConsD [OF that(2)] \<open>2 * length s + 1 < Suc n\<close>
      by (intro E) simp
    then show ?thesis
      unfolding jelems.simps(2) [of "Suc n" s es] jelems.simps(2) [of n s es] v
      by (simp split: option.split list.split del: jelems.simps jvalue.simps)
  qed
  moreover have "jmembers (Suc (Suc n)) s ms = jmembers (Suc n) s ms"
    if "2 * length s + 1 < Suc n" for s ms
  proof -
    have v: "jvalue (Suc n) r2 = jvalue n r2"
      if "skip_ws s = q # r" "json_chars r [] = Some (k, r1)" "skip_ws r1 = d # r2" for q r k r1 d r2
      using skip_ws_ConsD [OF that(1)] json_chars_shorter [OF that(2)] skip_ws_ConsD [OF that(3)]
        \<open>2 * length s + 1 < Suc n\<close> by (intro V) simp
    have m: "jmembers (Suc n) r4 fs = jmembers n r4 fs"
      if "skip_ws s = q # r" "json_chars r [] = Some (k, r1)" "skip_ws r1 = d # r2"
        "jvalue n r2 = Some (x, r3)" "skip_ws r3 = c # r4" for q r k r1 d r2 x r3 c r4 fs
      using skip_ws_ConsD [OF that(1)] json_chars_shorter [OF that(2)] skip_ws_ConsD [OF that(3)]
        json_shorter(1) [OF that(4)] skip_ws_ConsD [OF that(5)] \<open>2 * length s + 1 < Suc n\<close>
      by (intro M) simp
    show ?thesis
      unfolding jmembers.simps(2) [of "Suc n" s ms] jmembers.simps(2) [of n s ms]
      by (intro list.case_cong option.case_cong prod.case_cong if_cong refl)
        (auto simp del: jmembers.simps jvalue.simps intro: v m)
  qed
  ultimately show ?case by blast
qed simp

lemma jvalue_fuel_enough: "2 * length s < n \<Longrightarrow> jvalue n s = jvalue (2 * length s + 1) s"
proof (induction n)
  case (Suc n)
  then show ?case
    using json_fuel_step [of n] by (cases "2 * length s < n") (auto simp: less_Suc_eq)
qed simp

end
