(* ===== verification/GraphqlClassify.thy ===== *)
theory GraphqlClassify
  imports PolicyTypes JsJson
begin

text \<open>
  The fail-closed GraphQL classifier of
  \<^verbatim>\<open>packages/api/src/services/policy-translation/graphql.ts\<close>.  The scanners of the code walk
  an index through a text; here they walk the text itself, the list of the characters from that
  index on.
\<close>

section \<open>Definitions\<close>

abbreviation DQUOTE :: char where "DQUOTE \<equiv> CHR 0x22"
abbreviation BACKSLASH :: char where "BACKSLASH \<equiv> CHR 0x5C"

text \<open>The inner loop over a string literal's raw text: its text, whether it holds an escape,
  and the text after the closing quote.\<close>

function scanJsonString :: "string \<Rightarrow> string \<Rightarrow> bool \<Rightarrow> (string \<times> bool \<times> string) option" where
  "scanJsonString [] acc esc = None"
| "scanJsonString (c # cs) acc esc =
     (if c = DQUOTE then Some (acc, esc, cs)
      else if c = BACKSLASH then scanJsonString (drop 1 cs) (acc @ c # take 1 cs) True
      else scanJsonString cs (acc @ [c]) esc)"
  by pat_completeness auto
termination
  by (relation "measure (\<lambda>(s, acc, esc). length s)") auto

lemma scanJsonString_shorter:
  "scanJsonString s acc esc = Some (v, e, r) \<Longrightarrow> length r < length s"
  by (induction s acc esc rule: scanJsonString.induct) (auto split: if_splits)

function countKeys :: "string \<Rightarrow> int \<Rightarrow> int \<Rightarrow> int" where
  "countKeys [] depth count = count"
| "countKeys (c # cs) depth count =
     (if c = DQUOTE then
        (case scanJsonString cs [] False of
           None \<Rightarrow> -1
         | Some (value, hasEscape, rest) \<Rightarrow>
             (let after = dropWhile json_ws rest in
              if depth = 1 \<and> prefix '':'' after then
                (if hasEscape then -1
                 else countKeys rest depth (if value = ''query'' then count + 1 else count))
              else countKeys rest depth count))
      else if c = CHR ''{'' \<or> c = CHR ''['' then countKeys cs (depth + 1) count
      else if c = CHR ''}'' \<or> c = CHR '']'' then countKeys cs (depth - 1) count
      else countKeys cs depth count)"
  by pat_completeness auto
termination
  by (relation "measure (\<lambda>(s, d, n). length s)") (auto dest!: scanJsonString_shorter)

definition countTopLevelLiteralQueryKeys :: "string \<Rightarrow> int" where
  "countTopLevelLiteralQueryKeys text = countKeys text 0 0"

definition isNameStart :: "char \<Rightarrow> bool" where
  "isNameStart ch = (ch = CHR ''_'' \<or> (CHR ''a'' \<le> ch \<and> ch \<le> CHR ''z'') \<or> (CHR ''A'' \<le> ch \<and> ch \<le> CHR ''Z''))"

definition isNamePart :: "char \<Rightarrow> bool" where
  "isNamePart ch = (isNameStart ch \<or> (CHR ''0'' \<le> ch \<and> ch \<le> CHR ''9''))"

text \<open>The Name at the front of a text.\<close>

definition readName :: "string \<Rightarrow> string option" where
  "readName src =
     (case src of
        [] \<Rightarrow> None
      | c # cs \<Rightarrow> if isNameStart c then Some (c # takeWhile isNamePart cs) else None)"

text \<open>The text after the closing triple quote of a block string.\<close>

function skipBlockString :: "string \<Rightarrow> string option" where
  "skipBlockString s =
     (if s = [] then None
      else if prefix [DQUOTE, DQUOTE, DQUOTE] s then Some (drop 3 s)
      else if prefix [BACKSLASH, DQUOTE, DQUOTE, DQUOTE] s then skipBlockString (drop 4 s)
      else skipBlockString (drop 1 s))"
  by pat_completeness auto
termination
  by (relation "measure length") auto

declare skipBlockString.simps [simp del]

text \<open>The text after the closing quote of a string.\<close>

function skipString :: "string \<Rightarrow> string option" where
  "skipString [] = None"
| "skipString (c # cs) =
     (if c = DQUOTE then Some cs
      else if c = BACKSLASH then skipString (drop 1 cs)
      else skipString cs)"
  by pat_completeness auto
termination
  by (relation "measure length") auto

lemma skipBlockString_shorter: "skipBlockString s = Some r \<Longrightarrow> length r < length s"
proof (induction s rule: skipBlockString.induct)
  case (1 s)
  then show ?case
    by (subst (asm) (2) skipBlockString.simps) (auto split: if_splits)
qed

lemma skipString_shorter: "skipString s = Some r \<Longrightarrow> length r < length s"
  by (induction s rule: skipString.induct) (auto split: if_splits)

definition isIgnored :: "char \<Rightarrow> bool" where
  "isIgnored c =
     (c = CHR '' '' \<or> c = CHR 0x09 \<or> c = CHR 0x0A \<or> c = CHR 0x0D \<or> c = CHR '','')"

definition isOpen :: "char \<Rightarrow> bool" where
  "isOpen c = (c = CHR ''{'' \<or> c = CHR ''('' \<or> c = CHR ''['')"

definition isClose :: "char \<Rightarrow> bool" where
  "isClose c = (c = CHR ''}'' \<or> c = CHR '')'' \<or> c = CHR '']'')"

text \<open>The main loop: the text left, the nesting depth, whether the next token starts a
  definition and whether a query operation was seen.\<close>

function classifyLoop :: "string \<Rightarrow> int \<Rightarrow> bool \<Rightarrow> bool \<Rightarrow> graphql_op_kind" where
  "classifyLoop [] depth expectingDefinition sawQueryOperation =
     (if depth \<noteq> 0 then Mutation
      else if \<not> expectingDefinition then Mutation
      else if sawQueryOperation then Query else Mutation)"
| "classifyLoop (c # cs) depth expectingDefinition sawQueryOperation =
     (if isIgnored c then classifyLoop cs depth expectingDefinition sawQueryOperation
      else if prefix [CHR 0xEF, CHR 0xBB, CHR 0xBF] (c # cs) then
        classifyLoop (drop 2 cs) depth expectingDefinition sawQueryOperation
      else if c = CHR ''#'' then
        classifyLoop (dropWhile (\<lambda>x. x \<noteq> CHR 0x0A \<and> x \<noteq> CHR 0x0D) cs) depth
          expectingDefinition sawQueryOperation
      else if prefix [DQUOTE, DQUOTE, DQUOTE] (c # cs) then
        (case skipBlockString (drop 2 cs) of
           None \<Rightarrow> Mutation
         | Some rest \<Rightarrow> classifyLoop rest depth expectingDefinition sawQueryOperation)
      else if c = DQUOTE then
        (case skipString cs of
           None \<Rightarrow> Mutation
         | Some rest \<Rightarrow> classifyLoop rest depth expectingDefinition sawQueryOperation)
      else if expectingDefinition \<and> depth = 0 then
        (if c = CHR ''{'' then classifyLoop cs (depth + 1) False True
         else
           case readName (c # cs) of
             None \<Rightarrow> Mutation
           | Some word \<Rightarrow>
               if word = ''query'' then classifyLoop (drop (length word) (c # cs)) depth False True
               else if word = ''fragment'' then
                 classifyLoop (drop (length word) (c # cs)) depth False sawQueryOperation
               else Mutation)
      else if isOpen c then classifyLoop cs (depth + 1) expectingDefinition sawQueryOperation
      else if isClose c then
        (if depth - 1 < 0 then Mutation
         else classifyLoop cs (depth - 1)
           (if depth - 1 = 0 \<and> c = CHR ''}'' then True else expectingDefinition)
           sawQueryOperation)
      else classifyLoop cs depth expectingDefinition sawQueryOperation)"
  by pat_completeness auto
termination
proof (relation "measure (\<lambda>(s, d, e, q). length s)", goal_cases)
  case (4 c cs)
  then show ?case using length_dropWhile_le [of _ cs] by (simp add: less_Suc_eq_le)
qed (auto dest!: skipBlockString_shorter skipString_shorter simp: readName_def split: if_splits)

definition classifyGraphqlDocument :: "string \<Rightarrow> graphql_op_kind" where
  "classifyGraphqlDocument document = classifyLoop document 0 True False"

definition classifyGraphqlBody :: "string option \<Rightarrow> graphql_op_kind" where
  "classifyGraphqlBody body =
     (case body of
        None \<Rightarrow> Mutation
      | Some text \<Rightarrow>
          if length text = 0 then Mutation
          else
            case json_parse text of
              Some (JObj entries) \<Rightarrow>
                (case obj_get entries ''query'' of
                   Some (JStr document) \<Rightarrow>
                     if countTopLevelLiteralQueryKeys text \<noteq> 1 then Mutation
                     else classifyGraphqlDocument document
                 | _ \<Rightarrow> Mutation)
            | _ \<Rightarrow> Mutation)"

end
