(* ===== verification/AppCatalog.thy ===== *)
theory AppCatalog
  imports EndpointMatch GraphqlClassify "HOL-Library.AList"
begin

text \<open>
  The permission catalogs of \<^verbatim>\<open>packages/api/src/apps/app-permissions\<close> and the matcher of
  app targets over them (\<^verbatim>\<open>services/policy-translation/translate/app-catalog.ts\<close>).

  The registry is a \<^verbatim>\<open>Map\<close> from providers to definitions, kept as an association list in the
  order of insertion; every operation that reads it takes it as the argument \<^verbatim>\<open>reg\<close>, so the
  lemmas hold for every set of registered catalogs.
\<close>

section \<open>Catalog data (types.ts)\<close>

record app_tool =
  tool_id :: string
  tool_name :: string
  tool_description :: string
  tool_hostPattern :: string
  tool_hostAliasPatterns :: "string list option"
  tool_pathPattern :: string
  tool_aliasPatterns :: "string list option"
  tool_method :: "string option"
  tool_methods :: "string list option"
  tool_graphqlOps :: "graphql_op_kind option"

datatype group_category = Read | Write

record app_tool_group =
  group_category :: group_category
  group_tools :: "app_tool list"
  group_wildcard :: "app_tool option"

record app_permission_definition =
  def_provider :: string
  def_groups :: "app_tool_group list"
  def_unlisted_block :: bool
  def_exhaustive :: bool
  def_unlistedReads_allow :: bool

definition allGroupTools :: "app_tool_group \<Rightarrow> app_tool list" where
  "allGroupTools grp =
     (case group_wildcard grp of None \<Rightarrow> [] | Some w \<Rightarrow> [w]) @ group_tools grp"

text \<open>An empty \<^verbatim>\<open>method\<close> is falsy, like an absent one.\<close>

definition methodsOf :: "app_tool \<Rightarrow> string list" where
  "methodsOf tool =
     (case tool_methods tool of
        Some ms \<Rightarrow> ms
      | None \<Rightarrow> (case tool_method tool of None \<Rightarrow> [] | Some m \<Rightarrow> if m = [] then [] else [m]))"

definition hostPatternsOf :: "app_tool \<Rightarrow> string list" where
  "hostPatternsOf tool =
     tool_hostPattern tool # (case tool_hostAliasPatterns tool of None \<Rightarrow> [] | Some hs \<Rightarrow> hs)"

definition toolFactory ::
    "string \<Rightarrow> string list option \<Rightarrow> string \<Rightarrow> string \<Rightarrow> string \<Rightarrow> string \<Rightarrow> string list \<Rightarrow>
     string list option \<Rightarrow> app_tool" where
  "toolFactory hostPattern hostAliasPatterns toolId name description pathPattern methods aliasPatterns =
     \<lparr>tool_id = toolId, tool_name = name, tool_description = description, tool_hostPattern = hostPattern,
      tool_hostAliasPatterns = hostAliasPatterns, tool_pathPattern = pathPattern,
      tool_aliasPatterns = aliasPatterns,
      tool_method = (if length methods = 1 then Some (hd methods) else None),
      tool_methods = (if length methods = 1 then None else Some methods),
      tool_graphqlOps = None\<rparr>"

definition prefixOf :: "string \<Rightarrow> string" where
  "prefixOf pattern = (if ends_with pattern ''*'' then butlast pattern else pattern)"

definition pathsOf :: "app_tool \<Rightarrow> string list" where
  "pathsOf tool =
     tool_pathPattern tool # (case tool_aliasPatterns tool of None \<Rightarrow> [] | Some ps \<Rightarrow> ps)"

definition wildcardCoversGroup :: "app_tool \<Rightarrow> app_tool list \<Rightarrow> bool" where
  "wildcardCoversGroup wildcard tools =
     (let prefixes = map prefixOf (pathsOf wildcard);
          wildcardMethods = methodsOf wildcard;
          wildcardHosts = hostPatternsOf wildcard
      in list_all (\<lambda>tool.
           list_all (\<lambda>host. host \<in> set wildcardHosts) (hostPatternsOf tool) \<and>
           list_all (\<lambda>pattern. list_ex (\<lambda>prefix. starts_with pattern prefix) prefixes) (pathsOf tool) \<and>
           list_all (\<lambda>method. method \<in> set wildcardMethods) (methodsOf tool)) tools)"

datatype app_permission_level = LevelAllow | LevelManualApproval | LevelBlock

definition mapRuleActionToPermission :: "string \<Rightarrow> app_permission_level" where
  "mapRuleActionToPermission action =
     (if action = ''block'' then LevelBlock
      else if action = ''allow'' then LevelAllow else LevelManualApproval)"

record app_tool_summary =
  ts_id :: string
  ts_name :: string
  ts_description :: string

record app_tool_group_summary =
  gs_category :: group_category
  gs_tools :: "app_tool_summary list"
  gs_wildcard :: "app_tool_summary option"
  gs_wildcardComplete :: "bool option"

record app_permission_definition_summary =
  ds_provider :: string
  ds_groups :: "app_tool_group_summary list"
  ds_unlisted_block :: bool
  ds_exhaustive :: bool
  ds_unlistedReads_allow :: bool

definition toToolSummary :: "app_tool \<Rightarrow> app_tool_summary" where
  "toToolSummary t =
     \<lparr>ts_id = tool_id t, ts_name = tool_name t, ts_description = tool_description t\<rparr>"

definition toAppPermissionDefinitionSummary ::
    "app_permission_definition \<Rightarrow> app_permission_definition_summary" where
  "toAppPermissionDefinitionSummary def =
     \<lparr>ds_provider = def_provider def,
      ds_groups = map (\<lambda>group.
        \<lparr>gs_category = group_category group,
         gs_tools = map toToolSummary (group_tools group),
         gs_wildcard = map_option toToolSummary (group_wildcard group),
         gs_wildcardComplete =
           map_option (\<lambda>w. wildcardCoversGroup w (group_tools group)) (group_wildcard group)\<rparr>)
        (def_groups def),
      ds_unlisted_block = def_unlisted_block def,
      ds_exhaustive = def_exhaustive def,
      ds_unlistedReads_allow = def_unlistedReads_allow def\<rparr>"

datatype unlisted_choice = UAllow | UAsk | UNever

definition defaultOtherReads :: "app_permission_definition option \<Rightarrow> unlisted_choice" where
  "defaultOtherReads catalog =
     (case catalog of None \<Rightarrow> UAsk | Some def \<Rightarrow> if def_unlistedReads_allow def then UAllow else UAsk)"

section \<open>The registry (index.ts)\<close>

type_synonym registry = "(string \<times> app_permission_definition) list"

definition register :: "app_permission_definition \<Rightarrow> registry \<Rightarrow> registry" where
  "register def reg = AList.update (def_provider def) def reg"

definition getAppPermissionDefinition :: "registry \<Rightarrow> string \<Rightarrow> app_permission_definition option" where
  "getAppPermissionDefinition reg provider = map_of reg provider"

definition getAppPermissionDefinitions :: "registry \<Rightarrow> app_permission_definition list" where
  "getAppPermissionDefinitions reg = map snd reg"

section \<open>Validation (validate.ts)\<close>

definition catalogToolIds :: "registry \<Rightarrow> string \<Rightarrow> string list" where
  "catalogToolIds reg provider =
     (case getAppPermissionDefinition reg provider of
        None \<Rightarrow> []
      | Some def \<Rightarrow> concat (map (\<lambda>g. map tool_id (group_tools g)) (def_groups def)))"

definition assertToolIdsValid :: "registry \<Rightarrow> string \<Rightarrow> string list \<Rightarrow> unit result" where
  "assertToolIdsValid reg provider toolIds =
     (if length toolIds = 0 then Inr ()
      else
        case getAppPermissionDefinition reg provider of
          None \<Rightarrow> Inl UNPROCESSABLE
        | Some def \<Rightarrow>
            (let known = concat (map (\<lambda>g. map tool_id (group_tools g)) (def_groups def));
                 unknown = filter (\<lambda>id. id \<notin> set known) (js_uniq toolIds)
             in if length unknown > 0 then Inl UNPROCESSABLE else Inr ()))"

definition catalogBlocksUnlisted :: "registry \<Rightarrow> string \<Rightarrow> bool" where
  "catalogBlocksUnlisted reg provider =
     (case getAppPermissionDefinition reg provider of
        None \<Rightarrow> False | Some def \<Rightarrow> def_unlisted_block def)"

definition assertUnlistedChoicesValid ::
    "registry \<Rightarrow> string \<Rightarrow> unlisted_choice option list \<Rightarrow> unit result" where
  "assertUnlistedChoicesValid reg provider choices =
     (if catalogBlocksUnlisted reg provider \<and> Some UAllow \<in> set choices
      then Inl UNPROCESSABLE else Inr ())"

section \<open>App targets (translate/app-catalog.ts)\<close>

fun findTool :: "string \<Rightarrow> app_tool_group list \<Rightarrow> app_tool option" where
  "findTool toolId [] = None"
| "findTool toolId (grp # groups) =
     (case find (\<lambda>tool. tool_id tool = toolId) (allGroupTools grp) of
        Some tool \<Rightarrow> Some tool
      | None \<Rightarrow> findTool toolId groups)"

definition getAppTool :: "registry \<Rightarrow> string \<Rightarrow> string \<Rightarrow> app_tool option" where
  "getAppTool reg provider toolId =
     (case getAppPermissionDefinition reg provider of
        None \<Rightarrow> None
      | Some def \<Rightarrow> findTool toolId (def_groups def))"

record rule_variant =
  rv_pathPattern :: string
  rv_method :: "string option"

definition allRuleVariants :: "app_tool \<Rightarrow> rule_variant list" where
  "allRuleVariants tool =
     (let paths = pathsOf tool;
          methods = (case tool_methods tool of
                       Some ms \<Rightarrow> map Some ms | None \<Rightarrow> [tool_method tool])
      in concat (map (\<lambda>p. map (\<lambda>m. \<lparr>rv_pathPattern = p, rv_method = m\<rparr>) methods) paths))"

text \<open>The body of the loop over an app target's tools, for a tool that was found.\<close>

definition toolMatches :: "policy_request \<Rightarrow> old_condition list option \<Rightarrow> app_tool \<Rightarrow> bool" where
  "toolMatches request conditions tool =
     (if \<not> list_ex (\<lambda>h. hostMatches (req_host request) h) (hostPatternsOf tool) then False
      else if (case tool_graphqlOps tool of
                 None \<Rightarrow> False
               | Some op \<Rightarrow>
                   (if CHR ''?'' \<in> set (req_path request) then Mutation
                    else classifyGraphqlBody (req_body request)) \<noteq> op)
      then False
      else list_ex (\<lambda>v. endpointMatches request
             \<lparr>ep_pathPattern = rv_pathPattern v, ep_method = rv_method v, ep_conditions = conditions\<rparr>)
             (allRuleVariants tool))"

definition appTargetMatches ::
    "registry \<Rightarrow> policy_request \<Rightarrow> string \<Rightarrow> string list \<Rightarrow> old_condition list option \<Rightarrow> bool" where
  "appTargetMatches reg request provider toolIds conditions =
     list_ex (\<lambda>toolId.
       case getAppTool reg provider toolId of
         None \<Rightarrow> False
       | Some tool \<Rightarrow> toolMatches request conditions tool) toolIds"

definition providerHostMatches :: "registry \<Rightarrow> string \<Rightarrow> string \<Rightarrow> bool" where
  "providerHostMatches reg host provider =
     (case getAppPermissionDefinition reg provider of
        None \<Rightarrow> False
      | Some def \<Rightarrow>
          list_ex (\<lambda>group. list_ex (\<lambda>tool. list_ex (\<lambda>pattern. hostMatches host pattern)
            (hostPatternsOf tool)) (allGroupTools group)) (def_groups def))"

section \<open>Lemmas\<close>

lemma getAppPermissionDefinition_register:
  "getAppPermissionDefinition (register def reg) p =
     (if p = def_provider def then Some def else getAppPermissionDefinition reg p)"
  by (auto simp: getAppPermissionDefinition_def register_def update_conv)

lemma findTool_SomeD:
  "findTool i gs = Some t \<Longrightarrow> tool_id t = i \<and> (\<exists>g \<in> set gs. t \<in> set (allGroupTools g))"
  by (induction gs) (auto split: option.splits simp: find_Some_iff)

lemma findTool_Some: "g \<in> set gs \<Longrightarrow> t \<in> set (allGroupTools g) \<Longrightarrow> \<exists>u. findTool (tool_id t) gs = Some u"
proof (induction gs)
  case (Cons a gs)
  show ?case
  proof (cases "find (\<lambda>u. tool_id u = tool_id t) (allGroupTools a)")
    case None
    then have "t \<notin> set (allGroupTools a)" by (auto simp: find_None_iff)
    with Cons None show ?thesis by auto
  qed simp
qed simp

lemma findTool_None: "findTool i gs = None \<Longrightarrow> g \<in> set gs \<Longrightarrow> t \<in> set (allGroupTools g) \<Longrightarrow> tool_id t \<noteq> i"
  using findTool_Some [of g gs t] by auto

lemma set_allGroupTools:
  "set (allGroupTools g) = set_option (group_wildcard g) \<union> set (group_tools g)"
  by (auto simp: allGroupTools_def split: option.splits)

lemma getAppTool_SomeD:
  assumes "getAppTool reg provider i = Some t"
  obtains def g where "getAppPermissionDefinition reg provider = Some def" "g \<in> set (def_groups def)"
    "t \<in> set (allGroupTools g)" "tool_id t = i"
  using assms by (auto simp: getAppTool_def split: option.splits dest!: findTool_SomeD)

lemma appTargetMatches_iff:
  "appTargetMatches reg request provider ids cs \<longleftrightarrow>
     (\<exists>i \<in> set ids. \<exists>t. getAppTool reg provider i = Some t \<and> toolMatches request cs t)"
  by (auto simp: appTargetMatches_def list_ex_iff split: option.splits)

lemma providerHostMatches_iff:
  "providerHostMatches reg host provider \<longleftrightarrow>
     (\<exists>def. getAppPermissionDefinition reg provider = Some def \<and>
        (\<exists>g \<in> set (def_groups def). \<exists>t \<in> set (allGroupTools g). \<exists>h \<in> set (hostPatternsOf t). hostMatches host h))"
  by (auto simp: providerHostMatches_def list_ex_iff split: option.splits)

lemma toolMatches_hostD:
  "toolMatches request cs t \<Longrightarrow> \<exists>h \<in> set (hostPatternsOf t). hostMatches (req_host request) h"
  by (auto simp: toolMatches_def list_ex_iff split: if_splits)

lemma set_catalogToolIds:
  "set (catalogToolIds reg provider) =
     {i. \<exists>def g t. getAppPermissionDefinition reg provider = Some def \<and> g \<in> set (def_groups def) \<and>
           t \<in> set (group_tools g) \<and> tool_id t = i}"
  by (cases "getAppPermissionDefinition reg provider") (fastforce simp: catalogToolIds_def)+

lemma assertToolIdsValid_iff:
  "assertToolIdsValid reg provider ids = Inr () \<longleftrightarrow> set ids \<subseteq> set (catalogToolIds reg provider)"
proof (cases "getAppPermissionDefinition reg provider")
  case (Some def)
  define known where "known = concat (map (\<lambda>g. map tool_id (group_tools g)) (def_groups def))"
  have "catalogToolIds reg provider = known" by (simp add: catalogToolIds_def Some known_def)
  moreover have "assertToolIdsValid reg provider ids =
      (if ids = [] then Inr ()
       else if filter (\<lambda>i. i \<notin> set known) (js_uniq ids) \<noteq> [] then Inl UNPROCESSABLE else Inr ())"
    unfolding assertToolIdsValid_def known_def by (simp add: Some Let_def)
  ultimately show ?thesis by (auto simp: filter_empty_conv)
qed (auto simp: assertToolIdsValid_def catalogToolIds_def)

lemma set_allRuleVariants:
  "\<lparr>rv_pathPattern = p, rv_method = m\<rparr> \<in> set (allRuleVariants t) \<longleftrightarrow>
     p \<in> set (pathsOf t) \<and>
     m \<in> (case tool_methods t of Some ms \<Rightarrow> Some ` set ms | None \<Rightarrow> {tool_method t})"
  by (auto simp: allRuleVariants_def Let_def split: option.splits)

lemma toolMatches_iff:
  "toolMatches request cs t \<longleftrightarrow>
     (\<exists>h \<in> set (hostPatternsOf t). hostMatches (req_host request) h) \<and>
     (\<forall>op. tool_graphqlOps t = Some op \<longrightarrow>
        (if CHR ''?'' \<in> set (req_path request) then Mutation else classifyGraphqlBody (req_body request)) = op) \<and>
     (\<exists>p m. \<lparr>rv_pathPattern = p, rv_method = m\<rparr> \<in> set (allRuleVariants t) \<and>
        endpointMatches request \<lparr>ep_pathPattern = p, ep_method = m, ep_conditions = cs\<rparr>)"
proof -
  have "list_ex (\<lambda>v. P (rv_pathPattern v) (rv_method v)) (allRuleVariants t) \<longleftrightarrow>
      (\<exists>p m. \<lparr>rv_pathPattern = p, rv_method = m\<rparr> \<in> set (allRuleVariants t) \<and> P p m)" for P
    unfolding list_ex_iff by (metis rule_variant.select_convs rule_variant.surjective old.unit.exhaust)
  note ex = this [of "\<lambda>p m. endpointMatches request \<lparr>ep_pathPattern = p, ep_method = m, ep_conditions = cs\<rparr>"]
  show ?thesis unfolding toolMatches_def ex by (auto simp: list_ex_iff split: option.splits)
qed

text \<open>A method that the wildcard lists is one of its variants.\<close>

lemma methodsOf_variant:
  "m \<in> set (methodsOf t) \<Longrightarrow> p \<in> set (pathsOf t) \<Longrightarrow>
     \<lparr>rv_pathPattern = p, rv_method = Some m\<rparr> \<in> set (allRuleVariants t)"
  by (auto simp: set_allRuleVariants methodsOf_def split: option.splits if_splits)

lemma variant_methodsOf:
  "\<lparr>rv_pathPattern = p, rv_method = m\<rparr> \<in> set (allRuleVariants t) \<Longrightarrow> methodsOf t \<noteq> [] \<Longrightarrow>
     p \<in> set (pathsOf t) \<and> (\<exists>k \<in> set (methodsOf t). m = Some k)"
  by (auto simp: set_allRuleVariants methodsOf_def split: option.splits if_splits)

text \<open>The umbrella's paths end in their only star; the tool names its methods and is not a git
  pack service.\<close>

definition umbrella :: "app_tool \<Rightarrow> bool" where
  "umbrella w = (tool_graphqlOps w = None \<and>
     list_all (\<lambda>p. ends_with p ''*'' \<and> CHR ''*'' \<notin> set (butlast p)) (pathsOf w))"

definition enumerated :: "app_tool \<Rightarrow> bool" where
  "enumerated t = (methodsOf t \<noteq> [] \<and>
     list_all (\<lambda>p. \<not> list_ex (\<lambda>s. ends_with p (''/'' @ s)) GIT_PACK_SERVICES) (pathsOf t))"

lemma wildcard_path:
  assumes "umbrella w" and "wp \<in> set (pathsOf w)" and "prefix (prefixOf wp) p" and "pathMatches r p"
  shows "pathMatches r wp"
proof -
  have wp: "ends_with wp ''*''" "CHR ''*'' \<notin> set (butlast wp)"
    using assms(1,2) by (auto simp: umbrella_def list_all_iff)
  then have pre: "prefixOf wp = butlast wp" "wp = butlast wp @ ''*''"
    by (auto simp: prefixOf_def suffix_def)
  have "prefix (butlast wp) (stripQuery r @ ''/'')"
    using pathMatches_literal_prefix [OF assms(4,3)] wp pre by simp
  then show ?thesis using pathMatches_trailing_star [OF wp(2)] pre(2) by metis
qed

lemma wildcardCoversGroupD:
  assumes "wildcardCoversGroup w ts" and "t \<in> set ts"
  shows "set (hostPatternsOf t) \<subseteq> set (hostPatternsOf w)"
    and "p \<in> set (pathsOf t) \<Longrightarrow> \<exists>wp \<in> set (pathsOf w). prefix (prefixOf wp) p"
    and "set (methodsOf t) \<subseteq> set (methodsOf w)"
  using assms by (auto simp: wildcardCoversGroup_def Let_def list_all_iff list_ex_iff)

lemma wildcard_covers_tool:
  assumes "wildcardCoversGroup w ts" and "t \<in> set ts" and "umbrella w" and "enumerated t"
    and "toolMatches request cs t"
  shows "toolMatches request cs w"
proof -
  from assms(5) obtain h p m where h: "h \<in> set (hostPatternsOf t)" "hostMatches (req_host request) h"
    and v: "\<lparr>rv_pathPattern = p, rv_method = m\<rparr> \<in> set (allRuleVariants t)"
    and e: "endpointMatches request \<lparr>ep_pathPattern = p, ep_method = m, ep_conditions = cs\<rparr>"
    by (auto simp: toolMatches_iff)
  from v assms(4) obtain k where p: "p \<in> set (pathsOf t)" and k: "k \<in> set (methodsOf t)" "m = Some k"
    using variant_methodsOf by (fastforce simp: enumerated_def)
  obtain wp where wp: "wp \<in> set (pathsOf w)" "prefix (prefixOf wp) p"
    using wildcardCoversGroupD(2) [OF assms(1,2) p] by blast
  have "\<not> (\<exists>s \<in> set GIT_PACK_SERVICES. ends_with p (''/'' @ s))"
    using assms(4) p by (auto simp: enumerated_def list_all_iff list_ex_iff)
  with e have "pathMatches (req_path request) p"
      "asciiLower k = asciiLower (req_method request)" "conditionsMatch cs (req_body request)"
    by (auto simp: endpointMatches_iff k(2))
  with wildcard_path [OF assms(3) wp] have
    "endpointMatches request \<lparr>ep_pathPattern = wp, ep_method = Some k, ep_conditions = cs\<rparr>"
    by (simp add: endpointMatches_iff)
  moreover have "\<lparr>rv_pathPattern = wp, rv_method = Some k\<rparr> \<in> set (allRuleVariants w)"
    using methodsOf_variant wp(1) k(1) wildcardCoversGroupD(3) [OF assms(1,2)] by blast
  moreover have "h \<in> set (hostPatternsOf w)" using wildcardCoversGroupD(1) [OF assms(1,2)] h(1) by blast
  ultimately show ?thesis using h(2) assms(3) by (auto simp: toolMatches_iff umbrella_def)
qed

end
