(* ===== verification/Catalogs.thy ===== *)
theory Catalogs
  imports AppCatalog
begin

text \<open>
  Four of the registered permission catalogs, as the sources declare them: an HTTP API
  without wildcards (\<^verbatim>\<open>resend.ts\<close>), a database front door that is its own boundary
  (\<^verbatim>\<open>postgres.ts\<close>), an API with complete read and write umbrellas (\<^verbatim>\<open>google-calendar.ts\<close>) and
  a GraphQL API (\<^verbatim>\<open>linear.ts\<close>).
\<close>

section \<open>Definitions\<close>

definition resendPermissions :: app_permission_definition where
  "resendPermissions =
     \<lparr>def_provider = ''resend'',
      def_groups = [
        \<lparr>group_category = Read,
         group_tools = [
          \<lparr>tool_id = ''get_email'', tool_name = ''Get email'',
           tool_description = ''Retrieve a specific sent email'',
           tool_hostPattern = ''api.resend.com'', tool_hostAliasPatterns = None,
           tool_pathPattern = ''/emails/*'', tool_aliasPatterns = None,
           tool_method = Some ''GET'', tool_methods = None, tool_graphqlOps = None\<rparr>,
          \<lparr>tool_id = ''list_emails'', tool_name = ''List emails'',
           tool_description = ''List sent emails'',
           tool_hostPattern = ''api.resend.com'', tool_hostAliasPatterns = None,
           tool_pathPattern = ''/emails'', tool_aliasPatterns = None,
           tool_method = Some ''GET'', tool_methods = None, tool_graphqlOps = None\<rparr>],
         group_wildcard = None\<rparr>,
        \<lparr>group_category = Write,
         group_tools = [
          \<lparr>tool_id = ''send_email'', tool_name = ''Send email'',
           tool_description = ''Send a new email via Resend'',
           tool_hostPattern = ''api.resend.com'', tool_hostAliasPatterns = None,
           tool_pathPattern = ''/emails'', tool_aliasPatterns = None,
           tool_method = Some ''POST'', tool_methods = None, tool_graphqlOps = None\<rparr>,
          \<lparr>tool_id = ''create_batch'', tool_name = ''Create batch'',
           tool_description = ''Send a batch of emails'',
           tool_hostPattern = ''api.resend.com'', tool_hostAliasPatterns = None,
           tool_pathPattern = ''/emails/batch'', tool_aliasPatterns = None,
           tool_method = Some ''POST'', tool_methods = None, tool_graphqlOps = None\<rparr>],
         group_wildcard = None\<rparr>],
      def_unlisted_block = False, def_exhaustive = False, def_unlistedReads_allow = False\<rparr>"

definition postgresPermissions :: app_permission_definition where
  "postgresPermissions =
     \<lparr>def_provider = ''postgres'',
      def_groups = [
        \<lparr>group_category = Read,
         group_tools = [
          \<lparr>tool_id = ''sql_read'', tool_name = ''Read data'',
           tool_description = ''Run queries that only read: SELECT, EXPLAIN, COPY TO the client'',
           tool_hostPattern = ''*.postgres.onecli.invalid'', tool_hostAliasPatterns = None,
           tool_pathPattern = ''/sql/read'', tool_aliasPatterns = None,
           tool_method = Some ''GET'', tool_methods = None, tool_graphqlOps = None\<rparr>],
         group_wildcard = None\<rparr>,
        \<lparr>group_category = Write,
         group_tools = [
          \<lparr>tool_id = ''sql_write'', tool_name = ''Change data'',
           tool_description = ''INSERT, UPDATE, DELETE, MERGE, COPY FROM the client, row locks, and functions OneCLI cannot prove read-only'',
           tool_hostPattern = ''*.postgres.onecli.invalid'', tool_hostAliasPatterns = None,
           tool_pathPattern = ''/sql/write'', tool_aliasPatterns = None,
           tool_method = Some ''POST'', tool_methods = None, tool_graphqlOps = None\<rparr>,
          \<lparr>tool_id = ''sql_schema'', tool_name = ''Change the schema'',
           tool_description = ''CREATE, ALTER, DROP, GRANT, TRUNCATE, VACUUM and other schema or server-wide changes'',
           tool_hostPattern = ''*.postgres.onecli.invalid'', tool_hostAliasPatterns = None,
           tool_pathPattern = ''/sql/schema'', tool_aliasPatterns = None,
           tool_method = Some ''POST'', tool_methods = None, tool_graphqlOps = None\<rparr>],
         group_wildcard = None\<rparr>],
      def_unlisted_block = True, def_exhaustive = True, def_unlistedReads_allow = False\<rparr>"

definition googleCalendarPermissions :: app_permission_definition where
  "googleCalendarPermissions =
     \<lparr>def_provider = ''google-calendar'',
      def_groups = [
        \<lparr>group_category = Read,
         group_tools = [
          \<lparr>tool_id = ''list_events'', tool_name = ''List events'',
           tool_description = ''List events on a calendar'',
           tool_hostPattern = ''www.googleapis.com'', tool_hostAliasPatterns = None,
           tool_pathPattern = ''/calendar/v3/calendars/*/events'', tool_aliasPatterns = None,
           tool_method = Some ''GET'', tool_methods = None, tool_graphqlOps = None\<rparr>,
          \<lparr>tool_id = ''get_event'', tool_name = ''Get event'',
           tool_description = ''Retrieve a specific calendar event'',
           tool_hostPattern = ''www.googleapis.com'', tool_hostAliasPatterns = None,
           tool_pathPattern = ''/calendar/v3/calendars/*/events/*'', tool_aliasPatterns = None,
           tool_method = Some ''GET'', tool_methods = None, tool_graphqlOps = None\<rparr>,
          \<lparr>tool_id = ''list_calendars'', tool_name = ''List calendars'',
           tool_description = ''List all calendars for the user'',
           tool_hostPattern = ''www.googleapis.com'', tool_hostAliasPatterns = None,
           tool_pathPattern = ''/calendar/v3/users/me/calendarList'', tool_aliasPatterns = None,
           tool_method = Some ''GET'', tool_methods = None, tool_graphqlOps = None\<rparr>,
          \<lparr>tool_id = ''get_calendar'', tool_name = ''Get calendar'',
           tool_description = ''Retrieve a specific calendar'',
           tool_hostPattern = ''www.googleapis.com'', tool_hostAliasPatterns = None,
           tool_pathPattern = ''/calendar/v3/calendars/*'', tool_aliasPatterns = None,
           tool_method = Some ''GET'', tool_methods = None, tool_graphqlOps = None\<rparr>],
         group_wildcard = Some
          \<lparr>tool_id = ''read_all'', tool_name = ''All read operations'',
           tool_description = ''List and read events, calendars, and settings'',
           tool_hostPattern = ''www.googleapis.com'', tool_hostAliasPatterns = None,
           tool_pathPattern = ''/calendar/v3/*'', tool_aliasPatterns = None,
           tool_method = Some ''GET'', tool_methods = None, tool_graphqlOps = None\<rparr>\<rparr>,
        \<lparr>group_category = Write,
         group_tools = [
          \<lparr>tool_id = ''create_event'', tool_name = ''Create event'',
           tool_description = ''Create a new calendar event'',
           tool_hostPattern = ''www.googleapis.com'', tool_hostAliasPatterns = None,
           tool_pathPattern = ''/calendar/v3/calendars/*/events'', tool_aliasPatterns = None,
           tool_method = Some ''POST'', tool_methods = None, tool_graphqlOps = None\<rparr>,
          \<lparr>tool_id = ''update_event'', tool_name = ''Update event'',
           tool_description = ''Update an existing calendar event'',
           tool_hostPattern = ''www.googleapis.com'', tool_hostAliasPatterns = None,
           tool_pathPattern = ''/calendar/v3/calendars/*/events/*'', tool_aliasPatterns = None,
           tool_method = None, tool_methods = Some [''PUT'', ''PATCH''], tool_graphqlOps = None\<rparr>,
          \<lparr>tool_id = ''delete_event'', tool_name = ''Delete event'',
           tool_description = ''Delete a calendar event'',
           tool_hostPattern = ''www.googleapis.com'', tool_hostAliasPatterns = None,
           tool_pathPattern = ''/calendar/v3/calendars/*/events/*'', tool_aliasPatterns = None,
           tool_method = Some ''DELETE'', tool_methods = None, tool_graphqlOps = None\<rparr>],
         group_wildcard = Some
          \<lparr>tool_id = ''write_all'', tool_name = ''All write operations'',
           tool_description = ''Create, update, and delete events and calendars'',
           tool_hostPattern = ''www.googleapis.com'', tool_hostAliasPatterns = None,
           tool_pathPattern = ''/calendar/v3/*'', tool_aliasPatterns = None,
           tool_method = None, tool_methods = Some [''POST'', ''PUT'', ''PATCH'', ''DELETE''], tool_graphqlOps = None\<rparr>\<rparr>],
      def_unlisted_block = False, def_exhaustive = False, def_unlistedReads_allow = True\<rparr>"

definition linearPermissions :: app_permission_definition where
  "linearPermissions =
     \<lparr>def_provider = ''linear'',
      def_groups = [
        \<lparr>group_category = Read,
         group_tools = [
          \<lparr>tool_id = ''list_issues'', tool_name = ''List issues'',
           tool_description = ''List and filter issues'',
           tool_hostPattern = ''api.linear.app'', tool_hostAliasPatterns = None,
           tool_pathPattern = ''/graphql'', tool_aliasPatterns = None,
           tool_method = None, tool_methods = None, tool_graphqlOps = Some Query\<rparr>,
          \<lparr>tool_id = ''get_issue'', tool_name = ''Get issue'',
           tool_description = ''Retrieve a specific issue'',
           tool_hostPattern = ''api.linear.app'', tool_hostAliasPatterns = None,
           tool_pathPattern = ''/graphql'', tool_aliasPatterns = None,
           tool_method = None, tool_methods = None, tool_graphqlOps = Some Query\<rparr>,
          \<lparr>tool_id = ''list_projects'', tool_name = ''List projects'',
           tool_description = ''List all projects'',
           tool_hostPattern = ''api.linear.app'', tool_hostAliasPatterns = None,
           tool_pathPattern = ''/graphql'', tool_aliasPatterns = None,
           tool_method = None, tool_methods = None, tool_graphqlOps = Some Query\<rparr>,
          \<lparr>tool_id = ''list_teams'', tool_name = ''List teams'',
           tool_description = ''List workspace teams'',
           tool_hostPattern = ''api.linear.app'', tool_hostAliasPatterns = None,
           tool_pathPattern = ''/graphql'', tool_aliasPatterns = None,
           tool_method = None, tool_methods = None, tool_graphqlOps = Some Query\<rparr>,
          \<lparr>tool_id = ''list_labels'', tool_name = ''List labels'',
           tool_description = ''List issue labels'',
           tool_hostPattern = ''api.linear.app'', tool_hostAliasPatterns = None,
           tool_pathPattern = ''/graphql'', tool_aliasPatterns = None,
           tool_method = None, tool_methods = None, tool_graphqlOps = Some Query\<rparr>,
          \<lparr>tool_id = ''search'', tool_name = ''Search'',
           tool_description = ''Search issues and projects'',
           tool_hostPattern = ''api.linear.app'', tool_hostAliasPatterns = None,
           tool_pathPattern = ''/graphql'', tool_aliasPatterns = None,
           tool_method = None, tool_methods = None, tool_graphqlOps = Some Query\<rparr>],
         group_wildcard = None\<rparr>,
        \<lparr>group_category = Write,
         group_tools = [
          \<lparr>tool_id = ''create_issue'', tool_name = ''Create issue'',
           tool_description = ''Create a new issue'',
           tool_hostPattern = ''api.linear.app'', tool_hostAliasPatterns = None,
           tool_pathPattern = ''/graphql'', tool_aliasPatterns = None,
           tool_method = None, tool_methods = None, tool_graphqlOps = Some Mutation\<rparr>,
          \<lparr>tool_id = ''update_issue'', tool_name = ''Update issue'',
           tool_description = ''Update an existing issue'',
           tool_hostPattern = ''api.linear.app'', tool_hostAliasPatterns = None,
           tool_pathPattern = ''/graphql'', tool_aliasPatterns = None,
           tool_method = None, tool_methods = None, tool_graphqlOps = Some Mutation\<rparr>,
          \<lparr>tool_id = ''create_comment'', tool_name = ''Create comment'',
           tool_description = ''Add a comment to an issue'',
           tool_hostPattern = ''api.linear.app'', tool_hostAliasPatterns = None,
           tool_pathPattern = ''/graphql'', tool_aliasPatterns = None,
           tool_method = None, tool_methods = None, tool_graphqlOps = Some Mutation\<rparr>,
          \<lparr>tool_id = ''delete_issue'', tool_name = ''Delete issue'',
           tool_description = ''Delete an issue'',
           tool_hostPattern = ''api.linear.app'', tool_hostAliasPatterns = None,
           tool_pathPattern = ''/graphql'', tool_aliasPatterns = None,
           tool_method = None, tool_methods = None, tool_graphqlOps = Some Mutation\<rparr>],
         group_wildcard = None\<rparr>],
      def_unlisted_block = False, def_exhaustive = False, def_unlistedReads_allow = True\<rparr>"

text \<open>A registry of these four catalogs, for the examples.\<close>

definition exampleRegistry :: registry where
  "exampleRegistry =
     register linearPermissions (register postgresPermissions (register resendPermissions
       (register googleCalendarPermissions [])))"

section \<open>Concrete requests and tools for the examples\<close>

definition calendarRequest :: policy_request where
  "calendarRequest =
     \<lparr>req_host = ''www.googleapis.com'', req_path = ''/calendar/v3/calendars/a/events?maxResults=5'',
      req_method = ''get'', req_body = None, req_agentId = ''a1'', req_userIds = None, req_groupIds = None,
      req_hasInjections = True, req_isLlmHost = False, req_winningConnectionId = None\<rparr>"

definition calendarReads :: app_tool_group where
  "calendarReads = hd (def_groups googleCalendarPermissions)"

text \<open>A read umbrella and a tool of the same group that names no method.\<close>

definition getOnlyUmbrella :: app_tool where
  "getOnlyUmbrella = toolFactory ''api.example.com'' None ''read_all'' ''All'' '''' ''/v1/*'' [''GET''] None"

definition anyMethodTool :: app_tool where
  "anyMethodTool =
     \<lparr>tool_id = ''query'', tool_name = ''Query'', tool_description = '''', tool_hostPattern = ''api.example.com'',
      tool_hostAliasPatterns = None, tool_pathPattern = ''/v1/query'', tool_aliasPatterns = None,
      tool_method = None, tool_methods = None, tool_graphqlOps = None\<rparr>"

definition exampleRequest :: policy_request where
  "exampleRequest =
     \<lparr>req_host = ''api.example.com'', req_path = ''/v1/query'', req_method = ''POST'', req_body = None,
      req_agentId = ''a1'', req_userIds = None, req_groupIds = None, req_hasInjections = True,
      req_isLlmHost = False, req_winningConnectionId = None\<rparr>"

section \<open>Properties\<close>

text \<open>
  A complete umbrella really covers its group.  When the coverage check accepts a wildcard whose
  paths end in their only star and that is not bound to a GraphQL operation, then every request
  that any tool of the group with listed methods (and no git pack path) matches, the wildcard
  matches too, under the same conditions.\<close>

theorem wildcardCoversGroup_sound:
  assumes "wildcardCoversGroup wildcard tools" and "umbrella wildcard"
    and "tool \<in> set tools" and "enumerated tool" and "toolMatches request conditions tool"
  shows "toolMatches request conditions wildcard"
  by (rule wildcard_covers_tool [OF assms(1,3,2,4,5)])

theorem wildcardCoversGroup_sound_witness:
  "toolMatches calendarRequest None (the (group_wildcard calendarReads))"
  by (rule wildcardCoversGroup_sound [of _ "group_tools calendarReads" "hd (group_tools calendarReads)"])
    code_simp+

text \<open>
  The permit surface of an app target never exceeds the provider's catalog: when a target with named
  tools matches, the host is one of the provider's catalog hosts and one of the named ids is a
  tool of the catalog that matches; without a catalog neither form of the target matches.\<close>

theorem app_target_within_catalog:
  "(appTargetMatches reg request provider toolIds conditions \<longrightarrow>
      providerHostMatches reg (req_host request) provider \<and>
      (\<exists>i \<in> set toolIds. \<exists>def g t. getAppPermissionDefinition reg provider = Some def \<and>
         g \<in> set (def_groups def) \<and> t \<in> set (allGroupTools g) \<and> tool_id t = i \<and>
         toolMatches request conditions t)) \<and>
   (getAppPermissionDefinition reg provider = None \<longrightarrow>
      \<not> appTargetMatches reg request provider toolIds conditions \<and>
      \<not> providerHostMatches reg (req_host request) provider)"
proof -
  have "\<exists>i \<in> set toolIds. \<exists>def g t. getAppPermissionDefinition reg provider = Some def \<and>
         g \<in> set (def_groups def) \<and> t \<in> set (allGroupTools g) \<and> tool_id t = i \<and>
         toolMatches request conditions t"
    if "appTargetMatches reg request provider toolIds conditions"
    using that unfolding appTargetMatches_iff by (meson getAppTool_SomeD)
  note tool = this
  have "providerHostMatches reg (req_host request) provider"
    if "appTargetMatches reg request provider toolIds conditions"
    using tool [OF that] toolMatches_hostD unfolding providerHostMatches_iff by metis
  moreover have "\<not> providerHostMatches reg (req_host request) provider"
    if "getAppPermissionDefinition reg provider = None"
    using that by (simp add: providerHostMatches_iff)
  ultimately show ?thesis using tool by blast
qed

theorem app_target_within_catalog_witness:
  "providerHostMatches exampleRegistry (req_host calendarRequest) ''google-calendar''"
proof -
  have "appTargetMatches exampleRegistry calendarRequest ''google-calendar'' [''list_events''] None"
    by code_simp
  then show ?thesis
    using app_target_within_catalog [of exampleRegistry calendarRequest "''google-calendar''" "[''list_events'']" None]
    by blast
qed

text \<open>
  Tool ids are validated exactly against the concrete tools of the catalog, and every accepted id
  resolves to a tool of that id, so a grant never stores an id that would silently match nothing.\<close>

theorem assertToolIdsValid_spec:
  "(assertToolIdsValid reg provider toolIds = Inr () \<longleftrightarrow> set toolIds \<subseteq> set (catalogToolIds reg provider)) \<and>
   (assertToolIdsValid reg provider toolIds = Inr () \<longrightarrow>
      (\<forall>i \<in> set toolIds. \<exists>t. getAppTool reg provider i = Some t \<and> tool_id t = i))"
proof -
  have "\<exists>t. getAppTool reg provider i = Some t \<and> tool_id t = i" if "i \<in> set (catalogToolIds reg provider)" for i
  proof -
    from that obtain def g t where d: "getAppPermissionDefinition reg provider = Some def"
      "g \<in> set (def_groups def)" "t \<in> set (allGroupTools g)" "tool_id t = i"
      by (auto simp: set_catalogToolIds set_allGroupTools)
    then obtain u where "findTool i (def_groups def) = Some u" using findTool_Some by blast
    with d(1) show ?thesis by (auto simp: getAppTool_def dest: findTool_SomeD)
  qed
  then show ?thesis using assertToolIdsValid_iff by blast
qed

theorem assertToolIdsValid_spec_witness:
  "\<exists>t. getAppTool exampleRegistry ''resend'' ''send_email'' = Some t \<and> tool_id t = ''send_email''"
proof -
  have "assertToolIdsValid exampleRegistry ''resend'' [''send_email''] = Inr ()" by code_simp
  then show ?thesis
    using assertToolIdsValid_spec [of exampleRegistry "''resend''" "[''send_email'']"] by auto
qed

text \<open>
  The coverage check reads a tool without methods, which means any method, as covered by every
  method set: it accepts a GET-only umbrella over a tool that also matches POST requests, and the
  umbrella misses such a request.\<close>

theorem wildcardCoversGroup_any_method_gap:
  "wildcardCoversGroup getOnlyUmbrella [anyMethodTool] \<and>
   toolMatches exampleRequest None anyMethodTool \<and> \<not> toolMatches exampleRequest None getOnlyUmbrella"
  by (intro conjI; code_simp)

end
