(* ===== verification/Evaluator.thy ===== *)
theory Evaluator
  imports Catalogs
begin

text \<open>
  The first-match policy engine of
  \<^verbatim>\<open>packages/api/src/services/policy-translation/evaluator.ts\<close> and the strictness rank of
  \<^verbatim>\<open>strictness.ts\<close>.  The registry of permission catalogs is the argument \<^verbatim>\<open>reg\<close>.
\<close>

section \<open>Definitions\<close>

definition strictnessRank :: "new_rule \<Rightarrow> nat" where
  "strictnessRank rule =
     (if rule_action_of rule = Block then 0
      else if rule_requireApproval rule then 1
      else if rule_rateLimit rule \<noteq> None then 2
      else 3)"

definition identityMatches :: "new_rule \<Rightarrow> policy_request \<Rightarrow> bool" where
  "identityMatches rule request =
     (length (rule_identities rule) = 0 \<or>
      list_ex (\<lambda>i. case i of
          AgentIdentity a \<Rightarrow> a = req_agentId request
        | UserIdentity u \<Rightarrow> u \<in> set (case req_userIds request of None \<Rightarrow> [] | Some us \<Rightarrow> us)
        | GroupIdentity g \<Rightarrow> g \<in> set (case req_groupIds request of None \<Rightarrow> [] | Some gs \<Rightarrow> gs))
        (rule_identities rule))"

definition methodAllows :: "string option \<Rightarrow> string \<Rightarrow> bool" where
  "methodAllows raw method =
     (let trimmed = js_trim (case raw of None \<Rightarrow> [] | Some r \<Rightarrow> r);
          except = starts_with trimmed ''!'';
          listed = filter (\<lambda>m. length m > 0)
            (map (\<lambda>m. js_upper (js_trim m))
              (split_on (CHR '','') (if except then drop 1 trimmed else trimmed)))
      in if length listed = 0 then True
         else (js_upper method \<in> set listed) \<noteq> except)"

definition targetMatches :: "registry \<Rightarrow> new_target \<Rightarrow> new_rule \<Rightarrow> policy_request \<Rightarrow> bool" where
  "targetMatches reg target rule request =
     (case target of
        NetworkTarget hostPattern pathPattern method \<Rightarrow>
          hostMatches (req_host request) hostPattern \<and>
          endpointMatches request
            \<lparr>ep_pathPattern = (case pathPattern of None \<Rightarrow> ''*'' | Some p \<Rightarrow> p),
             ep_method = method, ep_conditions = rule_conditions rule\<rparr>
      | AppTarget provider tools connectionScope \<Rightarrow>
          if length tools = 0 then providerHostMatches reg (req_host request) provider
          else appTargetMatches reg request provider tools (rule_conditions rule)
      | ConnectionTarget connectionId provider tools method \<Rightarrow>
          (case provider of
             None \<Rightarrow> False
           | Some p \<Rightarrow>
               if req_winningConnectionId request = None \<or>
                  req_winningConnectionId request \<noteq> Some connectionId then False
               else if length tools = 0 then
                 (if \<not> methodAllows method (req_method request) then False
                  else providerHostMatches reg (req_host request) p)
               else appTargetMatches reg request p tools (rule_conditions rule))
      | SecretTarget hostPatterns \<Rightarrow>
          list_ex (\<lambda>h. hostMatches (req_host request) h) hostPatterns)"

definition ruleMatches :: "registry \<Rightarrow> new_rule \<Rightarrow> policy_request \<Rightarrow> bool" where
  "ruleMatches reg rule request =
     (identityMatches rule request \<and>
      length (rule_targets rule) > 0 \<and>
      list_ex (\<lambda>t. targetMatches reg t rule request) (rule_targets rule))"

record level_match =
  lm_rank :: nat
  lm_rule :: new_rule

text \<open>The loop over the rules in priority order.\<close>

fun firstMatching :: "registry \<Rightarrow> new_rule list \<Rightarrow> policy_request \<Rightarrow> level_match option" where
  "firstMatching reg [] request = None"
| "firstMatching reg (rule # ordered) request =
     (if ruleMatches reg rule request
      then Some \<lparr>lm_rank = strictnessRank rule, lm_rule = rule\<rparr>
      else firstMatching reg ordered request)"

definition firstMatch :: "registry \<Rightarrow> new_rule list \<Rightarrow> policy_request \<Rightarrow> level_match option" where
  "firstMatch reg rules request = firstMatching reg (sort_key rule_priority rules) request"

definition toDecision :: "new_rule \<Rightarrow> decision" where
  "toDecision rule =
     (if rule_action_of rule = Block then
        \<lparr>dec_action = Block, dec_requireApproval = False, dec_rateLimit = None,
         dec_rateLimitWindow = None, dec_byDefault = False\<rparr>
      else if rule_requireApproval rule then
        \<lparr>dec_action = Allow, dec_requireApproval = True, dec_rateLimit = None,
         dec_rateLimitWindow = None, dec_byDefault = False\<rparr>
      else if rule_rateLimit rule \<noteq> None \<and> rule_rateLimitWindow rule \<noteq> None then
        \<lparr>dec_action = Allow, dec_requireApproval = False, dec_rateLimit = rule_rateLimit rule,
         dec_rateLimitWindow = rule_rateLimitWindow rule, dec_byDefault = False\<rparr>
      else
        \<lparr>dec_action = Allow, dec_requireApproval = False, dec_rateLimit = None,
         dec_rateLimitWindow = None, dec_byDefault = False\<rparr>)"

text \<open>The strictest of the surviving candidates, the earlier one on a tie.\<close>

definition stricter :: "level_match \<Rightarrow> level_match \<Rightarrow> level_match" where
  "stricter a b = (if lm_rank b < lm_rank a then b else a)"

definition evaluatePolicyOutcome :: "registry \<Rightarrow> new_rule list \<Rightarrow> policy_request \<Rightarrow> policy_outcome" where
  "evaluatePolicyOutcome reg rules request =
     (let orgDefault = find (\<lambda>r. rule_isDefault r \<and> rule_scope r = Organization) rules;
          workspaceDefault = find (\<lambda>r. rule_isDefault r \<and> rule_scope r = Workspace) rules;
          orgExplicit = filter (\<lambda>r. \<not> rule_isDefault r \<and> rule_scope r = Organization) rules;
          workspaceExplicit = filter (\<lambda>r. \<not> rule_isDefault r \<and> rule_scope r = Workspace) rules;
          orgMatch = firstMatch reg orgExplicit request;
          workspaceMatch = firstMatch reg workspaceExplicit request;
          enforceDeny = (req_hasInjections request \<and> \<not> req_isLlmHost request);
          orgDefaultBlocks = (map_option rule_action_of orgDefault = Some Block \<and> enforceDeny);
          workspaceDefaultBlocks =
            (map_option rule_action_of workspaceDefault = Some Block \<and> enforceDeny);
          effectiveOrg =
            (if workspaceMatch = None \<and>
                map_option (\<lambda>m. rule_action_of (lm_rule m)) orgMatch = Some Allow \<and>
                workspaceDefaultBlocks
             then None else orgMatch);
          effectiveWorkspace =
            (if orgMatch = None \<and>
                map_option (\<lambda>m. rule_action_of (lm_rule m)) workspaceMatch = Some Allow \<and>
                orgDefaultBlocks
             then None else workspaceMatch);
          candidates = List.map_filter (\<lambda>m. m) [effectiveOrg, effectiveWorkspace]
      in if length candidates > 0
         then RuleOutcome (lm_rule (foldl stricter (hd candidates) (tl candidates)))
         else if orgDefaultBlocks then DenyDefault Organization orgDefault
         else if workspaceDefaultBlocks then DenyDefault Workspace workspaceDefault
         else AllowOutcome enforceDeny)"

definition outcomeToDecision :: "policy_outcome \<Rightarrow> decision" where
  "outcomeToDecision outcome =
     (case outcome of
        RuleOutcome rule \<Rightarrow> toDecision rule
      | DenyDefault level rule \<Rightarrow>
          \<lparr>dec_action = Block, dec_requireApproval = False, dec_rateLimit = None,
           dec_rateLimitWindow = None, dec_byDefault = True\<rparr>
      | AllowOutcome managed \<Rightarrow>
          \<lparr>dec_action = Allow, dec_requireApproval = False, dec_rateLimit = None,
           dec_rateLimitWindow = None, dec_byDefault = False\<rparr>)"

definition evaluateNew :: "registry \<Rightarrow> new_rule list \<Rightarrow> policy_request \<Rightarrow> decision" where
  "evaluateNew reg rules request = outcomeToDecision (evaluatePolicyOutcome reg rules request)"

section \<open>The contract of a level\<close>

text \<open>
  What one level promises: its choice is a matching rule, no matching rule has a smaller
  priority, and it chooses whenever something matches.
\<close>

locale first_match_level =
  fixes pick :: "'r list \<Rightarrow> 'q \<Rightarrow> 'r option"
    and applies :: "'r \<Rightarrow> 'q \<Rightarrow> bool"
    and priority :: "'r \<Rightarrow> int"
  assumes pick_applies: "pick rs q = Some r \<Longrightarrow> r \<in> set rs \<and> applies r q"
    and pick_least: "pick rs q = Some r \<Longrightarrow> r' \<in> set rs \<Longrightarrow> applies r' q \<Longrightarrow> priority r \<le> priority r'"
    and pick_total: "r \<in> set rs \<Longrightarrow> applies r q \<Longrightarrow> pick rs q \<noteq> None"
    and pick_relevant: "pick rs q = pick (filter (\<lambda>r. applies r q) rs) q"
begin

lemma pick_None_iff: "pick rs q = None \<longleftrightarrow> (\<forall>r \<in> set rs. \<not> applies r q)"
  using pick_applies [of rs q] pick_total [of _ rs q] by (cases "pick rs q") auto

text \<open>Rules that do not apply can be dropped, whatever else the filter does.\<close>

lemma pick_filter:
  assumes "\<And>r. r \<in> set rs \<Longrightarrow> applies r q \<Longrightarrow> P r"
  shows "pick (filter P rs) q = pick rs q"
proof -
  have "filter (\<lambda>r. applies r q) (filter P rs) = filter (\<lambda>r. applies r q) rs"
    using assms by (auto intro: filter_cong)
  then show ?thesis using pick_relevant [of "filter P rs" q] pick_relevant [of rs q] by simp
qed

text \<open>A rule behind a strictly earlier one that applies wherever it does is never chosen.\<close>

lemma pick_shadowed:
  assumes "e \<in> set rs" and "priority e < priority r" and "\<And>q. applies r q \<Longrightarrow> applies e q"
  shows "pick rs q \<noteq> Some r"
  using assms pick_applies [of rs q r] pick_least [of rs q r e] by auto

text \<open>With distinct priorities the choice does not depend on the order of the rules.\<close>

lemma pick_order_independent:
  assumes "set rs = set rs'" and "inj_on priority (set rs)"
  shows "pick rs q = pick rs' q"
proof (cases "pick rs q")
  case None
  then show ?thesis using pick_None_iff [of rs q] pick_None_iff [of rs' q] assms(1) by simp
next
  case (Some r)
  then have r: "r \<in> set rs'" "applies r q" using pick_applies assms(1) by blast+
  then obtain r' where r': "pick rs' q = Some r'" using pick_total by fastforce
  then have "r' \<in> set rs" "applies r' q" using pick_applies assms(1) by blast+
  with Some r r' have "priority r = priority r'"
    by (meson antisym pick_least)
  with \<open>r' \<in> set rs\<close> r(1) assms have "r = r'" by (auto dest: inj_onD)
  with Some r' show ?thesis by simp
qed

end

lemma firstMatching_find:
  "firstMatching reg rs q =
     map_option (\<lambda>r. \<lparr>lm_rank = strictnessRank r, lm_rule = r\<rparr>) (find (\<lambda>r. ruleMatches reg r q) rs)"
  by (induction rs) auto

lemma find_filter: "find P (filter P xs) = find P xs"
  by (induction xs) auto

lemma find_sorted_least:
  "sorted (map k xs) \<Longrightarrow> find P xs = Some x \<Longrightarrow> y \<in> set xs \<Longrightarrow> P y \<Longrightarrow> k x \<le> (k y :: int)"
  by (induction xs) (auto split: if_splits)

definition levelPick :: "registry \<Rightarrow> new_rule list \<Rightarrow> policy_request \<Rightarrow> new_rule option" where
  "levelPick reg rs q = map_option lm_rule (firstMatch reg rs q)"

lemma levelPick_find:
  "levelPick reg rs q = find (\<lambda>r. ruleMatches reg r q) (sort_key rule_priority rs)"
  by (simp add: levelPick_def firstMatch_def firstMatching_find option.map_comp o_def option.map_ident)

lemma firstMatch_levelPick:
  "firstMatch reg rs q =
     map_option (\<lambda>r. \<lparr>lm_rank = strictnessRank r, lm_rule = r\<rparr>) (levelPick reg rs q)"
  by (simp add: firstMatch_def firstMatching_find levelPick_find)

interpretation engine: first_match_level "levelPick reg" "ruleMatches reg" rule_priority for reg
proof
  fix rs :: "new_rule list" and q r
  assume "levelPick reg rs q = Some r"
  then show "r \<in> set rs \<and> ruleMatches reg r q"
    by (auto simp: levelPick_find find_Some_iff in_set_conv_nth)
      (metis length_sort nth_mem set_sort in_set_conv_nth)
next
  fix rs :: "new_rule list" and q r r'
  assume "levelPick reg rs q = Some r" "r' \<in> set rs" "ruleMatches reg r' q"
  then show "rule_priority r \<le> rule_priority r'"
    unfolding levelPick_find
    by (intro find_sorted_least [of rule_priority "sort_key rule_priority rs" "\<lambda>r. ruleMatches reg r q"])
      simp_all
next
  fix rs :: "new_rule list" and q r
  assume "r \<in> set rs" "ruleMatches reg r q"
  then show "levelPick reg rs q \<noteq> None" by (auto simp: levelPick_find find_None_iff)
next
  fix rs :: "new_rule list" and q
  show "levelPick reg rs q = levelPick reg (filter (\<lambda>r. ruleMatches reg r q) rs) q"
    unfolding levelPick_find by (metis filter_sort find_filter)
qed

section \<open>The outcome by levels\<close>

text \<open>The rules of one level, the rule it picks and the Block of its Default Rule.\<close>

definition explicitAt :: "level \<Rightarrow> new_rule list \<Rightarrow> new_rule list" where
  "explicitAt l rules = filter (\<lambda>r. \<not> rule_isDefault r \<and> rule_scope r = l) rules"

definition defaultAt :: "level \<Rightarrow> new_rule list \<Rightarrow> new_rule option" where
  "defaultAt l rules = find (\<lambda>r. rule_isDefault r \<and> rule_scope r = l) rules"

definition managed :: "policy_request \<Rightarrow> bool" where
  "managed q = (req_hasInjections q \<and> \<not> req_isLlmHost q)"

definition pickAt :: "registry \<Rightarrow> level \<Rightarrow> new_rule list \<Rightarrow> policy_request \<Rightarrow> new_rule option" where
  "pickAt reg l rules q = levelPick reg (explicitAt l rules) q"

definition floorAt :: "level \<Rightarrow> new_rule list \<Rightarrow> policy_request \<Rightarrow> bool" where
  "floorAt l rules q = (map_option rule_action_of (defaultAt l rules) = Some Block \<and> managed q)"

lemmas level_defs = explicitAt_def defaultAt_def managed_def pickAt_def floorAt_def

lemma evaluatePolicyOutcome_levels:
  "evaluatePolicyOutcome reg rules q =
     (case (pickAt reg Organization rules q, pickAt reg Workspace rules q) of
        (Some a, Some b) \<Rightarrow> RuleOutcome (if strictnessRank b < strictnessRank a then b else a)
      | (Some a, None) \<Rightarrow>
          if rule_action_of a = Allow \<and> floorAt Workspace rules q
          then (if floorAt Organization rules q then DenyDefault Organization (defaultAt Organization rules)
                else DenyDefault Workspace (defaultAt Workspace rules))
          else RuleOutcome a
      | (None, Some b) \<Rightarrow>
          if rule_action_of b = Allow \<and> floorAt Organization rules q
          then DenyDefault Organization (defaultAt Organization rules)
          else RuleOutcome b
      | (None, None) \<Rightarrow>
          if floorAt Organization rules q then DenyDefault Organization (defaultAt Organization rules)
          else if floorAt Workspace rules q then DenyDefault Workspace (defaultAt Workspace rules)
          else AllowOutcome (managed q))"
  unfolding evaluatePolicyOutcome_def firstMatch_levelPick Let_def level_defs
  by (cases "levelPick reg (filter (\<lambda>r. \<not> rule_isDefault r \<and> rule_scope r = Organization) rules) q";
      cases "levelPick reg (filter (\<lambda>r. \<not> rule_isDefault r \<and> rule_scope r = Workspace) rules) q")
    (auto simp: map_filter_simps stricter_def)

lemma evaluatePolicyOutcome_cong:
  assumes "\<And>l. pickAt reg l rules q = pickAt reg l rules' q"
    and "\<And>l. defaultAt l rules = defaultAt l rules'"
  shows "evaluatePolicyOutcome reg rules q = evaluatePolicyOutcome reg rules' q"
  unfolding evaluatePolicyOutcome_levels floorAt_def assms ..

text \<open>How strict an outcome is, on the scale of \<^const>\<open>strictnessRank\<close>.\<close>

definition outcomeRank :: "policy_outcome \<Rightarrow> nat" where
  "outcomeRank out =
     (case out of RuleOutcome r \<Rightarrow> strictnessRank r | DenyDefault l r \<Rightarrow> 0 | AllowOutcome m \<Rightarrow> 3)"

definition rulesAt :: "level \<Rightarrow> new_rule list \<Rightarrow> new_rule list" where
  "rulesAt l rules = filter (\<lambda>r. rule_scope r = l) rules"

lemma level_rulesAt [simp]:
  "explicitAt l (rulesAt l rules) = explicitAt l rules"
  "l \<noteq> l' \<Longrightarrow> explicitAt l' (rulesAt l rules) = []"
  "defaultAt l (rulesAt l rules) = defaultAt l rules"
  "l \<noteq> l' \<Longrightarrow> defaultAt l' (rulesAt l rules) = None"
proof -
  show "explicitAt l (rulesAt l rules) = explicitAt l rules"
    by (auto simp: explicitAt_def rulesAt_def intro: filter_cong)
  show "defaultAt l (rulesAt l rules) = defaultAt l rules"
    by (induction rules) (auto simp: defaultAt_def rulesAt_def)
qed (auto simp: explicitAt_def defaultAt_def rulesAt_def find_None_iff filter_empty_conv)

lemma pickAt_rulesAt [simp]:
  "pickAt reg l (rulesAt l rules) q = pickAt reg l rules q"
  "l \<noteq> l' \<Longrightarrow> pickAt reg l' (rulesAt l rules) q = None"
  by (simp_all add: pickAt_def engine.pick_None_iff)

lemma floorAt_rulesAt [simp]:
  "floorAt l (rulesAt l rules) q = floorAt l rules q"
  "l \<noteq> l' \<Longrightarrow> \<not> floorAt l' (rulesAt l rules) q"
  by (simp_all add: floorAt_def)

lemma strictnessRank_Block: "strictnessRank r = 0 \<longleftrightarrow> rule_action_of r = Block"
  by (simp add: strictnessRank_def)

lemma strictnessRank_le: "strictnessRank r \<le> 3"
  by (simp add: strictnessRank_def)

lemma not_Allow: "a \<noteq> Allow \<longleftrightarrow> a = Block"
  by (cases a) auto

lemma outcomeRank_strictest:
  "outcomeRank (evaluatePolicyOutcome reg rules q) =
     min (outcomeRank (evaluatePolicyOutcome reg (rulesAt Organization rules) q))
         (outcomeRank (evaluatePolicyOutcome reg (rulesAt Workspace rules) q))"
  unfolding evaluatePolicyOutcome_levels
  using strictnessRank_le strictnessRank_Block
  by (auto simp: outcomeRank_def min_def not_Allow antisym split: option.splits)

lemma toDecision_action [simp]: "dec_action (toDecision r) = rule_action_of r"
  by (cases "rule_action_of r") (simp_all add: toDecision_def)

lemma toDecision_byDefault [simp]: "\<not> dec_byDefault (toDecision r)"
  by (simp add: toDecision_def)

lemma outcomeToDecision_byDefault [simp]:
  "dec_byDefault (outcomeToDecision out) \<longleftrightarrow> (\<exists>l r. out = DenyDefault l r)"
  by (cases out) (simp_all add: outcomeToDecision_def)

lemma evaluateNew_action:
  "dec_action (evaluateNew reg rules q) = Block \<longleftrightarrow> outcomeRank (evaluatePolicyOutcome reg rules q) = 0"
  by (auto simp: evaluateNew_def outcomeToDecision_def outcomeRank_def strictnessRank_Block
      split: policy_outcome.splits)



section \<open>Rules that can never match\<close>

text \<open>
  A target that fails closed: an unresolved connection, a provider without a catalog, a tool
  list the catalog does not know, or a secret that resolved to no host.
\<close>

definition deadTarget :: "registry \<Rightarrow> new_target \<Rightarrow> bool" where
  "deadTarget reg target =
     (case target of
        NetworkTarget h p m \<Rightarrow> False
      | AppTarget provider tools s \<Rightarrow>
          getAppPermissionDefinition reg provider = None \<or>
          tools \<noteq> [] \<and> list_all (\<lambda>i. getAppTool reg provider i = None) tools
      | ConnectionTarget c provider tools m \<Rightarrow>
          (case provider of
             None \<Rightarrow> True
           | Some p \<Rightarrow> getAppPermissionDefinition reg p = None \<or>
               tools \<noteq> [] \<and> list_all (\<lambda>i. getAppTool reg p i = None) tools)
      | SecretTarget hs \<Rightarrow> hs = [])"

definition inertRule :: "registry \<Rightarrow> new_rule \<Rightarrow> bool" where
  "inertRule reg rule = (\<not> rule_isDefault rule \<and> list_all (deadTarget reg) (rule_targets rule))"

lemma appTargetMatches_unknown:
  "list_all (\<lambda>i. getAppTool reg provider i = None) tools \<Longrightarrow> \<not> appTargetMatches reg q provider tools cs"
  by (auto simp: appTargetMatches_iff list_all_iff)

lemma no_catalog_no_match:
  "getAppPermissionDefinition reg provider = None \<Longrightarrow> \<not> providerHostMatches reg host provider"
  "getAppPermissionDefinition reg provider = None \<Longrightarrow> \<not> appTargetMatches reg q provider tools cs"
  by (auto simp: providerHostMatches_def appTargetMatches_iff getAppTool_def)

lemma deadTarget_no_match: "deadTarget reg t \<Longrightarrow> \<not> targetMatches reg t rule q"
  by (auto simp: deadTarget_def targetMatches_def appTargetMatches_unknown no_catalog_no_match
      split: new_target.splits option.splits if_splits)

lemma inertRule_no_match: "inertRule reg rule \<Longrightarrow> \<not> ruleMatches reg rule q"
  by (auto simp: inertRule_def ruleMatches_def list_ex_iff list_all_iff deadTarget_no_match)

lemma pickAt_live: "pickAt reg l (filter (\<lambda>r. \<not> inertRule reg r) rules) q = pickAt reg l rules q"
proof -
  have "explicitAt l (filter (\<lambda>r. \<not> inertRule reg r) rules) =
      filter (\<lambda>r. \<not> inertRule reg r) (explicitAt l rules)"
    by (auto simp: explicitAt_def intro: filter_cong)
  then show ?thesis unfolding pickAt_def
    using engine.pick_filter [of "explicitAt l rules" reg q "\<lambda>r. \<not> inertRule reg r"] inertRule_no_match
    by auto
qed

lemma defaultAt_live: "defaultAt l (filter (\<lambda>r. \<not> inertRule reg r) rules) = defaultAt l rules"
  by (induction rules) (auto simp: defaultAt_def inertRule_def)

lemma defaultAt_None:
  "defaultAt l rules = None \<longleftrightarrow> (\<forall>r \<in> set rules. \<not> (rule_isDefault r \<and> rule_scope r = l))"
  by (auto simp: defaultAt_def find_None_iff)

lemma floorAt_live: "floorAt l (filter (\<lambda>r. \<not> inertRule reg r) rules) q = floorAt l rules q"
  by (simp add: floorAt_def defaultAt_live)

lemma ruleMatches_connection:
  assumes "ruleMatches reg rule q"
    and "\<forall>t \<in> set (rule_targets rule). \<exists>c p ts m. t = ConnectionTarget c p ts m"
  shows "\<exists>c p ts m. ConnectionTarget c (Some p) ts m \<in> set (rule_targets rule) \<and>
    req_winningConnectionId q = Some c \<and> providerHostMatches reg (req_host q) p"
proof -
  from assms(1) obtain t where t: "t \<in> set (rule_targets rule)" "targetMatches reg t rule q"
    by (auto simp: ruleMatches_def list_ex_iff)
  with assms(2) obtain c p ts m where c: "t = ConnectionTarget c p ts m" by blast
  with t(2) obtain p' where p: "p = Some p'" "req_winningConnectionId q = Some c"
    and m: "providerHostMatches reg (req_host q) p' \<or> appTargetMatches reg q p' ts (rule_conditions rule)"
    by (auto simp: targetMatches_def split: option.splits if_splits)
  have "providerHostMatches reg (req_host q) p'"
    using m by (auto simp: providerHostMatches_iff appTargetMatches_iff
        dest!: toolMatches_hostD elim!: getAppTool_SomeD)
  with t c p show ?thesis by blast
qed


section \<open>Method filters\<close>

lemma js_upper_simps [simp]: "js_upper [] = []" "js_upper (c # s) = ascii_upper_char c # js_upper s"
  by (simp_all add: js_upper_def)

lemma methodAllows_read_write:
  "methodAllows (Some ''GET,HEAD'') m \<longleftrightarrow> js_upper m \<in> {''GET'', ''HEAD''}"
  "methodAllows (Some ''!GET,HEAD'') m \<longleftrightarrow> js_upper m \<notin> {''GET'', ''HEAD''}"
proof -
  have "js_trim ''GET,HEAD'' = ''GET,HEAD''" "js_trim ''!GET,HEAD'' = ''!GET,HEAD''"
    "js_trim ''GET'' = ''GET''" "js_trim ''HEAD'' = ''HEAD''"
    "js_upper ''GET'' = ''GET''" "js_upper ''HEAD'' = ''HEAD''" by code_simp+
  then show "methodAllows (Some ''GET,HEAD'') m \<longleftrightarrow> js_upper m \<in> {''GET'', ''HEAD''}"
    "methodAllows (Some ''!GET,HEAD'') m \<longleftrightarrow> js_upper m \<notin> {''GET'', ''HEAD''}"
    by (simp_all add: methodAllows_def Let_def del: js_upper_simps)
qed

section \<open>Concrete rules for the examples\<close>

definition sampleRequest :: policy_request where
  "sampleRequest =
     \<lparr>req_host = ''api.resend.com'', req_path = ''/emails'', req_method = ''GET'', req_body = None,
      req_agentId = ''a1'', req_userIds = None, req_groupIds = None, req_hasInjections = True,
      req_isLlmHost = False, req_winningConnectionId = Some ''c1''\<rparr>"

definition sampleAllow :: new_rule where
  "sampleAllow =
     \<lparr>rule_scope = Workspace, rule_priority = 1, rule_isDefault = False, rule_source_of = Grant,
      rule_name = ''grant'', rule_identities = [AgentIdentity ''a1''],
      rule_targets = [ConnectionTarget ''c1'' (Some ''resend'') [] (Some ''GET,HEAD'')],
      rule_action_of = Allow, rule_requireApproval = True, rule_rateLimit = None,
      rule_rateLimitWindow = None, rule_conditions = None\<rparr>"

definition sampleBlock :: new_rule where
  "sampleBlock =
     \<lparr>rule_scope = Workspace, rule_priority = 2, rule_isDefault = False, rule_source_of = Custom,
      rule_name = ''no mail'', rule_identities = [],
      rule_targets = [NetworkTarget ''*.resend.com'' (Some ''/emails/*'') None],
      rule_action_of = Block, rule_requireApproval = False, rule_rateLimit = None,
      rule_rateLimitWindow = None, rule_conditions = None\<rparr>"

section \<open>Properties\<close>

text \<open>
  C1: Strictest level wins.  The engine's outcome over both levels is exactly as strict as the
  stricter of the outcomes of the organization's rules alone and of the workspace's rules alone
  (block, then approval, then rate limit, then allow).  In particular no workspace rule or default
  loosens what the organization decides, none of the organization loosens the workspace, and the
  request is blocked exactly when one of the levels blocks it.\<close>

theorem evaluate_strictest_level:
  "outcomeRank (evaluatePolicyOutcome reg rules q) =
     min (outcomeRank (evaluatePolicyOutcome reg (rulesAt Organization rules) q))
         (outcomeRank (evaluatePolicyOutcome reg (rulesAt Workspace rules) q)) \<and>
   (dec_action (evaluateNew reg rules q) = Block \<longleftrightarrow>
      dec_action (evaluateNew reg (rulesAt Organization rules) q) = Block \<or>
      dec_action (evaluateNew reg (rulesAt Workspace rules) q) = Block)"
  using outcomeRank_strictest [of reg rules q] by (auto simp: evaluateNew_action)

text \<open>
  Fail closed.  Rules whose targets are all dead (none at all, an unresolved connection, a
  provider without a catalog, unknown tools, a secret without hosts) never decide anything: for
  every request, removing them leaves the outcome unchanged.\<close>

theorem evaluate_ignores_inert_rules:
  "evaluatePolicyOutcome reg (filter (\<lambda>r. \<not> inertRule reg r) rules) q =
   evaluatePolicyOutcome reg rules q"
  unfolding evaluatePolicyOutcome_levels pickAt_live defaultAt_live floorAt_live ..

text \<open>
  C21: The outcome does not depend on the order in which the rules are given, as long as the explicit
  rules of each level have distinct priorities and each level has at most one Default Rule.\<close>

theorem evaluate_order_independent:
  assumes "set rules = set rules'"
    and "\<forall>l. inj_on rule_priority (set (explicitAt l rules))"
    and "\<forall>r \<in> set rules. \<forall>r' \<in> set rules. rule_isDefault r \<and> rule_isDefault r' \<and>
           rule_scope r = rule_scope r' \<longrightarrow> r = r'"
  shows "evaluatePolicyOutcome reg rules q = evaluatePolicyOutcome reg rules' q"
proof -
  have "pickAt reg l rules q = pickAt reg l rules' q" for l
    unfolding pickAt_def using assms(1,2)
    by (intro engine.pick_order_independent) (auto simp: explicitAt_def)
  moreover have "defaultAt l rules = defaultAt l rules'" for l
  proof (cases "defaultAt l rules")
    case None
    then have "defaultAt l rules' = None" using assms(1) by (simp add: defaultAt_None)
    with None show ?thesis by simp
  next
    case (Some r)
    then have r: "r \<in> set rules'" "rule_isDefault r" "rule_scope r = l"
      using assms(1) by (auto simp: defaultAt_def find_Some_iff)
    then have "defaultAt l rules' \<noteq> None" by (auto simp: defaultAt_def find_None_iff)
    then obtain r' where r': "defaultAt l rules' = Some r'" by blast
    then have "r' \<in> set rules'" "rule_isDefault r'" "rule_scope r' = l"
      by (auto simp: defaultAt_def find_Some_iff)
    with r assms(1,3) have "r = r'" by simp
    with Some r' show ?thesis by simp
  qed
  ultimately show ?thesis by (rule evaluatePolicyOutcome_cong)
qed

theorem evaluate_order_independent_witness:
  "evaluatePolicyOutcome exampleRegistry [sampleAllow, sampleBlock] sampleRequest =
   evaluatePolicyOutcome exampleRegistry [sampleBlock, sampleAllow] sampleRequest"
proof (rule evaluate_order_independent)
  show "set [sampleAllow, sampleBlock] = set [sampleBlock, sampleAllow]" by auto
  show "\<forall>l. inj_on rule_priority (set (explicitAt l [sampleAllow, sampleBlock]))"
    by (auto simp: explicitAt_def sampleAllow_def sampleBlock_def inj_on_def)
  show "\<forall>r \<in> set [sampleAllow, sampleBlock]. \<forall>r' \<in> set [sampleAllow, sampleBlock].
      rule_isDefault r \<and> rule_isDefault r' \<and> rule_scope r = rule_scope r' \<longrightarrow> r = r'"
    by (simp add: sampleAllow_def sampleBlock_def)
qed

text \<open>
  When a denial is by default.  A request is denied by default exactly when it is managed (a
  credential was injected and the host is no model provider), no surviving explicit rule of either
  level decides, and a level's Default Rule blocks: the organization's default gives way only to an
  organization rule, the workspace's only to a workspace rule, and a block at either level is
  never reported as a default.\<close>

theorem evaluate_byDefault_iff:
  "dec_byDefault (evaluateNew reg rules q) \<longleftrightarrow> managed q \<and>
     (case (pickAt reg Organization rules q, pickAt reg Workspace rules q) of
        (None, None) \<Rightarrow> map_option rule_action_of (defaultAt Organization rules) = Some Block \<or>
                        map_option rule_action_of (defaultAt Workspace rules) = Some Block
      | (Some a, None) \<Rightarrow> rule_action_of a = Allow \<and>
                          map_option rule_action_of (defaultAt Workspace rules) = Some Block
      | (None, Some b) \<Rightarrow> rule_action_of b = Allow \<and>
                          map_option rule_action_of (defaultAt Organization rules) = Some Block
      | (Some a, Some b) \<Rightarrow> False)"
  unfolding evaluateNew_def evaluatePolicyOutcome_levels floorAt_def outcomeToDecision_byDefault
  by (cases "pickAt reg Organization rules q"; cases "pickAt reg Workspace rules q") auto

text \<open>
  A rule whose targets are all connections binds to the account: it matches only a request whose
  winning injected connection is one of its resolved targets, on a host of that connection's
  provider.\<close>

theorem connection_rule_binds_account:
  assumes "ruleMatches reg rule q"
    and "\<forall>t \<in> set (rule_targets rule). \<exists>c p ts m. t = ConnectionTarget c p ts m"
  shows "\<exists>c p ts m. ConnectionTarget c (Some p) ts m \<in> set (rule_targets rule) \<and>
    req_winningConnectionId q = Some c \<and> providerHostMatches reg (req_host q) p"
  by (rule ruleMatches_connection [OF assms])

theorem connection_rule_binds_account_witness:
  "\<exists>c p ts m. ConnectionTarget c (Some p) ts m \<in> set (rule_targets sampleAllow) \<and>
    req_winningConnectionId sampleRequest = Some c \<and>
    providerHostMatches exampleRegistry (req_host sampleRequest) p"
proof (rule connection_rule_binds_account)
  show "ruleMatches exampleRegistry sampleAllow sampleRequest" by code_simp
  show "\<forall>t \<in> set (rule_targets sampleAllow). \<exists>c p ts m. t = ConnectionTarget c p ts m"
    by (simp add: sampleAllow_def)
qed



end
