(* ===== verification/ResourceAxis.thy ===== *)
theory ResourceAxis
  imports PathMatch
begin

text \<open>
  Session policies, the resource scope of an injected credential
  (\<^verbatim>\<open>packages/api/src/lib/resource-axis.ts\<close> and \<^verbatim>\<open>isSessionPolicy\<close> of
  \<^verbatim>\<open>validations/policy.ts\<close>).  A policy reaches these functions as an unchecked JSON value;
  \<^const>\<open>JNull\<close> also stands for the absent value.  The code's axis objects are the three
  constructors of an axis type with one function per method.
\<close>

section \<open>Definitions\<close>

definition isSessionPolicy :: "json \<Rightarrow> bool" where
  "isSessionPolicy c = (case c of JObj es \<Rightarrow> True | _ \<Rightarrow> False)"

definition hasKey :: "string \<Rightarrow> json \<Rightarrow> bool" where
  "hasKey k c = (case c of JObj es \<Rightarrow> obj_get es k \<noteq> None | _ \<Rightarrow> False)"

definition getKey :: "string \<Rightarrow> json \<Rightarrow> json option" where
  "getKey k c = (case c of JObj es \<Rightarrow> obj_get es k | _ \<Rightarrow> None)"

datatype resource_axis = Repositories | Folders | DriveFolders

fun axisKey :: "resource_axis \<Rightarrow> string" where
  "axisKey Repositories = ''repositories''"
| "axisKey Folders = ''folders''"
| "axisKey DriveFolders = ''driveFolders''"

definition stripTrailingSlashes :: "string \<Rightarrow> string" where
  "stripTrailingSlashes s = rev (dropWhile (\<lambda>c. c = CHR ''/'') (rev s))"

definition chainIds :: "string \<Rightarrow> string list" where
  "chainIds entry = filter (\<lambda>i. i \<noteq> []) (split_on (CHR ''/'') entry)"

text \<open>The axis objects \<^verbatim>\<open>repositories\<close>, \<^verbatim>\<open>folders\<close> and \<^verbatim>\<open>driveFolders\<close>.\<close>

definition repositoriesCoveredBy :: "string \<Rightarrow> string list \<Rightarrow> bool" where
  "repositoriesCoveredBy entry boundary =
     (let target = asciiLower entry in list_ex (\<lambda>b. asciiLower b = target) boundary)"

definition foldersNormalize :: "string \<Rightarrow> string" where
  "foldersNormalize entry = stripTrailingSlashes (asciiLower entry)"

definition foldersCoveredBy :: "string \<Rightarrow> string list \<Rightarrow> bool" where
  "foldersCoveredBy entry boundary =
     (let normalized = map foldersNormalize boundary in
      if list_ex (\<lambda>b. b = []) normalized then True
      else if \<not> starts_with entry ''/'' then False
      else
        (let target = foldersNormalize entry in
         if target = [] then False
         else list_ex (\<lambda>b. target = b \<or> starts_with target (b @ ''/'')) normalized))"

definition driveFoldersNormalize :: "string \<Rightarrow> string" where
  "driveFoldersNormalize entry = join_with ''/'' (chainIds entry)"

definition driveFoldersCoveredBy :: "string \<Rightarrow> string list \<Rightarrow> bool" where
  "driveFoldersCoveredBy entry boundary =
     (let required = chainIds entry in
      if length (js_uniq required) = 0 then list_ex (\<lambda>b. length (chainIds b) = 0) boundary
      else list_ex (\<lambda>b. list_all (\<lambda>i. i \<in> set required) (chainIds b)) boundary)"

fun axisNormalize :: "resource_axis \<Rightarrow> string \<Rightarrow> string" where
  "axisNormalize Repositories entry = asciiLower entry"
| "axisNormalize Folders entry = foldersNormalize entry"
| "axisNormalize DriveFolders entry = driveFoldersNormalize entry"

fun axisCoveredBy :: "resource_axis \<Rightarrow> string \<Rightarrow> string list \<Rightarrow> bool" where
  "axisCoveredBy Repositories entry boundary = repositoriesCoveredBy entry boundary"
| "axisCoveredBy Folders entry boundary = foldersCoveredBy entry boundary"
| "axisCoveredBy DriveFolders entry boundary = driveFoldersCoveredBy entry boundary"

definition axisEntriesOf :: "resource_axis \<Rightarrow> json \<Rightarrow> json option" where
  "axisEntriesOf ax policy = getKey (axisKey ax) policy"

definition axisBuild :: "resource_axis \<Rightarrow> string list \<Rightarrow> json" where
  "axisBuild ax entries = JObj [(axisKey ax, JArr (map JStr entries))]"

definition AXES :: "resource_axis list" where
  "AXES = [Repositories, Folders, DriveFolders]"

definition axisOf :: "json \<Rightarrow> resource_axis option" where
  "axisOf policy =
     (if \<not> isSessionPolicy policy then None
      else find (\<lambda>ax. hasKey (axisKey ax) policy) AXES)"

definition stringsOf :: "json list \<Rightarrow> string list" where
  "stringsOf js = List.map_filter (\<lambda>j. case j of JStr s \<Rightarrow> Some s | _ \<Rightarrow> None) js"

definition rawEntries :: "json \<Rightarrow> resource_axis \<Rightarrow> string list option" where
  "rawEntries policy ax =
     (case axisEntriesOf ax policy of Some (JArr js) \<Rightarrow> Some (stringsOf js) | _ \<Rightarrow> None)"

definition canonicalPolicy :: "json \<Rightarrow> json option" where
  "canonicalPolicy policy =
     (case axisOf policy of
        None \<Rightarrow> None
      | Some ax \<Rightarrow>
          (case rawEntries policy ax of
             None \<Rightarrow> None
           | Some entries \<Rightarrow>
               if length entries = 0 then None else Some (axisBuild ax (sort entries))))"

definition deniesEverything :: "json \<Rightarrow> bool" where
  "deniesEverything policy =
     (case axisOf policy of
        None \<Rightarrow> False
      | Some ax \<Rightarrow> map_option length (rawEntries policy ax) = Some 0)"

definition entriesOrNone :: "json \<Rightarrow> resource_axis \<Rightarrow> string list" where
  "entriesOrNone policy ax = (case rawEntries policy ax of None \<Rightarrow> [] | Some es \<Rightarrow> es)"

definition coveredBy :: "string \<Rightarrow> json \<Rightarrow> bool" where
  "coveredBy entry boundary =
     (case axisOf boundary of
        None \<Rightarrow> True
      | Some ax \<Rightarrow> axisCoveredBy ax entry (entriesOrNone boundary ax))"

definition entriesOutside :: "json \<Rightarrow> json \<Rightarrow> string list" where
  "entriesOutside policy boundary =
     (case (axisOf policy, axisOf boundary) of
        (Some ax, Some boundaryAxis) \<Rightarrow>
          (let entries = entriesOrNone policy ax in
           if axisKey boundaryAxis \<noteq> axisKey ax then entries
           else filter (\<lambda>entry. \<not> coveredBy entry boundary) entries)
      | _ \<Rightarrow> [])"

definition intersectPolicies :: "json \<Rightarrow> json \<Rightarrow> json option" where
  "intersectPolicies a b =
     (case axisOf a of
        None \<Rightarrow> (case axisOf b of None \<Rightarrow> None | Some axisB \<Rightarrow> Some b)
      | Some axisA \<Rightarrow>
          (case axisOf b of
             None \<Rightarrow> Some a
           | Some axisB \<Rightarrow>
               if axisKey axisA \<noteq> axisKey axisB then Some (axisBuild axisA [])
               else
                 (let entriesA = entriesOrNone a axisA;
                      entriesB = entriesOrNone b axisB;
                      kept = map (axisNormalize axisA)
                        (filter (\<lambda>entry. axisCoveredBy axisA entry entriesB) entriesA @
                         filter (\<lambda>entry. axisCoveredBy axisA entry entriesA) entriesB)
                  in Some (axisBuild axisA (sort (js_uniq kept))))))"

section \<open>The laws of an axis\<close>

text \<open>
  Containment is decided by a single boundary entry, a boundary may be normalised, and
  containment composes.
\<close>

locale containment =
  fixes norm :: "'e \<Rightarrow> 'e" and inside :: "'e \<Rightarrow> 'e list \<Rightarrow> bool"
  assumes inside_some: "inside e B \<longleftrightarrow> (\<exists>b \<in> set B. inside e [b])"
    and inside_norm: "inside e [norm b] \<longleftrightarrow> inside e [b]"
    and inside_trans: "inside x [e] \<Longrightarrow> inside e [b] \<Longrightarrow> inside x [b]"
begin

lemma inside_mono: "set B \<subseteq> set B' \<Longrightarrow> inside e B \<Longrightarrow> inside e B'"
  using inside_some by blast

lemma inside_Nil [simp]: "\<not> inside e []"
  using inside_some [of e "[]"] by simp

lemma inside_image: "inside e (map norm B) \<longleftrightarrow> inside e B"
  using inside_some [of e "map norm B"] inside_some [of e B] by (auto simp: inside_norm)

lemma inside_compose:
  assumes "inside x K" and "\<And>k. k \<in> set K \<Longrightarrow> inside k B"
  shows "inside x B"
  using assms inside_some [of x K] inside_some [of _ B] inside_trans by meson

text \<open>What lies inside the normalised overlap of two boundaries lies inside both.\<close>

lemma inside_overlap:
  assumes "inside x (map norm (filter (\<lambda>e. inside e B) A @ filter (\<lambda>e. inside e A) B))"
  shows "inside x A \<and> inside x B"
proof -
  let ?K = "filter (\<lambda>e. inside e B) A @ filter (\<lambda>e. inside e A) B"
  have K: "inside x ?K" using assms by (simp only: inside_image)
  then obtain k where k: "k \<in> set ?K" "inside x [k]" using inside_some [of x ?K] by blast
  from k(1) consider "k \<in> set A" "inside k B" | "k \<in> set B" "inside k A" by auto
  then show ?thesis
  proof cases
    case 1
    then show ?thesis
      using k(2) inside_mono [of "[k]" A x] inside_compose [of x "[k]" B] by auto
  next
    case 2
    then show ?thesis
      using k(2) inside_mono [of "[k]" B x] inside_compose [of x "[k]" A] by auto
  qed
qed

end

text \<open>On an axis where two entries that share a resource are nested, the overlap is exact.\<close>

locale nested_containment = containment +
  assumes nested: "inside x [a] \<Longrightarrow> inside x [b] \<Longrightarrow> inside a [b] \<or> inside b [a]"
begin

lemma overlap_exact:
  "inside x (map norm (filter (\<lambda>e. inside e B) A @ filter (\<lambda>e. inside e A) B)) \<longleftrightarrow>
     inside x A \<and> inside x B"
proof
  assume "inside x A \<and> inside x B"
  then obtain a b where ab: "a \<in> set A" "inside x [a]" "b \<in> set B" "inside x [b]"
    using inside_some [of x A] inside_some [of x B] by blast
  then have "inside a B \<or> inside b A"
    using nested [of x a b] inside_mono [of "[b]" B a] inside_mono [of "[a]" A b] by auto
  then have "\<exists>k \<in> set (filter (\<lambda>e. inside e B) A @ filter (\<lambda>e. inside e A) B). inside x [k]"
    using ab by auto
  then show "inside x (map norm (filter (\<lambda>e. inside e B) A @ filter (\<lambda>e. inside e A) B))"
    using inside_some inside_image by blast
qed (rule inside_overlap)

end

section \<open>The axes obey the laws\<close>

lemma repositories_single: "repositoriesCoveredBy e [b] \<longleftrightarrow> asciiLower b = asciiLower e"
  by (simp add: repositoriesCoveredBy_def)

interpretation repositories: nested_containment asciiLower repositoriesCoveredBy
  by unfold_locales (auto simp: repositoriesCoveredBy_def list_ex_iff)

lemma stripTrailingSlashes_idem [simp]:
  "stripTrailingSlashes (stripTrailingSlashes s) = stripTrailingSlashes s"
  by (simp add: stripTrailingSlashes_def dropWhile_idem)

lemma stripTrailingSlashes_split: "\<exists>n. s = stripTrailingSlashes s @ replicate n (CHR ''/'')"
proof -
  have "rev s = takeWhile (\<lambda>c. c = CHR ''/'') (rev s) @ dropWhile (\<lambda>c. c = CHR ''/'') (rev s)" by simp
  then have "s = stripTrailingSlashes s @ rev (takeWhile (\<lambda>c. c = CHR ''/'') (rev s))"
    unfolding stripTrailingSlashes_def by (metis rev_append rev_rev_ident)
  moreover have "takeWhile (\<lambda>c. c = CHR ''/'') (rev s) =
      replicate (length (takeWhile (\<lambda>c. c = CHR ''/'') (rev s))) (CHR ''/'')"
    by (intro replicate_eqI) (auto dest: set_takeWhileD)
  ultimately show ?thesis by (metis rev_replicate)
qed

lemma asciiLower_stripTrailingSlashes:
  "asciiLower (stripTrailingSlashes s) = stripTrailingSlashes (asciiLower s)"
proof -
  have "map ascii_lower_char (dropWhile (\<lambda>c. c = CHR ''/'') xs) =
      dropWhile (\<lambda>c. c = CHR ''/'') (map ascii_lower_char xs)" for xs
    by (induction xs) auto
  then show ?thesis by (simp add: stripTrailingSlashes_def asciiLower_def rev_map [symmetric])
qed

lemma foldersNormalize_idem [simp]: "foldersNormalize (foldersNormalize e) = foldersNormalize e"
  by (simp add: foldersNormalize_def asciiLower_stripTrailingSlashes)

lemma foldersNormalize_absolute:
  assumes "prefix ''/'' (foldersNormalize e)"
  shows "prefix ''/'' e"
proof -
  obtain n where "asciiLower e = foldersNormalize e @ replicate n (CHR ''/'')"
    unfolding foldersNormalize_def using stripTrailingSlashes_split by blast
  with assms have "prefix ''/'' (asciiLower e)" by auto
  then show ?thesis by (cases e) auto
qed

lemma foldersNormalize_keeps_absolute:
  assumes "prefix ''/'' e" and "foldersNormalize e \<noteq> []"
  shows "prefix ''/'' (foldersNormalize e)"
proof -
  obtain n where n: "asciiLower e = foldersNormalize e @ replicate n (CHR ''/'')"
    unfolding foldersNormalize_def using stripTrailingSlashes_split by blast
  have "prefix ''/'' (asciiLower e)" using assms(1) by (cases e) auto
  with n assms(2) show ?thesis by (cases "foldersNormalize e") auto
qed

text \<open>One path inside one boundary folder.\<close>

lemma folders_single:
  "foldersCoveredBy e [b] \<longleftrightarrow> foldersNormalize b = [] \<or>
     prefix ''/'' e \<and> foldersNormalize e \<noteq> [] \<and>
     (foldersNormalize e = foldersNormalize b \<or> prefix (foldersNormalize b @ ''/'') (foldersNormalize e))"
  by (auto simp: foldersCoveredBy_def Let_def)

lemma foldersCoveredBy_some: "foldersCoveredBy e B \<longleftrightarrow> (\<exists>b \<in> set B. foldersCoveredBy e [b])"
  by (auto simp: folders_single foldersCoveredBy_def Let_def list_ex_iff)

lemma folder_prefix:
  assumes "prefix (b @ ''/'') e \<or> e = b" and "b \<noteq> []" and "prefix ''/'' e"
  shows "prefix ''/'' b"
  using assms by (cases b) (auto simp: prefix_def)

interpretation folders: nested_containment foldersNormalize foldersCoveredBy
proof
  show "foldersCoveredBy e B \<longleftrightarrow> (\<exists>b \<in> set B. foldersCoveredBy e [b])" for e B
    by (rule foldersCoveredBy_some)
  show "foldersCoveredBy e [foldersNormalize b] \<longleftrightarrow> foldersCoveredBy e [b]" for e b
    by (simp add: folders_single)
  show "foldersCoveredBy x [b]" if "foldersCoveredBy x [e]" "foldersCoveredBy e [b]" for x e b
    using that by (auto simp: folders_single prefix_def)
  show "foldersCoveredBy a [b] \<or> foldersCoveredBy b [a]"
    if "foldersCoveredBy x [a]" "foldersCoveredBy x [b]" for x a b
  proof (cases "foldersNormalize a = [] \<or> foldersNormalize b = []")
    case False
    have x: "prefix (c @ ''/'') (foldersNormalize x @ ''/'')" if "foldersCoveredBy x [d]" "c = foldersNormalize d"
      "c \<noteq> []" for c d
      using that by (auto simp: folders_single prefix_def)
    have abs: "prefix ''/'' c" if "foldersCoveredBy x [c]" "foldersNormalize c \<noteq> []" for c
    proof (rule foldersNormalize_absolute)
      have "prefix ''/'' (foldersNormalize x)"
        using that by (auto simp: folders_single intro: foldersNormalize_keeps_absolute)
      then show "prefix ''/'' (foldersNormalize c)"
        using that folder_prefix [of "foldersNormalize c" "foldersNormalize x"] by (auto simp: folders_single)
    qed
    have "prefix (foldersNormalize a @ ''/'') (foldersNormalize b @ ''/'') \<or>
        prefix (foldersNormalize b @ ''/'') (foldersNormalize a @ ''/'')"
      using x [OF that(1) refl] x [OF that(2) refl] False by (meson prefix_same_cases)
    then show ?thesis using abs [OF that(1)] abs [OF that(2)] False
      by (auto simp: folders_single)
  qed (auto simp: folders_single)
qed


lemma split_join_pieces:
  "\<forall>x \<in> set xs. x \<noteq> [] \<and> c \<notin> set x \<Longrightarrow> filter (\<lambda>i. i \<noteq> []) (split_on c (join_with [c] xs)) = xs"
  by (induction xs rule: induct_list012) (auto simp: split_on_append)

lemma chainIds_driveFoldersNormalize [simp]: "chainIds (driveFoldersNormalize e) = chainIds e"
proof -
  have "\<forall>x \<in> set (chainIds e). x \<noteq> [] \<and> CHR ''/'' \<notin> set x"
    by (auto simp: chainIds_def dest: split_on_pieces)
  from split_join_pieces [OF this] show ?thesis
    unfolding driveFoldersNormalize_def chainIds_def [of "join_with _ _"] .
qed

lemma js_uniq_Nil [simp]: "js_uniq xs = [] \<longleftrightarrow> xs = []"
  by (cases xs) auto

lemma driveFoldersCoveredBy_iff:
  "driveFoldersCoveredBy e B \<longleftrightarrow> (\<exists>b \<in> set B. set (chainIds b) \<subseteq> set (chainIds e))"
  by (cases "chainIds e = []")
    (auto simp: driveFoldersCoveredBy_def Let_def list_ex_iff list_all_iff)

interpretation driveFolders: containment driveFoldersNormalize driveFoldersCoveredBy
  by unfold_locales (auto simp: driveFoldersCoveredBy_iff)

lemma axis_functions:
  "axisNormalize Repositories = asciiLower" "axisCoveredBy Repositories = repositoriesCoveredBy"
  "axisNormalize Folders = foldersNormalize" "axisCoveredBy Folders = foldersCoveredBy"
  "axisNormalize DriveFolders = driveFoldersNormalize"
  "axisCoveredBy DriveFolders = driveFoldersCoveredBy"
  by (auto simp: fun_eq_iff)

interpretation axis: containment "axisNormalize ax" "axisCoveredBy ax" for ax
  using repositories.containment_axioms folders.containment_axioms driveFolders.containment_axioms
  by (cases ax) (simp_all add: axis_functions)

lemma axis_overlap_exact:
  assumes "ax \<noteq> DriveFolders"
  shows "axisCoveredBy ax x (map (axisNormalize ax)
      (filter (\<lambda>e. axisCoveredBy ax e B) A @ filter (\<lambda>e. axisCoveredBy ax e A) B)) \<longleftrightarrow>
    axisCoveredBy ax x A \<and> axisCoveredBy ax x B"
  using assms repositories.overlap_exact [of x B A] folders.overlap_exact [of x B A]
  by (cases ax) (simp_all add: axis_functions del: map_append filter_append)

section \<open>Policies\<close>

lemma axisKey_inject [simp]: "axisKey a = axisKey b \<longleftrightarrow> a = b"
  by (cases a; cases b) simp_all

lemma stringsOf_map [simp]: "stringsOf (map JStr xs) = xs"
  by (induction xs) (simp_all add: stringsOf_def map_filter_simps)

lemma build_simps [simp]:
  "axisOf (axisBuild ax es) = Some ax"
  "rawEntries (axisBuild ax es) ax = Some es"
  "entriesOrNone (axisBuild ax es) ax = es"
  by (cases ax; simp add: axisOf_def axisBuild_def isSessionPolicy_def hasKey_def obj_get_def AXES_def
      rawEntries_def axisEntriesOf_def getKey_def entriesOrNone_def)+

lemma axisCoveredBy_set: "set B = set B' \<Longrightarrow> axisCoveredBy ax e B = axisCoveredBy ax e B'"
  using axis.inside_mono by blast

lemma coveredBy_unbounded [simp]: "axisOf p = None \<Longrightarrow> coveredBy x p"
  by (simp add: coveredBy_def)

lemma coveredBy_build [simp]: "coveredBy x (axisBuild ax es) = axisCoveredBy ax x es"
  by (simp add: coveredBy_def)

text \<open>The composed policy of two policies on the same axis.\<close>

definition overlapEntries :: "resource_axis \<Rightarrow> string list \<Rightarrow> string list \<Rightarrow> string list" where
  "overlapEntries ax A B = map (axisNormalize ax)
     (filter (\<lambda>e. axisCoveredBy ax e B) A @ filter (\<lambda>e. axisCoveredBy ax e A) B)"

lemma intersectPolicies_same:
  "axisOf a = Some ax \<Longrightarrow> axisOf b = Some ax \<Longrightarrow>
   intersectPolicies a b =
     Some (axisBuild ax (sort (js_uniq (overlapEntries ax (entriesOrNone a ax) (entriesOrNone b ax)))))"
  by (simp add: intersectPolicies_def overlapEntries_def Let_def)

lemma coveredBy_intersect_same:
  assumes "axisOf a = Some ax" "axisOf b = Some ax" "intersectPolicies a b = Some p"
  shows "coveredBy x p \<longleftrightarrow> axisCoveredBy ax x (overlapEntries ax (entriesOrNone a ax) (entriesOrNone b ax))"
proof -
  have "p = axisBuild ax (sort (js_uniq (overlapEntries ax (entriesOrNone a ax) (entriesOrNone b ax))))"
    using assms intersectPolicies_same [OF assms(1,2)] by simp
  moreover have "set (sort (js_uniq xs)) = set xs" for xs :: "string list" by simp
  ultimately show ?thesis using axisCoveredBy_set by (metis coveredBy_build)
qed

lemma intersectPolicies_sound:
  assumes "intersectPolicies a b = Some p" and "coveredBy x p"
  shows "coveredBy x a \<and> coveredBy x b"
proof (cases "axisOf a")
  case None
  with assms show ?thesis by (auto simp: intersectPolicies_def split: option.splits)
next
  case (Some axA)
  show ?thesis
  proof (cases "axisOf b")
    case None
    with Some assms show ?thesis by (auto simp: intersectPolicies_def)
  next
    case (Some axB)
    show ?thesis
    proof (cases "axA = axB")
      case True
      with \<open>axisOf a = Some axA\<close> Some have ax: "axisOf a = Some axA" "axisOf b = Some axA" by auto
      have "axisCoveredBy axA x (overlapEntries axA (entriesOrNone a axA) (entriesOrNone b axA))"
        using coveredBy_intersect_same [OF ax assms(1)] assms(2) by blast
      then have "axisCoveredBy axA x (entriesOrNone a axA) \<and> axisCoveredBy axA x (entriesOrNone b axA)"
        unfolding overlapEntries_def by (rule axis.inside_overlap)
      with ax show ?thesis by (simp add: coveredBy_def)
    next
      case False
      with \<open>axisOf a = Some axA\<close> Some assms show ?thesis
        by (auto simp: intersectPolicies_def axis.inside_Nil)
    qed
  qed
qed

lemma intersectPolicies_None: "intersectPolicies a b = None \<longleftrightarrow> axisOf a = None \<and> axisOf b = None"
  by (auto simp: intersectPolicies_def Let_def split: option.splits)


lemma overlapEntries_set: "set (overlapEntries ax A B) = set (overlapEntries ax B A)"
  by (auto simp: overlapEntries_def)

lemma sort_uniq_set: "set xs = set ys \<Longrightarrow> sort (js_uniq xs) = sort (js_uniq (ys :: string list))"
  by (rule sorted_distinct_set_unique) simp_all

lemma canonicalPolicy_cases:
  "canonicalPolicy p = Some c \<longleftrightarrow>
     (\<exists>ax e es. axisOf p = Some ax \<and> rawEntries p ax = Some (e # es) \<and> c = axisBuild ax (sort (e # es)))"
  by (auto simp: canonicalPolicy_def neq_Nil_conv split: option.splits)

section \<open>Properties\<close>

text \<open>
  C8: Composing session policies never widens.  Whatever resource the composition of two policies
  reaches, each of the two reaches; the composition is unrestricted only when both are; and two
  policies on different axes compose to the policy that reaches nothing.\<close>

theorem intersectPolicies_never_widens:
  "(case intersectPolicies a b of
      Some p \<Rightarrow> (\<forall>x. coveredBy x p \<longrightarrow> coveredBy x a \<and> coveredBy x b)
    | None \<Rightarrow> axisOf a = None \<and> axisOf b = None) \<and>
   (\<forall>ax ax' p x. axisOf a = Some ax \<longrightarrow> axisOf b = Some ax' \<longrightarrow> ax \<noteq> ax' \<longrightarrow>
      intersectPolicies a b = Some p \<longrightarrow> \<not> coveredBy x p)"
proof -
  have "\<not> coveredBy x p" if "axisOf a = Some ax" "axisOf b = Some ax'" "ax \<noteq> ax'"
    "intersectPolicies a b = Some p" for ax ax' p x
    using that by (auto simp: intersectPolicies_def axis.inside_Nil)
  moreover have "case intersectPolicies a b of
      Some p \<Rightarrow> (\<forall>x. coveredBy x p \<longrightarrow> coveredBy x a \<and> coveredBy x b)
    | None \<Rightarrow> axisOf a = None \<and> axisOf b = None"
    using intersectPolicies_sound intersectPolicies_None by (auto split: option.split)
  ultimately show ?thesis by blast
qed

theorem intersectPolicies_never_widens_witness:
  "coveredBy ''/clients/acme/q1'' (axisBuild Folders [''/clients'']) \<and>
   coveredBy ''/clients/acme/q1'' (axisBuild Folders [''/Clients/Acme/''])"
proof -
  have p: "intersectPolicies (axisBuild Folders [''/clients'']) (axisBuild Folders [''/Clients/Acme/'']) =
      Some (axisBuild Folders [''/clients/acme''])"
    by code_simp
  have "coveredBy ''/clients/acme/q1'' (axisBuild Folders [''/clients/acme''])" by code_simp
  then show ?thesis
    using intersectPolicies_never_widens [of "axisBuild Folders [''/clients'']" "axisBuild Folders [''/Clients/Acme/'']"]
    unfolding p option.case by blast
qed

text \<open>
  On the repository and Dropbox axes the composition is exact: a resource is inside the
  composed policy if and only if it is inside both, so a real overlap is never discarded.\<close>

theorem intersectPolicies_exact:
  assumes "axisOf a = Some ax" and "axisOf b = Some ax" and "ax \<noteq> DriveFolders"
    and "intersectPolicies a b = Some p"
  shows "coveredBy x p \<longleftrightarrow> coveredBy x a \<and> coveredBy x b"
  using coveredBy_intersect_same [OF assms(1,2,4), of x]
    axis_overlap_exact [OF assms(3), of x "entriesOrNone b ax" "entriesOrNone a ax"] assms(1,2)
  by (simp add: overlapEntries_def coveredBy_def)

theorem intersectPolicies_exact_witness:
  "coveredBy ''/a/b'' (axisBuild Folders [''/a/b'']) \<longleftrightarrow>
   coveredBy ''/a/b'' (axisBuild Folders [''/A'']) \<and> coveredBy ''/a/b'' (axisBuild Folders [''/a/b/''])"
  by (rule intersectPolicies_exact [of _ Folders]) code_simp+

text \<open>
  Composition is symmetric on one axis and gives a canonical value, sorted and without
  duplicates, so that the composed scope is the same whichever side is named first.\<close>

theorem intersectPolicies_symmetric:
  assumes "axisOf a = Some ax" and "axisOf b = Some ax"
  shows "intersectPolicies a b = intersectPolicies b a \<and>
    (\<exists>es. intersectPolicies a b = Some (axisBuild ax es) \<and> sorted es \<and> distinct es)"
proof -
  have "sort (js_uniq (overlapEntries ax (entriesOrNone a ax) (entriesOrNone b ax))) =
      sort (js_uniq (overlapEntries ax (entriesOrNone b ax) (entriesOrNone a ax)))"
    by (rule sort_uniq_set) (rule overlapEntries_set)
  then show ?thesis unfolding intersectPolicies_same [OF assms] intersectPolicies_same [OF assms(2,1)]
    by auto
qed

theorem intersectPolicies_symmetric_witness:
  "intersectPolicies (axisBuild Repositories [''Acme/App'', ''acme/web'']) (axisBuild Repositories [''acme/app'']) =
   intersectPolicies (axisBuild Repositories [''acme/app'']) (axisBuild Repositories [''Acme/App'', ''acme/web''])"
  by (rule intersectPolicies_symmetric [of _ Repositories, THEN conjunct1]) code_simp+

text \<open>
  A stored policy is canonical: canonicalising again changes nothing, the canonical policy never
  denies everything, and it reaches exactly the resources of the original.\<close>

theorem canonicalPolicy_canonical:
  assumes "canonicalPolicy p = Some c"
  shows "canonicalPolicy c = Some c \<and> \<not> deniesEverything c \<and> (coveredBy x c \<longleftrightarrow> coveredBy x p)"
proof -
  obtain ax e es where c: "axisOf p = Some ax" "rawEntries p ax = Some (e # es)"
    "c = axisBuild ax (sort (e # es))" using assms canonicalPolicy_cases by blast
  have s: "length (sort (e # es)) = Suc (length es)" by simp
  have "canonicalPolicy c = Some (axisBuild ax (sort (sort (e # es))))"
    using s by (simp add: canonicalPolicy_def c(3) del: sort_key_simps)
  moreover have "\<not> deniesEverything c" using s by (simp add: deniesEverything_def c(3) del: sort_key_simps)
  moreover have "coveredBy x c \<longleftrightarrow> coveredBy x p"
    using axisCoveredBy_set [of "sort (e # es)" "e # es" ax x] c(1,2)
    by (simp add: coveredBy_def c(3) entriesOrNone_def [of p] del: sort_key_simps)
  ultimately show ?thesis using c(3) by (simp add: sort_key_id_if_sorted del: sort_key_simps)
qed

theorem canonicalPolicy_canonical_witness:
  "canonicalPolicy (axisBuild Repositories [''acme/app'', ''acme/web'']) =
     Some (axisBuild Repositories [''acme/app'', ''acme/web'']) \<and>
   (coveredBy ''ACME/web'' (axisBuild Repositories [''acme/app'', ''acme/web'']) \<longleftrightarrow>
    coveredBy ''ACME/web'' (axisBuild Repositories [''acme/web'', ''acme/app'']))"
proof -
  have "canonicalPolicy (axisBuild Repositories [''acme/web'', ''acme/app'']) =
      Some (axisBuild Repositories [''acme/app'', ''acme/web''])" by code_simp
  from canonicalPolicy_canonical [OF this] show ?thesis by blast
qed

end
