(* ===== verification/SimRule.thy ===== *)
theory SimRule
  imports Evaluator ResourceAxis
begin

text \<open>
  From database rows to engine rules: the row loaders and fenced lookups of
  \<^verbatim>\<open>packages/api/src/services/policy-simulate\<close> and the row decoder \<^verbatim>\<open>sim-rule.ts\<close>.  A table is
  a list of its rows; a query's result keeps the order of the table unless the code asks for
  one.  A nullable column is an option, \<^const>\<open>JNull\<close> the null of a JSON column.
\<close>

section \<open>Rows\<close>

record rule_identity_row =
  ri_agentId :: "string option"
  ri_userId :: "string option"
  ri_groupId :: "string option"

record rule_target_row =
  rt_kind :: string
  rt_appProvider :: "string option"
  rt_appTools :: "string list"
  rt_appConnectionScope :: "string option"
  rt_appConnectionId :: "string option"
  rt_secretId :: "string option"
  rt_secretScope :: "string option"
  rt_hostPattern :: "string option"
  rt_pathPattern :: "string option"
  rt_method :: "string option"

record sim_rule_row =
  row_id :: string
  row_scope :: string
  row_organizationId :: "string option"
  row_workspaceId :: "string option"
  row_status :: string
  row_generation :: int
  row_priority :: int
  row_enabled :: bool
  row_isDefault :: bool
  row_logicalId :: string
  row_source :: string
  row_name :: string
  row_action :: string
  row_rateLimit :: "int option"
  row_rateLimitWindow :: "string option"
  row_requireApproval :: bool
  row_conditions :: json
  row_identities :: "rule_identity_row list"
  row_targets :: "rule_target_row list"

text \<open>A string in a condition: absent and empty are falsy.\<close>

definition truthy :: "string option \<Rightarrow> bool" where
  "truthy s = (case s of None \<Rightarrow> False | Some v \<Rightarrow> v \<noteq> [])"

section \<open>Loading rules (load-rules.ts)\<close>

datatype policy_scope_base = OrganizationScope string | WorkspaceScope string

definition inScope :: "policy_scope_base \<Rightarrow> sim_rule_row \<Rightarrow> bool" where
  "inScope base row =
     (case base of
        OrganizationScope orgId \<Rightarrow> row_scope row = ''organization'' \<and> row_organizationId row = Some orgId
      | WorkspaceScope wsId \<Rightarrow> row_scope row = ''workspace'' \<and> row_workspaceId row = Some wsId)"

definition maxGeneration :: "sim_rule_row list \<Rightarrow> int option" where
  "maxGeneration rows = (if rows = [] then None else Some (Max (set (map row_generation rows))))"

definition loadRules ::
    "sim_rule_row list \<Rightarrow> policy_scope_base \<Rightarrow> string \<Rightarrow> bool \<Rightarrow> sim_rule_row list" where
  "loadRules table base status includeEquipment =
     (let where0 = (\<lambda>r. inScope base r \<and> row_status r = status \<and> row_enabled r \<and>
            (if includeEquipment then True else row_source r \<noteq> ''equipment''));
          ordered = (\<lambda>rows. sort_key row_priority (sort_key row_id rows))
      in if status = ''published'' then
           (case maxGeneration (filter (\<lambda>r. inScope base r \<and> row_status r = ''published'') table) of
              None \<Rightarrow> []
            | Some g \<Rightarrow> ordered (filter (\<lambda>r. where0 r \<and> row_generation r = g) table))
         else ordered (filter where0 table))"

definition loadRulesForSimulation ::
    "sim_rule_row list \<Rightarrow> policy_scope_base \<Rightarrow> string \<Rightarrow> sim_rule_row list" where
  "loadRulesForSimulation table base status = loadRules table base status False"

definition loadInjectionRules ::
    "sim_rule_row list \<Rightarrow> policy_scope_base \<Rightarrow> string \<Rightarrow> sim_rule_row list" where
  "loadInjectionRules table base status = loadRules table base status True"

section \<open>The principal set (principal-set.ts)\<close>

record workspace_access =
  wa_workspaceId :: string
  wa_userId :: "string option"
  wa_groupId :: "string option"

record group_row =
  gr_id :: string
  gr_organizationId :: string

record group_member =
  gm_groupId :: string
  gm_userId :: string

record organization_member =
  om_organizationId :: string
  om_userId :: string
  om_status :: string

record directory =
  dir_workspaceAccess :: "workspace_access list"
  dir_groups :: "group_row list"
  dir_groupMembers :: "group_member list"
  dir_members :: "organization_member list"

record principal_set =
  ps_userIds :: "string list"
  ps_groupIds :: "string list"

definition truthyOf :: "string option \<Rightarrow> string list" where
  "truthyOf s = (if truthy s then [the s] else [])"

definition resolvePrincipalSet :: "directory \<Rightarrow> string \<Rightarrow> string \<Rightarrow> principal_set" where
  "resolvePrincipalSet db workspaceId organizationId =
     (let accessRows = filter (\<lambda>r. wa_workspaceId r = workspaceId) (dir_workspaceAccess db);
          directUserIds = concat (map (\<lambda>r. truthyOf (wa_userId r)) accessRows);
          groupCandidates = concat (map (\<lambda>r. truthyOf (wa_groupId r)) accessRows);
          directGroups =
            (if length groupCandidates > 0
             then map gr_id (filter (\<lambda>g. gr_id g \<in> set groupCandidates \<and>
                    gr_organizationId g = organizationId) (dir_groups db))
             else []);
          groupMemberUserIds =
            (if length directGroups > 0
             then map gm_userId (filter (\<lambda>m. gm_groupId m \<in> set directGroups) (dir_groupMembers db))
             else []);
          candidateUserIds = js_uniq (directUserIds @ groupMemberUserIds);
          userIds =
            (if length candidateUserIds > 0
             then map om_userId (filter (\<lambda>m. om_userId m \<in> set candidateUserIds \<and>
                    om_organizationId m = organizationId \<and> om_status m \<noteq> ''suspended'') (dir_members db))
             else []);
          userGroupIds =
            (if length userIds > 0
             then map gm_groupId (filter (\<lambda>m. gm_userId m \<in> set userIds \<and>
                    list_ex (\<lambda>g. gr_id g = gm_groupId m \<and> gr_organizationId g = organizationId)
                      (dir_groups db)) (dir_groupMembers db))
             else [])
      in \<lparr>ps_userIds = userIds, ps_groupIds = js_uniq (directGroups @ userGroupIds)\<rparr>)"

section \<open>Fenced lookups (secret-hosts.ts, connection-providers.ts)\<close>

record secret_row =
  sec_id :: string
  sec_scope :: string
  sec_workspaceId :: "string option"
  sec_organizationId :: "string option"
  sec_hostPattern :: string

record secret_host_set =
  sh_byId :: "(string \<times> string) list"
  sh_workspaceHosts :: "string list"
  sh_orgHosts :: "string list"

definition loadSecretHosts :: "secret_row list \<Rightarrow> string \<Rightarrow> string \<Rightarrow> secret_host_set" where
  "loadSecretHosts table organizationId workspaceId =
     (let rows = filter (\<lambda>r. sec_workspaceId r = Some workspaceId \<or>
            sec_organizationId r = Some organizationId \<and> sec_scope r = ''organization'') table
      in foldl (\<lambda>acc row.
           \<lparr>sh_byId = AList.update (sec_id row) (sec_hostPattern row) (sh_byId acc),
            sh_workspaceHosts = sh_workspaceHosts acc @
              (if sec_scope row = ''workspace'' then [sec_hostPattern row] else []),
            sh_orgHosts = sh_orgHosts acc @
              (if sec_scope row = ''organization'' then [sec_hostPattern row] else [])\<rparr>)
         \<lparr>sh_byId = [], sh_workspaceHosts = [], sh_orgHosts = []\<rparr> rows)"

record connection_row =
  con_id :: string
  con_scope :: string
  con_workspaceId :: "string option"
  con_organizationId :: "string option"
  con_provider :: string

definition loadConnectionProviders ::
    "connection_row list \<Rightarrow> string \<Rightarrow> string \<Rightarrow> (string \<times> string) list" where
  "loadConnectionProviders table organizationId workspaceId =
     (let rows = filter (\<lambda>r. con_workspaceId r = Some workspaceId \<or>
            con_organizationId r = Some organizationId \<and> con_scope r = ''organization'') table
      in foldl (\<lambda>m row. AList.update (con_id row) (con_provider row) m) [] rows)"

section \<open>Decoding a row (sim-rule.ts)\<close>

record sim_rule_meta =
  meta_id :: string
  meta_logicalId :: string
  meta_name :: string
  meta_scope :: level
  meta_source :: string

record sim_rule =
  sim_meta :: sim_rule_meta
  sim_engine_rule :: new_rule

definition decodeIdentity :: "rule_identity_row \<Rightarrow> new_identity" where
  "decodeIdentity i =
     (case ri_agentId i of
        Some a \<Rightarrow> AgentIdentity a
      | None \<Rightarrow>
          (case ri_userId i of
             Some u \<Rightarrow> UserIdentity u
           | None \<Rightarrow>
               (case ri_groupId i of Some g \<Rightarrow> GroupIdentity g | None \<Rightarrow> AgentIdentity [])))"

definition decodeIdentities :: "sim_rule_row \<Rightarrow> new_identity list" where
  "decodeIdentities row = map decodeIdentity (row_identities row)"

definition secretTargetHosts :: "rule_target_row \<Rightarrow> secret_host_set \<Rightarrow> string list" where
  "secretTargetHosts target secretHosts =
     (if truthy (rt_secretId target) then
        (case map_of (sh_byId secretHosts) (the (rt_secretId target)) of
           None \<Rightarrow> [] | Some host \<Rightarrow> [host])
      else if rt_secretScope target = Some ''workspace'' then sh_workspaceHosts secretHosts
      else if rt_secretScope target = Some ''organization'' then sh_orgHosts secretHosts
      else [])"

definition levelOf :: "string option \<Rightarrow> level option" where
  "levelOf s =
     (if s = Some ''organization'' then Some Organization
      else if s = Some ''workspace'' then Some Workspace else None)"

text \<open>A falsy \<^verbatim>\<open>method\<close> is left out of a connection target, which the engine reads like null.\<close>

definition decodeTarget ::
    "rule_target_row \<Rightarrow> secret_host_set \<Rightarrow> (string \<times> string) list \<Rightarrow> new_target" where
  "decodeTarget target secretHosts connectionProviders =
     (if rt_kind target = ''app'' then
        (if \<not> truthy (rt_appProvider target) then ConnectionTarget [] None [] None
         else AppTarget (the (rt_appProvider target)) (rt_appTools target)
                (levelOf (rt_appConnectionScope target)))
      else if rt_kind target = ''connection'' then
        (let i = rt_appConnectionId target;
             provider = (if truthy i then map_of connectionProviders (the i) else None)
         in if truthy i \<and> provider \<noteq> None
            then ConnectionTarget (the i) provider (rt_appTools target)
                   (if truthy (rt_method target) then rt_method target else None)
            else ConnectionTarget (case i of None \<Rightarrow> [] | Some v \<Rightarrow> v) None [] None)
      else if rt_kind target = ''secret'' then SecretTarget (secretTargetHosts target secretHosts)
      else if rt_kind target = ''network'' then
        NetworkTarget (case rt_hostPattern target of None \<Rightarrow> [] | Some h \<Rightarrow> h)
          (rt_pathPattern target) (rt_method target)
      else ConnectionTarget [] None [] None)"

definition decodeCondition :: "json \<Rightarrow> old_condition option" where
  "decodeCondition c =
     (case (getKey ''target'' c, getKey ''operator'' c, getKey ''value'' c) of
        (Some (JStr t), Some (JStr p), Some (JStr v)) \<Rightarrow>
          Some \<lparr>cond_target = t, cond_operator = p, cond_value = v, cond_key = None\<rparr>
      | _ \<Rightarrow> None)"

fun decodeConditionList :: "json list \<Rightarrow> old_condition list \<Rightarrow> old_condition list option" where
  "decodeConditionList [] decoded = Some decoded"
| "decodeConditionList (c # cs) decoded =
     (case decodeCondition c of
        None \<Rightarrow> None
      | Some e \<Rightarrow> decodeConditionList cs (decoded @ [e]))"

definition decodeConditions :: "json \<Rightarrow> old_condition list option" where
  "decodeConditions conditions =
     (case conditions of JArr cs \<Rightarrow> decodeConditionList cs [] | _ \<Rightarrow> None)"

definition decodeSource :: "string \<Rightarrow> rule_source" where
  "decodeSource s =
     (if s = ''app_permission'' then AppPermission
      else if s = ''blocklist'' then Blocklist
      else if s = ''default'' then DefaultSource
      else if s = ''equipment'' then Equipment
      else if s = ''grant'' then Grant
      else Custom)"

definition decodeWindow :: "string option \<Rightarrow> rate_window option" where
  "decodeWindow w =
     (if w = Some ''minute'' then Some Minute
      else if w = Some ''hour'' then Some Hour
      else if w = Some ''day'' then Some Day
      else None)"

definition toSimRule ::
    "sim_rule_row \<Rightarrow> secret_host_set \<Rightarrow> (string \<times> string) list \<Rightarrow> sim_rule" where
  "toSimRule row secretHosts connectionProviders =
     (let scope = (if row_scope row = ''organization'' then Organization else Workspace) in
      \<lparr>sim_meta = \<lparr>meta_id = row_id row, meta_logicalId = row_logicalId row, meta_name = row_name row,
                   meta_scope = scope, meta_source = row_source row\<rparr>,
       sim_engine_rule =
         \<lparr>rule_scope = scope, rule_priority = row_priority row, rule_isDefault = row_isDefault row,
          rule_source_of = decodeSource (row_source row), rule_name = row_name row,
          rule_identities = decodeIdentities row,
          rule_targets = map (\<lambda>t. decodeTarget t secretHosts connectionProviders) (row_targets row),
          rule_action_of = (if row_action row = ''block'' then Block else Allow),
          rule_requireApproval = row_requireApproval row,
          rule_rateLimit = row_rateLimit row,
          rule_rateLimitWindow = decodeWindow (row_rateLimitWindow row),
          rule_conditions = decodeConditions (row_conditions row)\<rparr>\<rparr>)"

section \<open>Lemmas\<close>

lemma loadRules_equipment:
  "loadRules table base st False = filter (\<lambda>r. row_source r \<noteq> ''equipment'') (loadRules table base st True)"
  unfolding loadRules_def Let_def
  by (simp add: filter_sort [symmetric] conj_ac split: option.split)

lemma maxGeneration_SomeD:
  "maxGeneration rows = Some g \<Longrightarrow> (\<exists>r \<in> set rows. row_generation r = g) \<and> (\<forall>r \<in> set rows. row_generation r \<le> g)"
proof -
  assume "maxGeneration rows = Some g"
  then have ne: "rows \<noteq> []" and g: "g = Max (row_generation ` set rows)"
    by (auto simp: maxGeneration_def split: if_splits)
  have "g \<in> row_generation ` set rows" unfolding g by (rule Max_in) (use ne in auto)
  moreover have "\<forall>r \<in> set rows. row_generation r \<le> g" unfolding g by simp
  ultimately show ?thesis by auto
qed

lemma set_loadRules_published:
  "r \<in> set (loadRules table base ''published'' e) \<longleftrightarrow>
     r \<in> set table \<and> inScope base r \<and> row_status r = ''published'' \<and> row_enabled r \<and>
     (e \<or> row_source r \<noteq> ''equipment'') \<and>
     (\<forall>s \<in> set table. inScope base s \<and> row_status s = ''published'' \<longrightarrow> row_generation s \<le> row_generation r)"
proof -
  let ?P = "filter (\<lambda>r. inScope base r \<and> row_status r = ''published'') table"
  show ?thesis
  proof (cases "maxGeneration ?P")
    case None
    then have "?P = []" by (simp add: maxGeneration_def split: if_splits)
    then have "\<not> (r \<in> set table \<and> inScope base r \<and> row_status r = ''published'')"
      by (auto simp: filter_empty_conv)
    with None show ?thesis by (auto simp: loadRules_def Let_def)
  next
    case (Some g)
    have g: "(\<exists>r \<in> set ?P. row_generation r = g) \<and> (\<forall>r \<in> set ?P. row_generation r \<le> g)"
      by (rule maxGeneration_SomeD [OF Some])
    have max: "row_generation r = g \<longleftrightarrow> (\<forall>s \<in> set ?P. row_generation s \<le> row_generation r)"
      if "r \<in> set ?P"
    proof
      assume le: "\<forall>s \<in> set ?P. row_generation s \<le> row_generation r"
      obtain r0 where "r0 \<in> set ?P" "row_generation r0 = g" using g by blast
      with le have "g \<le> row_generation r" by blast
      moreover have "row_generation r \<le> g" using g that by blast
      ultimately show "row_generation r = g" by simp
    qed (use g in blast)
    have "r \<in> set (loadRules table base ''published'' e) \<longleftrightarrow>
        r \<in> set ?P \<and> row_enabled r \<and> (e \<or> row_source r \<noteq> ''equipment'') \<and> row_generation r = g"
      unfolding loadRules_def Let_def Some by auto
    also have "\<dots> \<longleftrightarrow> r \<in> set ?P \<and> row_enabled r \<and> (e \<or> row_source r \<noteq> ''equipment'') \<and>
        (\<forall>s \<in> set ?P. row_generation s \<le> row_generation r)"
      using max by blast
    finally show ?thesis by auto
  qed
qed

lemma loadRules_ordered: "sorted (map row_priority (loadRules table base st e))"
  by (auto simp: loadRules_def Let_def split: option.split)

lemma truthyOf_mem: "x \<in> set (truthyOf s) \<longleftrightarrow> s = Some x \<and> x \<noteq> []"
  by (auto simp: truthyOf_def truthy_def split: option.splits)

text \<open>The stages of the principal set, as sets.\<close>

definition grantedGroups :: "directory \<Rightarrow> string \<Rightarrow> string \<Rightarrow> string set" where
  "grantedGroups db ws org =
     {g. g \<noteq> [] \<and> (\<exists>a \<in> set (dir_workspaceAccess db). wa_workspaceId a = ws \<and> wa_groupId a = Some g) \<and>
         (\<exists>r \<in> set (dir_groups db). gr_id r = g \<and> gr_organizationId r = org)}"

definition invitedUsers :: "directory \<Rightarrow> string \<Rightarrow> string \<Rightarrow> string set" where
  "invitedUsers db ws org =
     {u. (u \<noteq> [] \<and> (\<exists>a \<in> set (dir_workspaceAccess db). wa_workspaceId a = ws \<and> wa_userId a = Some u)) \<or>
         (\<exists>m \<in> set (dir_groupMembers db). gm_userId m = u \<and> gm_groupId m \<in> grantedGroups db ws org)}"

definition activeMember :: "directory \<Rightarrow> string \<Rightarrow> string \<Rightarrow> bool" where
  "activeMember db org u =
     (\<exists>m \<in> set (dir_members db). om_userId m = u \<and> om_organizationId m = org \<and> om_status m \<noteq> ''suspended'')"

lemma resolvePrincipalSet_sets:
  "set (ps_userIds (resolvePrincipalSet db ws org)) = {u \<in> invitedUsers db ws org. activeMember db org u}"
  "set (ps_groupIds (resolvePrincipalSet db ws org)) = grantedGroups db ws org \<union>
     {g. (\<exists>r \<in> set (dir_groups db). gr_id r = g \<and> gr_organizationId r = org) \<and>
         (\<exists>m \<in> set (dir_groupMembers db). gm_groupId m = g \<and>
            gm_userId m \<in> {u \<in> invitedUsers db ws org. activeMember db org u})}"
proof -
  define access where "access = filter (\<lambda>r. wa_workspaceId r = ws) (dir_workspaceAccess db)"
  define users where "users = concat (map (\<lambda>r. truthyOf (wa_userId r)) access)"
  define groups where "groups = concat (map (\<lambda>r. truthyOf (wa_groupId r)) access)"
  define dg where "dg = (if length groups > 0
      then map gr_id (filter (\<lambda>g. gr_id g \<in> set groups \<and> gr_organizationId g = org) (dir_groups db)) else [])"
  define gmu where "gmu = (if length dg > 0
      then map gm_userId (filter (\<lambda>m. gm_groupId m \<in> set dg) (dir_groupMembers db)) else [])"
  define cand where "cand = js_uniq (users @ gmu)"
  define us where "us = (if length cand > 0
      then map om_userId (filter (\<lambda>m. om_userId m \<in> set cand \<and> om_organizationId m = org \<and>
        om_status m \<noteq> ''suspended'') (dir_members db)) else [])"
  define ug where "ug = (if length us > 0
      then map gm_groupId (filter (\<lambda>m. gm_userId m \<in> set us \<and>
        list_ex (\<lambda>g. gr_id g = gm_groupId m \<and> gr_organizationId g = org) (dir_groups db)) (dir_groupMembers db))
      else [])"
  have eq: "resolvePrincipalSet db ws org = \<lparr>ps_userIds = us, ps_groupIds = js_uniq (dg @ ug)\<rparr>"
    unfolding resolvePrincipalSet_def Let_def ug_def us_def cand_def gmu_def dg_def groups_def users_def
      access_def ..
  have groups: "x \<in> set groups \<longleftrightarrow> x \<noteq> [] \<and> (\<exists>a \<in> set (dir_workspaceAccess db). wa_workspaceId a = ws \<and> wa_groupId a = Some x)" for x
    by (auto simp: groups_def access_def truthyOf_mem)
  have users: "x \<in> set users \<longleftrightarrow> x \<noteq> [] \<and> (\<exists>a \<in> set (dir_workspaceAccess db). wa_workspaceId a = ws \<and> wa_userId a = Some x)" for x
    by (auto simp: users_def access_def truthyOf_mem)
  have dg: "set dg = grantedGroups db ws org"
  proof -
    have "set dg = gr_id ` {g \<in> set (dir_groups db). gr_id g \<in> set groups \<and> gr_organizationId g = org}"
      by (cases groups) (auto simp: dg_def)
    then show ?thesis unfolding grantedGroups_def groups by auto
  qed
  have gmu: "set gmu = {u. \<exists>m \<in> set (dir_groupMembers db). gm_userId m = u \<and> gm_groupId m \<in> set dg}"
    by (cases dg) (auto simp: gmu_def)
  have cand: "set cand = invitedUsers db ws org"
    by (auto simp: cand_def users gmu dg invitedUsers_def)
  have us: "set us = {u \<in> invitedUsers db ws org. activeMember db org u}"
    unfolding cand [symmetric] by (cases cand) (auto simp: us_def activeMember_def)
  have ug: "set ug = {g. (\<exists>r \<in> set (dir_groups db). gr_id r = g \<and> gr_organizationId r = org) \<and>
      (\<exists>m \<in> set (dir_groupMembers db). gm_groupId m = g \<and> gm_userId m \<in> set us)}"
  proof -
    have "set ug = gm_groupId ` {m \<in> set (dir_groupMembers db). gm_userId m \<in> set us \<and>
        (\<exists>r \<in> set (dir_groups db). gr_id r = gm_groupId m \<and> gr_organizationId r = org)}"
      by (cases us) (auto simp: ug_def list_ex_iff)
    then show ?thesis by (auto simp: image_iff) metis+
  qed
  show "set (ps_userIds (resolvePrincipalSet db ws org)) = {u \<in> invitedUsers db ws org. activeMember db org u}"
    by (simp add: eq us)
  show "set (ps_groupIds (resolvePrincipalSet db ws org)) = grantedGroups db ws org \<union>
     {g. (\<exists>r \<in> set (dir_groups db). gr_id r = g \<and> gr_organizationId r = org) \<and>
         (\<exists>m \<in> set (dir_groupMembers db). gm_groupId m = g \<and>
            gm_userId m \<in> {u \<in> invitedUsers db ws org. activeMember db org u})}"
    unfolding us [symmetric] by (simp add: eq dg ug)
qed


text \<open>What the fenced lookups hold.\<close>

definition secretFenced :: "string \<Rightarrow> string \<Rightarrow> secret_row \<Rightarrow> bool" where
  "secretFenced org ws r = (sec_workspaceId r = Some ws \<or>
     sec_organizationId r = Some org \<and> sec_scope r = ''organization'')"

definition connectionFenced :: "string \<Rightarrow> string \<Rightarrow> connection_row \<Rightarrow> bool" where
  "connectionFenced org ws r = (con_workspaceId r = Some ws \<or>
     con_organizationId r = Some org \<and> con_scope r = ''organization'')"

lemma foldl_update_SomeD:
  "map_of (foldl (\<lambda>m r. AList.update (f r) (g r) m) m0 rows) k = Some v \<Longrightarrow>
     map_of m0 k = Some v \<or> (\<exists>r \<in> set rows. f r = k \<and> g r = v)"
  by (induction rows arbitrary: m0) (fastforce simp: update_conv split: if_splits)+

lemma sh_byId_foldl:
  "sh_byId (foldl (\<lambda>acc row.
      \<lparr>sh_byId = AList.update (sec_id row) (sec_hostPattern row) (sh_byId acc),
       sh_workspaceHosts = sh_workspaceHosts acc @ a row, sh_orgHosts = sh_orgHosts acc @ b row\<rparr>) s rows) =
   foldl (\<lambda>m r. AList.update (sec_id r) (sec_hostPattern r) m) (sh_byId s) rows"
  by (induction rows arbitrary: s) auto

lemma loadSecretHosts_byId:
  assumes "map_of (sh_byId (loadSecretHosts table org ws)) i = Some h"
  shows "\<exists>r \<in> set table. sec_id r = i \<and> sec_hostPattern r = h \<and> secretFenced org ws r"
  using assms unfolding loadSecretHosts_def Let_def sh_byId_foldl
  by (auto simp: secretFenced_def dest!: foldl_update_SomeD)

lemma loadConnectionProviders_SomeD:
  assumes "map_of (loadConnectionProviders table org ws) i = Some p"
  shows "\<exists>r \<in> set table. con_id r = i \<and> con_provider r = p \<and> connectionFenced org ws r"
  using assms unfolding loadConnectionProviders_def Let_def
  by (auto simp: connectionFenced_def dest!: foldl_update_SomeD)

lemma decodeTarget_secret_dead:
  assumes "rt_kind t = ''secret''" "rt_secretId t = Some i" "i \<noteq> []" "map_of (sh_byId sh) i = None"
  shows "deadTarget reg (decodeTarget t sh cp)"
  using assms by (simp add: decodeTarget_def secretTargetHosts_def truthy_def deadTarget_def)

lemma decodeTarget_connection_dead:
  assumes "rt_kind t = ''connection''" "rt_appConnectionId t = Some i" "map_of cp i = None"
  shows "deadTarget reg (decodeTarget t sh cp)"
  using assms by (simp add: decodeTarget_def truthy_def deadTarget_def Let_def)

definition sampleSecretTarget :: rule_target_row where
  "sampleSecretTarget =
     \<lparr>rt_kind = ''secret'', rt_appProvider = None, rt_appTools = [], rt_appConnectionScope = None,
      rt_appConnectionId = None, rt_secretId = Some ''s1'', rt_secretScope = None, rt_hostPattern = None,
      rt_pathPattern = None, rt_method = None\<rparr>"

definition sampleSecret :: secret_row where
  "sampleSecret =
     \<lparr>sec_id = ''s1'', sec_scope = ''workspace'', sec_workspaceId = Some ''w2'', sec_organizationId = None,
      sec_hostPattern = ''api.resend.com''\<rparr>"

section \<open>Properties\<close>

text \<open>
  The decision set and the injection set are read from the same published generation: the
  decision set is exactly the injection set without its equipment rows, and a row is in the
  injection set exactly when it is an enabled published row of the scope in the newest published
  generation of that scope.\<close>

theorem load_sets_same_generation:
  "loadRulesForSimulation table base st =
     filter (\<lambda>r. row_source r \<noteq> ''equipment'') (loadInjectionRules table base st) \<and>
   set (loadInjectionRules table base ''published'') =
     {r \<in> set table. inScope base r \<and> row_status r = ''published'' \<and> row_enabled r \<and>
        row_generation r = Max (row_generation ` {s \<in> set table. inScope base s \<and> row_status s = ''published''})}"
proof -
  have "r \<in> set (loadInjectionRules table base ''published'') \<longleftrightarrow>
      r \<in> set table \<and> inScope base r \<and> row_status r = ''published'' \<and> row_enabled r \<and>
      row_generation r = Max (row_generation ` {s \<in> set table. inScope base s \<and> row_status s = ''published''})" for r
  proof (cases "r \<in> set table \<and> inScope base r \<and> row_status r = ''published''")
    case True
    then have "(\<forall>s \<in> set table. inScope base s \<and> row_status s = ''published'' \<longrightarrow> row_generation s \<le> row_generation r) \<longleftrightarrow>
        row_generation r = Max (row_generation ` {s \<in> set table. inScope base s \<and> row_status s = ''published''})"
      by (subst eq_commute, subst Max_eq_iff) auto
    with True show ?thesis by (simp add: loadInjectionRules_def set_loadRules_published)
  next
    case False
    then show ?thesis by (auto simp: loadInjectionRules_def set_loadRules_published)
  qed
  then show ?thesis
    unfolding loadRulesForSimulation_def loadInjectionRules_def loadRules_equipment [symmetric]
    by (auto simp: loadInjectionRules_def)
qed

text \<open>
  The principal set an agent inherits is fenced to its organization: the users are exactly the
  active (not suspended) members of the organization who are bound to the workspace directly or
  through a granted group of that organization, and the groups are exactly the granted groups of the
  organization and the organization's groups those users belong to.\<close>

theorem principal_set_fenced:
  "set (ps_userIds (resolvePrincipalSet db ws org)) = {u \<in> invitedUsers db ws org. activeMember db org u} \<and>
   set (ps_groupIds (resolvePrincipalSet db ws org)) = grantedGroups db ws org \<union>
     {g. (\<exists>r \<in> set (dir_groups db). gr_id r = g \<and> gr_organizationId r = org) \<and>
         (\<exists>m \<in> set (dir_groupMembers db). gm_groupId m = g \<and>
            gm_userId m \<in> {u \<in> invitedUsers db ws org. activeMember db org u})}"
  using resolvePrincipalSet_sets by blast

text \<open>
  A rule that names a foreign or deleted credential is inert: when no secret (connection) of the
  acting organization and workspace has the id, the decoded target never matches a request, whatever
  the rule around it.\<close>

theorem foreign_credential_never_matches:
  assumes "rt_kind t = ''secret'' \<and> rt_secretId t = Some i \<and> i \<noteq> [] \<and>
        (\<forall>r \<in> set secrets. sec_id r = i \<longrightarrow> \<not> secretFenced org ws r) \<or>
      rt_kind t = ''connection'' \<and> rt_appConnectionId t = Some i \<and>
        (\<forall>r \<in> set connections. con_id r = i \<longrightarrow> \<not> connectionFenced org ws r)"
  shows "\<not> targetMatches reg
     (decodeTarget t (loadSecretHosts secrets org ws) (loadConnectionProviders connections org ws)) rule q"
  using assms
proof
  assume a: "rt_kind t = ''secret'' \<and> rt_secretId t = Some i \<and> i \<noteq> [] \<and>
    (\<forall>r \<in> set secrets. sec_id r = i \<longrightarrow> \<not> secretFenced org ws r)"
  then have "map_of (sh_byId (loadSecretHosts secrets org ws)) i = None"
    using loadSecretHosts_byId [of secrets org ws i] by (cases "map_of (sh_byId (loadSecretHosts secrets org ws)) i") auto
  with a show ?thesis by (intro deadTarget_no_match decodeTarget_secret_dead) auto
next
  assume a: "rt_kind t = ''connection'' \<and> rt_appConnectionId t = Some i \<and>
    (\<forall>r \<in> set connections. con_id r = i \<longrightarrow> \<not> connectionFenced org ws r)"
  then have "map_of (loadConnectionProviders connections org ws) i = None"
    using loadConnectionProviders_SomeD [of connections org ws i]
    by (cases "map_of (loadConnectionProviders connections org ws) i") auto
  with a show ?thesis by (intro deadTarget_no_match decodeTarget_connection_dead) auto
qed

theorem foreign_credential_never_matches_witness:
  "\<not> targetMatches exampleRegistry
     (decodeTarget sampleSecretTarget (loadSecretHosts [sampleSecret] ''o1'' ''w1'') (loadConnectionProviders [] ''o1'' ''w1''))
     sampleAllow sampleRequest"
  by (rule foreign_credential_never_matches [where i = "''s1''"])
    (simp add: sampleSecretTarget_def sampleSecret_def secretFenced_def)

end
