(* ===== verification/PolicyOverlap.thy ===== *)
theory PolicyOverlap
  imports SimRule
begin

text \<open>
  The overlap analysis of the rule editor (\<^verbatim>\<open>packages/api/src/lib/policy-overlap.ts\<close>) over the
  rules as the service returns them (\<^verbatim>\<open>toIdentityDto\<close>, \<^verbatim>\<open>toTargetDto\<close> and \<^verbatim>\<open>toRuleDto\<close> of
  \<^verbatim>\<open>services/policy-service.ts\<close>).  \<^term>\<open>None\<close> is a thrown error; the rule data transfer object
  is reduced to the fields the analysis reads.
\<close>

section \<open>Definitions\<close>

datatype overlap_target =
    OApp string "string list" "string option"
  | OConnection string "string list"
  | OSecret "string option" "string option"
  | ONetwork string "string option" "string option"

record overlap_rule =
  or_logicalId :: string
  or_isDefault :: bool
  or_enabled :: bool
  or_priority :: int
  or_name :: string
  or_action :: string
  or_requireApproval :: bool
  or_rateLimit :: "int option"
  or_rateLimitWindow :: "string option"
  or_identities :: "(string \<times> string) list"
  or_targets :: "overlap_target list"
  or_conditions :: json

datatype overlap_kind = Duplicate | Conflict | Shadowed

record overlap_warning =
  ow_logicalId :: string
  ow_kind :: overlap_kind
  ow_byLogicalId :: string
  ow_byName :: string

text \<open>The rules of a scope as the service returns them.\<close>

definition toIdentityDto :: "rule_identity_row \<Rightarrow> (string \<times> string) option" where
  "toIdentityDto row =
     (if truthy (ri_agentId row) then Some (''agent'', the (ri_agentId row))
      else if truthy (ri_userId row) then Some (''user'', the (ri_userId row))
      else if truthy (ri_groupId row) then Some (''group'', the (ri_groupId row))
      else None)"

definition toTargetDto :: "rule_target_row \<Rightarrow> overlap_target option" where
  "toTargetDto row =
     (if rt_kind row = ''app'' then
        (if \<not> truthy (rt_appProvider row) then None
         else Some (OApp (the (rt_appProvider row)) (rt_appTools row)
           (if rt_appConnectionScope row = Some ''organization'' \<or> rt_appConnectionScope row = Some ''workspace''
            then rt_appConnectionScope row else None)))
      else if rt_kind row = ''connection'' then
        (if \<not> truthy (rt_appConnectionId row) then None
         else Some (OConnection (the (rt_appConnectionId row)) (rt_appTools row)))
      else if rt_kind row = ''secret'' then
        (if rt_secretScope row = Some ''organization'' \<or> rt_secretScope row = Some ''workspace''
         then Some (OSecret None (rt_secretScope row))
         else if \<not> truthy (rt_secretId row) then None
         else Some (OSecret (rt_secretId row) None))
      else if rt_kind row = ''network'' then
        (if \<not> truthy (rt_hostPattern row) then None
         else Some (ONetwork (the (rt_hostPattern row)) (rt_pathPattern row) (rt_method row)))
      else None)"

definition toRuleDto :: "sim_rule_row \<Rightarrow> overlap_rule option" where
  "toRuleDto rule =
     (case (those (map toIdentityDto (row_identities rule)), those (map toTargetDto (row_targets rule))) of
        (Some identities, Some targets) \<Rightarrow>
          Some \<lparr>or_logicalId = row_logicalId rule, or_isDefault = row_isDefault rule,
                or_enabled = row_enabled rule, or_priority = row_priority rule, or_name = row_name rule,
                or_action = row_action rule, or_requireApproval = row_requireApproval rule,
                or_rateLimit = row_rateLimit rule, or_rateLimitWindow = row_rateLimitWindow rule,
                or_identities = identities, or_targets = targets, or_conditions = row_conditions rule\<rparr>
      | _ \<Rightarrow> None)"

text \<open>Signatures.\<close>

definition orEmpty :: "string option \<Rightarrow> string" where
  "orEmpty s = (case s of None \<Rightarrow> [] | Some v \<Rightarrow> v)"

definition identityKey :: "string \<times> string \<Rightarrow> string" where
  "identityKey i = fst i @ '':'' @ snd i"

definition identitySig :: "overlap_rule \<Rightarrow> string" where
  "identitySig r = join_with '','' (sort (map identityKey (or_identities r)))"

definition targetEntry :: "overlap_target \<Rightarrow> string" where
  "targetEntry t =
     (case t of
        OApp provider tools connectionScope \<Rightarrow>
          ''app|'' @ provider @ ''|'' @ join_with ''+'' (sort tools) @ ''|'' @ orEmpty connectionScope
      | OConnection connectionId tools \<Rightarrow>
          ''connection|'' @ connectionId @ ''|'' @ join_with ''+'' (sort tools)
      | OSecret secretId secretScope \<Rightarrow> ''secret|'' @ orEmpty secretId @ ''|'' @ orEmpty secretScope
      | ONetwork hostPattern pathPattern method \<Rightarrow>
          ''network|'' @ hostPattern @ ''|'' @ orEmpty pathPattern @ ''|'' @ orEmpty method)"

definition targetSig :: "overlap_rule \<Rightarrow> string" where
  "targetSig r = join_with '','' (sort (map targetEntry (or_targets r)))"

fun conditionEntries :: "json list \<Rightarrow> string list \<Rightarrow> string list option" where
  "conditionEntries [] entries = Some entries"
| "conditionEntries (c # cs) entries =
     (case (getKey ''target'' c, getKey ''operator'' c, getKey ''value'' c) of
        (Some (JStr t), Some (JStr p), Some (JStr v)) \<Rightarrow>
          conditionEntries cs (entries @ [t @ ''|'' @ p @ ''|'' @ v])
      | _ \<Rightarrow> None)"

definition conditionSet :: "json \<Rightarrow> string list" where
  "conditionSet conditions =
     (case conditions of
        JArr cs \<Rightarrow> (case conditionEntries cs [] of None \<Rightarrow> [] | Some entries \<Rightarrow> js_uniq entries)
      | _ \<Rightarrow> [])"

definition conditionSig :: "overlap_rule \<Rightarrow> string" where
  "conditionSig r = join_with '','' (sort (conditionSet (or_conditions r)))"

definition matchSig :: "overlap_rule \<Rightarrow> string" where
  "matchSig r = identitySig r @ [CHR 0x0A] @ targetSig r @ [CHR 0x0A] @ conditionSig r"

text \<open>The decimal text of a number.\<close>

fun nat_text :: "nat \<Rightarrow> string" where
  "nat_text n = (if n < 10 then [char_of (48 + n)] else nat_text (n div 10) @ [char_of (48 + n mod 10)])"

definition int_text :: "int \<Rightarrow> string" where
  "int_text i = (if i < 0 then ''-'' @ nat_text (nat (- i)) else nat_text (nat i))"

definition verdictSig :: "overlap_rule \<Rightarrow> string" where
  "verdictSig r =
     or_action r @ ''|'' @ (if or_requireApproval r then ''true'' else ''false'') @ ''|'' @
     (case or_rateLimit r of None \<Rightarrow> [] | Some n \<Rightarrow> int_text n) @ ''|'' @ orEmpty (or_rateLimitWindow r)"

text \<open>Sound cover rules.\<close>

definition conditionsCover :: "overlap_rule \<Rightarrow> overlap_rule \<Rightarrow> bool" where
  "conditionsCover r1 r2 =
     list_all (\<lambda>e. e \<in> set (conditionSet (or_conditions r2))) (conditionSet (or_conditions r1))"

definition identitiesCover :: "overlap_rule \<Rightarrow> overlap_rule \<Rightarrow> bool" where
  "identitiesCover r1 r2 =
     (if length (or_identities r1) = 0 then True
      else if length (or_identities r2) = 0 then False
      else list_all (\<lambda>i. identityKey i \<in> set (map identityKey (or_identities r1))) (or_identities r2))"

definition isLive :: "overlap_target \<Rightarrow> bool" where
  "isLive t =
     (case t of OConnection _ _ \<Rightarrow> True | OApp _ _ _ \<Rightarrow> True | OSecret _ _ \<Rightarrow> True | ONetwork _ _ _ \<Rightarrow> True)"

definition hasInjectionEffect :: "overlap_rule \<Rightarrow> bool" where
  "hasInjectionEffect r =
     (or_action r = ''allow'' \<and>
      list_ex (\<lambda>t. case t of
          OConnection _ _ \<Rightarrow> True
        | OSecret _ _ \<Rightarrow> True
        | OApp _ _ connectionScope \<Rightarrow> connectionScope \<noteq> None
        | ONetwork _ _ _ \<Rightarrow> False) (or_targets r))"

definition ignoresConditions :: "overlap_target \<Rightarrow> bool" where
  "ignoresConditions t =
     (case t of
        OApp _ tools _ \<Rightarrow> length tools = 0
      | OSecret _ _ \<Rightarrow> True
      | OConnection _ _ \<Rightarrow> True
      | ONetwork _ _ _ \<Rightarrow> False)"

definition isUniversal :: "overlap_target \<Rightarrow> bool" where
  "isUniversal t =
     (case t of
        ONetwork hostPattern pathPattern method \<Rightarrow>
          hostPattern = ''*'' \<and> (pathPattern = None \<or> pathPattern = Some ''*'') \<and> method = None
      | _ \<Rightarrow> False)"

definition hostCover :: "string \<Rightarrow> string \<Rightarrow> bool" where
  "hostCover pattern1 pattern2 =
     (if pattern1 = ''*'' then True
      else if asciiLower pattern1 = asciiLower pattern2 then True
      else CHR ''*'' \<notin> set pattern2 \<and> hostMatches pattern2 pattern1)"

definition GIT_PACK_SUFFIXES :: "string list" where
  "GIT_PACK_SUFFIXES = [''/git-receive-pack'', ''/git-upload-pack'']"

definition isGitPackPattern :: "string \<Rightarrow> bool" where
  "isGitPackPattern p = list_ex (\<lambda>sfx. ends_with p sfx) GIT_PACK_SUFFIXES"

definition methodEq :: "string \<Rightarrow> string option \<Rightarrow> bool" where
  "methodEq m1 m2 = (case m2 of None \<Rightarrow> False | Some m \<Rightarrow> asciiLower m1 = asciiLower m)"

definition methodCover :: "string option \<Rightarrow> string option \<Rightarrow> bool" where
  "methodCover m1 m2 = (case m1 of None \<Rightarrow> True | Some m \<Rightarrow> methodEq m m2)"

definition networkCover ::
    "string \<Rightarrow> string option \<Rightarrow> string option \<Rightarrow> string \<Rightarrow> string option \<Rightarrow> string option \<Rightarrow> bool" where
  "networkCover h1 p1 m1 h2 p2 m2 =
     (if \<not> hostCover h1 h2 then False
      else if (case p2 of None \<Rightarrow> False | Some p \<Rightarrow> isGitPackPattern p) then
        (let universalPath = ((p1 = None \<or> p1 = Some ''*'') \<and> m1 = None);
             samePath = (p1 = p2 \<and> methodCover m1 m2)
         in universalPath \<or> samePath)
      else
        (let pathOk =
               (case p1 of
                  None \<Rightarrow> True
                | Some a \<Rightarrow>
                    a = ''*'' \<or>
                    (case p2 of
                       None \<Rightarrow> False
                     | Some b \<Rightarrow>
                         a = b \<or> CHR ''*'' \<notin> set b \<and> \<not> isGitPackPattern a \<and> pathMatches b a))
         in if \<not> pathOk then False else methodCover m1 m2))"

definition targetCover :: "overlap_target \<Rightarrow> overlap_target \<Rightarrow> bool" where
  "targetCover t1 t2 =
     (if isUniversal t1 then True
      else
        case (t1, t2) of
          (ONetwork h1 p1 m1, ONetwork h2 p2 m2) \<Rightarrow> networkCover h1 p1 m1 h2 p2 m2
        | (OApp provider1 tools1 s1, OApp provider2 tools2 s2) \<Rightarrow>
            provider1 = provider2 \<and>
            (length tools1 = 0 \<or> length tools2 > 0 \<and> list_all (\<lambda>tool. tool \<in> set tools1) tools2)
        | _ \<Rightarrow> False)"

definition ruleCovers :: "overlap_rule \<Rightarrow> overlap_rule \<Rightarrow> bool" where
  "ruleCovers r1 r2 =
     (if \<not> identitiesCover r1 r2 then False
      else if \<not> conditionsCover r1 r2 then False
      else
        (let liveTargets = filter isLive (or_targets r2) in
         if length liveTargets = 0 then False
         else if list_ex ignoresConditions liveTargets \<and> length (conditionSet (or_conditions r1)) > 0
         then False
         else
           (let coverers = filter isLive (or_targets r1) in
            list_all (\<lambda>t2. list_ex (\<lambda>t1. targetCover t1 t2) coverers) liveTargets)))"

text \<open>The first loop: the warnings, the warned ids and the first rule of each signature.\<close>

fun duplicateLoop ::
    "overlap_rule list \<Rightarrow> (string \<times> overlap_rule) list \<Rightarrow> overlap_warning list \<Rightarrow> string list \<Rightarrow>
     overlap_warning list \<times> string list" where
  "duplicateLoop [] firstBySig warnings warned = (warnings, warned)"
| "duplicateLoop (r # rs) firstBySig warnings warned =
     (let sig = matchSig r in
      case map_of firstBySig sig of
        None \<Rightarrow> duplicateLoop rs (AList.update sig r firstBySig) warnings warned
      | Some head \<Rightarrow>
          (let kind = (if verdictSig head = verdictSig r then Duplicate else Conflict) in
           if kind = Conflict \<and> or_action head \<noteq> or_action r \<and> hasInjectionEffect r
           then duplicateLoop rs firstBySig warnings warned
           else duplicateLoop rs firstBySig
             (warnings @ [\<lparr>ow_logicalId = or_logicalId r, ow_kind = kind,
                ow_byLogicalId = or_logicalId head, ow_byName = or_name head\<rparr>])
             (or_logicalId r # warned)))"

text \<open>The second loop, with the rules before the current one in order.\<close>

fun shadowLoop ::
    "overlap_rule list \<Rightarrow> overlap_rule list \<Rightarrow> overlap_warning list \<Rightarrow> string list \<Rightarrow> overlap_warning list" where
  "shadowLoop earlier [] warnings warned = warnings"
| "shadowLoop earlier (r2 # rest) warnings warned =
     (if or_logicalId r2 \<in> set warned \<or> hasInjectionEffect r2
      then shadowLoop (earlier @ [r2]) rest warnings warned
      else
        case find (\<lambda>r1. ruleCovers r1 r2) earlier of
          None \<Rightarrow> shadowLoop (earlier @ [r2]) rest warnings warned
        | Some r1 \<Rightarrow> shadowLoop (earlier @ [r2]) rest
            (warnings @ [\<lparr>ow_logicalId = or_logicalId r2, ow_kind = Shadowed,
               ow_byLogicalId = or_logicalId r1, ow_byName = or_name r1\<rparr>])
            (or_logicalId r2 # warned))"

definition findPolicyOverlaps :: "overlap_rule list \<Rightarrow> overlap_warning list" where
  "findPolicyOverlaps rules =
     (let ordered = sort_key or_priority (filter (\<lambda>r. or_enabled r \<and> \<not> or_isDefault r) rules) in
      case duplicateLoop ordered [] [] [] of
        (warnings, warned) \<Rightarrow> shadowLoop (take 1 ordered) (drop 1 ordered) warnings warned)"

section \<open>Rows\<close>

text \<open>What the database checks of a row and the write schema guarantee: exactly one principal per
  identity row, and condition targets and operators without the signature's separator.\<close>

definition onePrincipal :: "rule_identity_row \<Rightarrow> bool" where
  "onePrincipal i =
     (case (ri_agentId i, ri_userId i, ri_groupId i) of
        (Some a, None, None) \<Rightarrow> a \<noteq> []
      | (None, Some u, None) \<Rightarrow> u \<noteq> []
      | (None, None, Some g) \<Rightarrow> g \<noteq> []
      | _ \<Rightarrow> False)"

definition plainConditions :: "json \<Rightarrow> bool" where
  "plainConditions c =
     (case decodeConditions c of
        None \<Rightarrow> True
      | Some cs \<Rightarrow> list_all (\<lambda>e. CHR ''|'' \<notin> set (cond_target e) \<and> CHR ''|'' \<notin> set (cond_operator e)) cs)"

definition rowOk :: "sim_rule_row \<Rightarrow> bool" where
  "rowOk row = (list_all onePrincipal (row_identities row) \<and> plainConditions (row_conditions row))"

abbreviation engineRule :: "secret_host_set \<Rightarrow> (string \<times> string) list \<Rightarrow> sim_rule_row \<Rightarrow> new_rule" where
  "engineRule sh cp row \<equiv> sim_engine_rule (toSimRule row sh cp)"

lemma engineRule_fields:
  "rule_conditions (engineRule sh cp row) = decodeConditions (row_conditions row)"
  "rule_identities (engineRule sh cp row) = map decodeIdentity (row_identities row)"
  "rule_targets (engineRule sh cp row) = map (\<lambda>t. decodeTarget t sh cp) (row_targets row)"
  "rule_priority (engineRule sh cp row) = row_priority row"
  "rule_isDefault (engineRule sh cp row) = row_isDefault row"
  by (simp_all add: toSimRule_def Let_def decodeIdentities_def)

lemma those_Some: "those xs = Some ys \<longleftrightarrow> xs = map Some ys"
  by (induction xs arbitrary: ys) (auto split: option.splits)

lemma toRuleDto_SomeD:
  assumes "toRuleDto row = Some d"
  shows "map toIdentityDto (row_identities row) = map Some (or_identities d)"
    and "map toTargetDto (row_targets row) = map Some (or_targets d)"
    and "or_conditions d = row_conditions row" and "or_logicalId d = row_logicalId row"
    and "or_enabled d = row_enabled row" and "or_isDefault d = row_isDefault row"
    and "or_priority d = row_priority row"
  using assms by (auto simp: toRuleDto_def those_Some split: option.splits)

section \<open>Identities\<close>

fun identityPair :: "new_identity \<Rightarrow> string \<times> string" where
  "identityPair (AgentIdentity a) = (''agent'', a)"
| "identityPair (UserIdentity u) = (''user'', u)"
| "identityPair (GroupIdentity g) = (''group'', g)"

lemma identityKey_inj: "identityKey (identityPair i) = identityKey (identityPair j) \<Longrightarrow> i = j"
  by (cases i; cases j) (simp_all add: identityKey_def)

lemma toIdentityDto_pair: "onePrincipal i \<Longrightarrow> toIdentityDto i = Some (identityPair (decodeIdentity i))"
  by (auto simp: onePrincipal_def toIdentityDto_def decodeIdentity_def truthy_def split: option.splits)

lemma or_identities_row:
  assumes "toRuleDto row = Some d" and "rowOk row"
  shows "or_identities d = map (\<lambda>i. identityPair (decodeIdentity i)) (row_identities row)"
proof -
  have "map toIdentityDto (row_identities row) =
      map Some (map (\<lambda>i. identityPair (decodeIdentity i)) (row_identities row))"
    using assms(2) by (simp add: rowOk_def list_all_iff toIdentityDto_pair)
  with toRuleDto_SomeD(1) [OF assms(1)] show ?thesis by (metis inj_Some inj_map_eq_map)
qed

lemma identityMatches_ex:
  "identityMatches r q \<longleftrightarrow> rule_identities r = [] \<or> (\<exists>i \<in> set (rule_identities r).
     case i of
       AgentIdentity a \<Rightarrow> a = req_agentId q
     | UserIdentity u \<Rightarrow> u \<in> set (case req_userIds q of None \<Rightarrow> [] | Some us \<Rightarrow> us)
     | GroupIdentity g \<Rightarrow> g \<in> set (case req_groupIds q of None \<Rightarrow> [] | Some gs \<Rightarrow> gs))"
  by (simp add: identityMatches_def list_ex_iff)

lemma identitiesCover_sound:
  assumes d: "toRuleDto row1 = Some d1" "toRuleDto row2 = Some d2" and ok: "rowOk row1" "rowOk row2"
    and "identitiesCover d1 d2" and "identityMatches (engineRule sh cp row2) q"
  shows "identityMatches (engineRule sh cp row1) q"
proof (cases "row_identities row1 = []")
  case True
  then show ?thesis by (simp add: identityMatches_ex engineRule_fields)
next
  case False
  note ids = or_identities_row [OF d(1) ok(1)] or_identities_row [OF d(2) ok(2)]
  have sub: "set (map decodeIdentity (row_identities row2)) \<subseteq> set (map decodeIdentity (row_identities row1))"
    using assms(5) False
    by (auto simp: identitiesCover_def ids list_all_iff dest!: identityKey_inj split: if_splits)
  have "row_identities row2 \<noteq> []"
    using assms(5) False by (auto simp: identitiesCover_def ids split: if_splits)
  with assms(6) sub show ?thesis unfolding identityMatches_ex engineRule_fields by blast
qed

section \<open>Conditions\<close>

definition conditionText :: "old_condition \<Rightarrow> string" where
  "conditionText e = cond_target e @ ''|'' @ cond_operator e @ ''|'' @ cond_value e"

lemma conditionEntries_decode:
  "conditionEntries cs (map conditionText ds) = map_option (map conditionText) (decodeConditionList cs ds)"
proof (induction cs arbitrary: ds)
  case (Cons c cs)
  show ?case
  proof (cases "decodeCondition c")
    case None
    then show ?thesis by (auto simp: decodeCondition_def split: option.splits json.splits)
  next
    case (Some e)
    then have k: "getKey ''target'' c = Some (JStr (cond_target e))"
      "getKey ''operator'' c = Some (JStr (cond_operator e))" "getKey ''value'' c = Some (JStr (cond_value e))"
      by (auto simp: decodeCondition_def split: option.splits json.splits)
    from Cons.IH [of "ds @ [e]"] show ?thesis by (simp add: Some k conditionText_def)
  qed
qed simp

lemma conditionSet_decode:
  "conditionSet c = js_uniq (map conditionText (case decodeConditions c of None \<Rightarrow> [] | Some cs \<Rightarrow> cs))"
  using conditionEntries_decode [of _ "[]"]
  by (auto simp: conditionSet_def decodeConditions_def split: json.splits option.splits)

lemma conditionText_inj:
  assumes "conditionText a = conditionText b"
    and "CHR ''|'' \<notin> set (cond_target a)" "CHR ''|'' \<notin> set (cond_operator a)"
    and "CHR ''|'' \<notin> set (cond_target b)" "CHR ''|'' \<notin> set (cond_operator b)"
  shows "cond_target a = cond_target b" "cond_operator a = cond_operator b" "cond_value a = cond_value b"
proof -
  have eq: "cond_target a @ CHR ''|'' # (cond_operator a @ CHR ''|'' # cond_value a) =
      cond_target b @ CHR ''|'' # (cond_operator b @ CHR ''|'' # cond_value b)"
    using assms(1) by (simp add: conditionText_def)
  note s = first_split_unique [OF eq assms(2,4)]
  show "cond_target a = cond_target b" by (rule s(1))
  show "cond_operator a = cond_operator b" "cond_value a = cond_value b"
    by (rule first_split_unique [OF s(2) assms(3,5)])+
qed

lemma conditionsCover_sound:
  assumes "conditionsCover d1 d2" and "plainConditions (or_conditions d1)" "plainConditions (or_conditions d2)"
    and "conditionsMatch (decodeConditions (or_conditions d2)) body"
  shows "conditionsMatch (decodeConditions (or_conditions d1)) body"
  unfolding conditionsMatch_iff
proof
  fix e assume e: "e \<in> set (case decodeConditions (or_conditions d1) of None \<Rightarrow> [] | Some l \<Rightarrow> l)"
  then have "conditionText e \<in> set (conditionSet (or_conditions d2))"
    using assms(1) by (auto simp: conditionsCover_def list_all_iff conditionSet_decode)
  then obtain f where f: "f \<in> set (case decodeConditions (or_conditions d2) of None \<Rightarrow> [] | Some l \<Rightarrow> l)"
    "conditionText e = conditionText f" by (auto simp: conditionSet_decode)
  have eqs: "cond_target e = cond_target f" "cond_operator e = cond_operator f" "cond_value e = cond_value f"
    using conditionText_inj [OF f(2)] e f(1) assms(2,3)
    by (auto simp: plainConditions_def list_all_iff split: option.splits)
  have "conditionMatches f body" using assms(4) f(1) by (auto simp: conditionsMatch_iff)
  then show "conditionMatches e body" unfolding conditionMatches_def eqs .
qed

lemma conditionSet_empty:
  "conditionSet c = [] \<Longrightarrow> conditionsMatch (decodeConditions c) body"
  by (auto simp: conditionSet_decode conditionsMatch_def split: option.splits)


section \<open>Targets\<close>

lemma isGitPackPattern_iff: "isGitPackPattern p \<longleftrightarrow> (\<exists>s \<in> set GIT_PACK_SERVICES. ends_with p (''/'' @ s))"
  by (auto simp: isGitPackPattern_def GIT_PACK_SUFFIXES_def GIT_PACK_SERVICES_def)

lemma hostCover_sound:
  assumes "hostCover p1 p2" and "hostMatches h p2"
  shows "hostMatches h p1"
proof (cases "p1 = ''*'' \<or> asciiLower p1 = asciiLower p2")
  case True
  then show ?thesis using assms(2) hostMatches_cong [OF refl, of p1 p2 h] by auto
next
  case False
  with assms(1) have c: "CHR ''*'' \<notin> set p2" "hostMatches p2 p1" by (auto simp: hostCover_def)
  then have "asciiLower h = asciiLower p2" using assms(2) hostMatches_exact by blast
  then show ?thesis using hostMatches_cong [OF _ refl, of h p2 p1] c(2) by blast
qed

definition anyPath :: "string option \<Rightarrow> string" where
  "anyPath p = (case p of None \<Rightarrow> ''*'' | Some x \<Rightarrow> x)"

text \<open>What a network target asks of a request apart from host and conditions.\<close>

definition pathMethod :: "policy_request \<Rightarrow> string \<Rightarrow> string option \<Rightarrow> bool" where
  "pathMethod q p m \<longleftrightarrow>
     pathMatches (req_path q) p \<and> (\<forall>k. m = Some k \<longrightarrow> asciiLower k = asciiLower (req_method q)) \<or>
     asciiLower (req_method q) = ''get'' \<and>
       (\<exists>s \<in> set GIT_PACK_SERVICES. ends_with p (''/'' @ s) \<and> isGitDiscovery (req_path q) s)"

lemma network_matches:
  "targetMatches reg (NetworkTarget h p m) r q \<longleftrightarrow>
     hostMatches (req_host q) h \<and> conditionsMatch (rule_conditions r) (req_body q) \<and> pathMethod q (anyPath p) m"
  by (auto simp: targetMatches_def endpointMatches_iff pathMethod_def anyPath_def split: option.splits)

lemma methodCover_sound:
  "methodCover m1 m2 \<Longrightarrow> (\<And>k. m2 = Some k \<Longrightarrow> asciiLower k = asciiLower rm) \<Longrightarrow>
   m1 = Some k \<Longrightarrow> asciiLower k = asciiLower rm"
  by (auto simp: methodCover_def methodEq_def split: option.splits)

lemma pathMethod_plain:
  "\<not> isGitPackPattern p \<Longrightarrow> pathMethod q p m \<longleftrightarrow>
     pathMatches (req_path q) p \<and> (\<forall>k. m = Some k \<longrightarrow> asciiLower k = asciiLower (req_method q))"
  by (auto simp: pathMethod_def isGitPackPattern_iff)

lemma star_not_git: "\<not> isGitPackPattern ''*''"
  by (simp add: isGitPackPattern_def GIT_PACK_SUFFIXES_def suffix_def)

lemma pathMethod_any: "pathMethod q (anyPath p) None" if "p = None \<or> p = Some ''*''"
  using that by (auto simp: pathMethod_def anyPath_def)

lemma pathMethod_direct:
  "pathMatches (req_path q) p \<Longrightarrow> (\<And>k. m = Some k \<Longrightarrow> asciiLower k = asciiLower (req_method q)) \<Longrightarrow> pathMethod q p m"
  by (auto simp: pathMethod_def)

lemma pathMatches_concrete:
  assumes "CHR ''*'' \<notin> set b" and "pathMatches r b" and "pathMatches b a"
  shows "pathMatches r a"
proof -
  have "stripQuery r = b" using assms(1,2) pathMatches_literal by blast
  then have "stripQuery b = stripQuery r" using stripQuery_free [of r] by simp
  then show ?thesis using assms(3) pathMatches_cong by metis
qed

lemma networkCover_sound:
  assumes "networkCover h1 p1 m1 h2 p2 m2" and "hostMatches (req_host q) h2" and "pathMethod q (anyPath p2) m2"
  shows "hostMatches (req_host q) h1 \<and> pathMethod q (anyPath p1) m1"
proof
  show "hostMatches (req_host q) h1"
    using assms(1,2) hostCover_sound by (auto simp: networkCover_def split: if_splits)
  show "pathMethod q (anyPath p1) m1"
  proof (cases "case p2 of None \<Rightarrow> False | Some p \<Rightarrow> isGitPackPattern p")
    case True
    with assms(1) have "(p1 = None \<or> p1 = Some ''*'') \<and> m1 = None \<or> p1 = p2 \<and> methodCover m1 m2"
      by (auto simp: networkCover_def Let_def split: if_splits)
    then show ?thesis
    proof
      assume "p1 = p2 \<and> methodCover m1 m2"
      then show ?thesis using assms(3) methodCover_sound [of m1 m2 "req_method q"]
        by (auto simp: pathMethod_def)
    qed (auto intro: pathMethod_any)
  next
    case False
    then have g: "\<not> isGitPackPattern (anyPath p2)" using star_not_git by (auto simp: anyPath_def split: option.splits)
    with assms(3) have m2: "pathMatches (req_path q) (anyPath p2)"
      "\<And>k. m2 = Some k \<Longrightarrow> asciiLower k = asciiLower (req_method q)" by (auto simp: pathMethod_plain)
    from assms(1) False have c: "methodCover m1 m2"
      and p: "p1 = None \<or> (\<exists>a. p1 = Some a \<and> (a = ''*'' \<or> (\<exists>b. p2 = Some b \<and>
          (a = b \<or> CHR ''*'' \<notin> set b \<and> pathMatches b a))))"
      by (auto simp: networkCover_def Let_def split: if_splits option.splits)
    have "pathMatches (req_path q) (anyPath p1)"
      using p m2(1) pathMatches_concrete by (auto simp: anyPath_def)
    then show ?thesis using methodCover_sound [OF c m2(2)] by (intro pathMethod_direct) auto
  qed
qed

lemma toolMatches_conditions: "toolMatches q cs t \<Longrightarrow> conditionsMatch cs (req_body q)"
  by (auto simp: toolMatches_iff endpointMatches_iff)

lemma toolMatches_replace:
  "toolMatches q cs t \<Longrightarrow> conditionsMatch cs' (req_body q) \<Longrightarrow> toolMatches q cs' t"
  by (fastforce simp: toolMatches_iff intro: endpointMatches_conditions_mono)

lemma appTargetMatches_mono:
  assumes "appTargetMatches reg q p ts cs" and "set ts \<subseteq> set ts'" and "conditionsMatch cs' (req_body q)"
  shows "appTargetMatches reg q p ts' cs'"
  using assms by (auto simp: appTargetMatches_iff intro: toolMatches_replace)

lemma appTargetMatches_host: "appTargetMatches reg q p ts cs \<Longrightarrow> providerHostMatches reg (req_host q) p"
  by (auto simp: providerHostMatches_iff appTargetMatches_iff dest!: toolMatches_hostD elim!: getAppTool_SomeD)

text \<open>A row target and its data transfer object describe the same engine target.\<close>

lemma toTargetDto_network:
  "toTargetDto t = Some (ONetwork h p m) \<Longrightarrow> decodeTarget t sh cp = NetworkTarget h p m"
  by (auto simp: toTargetDto_def decodeTarget_def truthy_def split: if_splits option.splits)

lemma toTargetDto_app:
  "toTargetDto t = Some (OApp p ts s) \<Longrightarrow> \<exists>l. decodeTarget t sh cp = AppTarget p ts l"
  by (auto simp: toTargetDto_def decodeTarget_def truthy_def split: if_splits option.splits)

lemma isUniversal_matches:
  assumes "toTargetDto t = Some d" and "isUniversal d" and "conditionsMatch (rule_conditions r) (req_body q)"
  shows "targetMatches reg (decodeTarget t sh cp) r q"
proof -
  obtain p where "d = ONetwork ''*'' p None" "p = None \<or> p = Some ''*''"
    using assms(2) by (auto simp: isUniversal_def split: overlap_target.splits)
  with assms(1,3) show ?thesis
    by (auto simp: toTargetDto_network network_matches intro: pathMethod_any)
qed

text \<open>The conditions of the earlier rule hold wherever the later rule's target matches.\<close>

lemma targetCover_sound:
  assumes d: "toTargetDto t1 = Some d1" "toTargetDto t2 = Some d2" and "targetCover d1 d2"
    and m: "targetMatches reg (decodeTarget t2 sh cp) r2 q"
    and c: "conditionsMatch (rule_conditions r2) (req_body q) \<or> ignoresConditions d2 \<Longrightarrow>
            conditionsMatch (rule_conditions r1) (req_body q)"
  shows "targetMatches reg (decodeTarget t1 sh cp) r1 q"
proof -
  have c1: "conditionsMatch (rule_conditions r1) (req_body q)"
  proof (rule c, cases d2)
    case (ONetwork h p m)
    with m d(2) show "conditionsMatch (rule_conditions r2) (req_body q) \<or> ignoresConditions d2"
      by (simp add: toTargetDto_network network_matches)
  next
    case (OApp p ts s)
    with d(2) obtain l where "decodeTarget t2 sh cp = AppTarget p ts l" using toTargetDto_app by blast
    with m OApp show "conditionsMatch (rule_conditions r2) (req_body q) \<or> ignoresConditions d2"
      by (auto simp: targetMatches_def ignoresConditions_def appTargetMatches_iff dest: toolMatches_conditions
          split: if_splits)
  qed (simp_all add: ignoresConditions_def)
  show ?thesis
  proof (cases "isUniversal d1")
    case True
    then show ?thesis using isUniversal_matches [OF d(1) _ c1] by blast
  next
    case False
    with assms(3) consider
      (net) h1 p1 m1 h2 p2 m2 where "d1 = ONetwork h1 p1 m1" "d2 = ONetwork h2 p2 m2"
        "networkCover h1 p1 m1 h2 p2 m2"
    | (app) p ts1 s1 ts2 s2 where "d1 = OApp p ts1 s1" "d2 = OApp p ts2 s2"
        "ts1 = [] \<or> ts2 \<noteq> [] \<and> set ts2 \<subseteq> set ts1"
      by (cases d1; cases d2) (auto simp: targetCover_def list_all_iff)
    then show ?thesis
    proof cases
      case net
      with m d c1 show ?thesis using networkCover_sound [OF net(3)]
        by (auto simp: toTargetDto_network network_matches)
    next
      case app
      obtain l1 l2 where l: "decodeTarget t1 sh cp = AppTarget p ts1 l1" "decodeTarget t2 sh cp = AppTarget p ts2 l2"
        using d app(1,2) toTargetDto_app by blast
      with m app(3) c1 show ?thesis
        by (auto simp: targetMatches_def split: if_splits intro: appTargetMatches_host appTargetMatches_mono)
    qed
  qed
qed


section \<open>Rules\<close>

lemma isLive_all [simp]: "isLive t" "filter isLive ts = ts"
proof -
  show live: "isLive t" for t by (cases t) (simp_all add: isLive_def)
  then show "filter isLive ts = ts" by simp
qed

lemma ruleCovers_sound:
  assumes d: "toRuleDto row1 = Some d1" "toRuleDto row2 = Some d2" and ok: "rowOk row1" "rowOk row2"
    and cover: "ruleCovers d1 d2" and m: "ruleMatches reg (engineRule sh cp row2) q"
  shows "ruleMatches reg (engineRule sh cp row1) q"
proof -
  from cover have ids: "identitiesCover d1 d2" and conds: "conditionsCover d1 d2"
    and guard: "\<forall>t \<in> set (or_targets d2). ignoresConditions t \<longrightarrow> conditionSet (or_conditions d1) = []"
    and targets: "\<forall>t2 \<in> set (or_targets d2). \<exists>t1 \<in> set (or_targets d1). targetCover t1 t2"
    by (auto simp: ruleCovers_def Let_def list_all_iff list_ex_iff split: if_splits)
  have plain: "plainConditions (or_conditions d1)" "plainConditions (or_conditions d2)"
    using ok d by (simp_all add: rowOk_def toRuleDto_SomeD(3))
  from m obtain t2 where t2: "t2 \<in> set (row_targets row2)"
    "targetMatches reg (decodeTarget t2 sh cp) (engineRule sh cp row2) q"
    by (auto simp: ruleMatches_def engineRule_fields list_ex_iff)
  obtain e2 where e2: "toTargetDto t2 = Some e2" "e2 \<in> set (or_targets d2)"
    using toRuleDto_SomeD(2) [OF d(2)] t2(1) by (metis (no_types, lifting) imageE image_eqI list.set_map)
  then obtain e1 where e1: "e1 \<in> set (or_targets d1)" "targetCover e1 e2" using targets by blast
  obtain t1 where t1: "t1 \<in> set (row_targets row1)" "toTargetDto t1 = Some e1"
    using toRuleDto_SomeD(2) [OF d(1)] e1(1) by (metis (no_types, lifting) imageE image_eqI list.set_map)
  have "targetMatches reg (decodeTarget t1 sh cp) (engineRule sh cp row1) q"
  proof (rule targetCover_sound [OF t1(2) e2(1) e1(2) t2(2)])
    assume "conditionsMatch (rule_conditions (engineRule sh cp row2)) (req_body q) \<or> ignoresConditions e2"
    then show "conditionsMatch (rule_conditions (engineRule sh cp row1)) (req_body q)"
    proof
      assume "conditionsMatch (rule_conditions (engineRule sh cp row2)) (req_body q)"
      then show ?thesis using conditionsCover_sound [OF conds plain, of "req_body q"]
        by (simp add: engineRule_fields toRuleDto_SomeD(3) [OF d(1)] toRuleDto_SomeD(3) [OF d(2)])
    next
      assume "ignoresConditions e2"
      then have "conditionSet (or_conditions d1) = []" using guard e2(2) by blast
      then show ?thesis using conditionSet_empty by (simp add: engineRule_fields toRuleDto_SomeD(3) [OF d(1), symmetric])
    qed
  qed
  moreover have "identityMatches (engineRule sh cp row1) q"
    using identitiesCover_sound [OF d ok ids] m by (simp add: ruleMatches_def)
  ultimately show ?thesis using t1(1)
    by (auto simp: ruleMatches_def engineRule_fields list_ex_iff)
qed

section \<open>The loops\<close>

lemma duplicateLoop_kinds:
  "duplicateLoop rs fbs ws wd = (ws', wd') \<Longrightarrow> w \<in> set ws' \<Longrightarrow> w \<in> set ws \<or> ow_kind w \<noteq> Shadowed"
proof (induction rs fbs ws wd rule: duplicateLoop.induct)
  case (2 r rs fbs ws wd)
  show ?case
  proof (cases "map_of fbs (matchSig r)")
    case None
    with 2 show ?thesis by (simp add: Let_def)
  next
    case (Some head)
    with 2 show ?thesis by (fastforce simp: Let_def split: if_splits)
  qed
qed simp

text \<open>Every shadow warning names a rule and an earlier rule that covers it.\<close>

lemma shadowLoop_sound:
  "w \<in> set (shadowLoop earlier rest ws wd) \<Longrightarrow> w \<notin> set ws \<Longrightarrow>
   \<exists>pre r2 post r1. earlier @ rest = pre @ r2 # post \<and> r1 \<in> set pre \<and> ruleCovers r1 r2 \<and>
     ow_logicalId w = or_logicalId r2 \<and> ow_byLogicalId w = or_logicalId r1"
proof (induction earlier rest ws wd rule: shadowLoop.induct)
  case (2 earlier r2 rest ws wd)
  show ?case
  proof (cases "or_logicalId r2 \<in> set wd \<or> hasInjectionEffect r2")
    case True
    with 2 show ?thesis by simp
  next
    case False
    show ?thesis
    proof (cases "find (\<lambda>r1. ruleCovers r1 r2) earlier")
      case None
      with False 2 show ?thesis by simp
    next
      case (Some r1)
      then have r1: "r1 \<in> set earlier" "ruleCovers r1 r2"
        by (auto simp: find_Some_iff in_set_conv_nth)
      define new where "new = \<lparr>ow_logicalId = or_logicalId r2, ow_kind = Shadowed,
               ow_byLogicalId = or_logicalId r1, ow_byName = or_name r1\<rparr>"
      show ?thesis
      proof (cases "w = new")
        case True
        with r1 show ?thesis by (intro exI [of _ earlier] exI [of _ r2] exI [of _ rest] exI [of _ r1])
          (simp add: new_def)
      next
        case neq: False
        from 2(4) Some False have "w \<in> set (shadowLoop (earlier @ [r2]) rest (ws @ [new]) (or_logicalId r2 # wd))"
          by (simp add: new_def)
        moreover have "w \<notin> set (ws @ [new])" using 2(5) neq by simp
        ultimately show ?thesis using 2(3) [OF False Some] by (simp add: new_def)
      qed
    qed
  qed
qed simp

lemma take_drop_1: "take 1 xs @ drop 1 xs = xs"
  by (cases xs) auto

lemma findPolicyOverlaps_shadow:
  assumes "w \<in> set (findPolicyOverlaps rules)" and "ow_kind w = Shadowed"
  shows "\<exists>pre r2 post r1.
    sort_key or_priority (filter (\<lambda>r. or_enabled r \<and> \<not> or_isDefault r) rules) = pre @ r2 # post \<and>
    r1 \<in> set pre \<and> ruleCovers r1 r2 \<and> ow_logicalId w = or_logicalId r2 \<and> ow_byLogicalId w = or_logicalId r1"
proof -
  let ?o = "sort_key or_priority (filter (\<lambda>r. or_enabled r \<and> \<not> or_isDefault r) rules)"
  obtain ws wd where d: "duplicateLoop ?o [] [] [] = (ws, wd)" by fastforce
  have "w \<in> set (shadowLoop (take 1 ?o) (drop 1 ?o) ws wd)"
    using assms(1) d by (simp add: findPolicyOverlaps_def Let_def)
  moreover have "w \<notin> set ws" using duplicateLoop_kinds [OF d] assms(2) by auto
  ultimately have "\<exists>pre r2 post r1. take 1 ?o @ drop 1 ?o = pre @ r2 # post \<and> r1 \<in> set pre \<and> ruleCovers r1 r2 \<and>
      ow_logicalId w = or_logicalId r2 \<and> ow_byLogicalId w = or_logicalId r1"
    by (rule shadowLoop_sound)
  then show ?thesis unfolding take_drop_1 .
qed

section \<open>The analysis against the engine\<close>

lemma insort_key_map: "insort_key k (f x) (map f xs) = map f (insort_key (\<lambda>y. k (f y)) x xs)"
  by (induction xs) auto

lemma sort_key_map_comp: "sort_key k (map f xs) = map f (sort_key (\<lambda>x. k (f x)) xs)"
  by (induction xs) (simp_all add: insort_key_map)

lemma find_append: "find P (xs @ ys) = (case find P xs of None \<Rightarrow> find P ys | Some x \<Rightarrow> Some x)"
  by (induction xs) auto

lemma find_map: "find P (map f xs) = map_option f (find (\<lambda>x. P (f x)) xs)"
  by (induction xs) auto

lemma find_drop_covered:
  assumes "x \<in> set pre" and "P y \<Longrightarrow> P x"
  shows "find P (pre @ y # post) = find P (pre @ post)"
proof (cases "find P pre")
  case None
  then have "\<not> P y" using assms by (auto simp: find_None_iff)
  with None show ?thesis by (simp add: find_append)
qed (simp add: find_append)

lemma filter_drop_one:
  assumes "distinct (map k (pre @ y # post))"
  shows "filter (\<lambda>r. k r \<noteq> k y) (pre @ y # post) = pre @ post"
proof -
  have "k r \<noteq> k y" if "r \<in> set pre \<union> set post" for r
    using assms that by (auto simp: image_iff)
  then have "filter (\<lambda>r. k r \<noteq> k y) pre = pre" "filter (\<lambda>r. k r \<noteq> k y) post = post"
    by (simp_all add: filter_id_conv)
  then show ?thesis by simp
qed

lemma insort_key_cong_set:
  "\<forall>y \<in> insert x (set ys). f y = g y \<Longrightarrow> insort_key f x ys = insort_key g x ys"
  by (induction ys) auto

lemma sort_key_cong_set: "\<forall>x \<in> set xs. f x = g x \<Longrightarrow> sort_key f xs = sort_key g xs"
  by (induction xs) (auto intro!: insort_key_cong_set)

definition candidates :: "sim_rule_row list \<Rightarrow> sim_rule_row list" where
  "candidates rows = filter (\<lambda>r. row_enabled r \<and> \<not> row_isDefault r) rows"

text \<open>The rules the editor analyses are the rows the engine orders.\<close>

lemma ordered_dtos:
  assumes dtos: "map toRuleDto rows = map Some dtos"
  obtains dto where "\<And>row. row \<in> set rows \<Longrightarrow> toRuleDto row = Some (dto row)"
    and "sort_key or_priority (filter (\<lambda>r. or_enabled r \<and> \<not> or_isDefault r) dtos) =
      map dto (sort_key row_priority (candidates rows))"
proof -
  define dto where "dto = (\<lambda>row. the (toRuleDto row))"
  have dto: "toRuleDto row = Some (dto row)" if "row \<in> set rows" for row
  proof -
    have "toRuleDto row \<in> set (map Some dtos)" using that dtos by (metis imageI list.set_map)
    then show ?thesis by (auto simp: dto_def)
  qed
  have flds: "or_enabled (dto row) = row_enabled row" "or_isDefault (dto row) = row_isDefault row"
    "or_priority (dto row) = row_priority row" if "row \<in> set rows" for row
    using toRuleDto_SomeD [OF dto [OF that]] by simp_all
  have "map Some dtos = map Some (map dto rows)" unfolding dtos [symmetric] by (simp add: dto)
  then have eq: "dtos = map dto rows" using inj_Some inj_map_eq_map by blast
  have "filter (\<lambda>r. or_enabled r \<and> \<not> or_isDefault r) dtos = map dto (candidates rows)"
    unfolding eq candidates_def filter_map comp_def using flds by (auto intro!: arg_cong [of _ _ "map dto"] filter_cong)
  moreover have "sort_key or_priority (map dto (candidates rows)) = map dto (sort_key row_priority (candidates rows))"
    unfolding sort_key_map_comp using flds(3)
    by (intro arg_cong [of _ _ "map dto"] sort_key_cong_set) (auto simp: candidates_def)
  ultimately show thesis using dto that by simp
qed

text \<open>A shadow warning is about a row behind one that matches wherever it does.\<close>

lemma shadow_rows:
  assumes dtos: "map toRuleDto rows = map Some dtos" and ok: "\<forall>row \<in> set rows. rowOk row"
    and w: "w \<in> set (findPolicyOverlaps dtos)" "ow_kind w = Shadowed"
  obtains Pre R2 Post R1 where "sort_key row_priority (candidates rows) = Pre @ R2 # Post"
    and "ow_logicalId w = row_logicalId R2" and "R1 \<in> set Pre"
    and "\<And>reg sh cp q. ruleMatches reg (engineRule sh cp R2) q \<Longrightarrow> ruleMatches reg (engineRule sh cp R1) q"
proof -
  obtain dto where dto: "\<And>row. row \<in> set rows \<Longrightarrow> toRuleDto row = Some (dto row)"
    and srt: "sort_key or_priority (filter (\<lambda>r. or_enabled r \<and> \<not> or_isDefault r) dtos) =
      map dto (sort_key row_priority (candidates rows))"
    using ordered_dtos [OF dtos] by blast
  from findPolicyOverlaps_shadow [OF w] srt obtain pre r2 post r1 where
    s: "map dto (sort_key row_priority (candidates rows)) = pre @ r2 # post" "r1 \<in> set pre" "ruleCovers r1 r2"
      "ow_logicalId w = or_logicalId r2"
    by auto
  then obtain Pre R2 Post where O: "sort_key row_priority (candidates rows) = Pre @ R2 # Post"
    "pre = map dto Pre" "r2 = dto R2"
    by (auto simp: map_eq_append_conv map_eq_Cons_conv)
  with s(2) obtain R1 where R1: "R1 \<in> set Pre" "r1 = dto R1" by auto
  have "set (sort_key row_priority (candidates rows)) \<subseteq> set rows" by (auto simp: candidates_def)
  then have mem: "R1 \<in> set rows" "R2 \<in> set rows" using O(1) R1(1) by auto
  show thesis
  proof (rule that [OF O(1) _ R1(1)])
    show "ow_logicalId w = row_logicalId R2"
      using s(4) O(3) toRuleDto_SomeD(4) [OF dto [OF mem(2)]] by simp
    show "ruleMatches reg (engineRule sh cp R1) q" if "ruleMatches reg (engineRule sh cp R2) q" for reg sh cp q
      using ruleCovers_sound [OF dto [OF mem(1)] dto [OF mem(2)]] ok mem s(3) O(3) R1(2) that by blast
  qed
qed

lemma levelPick_rows:
  "levelPick reg (map (engineRule sh cp) xs) q =
     map_option (engineRule sh cp) (find (\<lambda>r. ruleMatches reg (engineRule sh cp r) q) (sort_key row_priority xs))"
  unfolding levelPick_find sort_key_map_comp find_map engineRule_fields ..

lemma distinct_candidates:
  assumes "distinct (map row_logicalId rows)"
  shows "distinct (map row_logicalId (sort_key row_priority (candidates rows)))"
  using assms by (auto simp: candidates_def distinct_map inj_on_def)

lemma shadow_sound:
  assumes dtos: "map toRuleDto rows = map Some dtos" and ok: "\<forall>row \<in> set rows. rowOk row"
    and dist: "distinct (map row_logicalId rows)"
    and w: "w \<in> set (findPolicyOverlaps dtos)" "ow_kind w = Shadowed"
  shows "firstMatch reg (map (engineRule sh cp) (filter (\<lambda>r. row_logicalId r \<noteq> ow_logicalId w) (candidates rows))) q =
    firstMatch reg (map (engineRule sh cp) (candidates rows)) q"
proof -
  obtain Pre R2 Post R1 where ord: "sort_key row_priority (candidates rows) = Pre @ R2 # Post"
    and id: "ow_logicalId w = row_logicalId R2" and R1: "R1 \<in> set Pre"
    and cover: "ruleMatches reg (engineRule sh cp R2) q \<Longrightarrow> ruleMatches reg (engineRule sh cp R1) q"
    using shadow_rows [OF dtos ok w] by metis
  have drop: "filter (\<lambda>r. row_logicalId r \<noteq> ow_logicalId w) (Pre @ R2 # Post) = Pre @ Post"
    using filter_drop_one [of row_logicalId Pre R2 Post] distinct_candidates [OF dist] by (simp only: ord id)
  have "levelPick reg (map (engineRule sh cp) (filter (\<lambda>r. row_logicalId r \<noteq> ow_logicalId w) (candidates rows))) q =
      levelPick reg (map (engineRule sh cp) (candidates rows)) q"
    unfolding levelPick_rows filter_sort [symmetric] ord drop
    using find_drop_covered [of R1 Pre "\<lambda>r. ruleMatches reg (engineRule sh cp r) q" R2 Post] R1 cover
    by simp
  then show ?thesis by (simp add: firstMatch_levelPick)
qed


section \<open>Concrete rows for the examples\<close>

definition networkRow :: "string \<Rightarrow> int \<Rightarrow> string \<Rightarrow> string option \<Rightarrow> json \<Rightarrow> sim_rule_row" where
  "networkRow lid priority host path conditions =
     \<lparr>row_id = lid, row_scope = ''workspace'', row_organizationId = None, row_workspaceId = Some ''w1'',
      row_status = ''draft'', row_generation = 0, row_priority = priority, row_enabled = True,
      row_isDefault = False, row_logicalId = lid, row_source = ''custom'', row_name = lid,
      row_action = ''block'', row_rateLimit = None, row_rateLimitWindow = None, row_requireApproval = False,
      row_conditions = conditions, row_identities = [],
      row_targets = [\<lparr>rt_kind = ''network'', rt_appProvider = None, rt_appTools = [],
        rt_appConnectionScope = None, rt_appConnectionId = None, rt_secretId = None, rt_secretScope = None,
        rt_hostPattern = Some host, rt_pathPattern = path, rt_method = None\<rparr>]\<rparr>"

definition bodyCondition :: "string \<Rightarrow> json" where
  "bodyCondition v = JObj [(''target'', JStr ''body''), (''operator'', JStr ''contains''), (''value'', JStr v)]"

definition noSecrets :: secret_host_set where
  "noSecrets = \<lparr>sh_byId = [], sh_workspaceHosts = [], sh_orgHosts = []\<rparr>"

definition bodyRequest :: "string \<Rightarrow> policy_request" where
  "bodyRequest b =
     \<lparr>req_host = ''api.example.com'', req_path = ''/v1'', req_method = ''POST'', req_body = Some b,
      req_agentId = ''a1'', req_userIds = None, req_groupIds = None, req_hasInjections = True,
      req_isLlmHost = False, req_winningConnectionId = None\<rparr>"

text \<open>The warnings the editor shows for rows, and the row the engine picks.\<close>

definition overlapsOf :: "sim_rule_row list \<Rightarrow> overlap_warning list" where
  "overlapsOf rows = findPolicyOverlaps (List.map_filter toRuleDto rows)"

definition pickedName :: "registry \<Rightarrow> sim_rule_row list \<Rightarrow> policy_request \<Rightarrow> string option" where
  "pickedName reg rows q = map_option rule_name (levelPick reg (map (engineRule noSecrets []) (candidates rows)) q)"

section \<open>Properties\<close>

text \<open>
  C23: No false shadow warning.  When the analysis of a level's rules reports a rule as shadowed, that
  rule can never take effect: for every registry, every resolution of secrets and connections and
  every request, the engine's first match over the level is the same with and without it.\<close>

theorem shadow_warnings_are_sound:
  assumes "map toRuleDto rows = map Some dtos" and "\<forall>row \<in> set rows. rowOk row"
    and "distinct (map row_logicalId rows)"
    and "w \<in> set (findPolicyOverlaps dtos)" and "ow_kind w = Shadowed"
  shows "firstMatch reg (map (engineRule sh cp) (filter (\<lambda>r. row_logicalId r \<noteq> ow_logicalId w) (candidates rows))) q =
    firstMatch reg (map (engineRule sh cp) (candidates rows)) q"
  by (rule shadow_sound [OF assms])

theorem shadow_warnings_are_sound_witness:
  "firstMatch exampleRegistry (map (engineRule noSecrets []) (filter (\<lambda>r. row_logicalId r \<noteq> ''narrow'')
     (candidates [networkRow ''broad'' 1 ''*.example.com'' None JNull, networkRow ''narrow'' 2 ''api.example.com'' (Some ''/v1'') JNull])))
     (bodyRequest ''x'') =
   firstMatch exampleRegistry (map (engineRule noSecrets [])
     (candidates [networkRow ''broad'' 1 ''*.example.com'' None JNull, networkRow ''narrow'' 2 ''api.example.com'' (Some ''/v1'') JNull]))
     (bodyRequest ''x'')"
proof -
  let ?rows = "[networkRow ''broad'' 1 ''*.example.com'' None JNull, networkRow ''narrow'' 2 ''api.example.com'' (Some ''/v1'') JNull]"
  let ?w = "\<lparr>ow_logicalId = ''narrow'', ow_kind = Shadowed, ow_byLogicalId = ''broad'', ow_byName = ''broad''\<rparr>"
  have d: "map toRuleDto ?rows = map Some (List.map_filter toRuleDto ?rows)" by code_simp
  have ok: "\<forall>row \<in> set ?rows. rowOk row" by code_simp
  have dist: "distinct (map row_logicalId ?rows)" by code_simp
  have w: "?w \<in> set (findPolicyOverlaps (List.map_filter toRuleDto ?rows))" by code_simp
  from shadow_warnings_are_sound [OF d ok dist w] show ?thesis by simp
qed

text \<open>
  Duplicate warnings can be wrong.  The signature of a rule writes the path pattern that matches any
  path and the empty path pattern alike, and joins condition texts with commas: a rule is reported
  as a duplicate of an earlier rule although the engine picks it for requests the earlier rule
  does not match.\<close>

theorem duplicate_warning_false_positive:
  "map ow_kind (overlapsOf [networkRow ''first'' 1 ''api.example.com'' (Some []) JNull,
       networkRow ''later'' 2 ''api.example.com'' None JNull]) = [Duplicate] \<and>
   pickedName [] [networkRow ''first'' 1 ''api.example.com'' (Some []) JNull,
       networkRow ''later'' 2 ''api.example.com'' None JNull] (bodyRequest ''x'') = Some ''later'' \<and>
   map ow_kind (overlapsOf
     [networkRow ''first'' 1 ''api.example.com'' None (JArr [bodyCondition ''a,body|contains|b'']),
      networkRow ''later'' 2 ''api.example.com'' None (JArr [bodyCondition ''a'', bodyCondition ''b''])]) = [Duplicate] \<and>
   pickedName []
     [networkRow ''first'' 1 ''api.example.com'' None (JArr [bodyCondition ''a,body|contains|b'']),
      networkRow ''later'' 2 ''api.example.com'' None (JArr [bodyCondition ''a'', bodyCondition ''b''])]
     (bodyRequest ''ba'') = Some ''later''"
  by (intro conjI; code_simp)

end
