(* ===== verification/Injection.thy ===== *)
theory Injection
  imports SimRule
begin

text \<open>
  Which credentials a rule set injects for an agent
  (\<^verbatim>\<open>packages/api/src/services/policy-reflect/injection.ts\<close>) and how far an injected connection
  may reach (\<^verbatim>\<open>org-resource-boundary.ts\<close>).  A JavaScript \<^verbatim>\<open>Set\<close> is the list of its elements in
  the order of insertion.
\<close>

section \<open>Definitions\<close>

definition set_add :: "'a \<Rightarrow> 'a list \<Rightarrow> 'a list" where
  "set_add x xs = (if x \<in> set xs then xs else xs @ [x])"

definition injectionIdentityMatches :: "rule_identity_row list \<Rightarrow> string \<Rightarrow> principal_set \<Rightarrow> bool" where
  "injectionIdentityMatches identities agentId principals =
     (length identities > 0 \<and>
      list_ex (\<lambda>i.
        case ri_agentId i of
          Some a \<Rightarrow> a = agentId
        | None \<Rightarrow>
            (case ri_userId i of
               Some u \<Rightarrow> u \<in> set (ps_userIds principals)
             | None \<Rightarrow>
                 (case ri_groupId i of
                    Some g \<Rightarrow> g \<in> set (ps_groupIds principals)
                  | None \<Rightarrow> False))) identities)"

fun injectingTargets :: "sim_rule_row list \<Rightarrow> string \<Rightarrow> principal_set \<Rightarrow> rule_target_row list" where
  "injectingTargets [] agentId principals = []"
| "injectingTargets (row # rows) agentId principals =
     (if row_isDefault row \<or> row_action row \<noteq> ''allow'' then injectingTargets rows agentId principals
      else if \<not> injectionIdentityMatches (row_identities row) agentId principals
      then injectingTargets rows agentId principals
      else row_targets row @ injectingTargets rows agentId principals)"

record secret_selection =
  ss_ids :: "string list"
  ss_levels :: "level list"

definition selectSecret :: "secret_selection \<Rightarrow> rule_target_row \<Rightarrow> secret_selection" where
  "selectSecret acc t =
      (if rt_kind t \<noteq> ''secret'' then acc
       else if truthy (rt_secretId t) then acc\<lparr>ss_ids := set_add (the (rt_secretId t)) (ss_ids acc)\<rparr>
       else if rt_secretScope t = Some ''workspace'' then acc\<lparr>ss_levels := set_add Workspace (ss_levels acc)\<rparr>
       else if rt_secretScope t = Some ''organization'' then acc\<lparr>ss_levels := set_add Organization (ss_levels acc)\<rparr>
       else acc)"

definition grantedSecretSelection :: "sim_rule_row list \<Rightarrow> string \<Rightarrow> principal_set \<Rightarrow> secret_selection" where
  "grantedSecretSelection rules agentId principals =
     foldl selectSecret \<lparr>ss_ids = [], ss_levels = []\<rparr> (injectingTargets rules agentId principals)"

definition providerLevelKey :: "string \<Rightarrow> string \<Rightarrow> string" where
  "providerLevelKey provider lvl = provider @ [CHR 0x0A] @ lvl"

definition isLevelName :: "string option \<Rightarrow> bool" where
  "isLevelName s = (s = Some ''workspace'' \<or> s = Some ''organization'')"

record connection_selection =
  cs_ids :: "string list"
  cs_providerLevels :: "string list"

definition selectConnection :: "connection_selection \<Rightarrow> rule_target_row \<Rightarrow> connection_selection" where
  "selectConnection acc t =
      (if rt_kind t = ''connection'' then
         (if truthy (rt_appConnectionId t)
          then acc\<lparr>cs_ids := set_add (the (rt_appConnectionId t)) (cs_ids acc)\<rparr> else acc)
       else if rt_kind t = ''app'' \<and> truthy (rt_appProvider t) \<and> isLevelName (rt_appConnectionScope t) then
         acc\<lparr>cs_providerLevels := set_add
           (providerLevelKey (the (rt_appProvider t)) (the (rt_appConnectionScope t))) (cs_providerLevels acc)\<rparr>
       else acc)"

definition grantedConnectionSelection ::
    "sim_rule_row list \<Rightarrow> string \<Rightarrow> principal_set \<Rightarrow> connection_selection" where
  "grantedConnectionSelection rules agentId principals =
     foldl selectConnection \<lparr>cs_ids = [], cs_providerLevels = []\<rparr> (injectingTargets rules agentId principals)"

text \<open>The probe's two accumulators, and what one target adds to them.\<close>

record probe_acc =
  pa_secretPatterns :: "string list"
  pa_providers :: "string list"

definition probeTarget ::
    "secret_host_set \<Rightarrow> (string \<times> string) list \<Rightarrow> probe_acc \<Rightarrow> rule_target_row \<Rightarrow> probe_acc" where
  "probeTarget secretHosts connectionProviders acc t =
     (if rt_kind t = ''secret'' then
        (if truthy (rt_secretId t) then
           (case map_of (sh_byId secretHosts) (the (rt_secretId t)) of
              None \<Rightarrow> acc
            | Some host \<Rightarrow> acc\<lparr>pa_secretPatterns := pa_secretPatterns acc @ [host]\<rparr>)
         else if rt_secretScope t = Some ''workspace'' then
           acc\<lparr>pa_secretPatterns := pa_secretPatterns acc @ sh_workspaceHosts secretHosts\<rparr>
         else if rt_secretScope t = Some ''organization'' then
           acc\<lparr>pa_secretPatterns := pa_secretPatterns acc @ sh_orgHosts secretHosts\<rparr>
         else acc)
      else if rt_kind t = ''connection'' then
        (if truthy (rt_appConnectionId t) then
           (case map_of connectionProviders (the (rt_appConnectionId t)) of
              None \<Rightarrow> acc
            | Some provider \<Rightarrow> acc\<lparr>pa_providers := set_add provider (pa_providers acc)\<rparr>)
         else acc)
      else if rt_kind t = ''app'' then
        (if truthy (rt_appProvider t) \<and> isLevelName (rt_appConnectionScope t)
         then acc\<lparr>pa_providers := set_add (the (rt_appProvider t)) (pa_providers acc)\<rparr>
         else acc)
      else acc)"

definition probeRow ::
    "string \<Rightarrow> principal_set \<Rightarrow> secret_host_set \<Rightarrow> (string \<times> string) list \<Rightarrow> probe_acc \<Rightarrow> sim_rule_row \<Rightarrow> probe_acc" where
  "probeRow agentId principals secretHosts connectionProviders acc row =
     (if row_isDefault row \<or> row_action row \<noteq> ''allow'' then acc
      else if \<not> injectionIdentityMatches (row_identities row) agentId principals then acc
      else foldl (probeTarget secretHosts connectionProviders) acc (row_targets row))"

definition buildInjectionProbe ::
    "registry \<Rightarrow> string option \<Rightarrow> string list \<Rightarrow> string list \<Rightarrow> sim_rule_row list \<Rightarrow> principal_set \<Rightarrow>
     secret_host_set \<Rightarrow> (string \<times> string) list \<Rightarrow> string \<Rightarrow> bool" where
  "buildInjectionProbe reg agent poolSecretHostPatterns poolProviders rules principals secretHosts
     connectionProviders host =
     (let acc0 = \<lparr>pa_secretPatterns = poolSecretHostPatterns, pa_providers = js_uniq poolProviders\<rparr>;
          acc = (case agent of
                   None \<Rightarrow> acc0
                 | Some agentId \<Rightarrow>
                     foldl (probeRow agentId principals secretHosts connectionProviders) acc0 rules)
      in list_ex (\<lambda>p. hostMatches host p) (pa_secretPatterns acc) \<or>
         list_ex (\<lambda>p. providerHostMatches reg host p) (pa_providers acc))"

definition boundaryIdentityMatches :: "rule_identity_row list \<Rightarrow> string \<Rightarrow> principal_set \<Rightarrow> bool" where
  "boundaryIdentityMatches identities agentId principals =
     (length identities = 0 \<or>
      list_ex (\<lambda>i.
        case ri_agentId i of
          Some a \<Rightarrow> a = agentId
        | None \<Rightarrow>
            (case ri_userId i of
               Some u \<Rightarrow> u \<in> set (ps_userIds principals)
             | None \<Rightarrow>
                 (case ri_groupId i of
                    Some g \<Rightarrow> g \<in> set (ps_groupIds principals)
                  | None \<Rightarrow> False))) identities)"

definition targetsConnection :: "sim_rule_row \<Rightarrow> string \<Rightarrow> bool" where
  "targetsConnection row connectionId =
     list_ex (\<lambda>t. rt_kind t = ''connection'' \<and> rt_appConnectionId t = Some connectionId) (row_targets row)"

definition foldSessionPolicy ::
    "sim_rule_row list \<Rightarrow> string \<Rightarrow> (rule_identity_row list \<Rightarrow> bool) \<Rightarrow> json option" where
  "foldSessionPolicy rows connectionId namesAgent =
     (let policy = foldl (\<lambda>policy row.
            if row_isDefault row \<or> row_action row \<noteq> ''allow'' then policy
            else if \<not> namesAgent (row_identities row) then policy
            else if \<not> targetsConnection row connectionId then policy
            else row_conditions row) JNull rows
      in if isSessionPolicy policy then Some policy else None)"

definition orgResourceBoundary ::
    "sim_rule_row list \<Rightarrow> string \<Rightarrow> principal_set \<Rightarrow> string \<Rightarrow> json option" where
  "orgResourceBoundary orgInjectionRows agentId principals connectionId =
     foldl (\<lambda>boundary row.
       if row_isDefault row \<or> row_action row \<noteq> ''allow'' then boundary
       else if \<not> boundaryIdentityMatches (row_identities row) agentId principals then boundary
       else if \<not> isSessionPolicy (row_conditions row) then boundary
       else if \<not> targetsConnection row connectionId then boundary
       else
         (case boundary of
            None \<Rightarrow> Some (row_conditions row)
          | Some b \<Rightarrow> intersectPolicies b (row_conditions row))) None orgInjectionRows"

definition workspaceResourceSelection ::
    "sim_rule_row list \<Rightarrow> string \<Rightarrow> principal_set \<Rightarrow> string \<Rightarrow> json option" where
  "workspaceResourceSelection workspaceInjectionRows agentId principals connectionId =
     foldSessionPolicy workspaceInjectionRows connectionId
       (\<lambda>identities. injectionIdentityMatches identities agentId principals)"

section \<open>Lemmas\<close>

lemma set_set_add [simp]: "set (set_add x xs) = insert x (set xs)"
  by (auto simp: set_add_def)

text \<open>The rows that inject for an agent.\<close>

definition injects :: "string \<Rightarrow> principal_set \<Rightarrow> sim_rule_row \<Rightarrow> bool" where
  "injects agentId principals row =
     (\<not> row_isDefault row \<and> row_action row = ''allow'' \<and>
      injectionIdentityMatches (row_identities row) agentId principals)"

lemma set_injectingTargets:
  "set (injectingTargets rows a ps) = (\<Union>r \<in> {r \<in> set rows. injects a ps r}. set (row_targets r))"
  by (induction rows) (auto simp: injects_def)

lemma probeRow_fold:
  "foldl (probeRow a ps sh cp) acc rows = foldl (probeTarget sh cp) acc (injectingTargets rows a ps)"
  by (induction rows arbitrary: acc) (auto simp: probeRow_def)

text \<open>What one target contributes.\<close>

definition secretPatternsOf :: "secret_host_set \<Rightarrow> rule_target_row \<Rightarrow> string set" where
  "secretPatternsOf sh t = (if rt_kind t = ''secret'' then set (secretTargetHosts t sh) else {})"

definition providersOf :: "(string \<times> string) list \<Rightarrow> rule_target_row \<Rightarrow> string set" where
  "providersOf cp t =
     {p. rt_kind t = ''connection'' \<and> truthy (rt_appConnectionId t) \<and> map_of cp (the (rt_appConnectionId t)) = Some p \<or>
         rt_kind t = ''app'' \<and> truthy (rt_appProvider t) \<and> isLevelName (rt_appConnectionScope t) \<and>
           rt_appProvider t = Some p}"

lemma probeTarget_sets:
  "set (pa_secretPatterns (probeTarget sh cp acc t)) = set (pa_secretPatterns acc) \<union> secretPatternsOf sh t"
  "set (pa_providers (probeTarget sh cp acc t)) = set (pa_providers acc) \<union> providersOf cp t"
  by (auto simp: probeTarget_def secretPatternsOf_def secretTargetHosts_def providersOf_def truthy_def
      split: option.splits)

lemma probe_fold_sets:
  "set (pa_secretPatterns (foldl (probeTarget sh cp) acc ts)) =
     set (pa_secretPatterns acc) \<union> (\<Union>t \<in> set ts. secretPatternsOf sh t)"
  "set (pa_providers (foldl (probeTarget sh cp) acc ts)) =
     set (pa_providers acc) \<union> (\<Union>t \<in> set ts. providersOf cp t)"
  by (induction ts arbitrary: acc) (auto simp: probeTarget_sets)

lemma buildInjectionProbe_agent:
  "buildInjectionProbe reg (Some a) pool providers rules ps sh cp host \<longleftrightarrow>
     (\<exists>p \<in> set pool \<union> (\<Union>t \<in> set (injectingTargets rules a ps). secretPatternsOf sh t). hostMatches host p) \<or>
     (\<exists>p \<in> set providers \<union> (\<Union>t \<in> set (injectingTargets rules a ps). providersOf cp t).
        providerHostMatches reg host p)"
  by (simp add: buildInjectionProbe_def Let_def probeRow_fold list_ex_iff probe_fold_sets)


lemma secretSelection_sets:
  "set (ss_ids (grantedSecretSelection rules a ps)) =
     {i. \<exists>t \<in> set (injectingTargets rules a ps). rt_kind t = ''secret'' \<and> rt_secretId t = Some i \<and> i \<noteq> []}"
  "set (ss_levels (grantedSecretSelection rules a ps)) =
     {l. \<exists>t \<in> set (injectingTargets rules a ps). rt_kind t = ''secret'' \<and> \<not> truthy (rt_secretId t) \<and>
           levelOf (rt_secretScope t) = Some l}"
proof -
  have 1: "set (ss_ids (selectSecret acc t)) = set (ss_ids acc) \<union>
      {i. rt_kind t = ''secret'' \<and> rt_secretId t = Some i \<and> i \<noteq> []}" for acc t
    by (auto simp: selectSecret_def truthy_def split: option.splits)
  have 2: "set (ss_levels (selectSecret acc t)) = set (ss_levels acc) \<union>
      {l. rt_kind t = ''secret'' \<and> \<not> truthy (rt_secretId t) \<and> levelOf (rt_secretScope t) = Some l}" for acc t
    by (auto simp: selectSecret_def levelOf_def)
  have "set (ss_ids (foldl selectSecret acc ts)) = set (ss_ids acc) \<union>
      {i. \<exists>t \<in> set ts. rt_kind t = ''secret'' \<and> rt_secretId t = Some i \<and> i \<noteq> []}" for acc ts
    by (induction ts arbitrary: acc) (auto simp: 1)
  moreover have "set (ss_levels (foldl selectSecret acc ts)) = set (ss_levels acc) \<union>
      {l. \<exists>t \<in> set ts. rt_kind t = ''secret'' \<and> \<not> truthy (rt_secretId t) \<and> levelOf (rt_secretScope t) = Some l}" for acc ts
    by (induction ts arbitrary: acc) (auto simp: 2)
  ultimately show
    "set (ss_ids (grantedSecretSelection rules a ps)) =
     {i. \<exists>t \<in> set (injectingTargets rules a ps). rt_kind t = ''secret'' \<and> rt_secretId t = Some i \<and> i \<noteq> []}"
    "set (ss_levels (grantedSecretSelection rules a ps)) =
     {l. \<exists>t \<in> set (injectingTargets rules a ps). rt_kind t = ''secret'' \<and> \<not> truthy (rt_secretId t) \<and>
           levelOf (rt_secretScope t) = Some l}"
    unfolding grantedSecretSelection_def by simp_all
qed

lemma connectionSelection_sets:
  "set (cs_ids (grantedConnectionSelection rules a ps)) =
     {i. \<exists>t \<in> set (injectingTargets rules a ps). rt_kind t = ''connection'' \<and> rt_appConnectionId t = Some i \<and> i \<noteq> []}"
  "set (cs_providerLevels (grantedConnectionSelection rules a ps)) =
     {k. \<exists>t \<in> set (injectingTargets rules a ps). \<exists>p l. rt_kind t = ''app'' \<and> rt_appProvider t = Some p \<and> p \<noteq> [] \<and>
           rt_appConnectionScope t = Some l \<and> l \<in> {''workspace'', ''organization''} \<and> k = providerLevelKey p l}"
proof -
  have 1: "set (cs_ids (selectConnection acc t)) = set (cs_ids acc) \<union>
      {i. rt_kind t = ''connection'' \<and> rt_appConnectionId t = Some i \<and> i \<noteq> []}" for acc t
    by (auto simp: selectConnection_def truthy_def split: option.splits)
  have 2: "set (cs_providerLevels (selectConnection acc t)) = set (cs_providerLevels acc) \<union>
      {k. \<exists>p l. rt_kind t = ''app'' \<and> rt_appProvider t = Some p \<and> p \<noteq> [] \<and>
           rt_appConnectionScope t = Some l \<and> l \<in> {''workspace'', ''organization''} \<and> k = providerLevelKey p l}" for acc t
    by (auto simp: selectConnection_def truthy_def isLevelName_def split: option.splits)
  have "set (cs_ids (foldl selectConnection acc ts)) = set (cs_ids acc) \<union>
      {i. \<exists>t \<in> set ts. rt_kind t = ''connection'' \<and> rt_appConnectionId t = Some i \<and> i \<noteq> []}" for acc ts
    by (induction ts arbitrary: acc) (auto simp: 1)
  moreover have "set (cs_providerLevels (foldl selectConnection acc ts)) = set (cs_providerLevels acc) \<union>
      {k. \<exists>t \<in> set ts. \<exists>p l. rt_kind t = ''app'' \<and> rt_appProvider t = Some p \<and> p \<noteq> [] \<and>
           rt_appConnectionScope t = Some l \<and> l \<in> {''workspace'', ''organization''} \<and> k = providerLevelKey p l}" for acc ts
    by (induction ts arbitrary: acc) (auto simp: 2)
  ultimately show
    "set (cs_ids (grantedConnectionSelection rules a ps)) =
     {i. \<exists>t \<in> set (injectingTargets rules a ps). rt_kind t = ''connection'' \<and> rt_appConnectionId t = Some i \<and> i \<noteq> []}"
    "set (cs_providerLevels (grantedConnectionSelection rules a ps)) =
     {k. \<exists>t \<in> set (injectingTargets rules a ps). \<exists>p l. rt_kind t = ''app'' \<and> rt_appProvider t = Some p \<and> p \<noteq> [] \<and>
           rt_appConnectionScope t = Some l \<and> l \<in> {''workspace'', ''organization''} \<and> k = providerLevelKey p l}"
    unfolding grantedConnectionSelection_def by simp_all
qed

lemma providerLevelKey_inj:
  assumes "providerLevelKey p l = providerLevelKey p' l'"
    and "l \<in> {''workspace'', ''organization''}" and "l' \<in> {''workspace'', ''organization''}"
  shows "p = p' \<and> l = l'"
  using assms by (auto simp: providerLevelKey_def)

text \<open>The row law of the injection engine and the identity law of the decision engine.\<close>

lemma injectionIdentityMatches_decision:
  assumes "injectionIdentityMatches (row_identities row) a ps"
    and "req_agentId q = a" and "req_userIds q = Some (ps_userIds ps)" and "req_groupIds q = Some (ps_groupIds ps)"
  shows "identityMatches (sim_engine_rule (toSimRule row sh cp)) q"
proof -
  from assms(1) obtain i where "i \<in> set (row_identities row)"
    and "case ri_agentId i of
          Some x \<Rightarrow> x = a
        | None \<Rightarrow>
            (case ri_userId i of
               Some u \<Rightarrow> u \<in> set (ps_userIds ps)
             | None \<Rightarrow>
                 (case ri_groupId i of Some g \<Rightarrow> g \<in> set (ps_groupIds ps) | None \<Rightarrow> False))"
    by (auto simp: injectionIdentityMatches_def list_ex_iff)
  with assms(2-) show ?thesis
    by (auto simp: identityMatches_def toSimRule_def Let_def decodeIdentities_def decodeIdentity_def
        list_ex_iff split: option.splits intro!: bexI [of _ i])
qed

section \<open>The organization's boundary\<close>

definition bounds :: "string \<Rightarrow> principal_set \<Rightarrow> string \<Rightarrow> sim_rule_row \<Rightarrow> bool" where
  "bounds a ps c row =
     (\<not> row_isDefault row \<and> row_action row = ''allow'' \<and>
      boundaryIdentityMatches (row_identities row) a ps \<and>
      isSessionPolicy (row_conditions row) \<and> targetsConnection row c)"

definition tighten :: "json option \<Rightarrow> json \<Rightarrow> json option" where
  "tighten boundary c = (case boundary of None \<Rightarrow> Some c | Some b \<Rightarrow> intersectPolicies b c)"

lemma orgResourceBoundary_fold:
  "orgResourceBoundary rows a ps c =
     foldl tighten None (map row_conditions (filter (bounds a ps c) rows))"
proof -
  have "foldl (\<lambda>boundary row.
       if row_isDefault row \<or> row_action row \<noteq> ''allow'' then boundary
       else if \<not> boundaryIdentityMatches (row_identities row) a ps then boundary
       else if \<not> isSessionPolicy (row_conditions row) then boundary
       else if \<not> targetsConnection row c then boundary
       else
         (case boundary of
            None \<Rightarrow> Some (row_conditions row)
          | Some b \<Rightarrow> intersectPolicies b (row_conditions row))) acc rows =
     foldl tighten acc (map row_conditions (filter (bounds a ps c) rows))" for acc
    by (induction rows arbitrary: acc) (auto simp: bounds_def tighten_def)
  then show ?thesis by (simp add: orgResourceBoundary_def)
qed

text \<open>A boundary reaches a resource; no boundary reaches everything.\<close>

definition reaches :: "json option \<Rightarrow> string \<Rightarrow> bool" where
  "reaches boundary x = (case boundary of None \<Rightarrow> True | Some b \<Rightarrow> coveredBy x b)"

lemma tighten_reaches: "reaches (tighten b c) x \<Longrightarrow> reaches b x \<and> coveredBy x c"
proof (cases b)
  case (Some p)
  assume r: "reaches (tighten b c) x"
  show ?thesis
  proof (cases "intersectPolicies p c")
    case None
    then show ?thesis using intersectPolicies_None [of p c] by (simp add: reaches_def Some)
  next
    case (Some r')
    then show ?thesis using r \<open>b = Some p\<close> intersectPolicies_sound [of p c r' x]
      by (simp add: reaches_def tighten_def)
  qed
qed (simp add: reaches_def tighten_def)

lemma tighten_fold_reaches:
  "reaches (foldl tighten b cs) x \<Longrightarrow> reaches b x \<and> (\<forall>c \<in> set cs. coveredBy x c)"
  by (induction cs arbitrary: b) (auto dest!: tighten_reaches)


section \<open>Concrete rows for the examples\<close>

definition connectionTargetRow :: "string \<Rightarrow> rule_target_row" where
  "connectionTargetRow c =
     \<lparr>rt_kind = ''connection'', rt_appProvider = None, rt_appTools = [], rt_appConnectionScope = None,
      rt_appConnectionId = Some c, rt_secretId = None, rt_secretScope = None, rt_hostPattern = None,
      rt_pathPattern = None, rt_method = None\<rparr>"

definition boundedRow :: "rule_identity_row list \<Rightarrow> json \<Rightarrow> sim_rule_row" where
  "boundedRow ids policy =
     \<lparr>row_id = ''r1'', row_scope = ''organization'', row_organizationId = Some ''o1'', row_workspaceId = None,
      row_status = ''published'', row_generation = 1, row_priority = 1, row_enabled = True,
      row_isDefault = False, row_logicalId = ''l1'', row_source = ''custom'', row_name = ''bound'',
      row_action = ''allow'', row_rateLimit = None, row_rateLimitWindow = None, row_requireApproval = False,
      row_conditions = policy, row_identities = ids, row_targets = [connectionTargetRow ''c1'']\<rparr>"

definition agentIdentityRow :: "string \<Rightarrow> rule_identity_row" where
  "agentIdentityRow a = \<lparr>ri_agentId = Some a, ri_userId = None, ri_groupId = None\<rparr>"

section \<open>Properties\<close>

text \<open>
  C22: The organization's boundary on a connection composes every rule that restricts it: a resource
  the boundary reaches is inside the session policy of every organization rule that applies to the
  agent (a rule without identities applies to all) and names the connection, so no later rule
  erases an earlier restriction.\<close>

theorem org_boundary_respects_every_rule:
  assumes "row \<in> set rows" and "\<not> row_isDefault row" and "row_action row = ''allow''"
    and "boundaryIdentityMatches (row_identities row) agentId principals"
    and "isSessionPolicy (row_conditions row)" and "targetsConnection row connectionId"
    and "case orgResourceBoundary rows agentId principals connectionId of None \<Rightarrow> True | Some b \<Rightarrow> coveredBy x b"
  shows "coveredBy x (row_conditions row)"
proof -
  have "reaches (foldl tighten None (map row_conditions (filter (bounds agentId principals connectionId) rows))) x"
    using assms(7) unfolding orgResourceBoundary_fold reaches_def .
  moreover have "row_conditions row \<in>
      set (map row_conditions (filter (bounds agentId principals connectionId) rows))"
    using assms(1-6) by (auto simp: bounds_def)
  ultimately show ?thesis using tighten_fold_reaches by blast
qed

theorem org_boundary_respects_every_rule_witness:
  "coveredBy ''acme/app'' (row_conditions (boundedRow [] (axisBuild Repositories [''Acme/App'', ''acme/web''])))"
  by (rule org_boundary_respects_every_rule [where agentId = "''a1''" and connectionId = "''c1''" and
        principals = "\<lparr>ps_userIds = [], ps_groupIds = []\<rparr>" and
        rows = "[boundedRow [] (axisBuild Repositories [''Acme/App'', ''acme/web'']),
                 boundedRow [agentIdentityRow ''a1''] (axisBuild Repositories [''acme/app''])]"])
    code_simp+

text \<open>
  A credential is injected only to an agent some rule names.  When the probe of an agent without a
  pool answers yes for a host, some non-default allow row names the agent, or a user or group it
  inherits, explicitly, and that row's rule passes the decision engine's identity check for every
  request of the agent; rows without identities never inject.\<close>

theorem injection_needs_explicit_identity:
  assumes "buildInjectionProbe reg (Some agentId) [] [] rules principals secretHosts connectionProviders host"
  shows "\<exists>row \<in> set rules. \<not> row_isDefault row \<and> row_action row = ''allow'' \<and> row_identities row \<noteq> [] \<and>
    injectionIdentityMatches (row_identities row) agentId principals \<and>
    (\<forall>q. req_agentId q = agentId \<and> req_userIds q = Some (ps_userIds principals) \<and>
         req_groupIds q = Some (ps_groupIds principals) \<longrightarrow>
       identityMatches (sim_engine_rule (toSimRule row secretHosts connectionProviders)) q)"
proof -
  from assms obtain t where "t \<in> set (injectingTargets rules agentId principals)"
    unfolding buildInjectionProbe_agent by auto
  then obtain row where "row \<in> set rules" "injects agentId principals row"
    by (auto simp: set_injectingTargets)
  then show ?thesis
    using injectionIdentityMatches_decision [of row agentId principals]
    by (intro bexI [of _ row]) (auto simp: injects_def injectionIdentityMatches_def [of "row_identities row"])
qed

theorem injection_needs_explicit_identity_witness:
  "\<exists>row \<in> set [boundedRow [agentIdentityRow ''a1''] JNull]. \<not> row_isDefault row \<and> row_action row = ''allow'' \<and>
    row_identities row \<noteq> [] \<and>
    injectionIdentityMatches (row_identities row) ''a1'' \<lparr>ps_userIds = [], ps_groupIds = []\<rparr> \<and>
    (\<forall>q. req_agentId q = ''a1'' \<and> req_userIds q = Some (ps_userIds \<lparr>ps_userIds = [], ps_groupIds = []\<rparr>) \<and>
         req_groupIds q = Some (ps_groupIds \<lparr>ps_userIds = [], ps_groupIds = []\<rparr>) \<longrightarrow>
       identityMatches (sim_engine_rule (toSimRule row
         \<lparr>sh_byId = [], sh_workspaceHosts = [], sh_orgHosts = []\<rparr> [(''c1'', ''resend'')])) q)"
  by (rule injection_needs_explicit_identity [where reg = exampleRegistry and host = "''api.resend.com''"])
    code_simp

text \<open>
  The host probe and the selections read one law: for an agent without a pool, a host is probed as
  injectable exactly when it matches the host of a selected secret or of a selected level's
  secrets, or a catalog host of the provider of a selected connection or provider level.\<close>

theorem injection_probe_agrees_with_selections:
  "buildInjectionProbe reg (Some agentId) [] [] rules principals secretHosts connectionProviders host \<longleftrightarrow>
     (\<exists>i \<in> set (ss_ids (grantedSecretSelection rules agentId principals)). \<exists>h.
        map_of (sh_byId secretHosts) i = Some h \<and> hostMatches host h) \<or>
     (Workspace \<in> set (ss_levels (grantedSecretSelection rules agentId principals)) \<and>
        (\<exists>h \<in> set (sh_workspaceHosts secretHosts). hostMatches host h)) \<or>
     (Organization \<in> set (ss_levels (grantedSecretSelection rules agentId principals)) \<and>
        (\<exists>h \<in> set (sh_orgHosts secretHosts). hostMatches host h)) \<or>
     (\<exists>c \<in> set (cs_ids (grantedConnectionSelection rules agentId principals)). \<exists>p.
        map_of connectionProviders c = Some p \<and> providerHostMatches reg host p) \<or>
     (\<exists>p l. l \<in> {''workspace'', ''organization''} \<and>
        providerLevelKey p l \<in> set (cs_providerLevels (grantedConnectionSelection rules agentId principals)) \<and>
        providerHostMatches reg host p)"
proof -
  define T where "T = set (injectingTargets rules agentId principals)"
  have secrets: "(\<exists>p \<in> (\<Union>t \<in> T. secretPatternsOf secretHosts t). hostMatches host p) \<longleftrightarrow>
      (\<exists>i \<in> set (ss_ids (grantedSecretSelection rules agentId principals)). \<exists>h.
        map_of (sh_byId secretHosts) i = Some h \<and> hostMatches host h) \<or>
      (Workspace \<in> set (ss_levels (grantedSecretSelection rules agentId principals)) \<and>
        (\<exists>h \<in> set (sh_workspaceHosts secretHosts). hostMatches host h)) \<or>
      (Organization \<in> set (ss_levels (grantedSecretSelection rules agentId principals)) \<and>
        (\<exists>h \<in> set (sh_orgHosts secretHosts). hostMatches host h))"
    unfolding secretSelection_sets T_def [symmetric]
    by (fastforce simp: secretPatternsOf_def secretTargetHosts_def truthy_def levelOf_def
        split: option.splits if_splits)
  have providers: "(\<exists>p \<in> (\<Union>t \<in> T. providersOf connectionProviders t). providerHostMatches reg host p) \<longleftrightarrow>
      (\<exists>c \<in> set (cs_ids (grantedConnectionSelection rules agentId principals)). \<exists>p.
        map_of connectionProviders c = Some p \<and> providerHostMatches reg host p) \<or>
      (\<exists>p l. l \<in> {''workspace'', ''organization''} \<and>
        providerLevelKey p l \<in> set (cs_providerLevels (grantedConnectionSelection rules agentId principals)) \<and>
        providerHostMatches reg host p)"
    (is "?L \<longleftrightarrow> ?C \<or> ?P")
  proof -
    have "?L \<longleftrightarrow> ?C \<or> (\<exists>t \<in> T. \<exists>p l. rt_kind t = ''app'' \<and> rt_appProvider t = Some p \<and> p \<noteq> [] \<and>
        rt_appConnectionScope t = Some l \<and> l \<in> {''workspace'', ''organization''} \<and> providerHostMatches reg host p)"
      unfolding connectionSelection_sets T_def [symmetric]
      by (fastforce simp: providersOf_def truthy_def isLevelName_def split: option.splits)
    also have "(\<exists>t \<in> T. \<exists>p l. rt_kind t = ''app'' \<and> rt_appProvider t = Some p \<and> p \<noteq> [] \<and>
        rt_appConnectionScope t = Some l \<and> l \<in> {''workspace'', ''organization''} \<and> providerHostMatches reg host p) \<longleftrightarrow> ?P"
      (is "?A \<longleftrightarrow> ?P")
    proof
      assume ?A
      then show ?P unfolding connectionSelection_sets T_def [symmetric] mem_Collect_eq by blast
    next
      assume ?P
      then obtain p l t p' l' where "l \<in> {''workspace'', ''organization''}" "providerHostMatches reg host p"
        and t: "t \<in> T" "rt_kind t = ''app''" "rt_appProvider t = Some p'" "p' \<noteq> []"
          "rt_appConnectionScope t = Some l'" "l' \<in> {''workspace'', ''organization''}"
          "providerLevelKey p l = providerLevelKey p' l'"
        unfolding connectionSelection_sets T_def [symmetric] mem_Collect_eq by blast
      with providerLevelKey_inj [of p l p' l'] have "providerHostMatches reg host p'" by simp
      with t show ?A by blast
    qed
    finally show ?thesis .
  qed
  show ?thesis
    unfolding buildInjectionProbe_agent list.set(1) Un_empty_left T_def [symmetric] secrets providers
    by blast
qed

end
