(* ===== verification/GrantsCompile.thy ===== *)
theory GrantsCompile
  imports PolicyOverlap Injection
begin

text \<open>
  The grants compiler (\<^verbatim>\<open>packages/api/src/services/grants-compile.ts\<close>): the rule stack of one
  (agent, connection) grant, its comparison with a stored stack, and the way back from rows to
  the grant; with the rows \<^verbatim>\<open>grants-service.ts\<close> writes for a stack (\<^verbatim>\<open>connectionTarget\<close>,
  \<^verbatim>\<open>secretTarget\<close>, \<^verbatim>\<open>appendGrantRules\<close>), whose generated ids are an argument.
\<close>

section \<open>Definitions\<close>

definition GRANT_SOURCE :: string where
  "GRANT_SOURCE = ''grant''"

text \<open>A rule of a desired stack: \<^term>\<open>None\<close> conditions are absent, \<^term>\<open>Some JNull\<close> is null.\<close>

record compiled_rule =
  cr_name :: string
  cr_action :: string
  cr_requireApproval :: bool
  cr_tools :: "string list"
  cr_method :: "string option"
  cr_conditions :: "json option"

record custom_grant =
  cg_allow :: "string list"
  cg_ask :: "string list"
  cg_otherReads :: "unlisted_choice option"
  cg_otherWrites :: "unlisted_choice option"

datatype connection_grant = FullGrant | CustomGrant custom_grant

definition READS_ONLY :: string where
  "READS_ONLY = ''GET,HEAD''"

definition ALL_BUT_READS :: string where
  "ALL_BUT_READS = ''!'' @ READS_ONLY"

definition defaultUnlisted :: "registry \<Rightarrow> string \<Rightarrow> unlisted_choice" where
  "defaultUnlisted reg provider = (if catalogBlocksUnlisted reg provider then UNever else UAsk)"

definition toolsOf :: "app_tool_group list \<Rightarrow> group_category \<Rightarrow> string list" where
  "toolsOf groups category =
     sort (concat (map (\<lambda>g. map tool_id (group_tools g)) (filter (\<lambda>g. group_category g = category) groups)))"

definition defaultConnectionGrant :: "registry \<Rightarrow> string \<Rightarrow> connection_grant" where
  "defaultConnectionGrant reg provider =
     (let def = getAppPermissionDefinition reg provider;
          groups = (case def of None \<Rightarrow> [] | Some d \<Rightarrow> def_groups d);
          ask = toolsOf groups Write;
          allow = filter (\<lambda>t. t \<notin> set ask) (toolsOf groups Read)
      in if length allow + length ask = 0 then FullGrant
         else CustomGrant \<lparr>cg_allow = allow, cg_ask = ask,
                cg_otherReads = Some (defaultOtherReads def), cg_otherWrites = Some UAsk\<rparr>)"

definition strictness :: "unlisted_choice \<Rightarrow> nat" where
  "strictness choice = (case choice of UNever \<Rightarrow> 2 | UAsk \<Rightarrow> 1 | UAllow \<Rightarrow> 0)"

definition unlistedRule :: "string \<Rightarrow> unlisted_choice \<Rightarrow> json \<Rightarrow> string option \<Rightarrow> compiled_rule" where
  "unlistedRule name choice conditions method =
     (let narrowed = (if truthy method then method else None) in
      if choice = UNever then
        \<lparr>cr_name = name, cr_action = ''block'', cr_requireApproval = False, cr_tools = [],
         cr_method = narrowed, cr_conditions = None\<rparr>
      else
        \<lparr>cr_name = name, cr_action = ''allow'', cr_requireApproval = (choice = UAsk), cr_tools = [],
         cr_method = narrowed, cr_conditions = Some conditions\<rparr>)"

definition orElse :: "unlisted_choice option \<Rightarrow> unlisted_choice \<Rightarrow> unlisted_choice" where
  "orElse c d = (case c of None \<Rightarrow> d | Some x \<Rightarrow> x)"

definition blockedTools :: "registry \<Rightarrow> string \<Rightarrow> custom_grant \<Rightarrow> string list" where
  "blockedTools reg provider input =
     (let chosen = sort (cg_allow input) @ sort (cg_ask input)
      in sort (filter (\<lambda>t. t \<notin> set chosen) (catalogToolIds reg provider)))"

definition toolRows :: "registry \<Rightarrow> string \<Rightarrow> string \<Rightarrow> custom_grant \<Rightarrow> json \<Rightarrow> compiled_rule list" where
  "toolRows reg nameBase provider input conditions =
     (let allow = sort (cg_allow input); ask = sort (cg_ask input);
          blocked = blockedTools reg provider input
      in (if length allow > 0 then
            [\<lparr>cr_name = nameBase @ '': allowed'', cr_action = ''allow'', cr_requireApproval = False,
              cr_tools = allow, cr_method = None, cr_conditions = Some conditions\<rparr>] else []) @
         (if length ask > 0 then
            [\<lparr>cr_name = nameBase @ '': needs approval'', cr_action = ''allow'', cr_requireApproval = True,
              cr_tools = ask, cr_method = None, cr_conditions = Some conditions\<rparr>] else []) @
         (if length blocked > 0 then
            [\<lparr>cr_name = nameBase @ '': blocked'', cr_action = ''block'', cr_requireApproval = False,
              cr_tools = blocked, cr_method = None, cr_conditions = None\<rparr>] else []))"

definition catchAllRows :: "string \<Rightarrow> unlisted_choice \<Rightarrow> unlisted_choice \<Rightarrow> json \<Rightarrow> compiled_rule list" where
  "catchAllRows nameBase otherReads otherWrites conditions =
     (if otherReads = otherWrites then
        [unlistedRule (nameBase @ '': everything else'') otherWrites conditions None]
      else
        (let reads = nameBase @ '': all other reads''; writes = nameBase @ '': all other writes'' in
         if strictness otherReads > strictness otherWrites then
           [unlistedRule reads otherReads conditions (Some READS_ONLY),
            unlistedRule writes otherWrites conditions None]
         else
           [unlistedRule writes otherWrites conditions (Some ALL_BUT_READS),
            unlistedRule reads otherReads conditions None]))"

definition compileConnectionStack ::
    "registry \<Rightarrow> string \<Rightarrow> string \<Rightarrow> connection_grant \<Rightarrow> json \<Rightarrow> compiled_rule list" where
  "compileConnectionStack reg nameBase provider input conditions =
     (case input of
        FullGrant \<Rightarrow>
          [\<lparr>cr_name = nameBase, cr_action = ''allow'', cr_requireApproval = False, cr_tools = [],
            cr_method = None, cr_conditions = Some conditions\<rparr>]
      | CustomGrant g \<Rightarrow>
          (let fallback = defaultUnlisted reg provider;
               otherReads = orElse (cg_otherReads g) fallback;
               otherWrites = orElse (cg_otherWrites g) fallback
           in toolRows reg nameBase provider g conditions @
              catchAllRows nameBase otherReads otherWrites conditions))"

definition compileSecretGrant :: "string \<Rightarrow> compiled_rule list" where
  "compileSecretGrant nameBase =
     [\<lparr>cr_name = nameBase, cr_action = ''allow'', cr_requireApproval = False, cr_tools = [],
       cr_method = None, cr_conditions = None\<rparr>]"

subsection \<open>Comparing conditions\<close>

text \<open>
  The own entries of an object: one per key, at the place of its first and with the value of its
  last occurrence.  (An engine lists integer-like keys first; the comparison below sorts, so the
  order is immaterial to it.)
\<close>

definition js_entries :: "(string \<times> json) list \<Rightarrow> (string \<times> json) list" where
  "js_entries es = map (\<lambda>k. (k, the (obj_get es k))) (js_uniq (map fst es))"

lemma size_js_entries: "e \<in> set (js_entries es) \<Longrightarrow> size (snd e) < Suc (size_list (size_prod (\<lambda>x. 0) size) es)"
proof -
  assume "e \<in> set (js_entries es)"
  then obtain k where k: "k \<in> fst ` set es" "e = (k, the (obj_get es k))" by (auto simp: js_entries_def)
  then obtain v where v: "obj_get es k = Some v"
    by (metis fst_conv image_set list.set_map map_of_eq_None_iff not_None_eq obj_get_def set_rev)
  then have "(k, v) \<in> set es" by (auto simp: obj_get_def dest: map_of_SomeD)
  then have "size v < Suc (size_list (size_prod (\<lambda>x. 0) size) es)"
    by (induction es) (auto simp: less_Suc_eq)
  with k v show ?thesis by simp
qed

function sortKeysDeep :: "json \<Rightarrow> json" where
  "sortKeysDeep (JArr vs) = JArr (map sortKeysDeep vs)"
| "sortKeysDeep (JObj es) = JObj (map (\<lambda>e. (fst e, sortKeysDeep (snd e))) (sort_key fst (js_entries es)))"
| "sortKeysDeep JNull = JNull"
| "sortKeysDeep (JBool b) = JBool b"
| "sortKeysDeep (JNum n) = JNum n"
| "sortKeysDeep (JStr s) = JStr s"
  by pat_completeness auto
termination
  by (relation "measure size")
    (auto simp: size_list_estimation' less_Suc_eq_le intro: size_list_estimation' dest!: size_js_entries)

subsection \<open>The canonical text of conditions\<close>

text \<open>
  \<^verbatim>\<open>JSON.stringify\<close>: the escapes of a string (a text is its UTF-8 bytes, without lone surrogates),
  and the order in which an engine lists an object's keys: array indices by value, then the
  others as inserted.  A number is written as its text.
\<close>

definition hex_digit :: "nat \<Rightarrow> char" where
  "hex_digit n = char_of (if n < 10 then 48 + n else 87 + n)"

definition json_escape :: "char \<Rightarrow> string" where
  "json_escape c =
     (if c = CHR 0x22 \<or> c = CHR 0x5C then [CHR 0x5C, c]
      else if c = CHR 0x08 then CHR 0x5C # ''b''
      else if c = CHR 0x0C then CHR 0x5C # ''f''
      else if c = CHR 0x0A then CHR 0x5C # ''n''
      else if c = CHR 0x0D then CHR 0x5C # ''r''
      else if c = CHR 0x09 then CHR 0x5C # ''t''
      else if of_char c < (32 :: nat)
        then CHR 0x5C # ''u00'' @ [hex_digit (of_char c div 16), hex_digit (of_char c mod 16)]
      else [c])"

definition json_quote :: "string \<Rightarrow> string" where
  "json_quote s = CHR 0x22 # concat (map json_escape s) @ [CHR 0x22]"

definition index_value :: "string \<Rightarrow> nat" where
  "index_value k = foldl (\<lambda>n c. n * 10 + (of_char c - 48)) 0 k"

definition is_index_key :: "string \<Rightarrow> bool" where
  "is_index_key k =
     (k \<noteq> [] \<and> list_all is_digit k \<and> (k = ''0'' \<or> hd k \<noteq> CHR ''0'') \<and> index_value k < 2 ^ 32 - 1)"

definition own_order :: "(string \<times> 'a) list \<Rightarrow> (string \<times> 'a) list" where
  "own_order es =
     sort_key (\<lambda>e. index_value (fst e)) (filter (\<lambda>e. is_index_key (fst e)) es) @
     filter (\<lambda>e. \<not> is_index_key (fst e)) es"

lemma set_own_order [simp]: "set (own_order es) = set es"
  by (auto simp: own_order_def)

fun json_stringify :: "json \<Rightarrow> string" where
  "json_stringify JNull = ''null''"
| "json_stringify (JBool b) = (if b then ''true'' else ''false'')"
| "json_stringify (JNum n) = n"
| "json_stringify (JStr s) = json_quote s"
| "json_stringify (JArr vs) = ''['' @ join_with '','' (map json_stringify vs) @ '']''"
| "json_stringify (JObj es) =
     ''{'' @ join_with '','' (map snd (own_order
        (map (\<lambda>e. (fst e, json_quote (fst e) @ '':'' @ json_stringify (snd e))) es))) @ ''}''"

definition canonicalJson :: "json option \<Rightarrow> string" where
  "canonicalJson value =
     (case value of None \<Rightarrow> ''null'' | Some v \<Rightarrow> if v = JNull then ''null'' else json_stringify (sortKeysDeep v))"

definition conditionsEqual :: "json option \<Rightarrow> json option \<Rightarrow> bool" where
  "conditionsEqual a b = (canonicalJson a = canonicalJson b)"

definition conditionsCreateInput :: "json option \<Rightarrow> json option" where
  "conditionsCreateInput conditions =
     (case conditions of None \<Rightarrow> None | Some v \<Rightarrow> if v = JNull then None else Some v)"

subsection \<open>Reading a stored stack\<close>

text \<open>\<^verbatim>\<open>row.targets[0]?.appTools ?? []\<close> and \<^verbatim>\<open>row.targets[0]?.method ?? ""\<close>.\<close>

definition rowTools :: "sim_rule_row \<Rightarrow> string list" where
  "rowTools row = (case row_targets row of [] \<Rightarrow> [] | t # ts \<Rightarrow> rt_appTools t)"

definition rowMethod :: "sim_rule_row \<Rightarrow> string" where
  "rowMethod row = (case row_targets row of [] \<Rightarrow> [] | t # ts \<Rightarrow> orEmpty (rt_method t))"

definition stackEquals :: "sim_rule_row list \<Rightarrow> compiled_rule list \<Rightarrow> bool" where
  "stackEquals existing desired =
     (length existing = length desired \<and>
      list_all2 (\<lambda>row want.
        row_enabled row \<and> row_action row = cr_action want \<and>
        row_requireApproval row = cr_requireApproval want \<and> row_name row = cr_name want \<and>
        conditionsEqual (Some (row_conditions row)) (cr_conditions want) \<and>
        rowMethod row = orEmpty (cr_method want) \<and>
        join_with [CHR 0x0A] (sort (rowTools row)) = join_with [CHR 0x0A] (cr_tools want)) existing desired)"

definition unlistedChoiceOf :: "sim_rule_row \<Rightarrow> unlisted_choice" where
  "unlistedChoiceOf row =
     (if row_action row = ''block'' then UNever else if row_requireApproval row then UAsk else UAllow)"

definition READ_METHODS :: "string list" where
  "READ_METHODS = split_on (CHR '','') READS_ONLY"

definition unlistedChoiceForTool :: "app_tool \<Rightarrow> unlisted_choice \<Rightarrow> unlisted_choice \<Rightarrow> unlisted_choice" where
  "unlistedChoiceForTool tool otherReads otherWrites =
     (let methods = map js_upper (methodsOf tool) in
      if length methods > 0 \<and> list_all (\<lambda>m. m \<in> set READ_METHODS) methods then otherReads
      else if length methods > 0 \<and> list_all (\<lambda>m. m \<notin> set READ_METHODS) methods then otherWrites
      else if strictness otherReads \<ge> strictness otherWrites then otherReads else otherWrites)"

record stored_grant =
  sg_full :: bool
  sg_allow :: "string list"
  sg_ask :: "string list"
  sg_otherReads :: unlisted_choice
  sg_otherWrites :: unlisted_choice

definition catchAllChoices :: "sim_rule_row list \<Rightarrow> unlisted_choice \<times> unlisted_choice" where
  "catchAllChoices rows =
     (let wholeApp = filter (\<lambda>r. length (rowTools r) = 0) rows;
          narrowed = find (\<lambda>r. rowMethod r \<noteq> []) wholeApp;
          plain = find (\<lambda>r. rowMethod r = []) wholeApp;
          plainChoice = (case plain of None \<Rightarrow> UAsk | Some p \<Rightarrow> unlistedChoiceOf p);
          narrowedChoice = (case narrowed of None \<Rightarrow> plainChoice | Some n \<Rightarrow> unlistedChoiceOf n);
          readsNarrowed = (map_option rowMethod narrowed = Some READS_ONLY)
      in (if readsNarrowed then narrowedChoice else plainChoice,
          if readsNarrowed then plainChoice else narrowedChoice))"

definition catalogTools :: "registry \<Rightarrow> string \<Rightarrow> app_tool list" where
  "catalogTools reg provider =
     (case getAppPermissionDefinition reg provider of
        None \<Rightarrow> [] | Some def \<Rightarrow> concat (map group_tools (def_groups def)))"

definition stackToGrant :: "registry \<Rightarrow> sim_rule_row list \<Rightarrow> string \<Rightarrow> stored_grant" where
  "stackToGrant reg rows provider =
     (let isFull = (length rows = 1 \<and> row_action (hd rows) = ''allow'' \<and>
            \<not> row_requireApproval (hd rows) \<and> length (rowTools (hd rows)) = 0)
      in if isFull then
           \<lparr>sg_full = True, sg_allow = [], sg_ask = [], sg_otherReads = UAllow, sg_otherWrites = UAllow\<rparr>
         else
           (let (otherReads, otherWrites) = catchAllChoices rows;
                named = concat (map rowTools rows);
                addedLater = filter (\<lambda>tool. tool_id tool \<notin> set named) (catalogTools reg provider);
                addedAs = (\<lambda>choice. map tool_id (filter (\<lambda>tool.
                  unlistedChoiceForTool tool otherReads otherWrites = choice) addedLater));
                allow = concat (map rowTools (filter (\<lambda>r. row_action r = ''allow'' \<and> \<not> row_requireApproval r) rows))
                  @ addedAs UAllow;
                ask = concat (map rowTools (filter (\<lambda>r. row_action r = ''allow'' \<and> row_requireApproval r) rows))
                  @ addedAs UAsk
            in \<lparr>sg_full = False, sg_allow = sort allow, sg_ask = sort ask,
                sg_otherReads = otherReads, sg_otherWrites = otherWrites\<rparr>))"

definition withStoredUnlisted :: "registry \<Rightarrow> connection_grant \<Rightarrow> sim_rule_row list \<Rightarrow> string \<Rightarrow> connection_grant" where
  "withStoredUnlisted reg input existing provider =
     (case input of
        FullGrant \<Rightarrow> FullGrant
      | CustomGrant g \<Rightarrow>
          if length existing = 0 then CustomGrant g
          else (let stored = stackToGrant reg existing provider in
                if sg_full stored then CustomGrant g
                else CustomGrant (g\<lparr>cg_otherReads := Some (orElse (cg_otherReads g) (sg_otherReads stored)),
                                   cg_otherWrites := Some (orElse (cg_otherWrites g) (sg_otherWrites stored))\<rparr>)))"

definition stackConditions :: "sim_rule_row list \<Rightarrow> json" where
  "stackConditions rows =
     (case find (\<lambda>r. row_action r = ''allow'' \<and> row_conditions r \<noteq> JNull) rows of
        None \<Rightarrow> JNull | Some r \<Rightarrow> row_conditions r)"

section \<open>Writing a stack (grants-service.ts)\<close>

definition connectionTarget :: "string \<Rightarrow> compiled_rule \<Rightarrow> rule_target_row" where
  "connectionTarget connectionId rule =
     \<lparr>rt_kind = ''connection'', rt_appProvider = None, rt_appTools = cr_tools rule,
      rt_appConnectionScope = None, rt_appConnectionId = Some connectionId, rt_secretId = None,
      rt_secretScope = None, rt_hostPattern = None, rt_pathPattern = None,
      rt_method = (if truthy (cr_method rule) then cr_method rule else None)\<rparr>"

definition secretTarget :: "string \<Rightarrow> rule_target_row" where
  "secretTarget secretId =
     \<lparr>rt_kind = ''secret'', rt_appProvider = None, rt_appTools = [],
      rt_appConnectionScope = None, rt_appConnectionId = None, rt_secretId = Some secretId,
      rt_secretScope = None, rt_hostPattern = None, rt_pathPattern = None, rt_method = None\<rparr>"

record grant_create =
  gc_rule :: compiled_rule
  gc_target :: rule_target_row
  gc_agentId :: string

text \<open>
  The row of one create; \<^verbatim>\<open>ids n\<close> are the row id and the logical id generated for the n-th.
\<close>

definition grantRow ::
    "policy_scope_base \<Rightarrow> string \<times> string \<Rightarrow> int \<Rightarrow> grant_create \<Rightarrow> sim_rule_row" where
  "grantRow base fresh priority create =
     \<lparr>row_id = fst fresh,
      row_scope = (case base of OrganizationScope _ \<Rightarrow> ''organization'' | WorkspaceScope _ \<Rightarrow> ''workspace''),
      row_organizationId = (case base of OrganizationScope orgId \<Rightarrow> Some orgId | WorkspaceScope _ \<Rightarrow> None),
      row_workspaceId = (case base of OrganizationScope _ \<Rightarrow> None | WorkspaceScope wsId \<Rightarrow> Some wsId),
      row_status = ''draft'', row_generation = 0, row_priority = priority, row_enabled = True,
      row_isDefault = False, row_logicalId = snd fresh, row_source = GRANT_SOURCE,
      row_name = cr_name (gc_rule create), row_action = cr_action (gc_rule create),
      row_rateLimit = None, row_rateLimitWindow = None,
      row_requireApproval = cr_requireApproval (gc_rule create),
      row_conditions = (case conditionsCreateInput (cr_conditions (gc_rule create)) of None \<Rightarrow> JNull | Some v \<Rightarrow> v),
      row_identities = [\<lparr>ri_agentId = Some (gc_agentId create), ri_userId = None, ri_groupId = None\<rparr>],
      row_targets = [gc_target create]\<rparr>"

fun createGrantRows ::
    "policy_scope_base \<Rightarrow> (nat \<Rightarrow> string \<times> string) \<Rightarrow> nat \<Rightarrow> int \<Rightarrow> grant_create list \<Rightarrow> sim_rule_row list" where
  "createGrantRows base ids n priority [] = []"
| "createGrantRows base ids n priority (create # creates) =
     grantRow base (ids n) priority create # createGrantRows base ids (Suc n) (priority + 1) creates"

end
