(* ===== verification/GrantStack.thy ===== *)
theory GrantStack
  imports GrantsCompile
begin

text \<open>
  What the grants compiler promises: the rows of a stack decide every request of the connection as
  the user chose, they read back as the grant, an unchanged save compares equal, the resource
  restriction reaches the injection side, and a reader that ignores the method column is never
  looser.
\<close>

section \<open>What a written stack decides\<close>

text \<open>The rows of one stack, and the verdict a row or an engine rule stands for.\<close>

definition stackCreates :: "string \<Rightarrow> string \<Rightarrow> compiled_rule list \<Rightarrow> grant_create list" where
  "stackCreates agentId connectionId stack =
     map (\<lambda>r. \<lparr>gc_rule = r, gc_target = connectionTarget connectionId r, gc_agentId = agentId\<rparr>) stack"

definition choiceOfRule :: "new_rule \<Rightarrow> unlisted_choice" where
  "choiceOfRule r = (if rule_action_of r = Block then UNever else if rule_requireApproval r then UAsk else UAllow)"

definition choiceOfCompiled :: "compiled_rule \<Rightarrow> unlisted_choice" where
  "choiceOfCompiled r = (if cr_action r = ''block'' then UNever else if cr_requireApproval r then UAsk else UAllow)"

definition isRead :: "policy_request \<Rightarrow> bool" where
  "isRead q = (js_upper (req_method q) \<in> set READ_METHODS)"

text \<open>The reference: what the user chose for a request of the connection.\<close>

definition grantChoice :: "registry \<Rightarrow> string \<Rightarrow> connection_grant \<Rightarrow> policy_request \<Rightarrow> unlisted_choice" where
  "grantChoice reg provider grant q =
     (case grant of
        FullGrant \<Rightarrow> UAllow
      | CustomGrant g \<Rightarrow>
          if appTargetMatches reg q provider (cg_allow g) None then UAllow
          else if appTargetMatches reg q provider (cg_ask g) None then UAsk
          else if appTargetMatches reg q provider (blockedTools reg provider g) None then UNever
          else if isRead q then orElse (cg_otherReads g) (defaultUnlisted reg provider)
          else orElse (cg_otherWrites g) (defaultUnlisted reg provider))"

definition compiledMatches :: "registry \<Rightarrow> string \<Rightarrow> policy_request \<Rightarrow> compiled_rule \<Rightarrow> bool" where
  "compiledMatches reg provider q r =
     (if cr_tools r = [] then methodAllows (cr_method r) (req_method q) \<and> providerHostMatches reg (req_host q) provider
      else appTargetMatches reg q provider (cr_tools r) None)"

lemma methodAllows_any [simp]: "methodAllows None m" "methodAllows (Some []) m"
  by (simp_all add: methodAllows_def js_trim_def)

lemma READ_METHODS_set [simp]: "set READ_METHODS = {''GET'', ''HEAD''}"
  by (simp add: READ_METHODS_def READS_ONLY_def)

lemma methodAllows_split [simp]:
  "methodAllows (Some READS_ONLY) (req_method q) \<longleftrightarrow> isRead q"
  "methodAllows (Some ALL_BUT_READS) (req_method q) \<longleftrightarrow> \<not> isRead q"
  by (simp_all add: READS_ONLY_def ALL_BUT_READS_def methodAllows_read_write isRead_def)

lemma grantRow_fields [simp]:
  "row_priority (grantRow base f p c) = p" "row_enabled (grantRow base f p c)"
  "\<not> row_isDefault (grantRow base f p c)" "row_name (grantRow base f p c) = cr_name (gc_rule c)"
  "row_action (grantRow base f p c) = cr_action (gc_rule c)"
  "row_requireApproval (grantRow base f p c) = cr_requireApproval (gc_rule c)"
  "row_targets (grantRow base f p c) = [gc_target c]"
  "row_id (grantRow base f p c) = fst f" "row_logicalId (grantRow base f p c) = snd f"
  "row_source (grantRow base f p c) = GRANT_SOURCE" "row_status (grantRow base f p c) = ''draft''"
  "row_conditions (grantRow base f p c) = (case cr_conditions (gc_rule c) of None \<Rightarrow> JNull | Some v \<Rightarrow> v)"
  "row_identities (grantRow base f p c) = [\<lparr>ri_agentId = Some (gc_agentId c), ri_userId = None, ri_groupId = None\<rparr>]"
  by (auto simp: grantRow_def conditionsCreateInput_def split: option.splits)

lemma inScope_grantRow [simp]: "inScope base (grantRow base f p c)"
  by (simp add: grantRow_def inScope_def split: policy_scope_base.split)

lemma decodeConditions_JNull [simp]: "decodeConditions JNull = None"
  by (simp add: decodeConditions_def)

lemma grantRow_matches:
  assumes "map_of cp c = Some provider" and "c \<noteq> []"
    and "\<forall>v. cr_conditions r = Some v \<longrightarrow> decodeConditions v = None"
  shows "ruleMatches reg (engineRule sh cp (grantRow base f p
      \<lparr>gc_rule = r, gc_target = connectionTarget c r, gc_agentId = a\<rparr>)) q \<longleftrightarrow>
    req_agentId q = a \<and> req_winningConnectionId q = Some c \<and> compiledMatches reg provider q r"
proof -
  have "decodeConditions (row_conditions (grantRow base f p
      \<lparr>gc_rule = r, gc_target = connectionTarget c r, gc_agentId = a\<rparr>)) = None"
    using assms(3) by (simp split: option.split)
  moreover have "methodAllows (if truthy (cr_method r) then cr_method r else None) m = methodAllows (cr_method r) m" for m
    by (auto simp: truthy_def split: option.splits)
  ultimately show ?thesis using assms(1,2)
    by (auto simp: engineRule_fields ruleMatches_def identityMatches_def decodeIdentities_def decodeIdentity_def
        targetMatches_def decodeTarget_def connectionTarget_def truthy_def compiledMatches_def Let_def
        split: option.splits if_splits)
qed

lemma createGrantRows_sorted: "sorted (map row_priority (createGrantRows base ids n p cs)) \<and>
    (\<forall>r \<in> set (createGrantRows base ids n p cs). p \<le> row_priority r)"
  by (induction cs arbitrary: n p) (fastforce simp: order_trans)+

lemma sort_createGrantRows [simp]:
  "sort_key row_priority (createGrantRows base ids n p cs) = createGrantRows base ids n p cs"
  using createGrantRows_sorted sort_key_id_if_sorted by blast

lemma choiceOf_grantRow:
  "cr_action r \<in> {''allow'', ''block''} \<Longrightarrow>
     choiceOfRule (engineRule sh cp (grantRow base f p \<lparr>gc_rule = r, gc_target = t, gc_agentId = a\<rparr>)) = choiceOfCompiled r"
  by (auto simp: choiceOfRule_def choiceOfCompiled_def toSimRule_def Let_def)

lemma find_createGrantRows:
  assumes "map_of cp c = Some provider" and "c \<noteq> []"
    and "\<forall>r \<in> set stack. (\<forall>v. cr_conditions r = Some v \<longrightarrow> decodeConditions v = None) \<and> cr_action r \<in> {''allow'', ''block''}"
  shows "map_option (\<lambda>row. choiceOfRule (engineRule sh cp row))
      (find (\<lambda>row. ruleMatches reg (engineRule sh cp row) q) (createGrantRows base ids n p (stackCreates a c stack))) =
    (if req_agentId q = a \<and> req_winningConnectionId q = Some c
     then map_option choiceOfCompiled (find (compiledMatches reg provider q) stack) else None)"
  using assms(3)
proof (induction stack arbitrary: n p)
  case (Cons r stack)
  then have "\<forall>v. cr_conditions r = Some v \<longrightarrow> decodeConditions v = None" "cr_action r \<in> {''allow'', ''block''}"
    by auto
  note r = grantRow_matches [OF assms(1,2) this(1)] choiceOf_grantRow [OF this(2)]
  show ?case using Cons by (auto simp: stackCreates_def r)
qed (simp add: stackCreates_def)

lemma compileConnectionStack_rules:
  assumes "decodeConditions conds = None" and "r \<in> set (compileConnectionStack reg nb provider grant conds)"
  shows "\<forall>v. cr_conditions r = Some v \<longrightarrow> decodeConditions v = None" and "cr_action r \<in> {''allow'', ''block''}"
  using assms
  by (auto simp: compileConnectionStack_def toolRows_def catchAllRows_def unlistedRule_def Let_def
      split: connection_grant.splits if_splits)

lemma appTargetMatches_sort [simp]: "appTargetMatches reg q p (sort ts) cs = appTargetMatches reg q p ts cs"
  by (simp add: appTargetMatches_iff)

lemma appTargetMatches_Nil [simp]: "\<not> appTargetMatches reg q p [] cs"
  by (simp add: appTargetMatches_iff)

lemma sort_Nil_iff: "sort xs = [] \<longleftrightarrow> xs = []"
  by (metis set_empty set_sort)

lemma find_toolRows:
  "map_option choiceOfCompiled (find (compiledMatches reg provider q) (toolRows reg nb provider g conds)) =
    (if appTargetMatches reg q provider (cg_allow g) None then Some UAllow
     else if appTargetMatches reg q provider (cg_ask g) None then Some UAsk
     else if appTargetMatches reg q provider (blockedTools reg provider g) None then Some UNever else None)"
  by (cases "cg_allow g = []"; cases "cg_ask g = []"; cases "blockedTools reg provider g = []")
    (auto simp: toolRows_def Let_def find_append compiledMatches_def choiceOfCompiled_def sort_Nil_iff)

lemma truthy_methods [simp]: "truthy (Some READS_ONLY)" "truthy (Some ALL_BUT_READS)" "\<not> truthy None"
  by (simp_all add: truthy_def READS_ONLY_def ALL_BUT_READS_def)

lemma unlistedRule_choice [simp]:
  "choiceOfCompiled (unlistedRule nb choice conds m) = choice"
  "compiledMatches reg provider q (unlistedRule nb choice conds m) \<longleftrightarrow>
     methodAllows m (req_method q) \<and> providerHostMatches reg (req_host q) provider"
  by (cases choice; auto simp: choiceOfCompiled_def unlistedRule_def compiledMatches_def Let_def truthy_def
      split: option.splits)+

lemma find_catchAllRows:
  "map_option choiceOfCompiled (find (compiledMatches reg provider q) (catchAllRows nb reads writes conds)) =
    (if providerHostMatches reg (req_host q) provider then Some (if isRead q then reads else writes) else None)"
  by (auto simp: catchAllRows_def Let_def)

lemma appTargetMatches_needs_host:
  "\<not> providerHostMatches reg (req_host q) p \<Longrightarrow> \<not> appTargetMatches reg q p ts cs"
  using appTargetMatches_host by blast

lemma find_compileConnectionStack:
  "map_option choiceOfCompiled (find (compiledMatches reg provider q) (compileConnectionStack reg nb provider grant conds)) =
    (if providerHostMatches reg (req_host q) provider then Some (grantChoice reg provider grant q) else None)"
proof (cases grant)
  case FullGrant
  then show ?thesis
    by (simp add: compileConnectionStack_def compiledMatches_def choiceOfCompiled_def grantChoice_def)
next
  case (CustomGrant g)
  have "map_option choiceOfCompiled (find (compiledMatches reg provider q) (compileConnectionStack reg nb provider grant conds)) =
    (case map_option choiceOfCompiled (find (compiledMatches reg provider q) (toolRows reg nb provider g conds)) of
       None \<Rightarrow> map_option choiceOfCompiled (find (compiledMatches reg provider q)
         (catchAllRows nb (orElse (cg_otherReads g) (defaultUnlisted reg provider))
            (orElse (cg_otherWrites g) (defaultUnlisted reg provider)) conds))
     | Some x \<Rightarrow> Some x)"
    by (simp add: compileConnectionStack_def CustomGrant Let_def find_append split: option.splits)
  then show ?thesis unfolding find_toolRows find_catchAllRows
    by (auto simp: grantChoice_def CustomGrant appTargetMatches_needs_host)
qed

lemma grant_stack_choice:
  assumes "map_of cp c = Some provider" and "c \<noteq> []" and "decodeConditions conds = None"
  shows "map_option choiceOfRule (levelPick reg (map (engineRule sh cp) (createGrantRows base ids n p
      (stackCreates a c (compileConnectionStack reg nb provider grant conds)))) q) =
    (if req_agentId q = a \<and> req_winningConnectionId q = Some c \<and> providerHostMatches reg (req_host q) provider
     then Some (grantChoice reg provider grant q) else None)"
proof -
  have "\<forall>r \<in> set (compileConnectionStack reg nb provider grant conds).
      (\<forall>v. cr_conditions r = Some v \<longrightarrow> decodeConditions v = None) \<and> cr_action r \<in> {''allow'', ''block''}"
    using compileConnectionStack_rules [OF assms(3)] by blast
  note find_createGrantRows [OF assms(1,2) this, of sh reg q base ids n p a]
  then show ?thesis
    unfolding levelPick_rows sort_createGrantRows option.map_comp o_def find_compileConnectionStack by simp
qed

text \<open>A reader that ignores the method column.\<close>

definition withoutMethod :: "compiled_rule list \<Rightarrow> compiled_rule list" where
  "withoutMethod stack = map (\<lambda>r. r\<lparr>cr_method := None\<rparr>) stack"

lemma unlistedRule_withoutMethod [simp]:
  "unlistedRule nb choice conds m\<lparr>cr_method := None\<rparr> = unlistedRule nb choice conds None"
  by (simp add: unlistedRule_def Let_def)

lemma toolRows_withoutMethod [simp]: "withoutMethod (toolRows reg nb provider g conds) = toolRows reg nb provider g conds"
  by (simp add: withoutMethod_def toolRows_def Let_def)

lemma withoutMethod_append: "withoutMethod (xs @ ys) = withoutMethod xs @ withoutMethod ys"
  by (simp add: withoutMethod_def)

lemma find_catchAll_withoutMethod:
  "map_option choiceOfCompiled (find (compiledMatches reg provider q) (withoutMethod (catchAllRows nb reads writes conds))) =
    (if providerHostMatches reg (req_host q) provider
     then Some (if strictness reads > strictness writes then reads else writes) else None)"
  by (auto simp: catchAllRows_def Let_def withoutMethod_def)

lemma strictness_le_max: "strictness (if b then reads else writes)
    \<le> strictness (if strictness reads > strictness writes then reads else writes)"
  by auto

lemma legacy_find:
  assumes "providerHostMatches reg (req_host q) provider"
  shows "\<exists>choice. map_option choiceOfCompiled (find (compiledMatches reg provider q)
      (withoutMethod (compileConnectionStack reg nb provider grant conds))) = Some choice \<and>
    strictness (grantChoice reg provider grant q) \<le> strictness choice"
proof (cases grant)
  case FullGrant
  then show ?thesis using assms
    by (simp add: withoutMethod_def compileConnectionStack_def compiledMatches_def choiceOfCompiled_def grantChoice_def)
next
  case (CustomGrant g)
  let ?r = "orElse (cg_otherReads g) (defaultUnlisted reg provider)"
  let ?w = "orElse (cg_otherWrites g) (defaultUnlisted reg provider)"
  have "map_option choiceOfCompiled (find (compiledMatches reg provider q)
      (withoutMethod (compileConnectionStack reg nb provider grant conds))) =
    (case map_option choiceOfCompiled (find (compiledMatches reg provider q) (toolRows reg nb provider g conds)) of
       None \<Rightarrow> map_option choiceOfCompiled (find (compiledMatches reg provider q) (withoutMethod (catchAllRows nb ?r ?w conds)))
     | Some x \<Rightarrow> Some x)"
    by (simp add: compileConnectionStack_def CustomGrant Let_def withoutMethod_append find_append split: option.splits)
  then show ?thesis unfolding find_toolRows find_catchAll_withoutMethod
    using assms strictness_le_max [of "isRead q" ?r ?w] by (auto simp: grantChoice_def CustomGrant)
qed

lemma legacy_choice:
  assumes "map_of cp c = Some provider" and "c \<noteq> []" and "decodeConditions conds = None"
    and "req_agentId q = a" and "req_winningConnectionId q = Some c" and "providerHostMatches reg (req_host q) provider"
  shows "\<exists>rule. levelPick reg (map (engineRule sh cp) (createGrantRows base ids n p
      (stackCreates a c (withoutMethod (compileConnectionStack reg nb provider grant conds))))) q = Some rule \<and>
    strictness (grantChoice reg provider grant q) \<le> strictness (choiceOfRule rule)"
proof -
  have rules: "\<forall>r \<in> set (withoutMethod (compileConnectionStack reg nb provider grant conds)).
      (\<forall>v. cr_conditions r = Some v \<longrightarrow> decodeConditions v = None) \<and> cr_action r \<in> {''allow'', ''block''}"
    using compileConnectionStack_rules [OF assms(3)] unfolding withoutMethod_def set_map by fastforce
  obtain ch where ch: "map_option choiceOfCompiled (find (compiledMatches reg provider q)
      (withoutMethod (compileConnectionStack reg nb provider grant conds))) = Some ch"
    "strictness (grantChoice reg provider grant q) \<le> strictness ch"
    using legacy_find [OF assms(6)] by blast
  have "map_option choiceOfRule (levelPick reg (map (engineRule sh cp) (createGrantRows base ids n p
      (stackCreates a c (withoutMethod (compileConnectionStack reg nb provider grant conds))))) q) = Some ch"
    using find_createGrantRows [OF assms(1,2) rules] assms(4,5) ch(1)
    unfolding levelPick_rows sort_createGrantRows option.map_comp o_def by simp
  then show ?thesis using ch(2) by auto
qed

text \<open>What a row keeps of the compiled rule it was written from.\<close>

lemma createGrantRows_nth:
  "i < length cs \<Longrightarrow> createGrantRows base ids n p cs ! i = grantRow base (ids (n + i)) (p + int i) (cs ! i)"
proof (induction cs arbitrary: n p i)
  case (Cons c cs)
  then show ?case by (cases i) (auto simp: algebra_simps)
qed simp

lemma length_createGrantRows [simp]: "length (createGrantRows base ids n p cs) = length cs"
  by (induction cs arbitrary: n p) auto

text \<open>A list function of the rows that only reads fields of their rules.\<close>

lemma map_createGrantRows:
  assumes "\<And>f p r. h (grantRow base f p \<lparr>gc_rule = r, gc_target = connectionTarget c r, gc_agentId = a\<rparr>) = k r"
  shows "map h (createGrantRows base ids n p (stackCreates a c stack)) = map k stack"
  by (induction stack arbitrary: n p) (auto simp: stackCreates_def assms)

lemma concat_filter_createGrantRows:
  assumes "\<And>f p r. P (grantRow base f p \<lparr>gc_rule = r, gc_target = connectionTarget c r, gc_agentId = a\<rparr>) = Q r"
    and "\<And>f p r. h (grantRow base f p \<lparr>gc_rule = r, gc_target = connectionTarget c r, gc_agentId = a\<rparr>) = k r"
  shows "map h (filter P (createGrantRows base ids n p (stackCreates a c stack))) = map k (filter Q stack)"
  by (induction stack arbitrary: n p) (auto simp: stackCreates_def assms)

lemma find_filter_createGrantRows:
  assumes "\<And>f p r. P (grantRow base f p \<lparr>gc_rule = r, gc_target = connectionTarget c r, gc_agentId = a\<rparr>) = Q r"
    and "\<And>f p r. h (grantRow base f p \<lparr>gc_rule = r, gc_target = connectionTarget c r, gc_agentId = a\<rparr>) = k r"
    and "\<And>f p r. R (grantRow base f p \<lparr>gc_rule = r, gc_target = connectionTarget c r, gc_agentId = a\<rparr>) = S r"
  shows "map_option h (find P (filter R (createGrantRows base ids n p (stackCreates a c stack)))) =
    map_option k (find Q (filter S stack))"
  by (induction stack arbitrary: n p) (auto simp: stackCreates_def assms)

lemma grantRow_tools [simp]:
  "rowTools (grantRow base f p \<lparr>gc_rule = r, gc_target = connectionTarget c r, gc_agentId = a\<rparr>) = cr_tools r"
  "rowMethod (grantRow base f p \<lparr>gc_rule = r, gc_target = connectionTarget c r, gc_agentId = a\<rparr>) = orEmpty (cr_method r)"
  by (auto simp: rowTools_def rowMethod_def connectionTarget_def truthy_def orEmpty_def split: option.splits)

section \<open>Reading a compiled stack back\<close>

lemma sort_sort [simp]: "sort (sort xs) = sort xs"
  by (rule sort_key_id_if_sorted) simp

abbreviation stackRows ::
    "policy_scope_base \<Rightarrow> (nat \<Rightarrow> string \<times> string) \<Rightarrow> nat \<Rightarrow> int \<Rightarrow> string \<Rightarrow> string \<Rightarrow> compiled_rule list \<Rightarrow> sim_rule_row list" where
  "stackRows base ids n p a c stack \<equiv> createGrantRows base ids n p (stackCreates a c stack)"

lemma unlistedChoiceOf_grantRow:
  "unlistedChoiceOf (grantRow base f p \<lparr>gc_rule = r, gc_target = t, gc_agentId = a\<rparr>) = choiceOfCompiled r"
  by (simp add: unlistedChoiceOf_def choiceOfCompiled_def)

lemma unlistedRule_fields [simp]:
  "cr_tools (unlistedRule nb choice conds m) = []"
  "orEmpty (cr_method (unlistedRule nb choice conds m)) = orEmpty m"
  by (auto simp: unlistedRule_def Let_def orEmpty_def truthy_def split: option.splits)

lemma toolRows_tools: "r \<in> set (toolRows reg nb provider g conds) \<Longrightarrow> cr_tools r \<noteq> []"
  by (auto simp: toolRows_def Let_def sort_Nil_iff split: if_splits)

lemma filter_wholeApp:
  "filter (\<lambda>r. length (cr_tools r) = 0) (toolRows reg nb provider g conds @ catchAllRows nb reads writes conds) =
     catchAllRows nb reads writes conds"
proof -
  have "filter (\<lambda>r. length (cr_tools r) = 0) (toolRows reg nb provider g conds) = []"
    using toolRows_tools by (auto simp: filter_empty_conv)
  moreover have "filter (\<lambda>r. length (cr_tools r) = 0) (catchAllRows nb reads writes conds) = catchAllRows nb reads writes conds"
    by (simp add: catchAllRows_def Let_def)
  ultimately show ?thesis by simp
qed

lemma orEmpty_simps [simp]: "orEmpty None = []" "orEmpty (Some m) = m"
  by (simp_all add: orEmpty_def)

lemma method_neq [simp]: "READS_ONLY \<noteq> []" "ALL_BUT_READS \<noteq> []" "ALL_BUT_READS \<noteq> READS_ONLY"
  by (simp_all add: READS_ONLY_def ALL_BUT_READS_def)

lemma catchAllChoices_stack:
  "catchAllChoices (stackRows base ids n p a c (toolRows reg nb provider g conds @ catchAllRows nb reads writes conds)) =
     (reads, writes)"
proof -
  let ?stack = "toolRows reg nb provider g conds @ catchAllRows nb reads writes conds"
  let ?rows = "stackRows base ids n p a c ?stack"
  let ?whole = "filter (\<lambda>r. length (rowTools r) = 0) ?rows"
  have plain: "map_option unlistedChoiceOf (find (\<lambda>r. rowMethod r = []) ?whole) =
      map_option choiceOfCompiled (find (\<lambda>r. orEmpty (cr_method r) = []) (filter (\<lambda>r. length (cr_tools r) = 0) ?stack))"
    by (rule find_filter_createGrantRows) (simp_all add: unlistedChoiceOf_grantRow)
  have narrowed: "map_option (\<lambda>r. (unlistedChoiceOf r, rowMethod r)) (find (\<lambda>r. rowMethod r \<noteq> []) ?whole) =
      map_option (\<lambda>r. (choiceOfCompiled r, orEmpty (cr_method r)))
        (find (\<lambda>r. orEmpty (cr_method r) \<noteq> []) (filter (\<lambda>r. length (cr_tools r) = 0) ?stack))"
    by (rule find_filter_createGrantRows) (simp_all add: unlistedChoiceOf_grantRow)
  have "map_option unlistedChoiceOf (find (\<lambda>r. rowMethod r = []) ?whole) =
      Some (if strictness reads > strictness writes then writes else reads)"
    unfolding plain filter_wholeApp by (auto simp: catchAllRows_def Let_def)
  then obtain P where P: "find (\<lambda>r. rowMethod r = []) ?whole = Some P"
    "unlistedChoiceOf P = (if strictness reads > strictness writes then writes else reads)" by auto
  have N: "map_option (\<lambda>r. (unlistedChoiceOf r, rowMethod r)) (find (\<lambda>r. rowMethod r \<noteq> []) ?whole) =
      (if reads = writes then None else if strictness reads > strictness writes then Some (reads, READS_ONLY)
       else Some (writes, ALL_BUT_READS))"
    unfolding narrowed filter_wholeApp by (simp add: catchAllRows_def Let_def)
  then show ?thesis unfolding catchAllChoices_def Let_def P(1)
    by (cases "find (\<lambda>r. rowMethod r \<noteq> []) ?whole") (auto simp: P(2) split: if_splits)
qed

text \<open>The form in which a grant reads back.\<close>

definition storedForm :: "registry \<Rightarrow> string \<Rightarrow> connection_grant \<Rightarrow> stored_grant" where
  "storedForm reg provider grant =
     (case grant of
        FullGrant \<Rightarrow> \<lparr>sg_full = True, sg_allow = [], sg_ask = [], sg_otherReads = UAllow, sg_otherWrites = UAllow\<rparr>
      | CustomGrant g \<Rightarrow>
          \<lparr>sg_full = False, sg_allow = sort (cg_allow g), sg_ask = sort (cg_ask g),
           sg_otherReads = orElse (cg_otherReads g) (defaultUnlisted reg provider),
           sg_otherWrites = orElse (cg_otherWrites g) (defaultUnlisted reg provider)\<rparr>)"

definition namesTools :: "registry \<Rightarrow> string \<Rightarrow> connection_grant \<Rightarrow> bool" where
  "namesTools reg provider grant =
     (case grant of FullGrant \<Rightarrow> True
      | CustomGrant g \<Rightarrow> cg_allow g \<noteq> [] \<or> cg_ask g \<noteq> [] \<or> catalogToolIds reg provider \<noteq> [])"

lemma set_catalogTools: "tool_id ` set (catalogTools reg provider) = set (catalogToolIds reg provider)"
  by (auto simp: catalogTools_def catalogToolIds_def split: option.splits) 

lemma set_blockedTools:
  "set (blockedTools reg provider g) = set (catalogToolIds reg provider) - set (cg_allow g) - set (cg_ask g)"
  by (auto simp: blockedTools_def Let_def)

lemma concat_toolRows:
  "concat (map cr_tools (filter (\<lambda>r. cr_action r = ''allow'' \<and> \<not> cr_requireApproval r) (toolRows reg nb provider g conds))) = sort (cg_allow g)"
  "concat (map cr_tools (filter (\<lambda>r. cr_action r = ''allow'' \<and> cr_requireApproval r) (toolRows reg nb provider g conds))) = sort (cg_ask g)"
  "concat (map cr_tools (toolRows reg nb provider g conds)) = sort (cg_allow g) @ sort (cg_ask g) @ blockedTools reg provider g"
  by (auto simp: toolRows_def Let_def sort_Nil_iff)

lemma concat_catchAllRows: "concat (map cr_tools (filter P (catchAllRows nb reads writes conds))) = []"
  by (auto simp: catchAllRows_def Let_def)

lemma toolRows_Nil: "toolRows reg nb provider g conds = [] \<longleftrightarrow> cg_allow g = [] \<and> cg_ask g = [] \<and> catalogToolIds reg provider = []"
proof -
  have "blockedTools reg provider g = [] \<longleftrightarrow> set (catalogToolIds reg provider) \<subseteq> set (cg_allow g) \<union> set (cg_ask g)"
    using set_blockedTools [of reg provider g] by (auto simp flip: set_empty)
  then show ?thesis by (auto simp: toolRows_def Let_def sort_Nil_iff)
qed

lemma stack_round_trip:
  assumes "namesTools reg provider grant"
  shows "stackToGrant reg (stackRows base ids n p a c (compileConnectionStack reg nb provider grant conds)) provider =
    storedForm reg provider grant"
proof (cases grant)
  case FullGrant
  then show ?thesis
    by (simp add: stackToGrant_def compileConnectionStack_def stackCreates_def storedForm_def)
next
  case (CustomGrant g)
  define reads where "reads = orElse (cg_otherReads g) (defaultUnlisted reg provider)"
  define writes where "writes = orElse (cg_otherWrites g) (defaultUnlisted reg provider)"
  define stack where "stack = toolRows reg nb provider g conds @ catchAllRows nb reads writes conds"
  let ?rows = "stackRows base ids n p a c stack"
  have stack: "compileConnectionStack reg nb provider grant conds = stack"
    by (simp add: compileConnectionStack_def CustomGrant Let_def stack_def reads_def writes_def)
  have "toolRows reg nb provider g conds \<noteq> []" "catchAllRows nb reads writes conds \<noteq> []"
    using assms by (auto simp: toolRows_Nil namesTools_def CustomGrant catchAllRows_def Let_def)
  then have len: "length ?rows \<noteq> 1"
    by (auto simp: stack_def stackCreates_def)
      (metis One_nat_def Suc_le_eq add_is_1 length_0_conv length_greater_0_conv)
  have tools: "map rowTools ?rows = map cr_tools stack"
    by (rule map_createGrantRows) simp
  have allow: "map rowTools (filter (\<lambda>r. row_action r = ''allow'' \<and> \<not> row_requireApproval r) ?rows) =
      map cr_tools (filter (\<lambda>r. cr_action r = ''allow'' \<and> \<not> cr_requireApproval r) stack)"
    by (rule concat_filter_createGrantRows) simp_all
  have ask: "map rowTools (filter (\<lambda>r. row_action r = ''allow'' \<and> row_requireApproval r) ?rows) =
      map cr_tools (filter (\<lambda>r. cr_action r = ''allow'' \<and> cr_requireApproval r) stack)"
    by (rule concat_filter_createGrantRows) simp_all
  have named: "set (concat (map rowTools ?rows)) \<supseteq> tool_id ` set (catalogTools reg provider)"
    unfolding tools unfolding stack_def map_append concat_append concat_toolRows set_catalogTools
    by (auto simp: set_blockedTools)
  then have later: "filter (\<lambda>tool. tool_id tool \<notin> set (concat (map rowTools ?rows))) (catalogTools reg provider) = []"
    by (auto simp: filter_empty_conv)
  have ca: "catchAllChoices ?rows = (reads, writes)" unfolding stack_def by (rule catchAllChoices_stack)
  show ?thesis
    unfolding stack stackToGrant_def Let_def ca later allow ask
    using len by (simp add: stack_def concat_toolRows concat_catchAllRows storedForm_def CustomGrant reads_def writes_def)
qed

section \<open>Saving an unchanged grant\<close>

lemma stackEquals_rows:
  assumes "\<forall>r \<in> set stack. sorted (cr_tools r)"
  shows "stackEquals (stackRows base ids n p a c stack) stack"
proof -
  have "list_all2 (\<lambda>row want. row_enabled row \<and> row_action row = cr_action want \<and>
        row_requireApproval row = cr_requireApproval want \<and> row_name row = cr_name want \<and>
        conditionsEqual (Some (row_conditions row)) (cr_conditions want) \<and>
        rowMethod row = orEmpty (cr_method want) \<and>
        join_with [CHR 0x0A] (sort (rowTools row)) = join_with [CHR 0x0A] (cr_tools want))
      (stackRows base ids n p a c stack) stack"
    using assms
  proof (induction stack arbitrary: n p)
    case (Cons r stack)
    have "conditionsEqual (Some (case cr_conditions r of None \<Rightarrow> JNull | Some v \<Rightarrow> v)) (cr_conditions r)"
      by (simp add: conditionsEqual_def canonicalJson_def split: option.split)
    moreover have "sort (cr_tools r) = cr_tools r" using Cons(2) by (simp add: sort_key_id_if_sorted)
    ultimately show ?case using Cons(1) [of "Suc n" "p + 1"] Cons(2) by (simp add: stackCreates_def)
  qed (simp add: stackCreates_def)
  then show ?thesis by (simp add: stackEquals_def stackCreates_def)
qed

lemma compileConnectionStack_sorted:
  "r \<in> set (compileConnectionStack reg nb provider grant conds) \<Longrightarrow> sorted (cr_tools r)"
  by (auto simp: compileConnectionStack_def toolRows_def catchAllRows_def blockedTools_def Let_def
      split: connection_grant.splits if_splits)

lemma allow_rows_conditions:
  "r \<in> set (compileConnectionStack reg nb provider grant conds) \<Longrightarrow> cr_action r = ''allow'' \<Longrightarrow> cr_conditions r = Some conds"
  by (auto simp: compileConnectionStack_def toolRows_def catchAllRows_def unlistedRule_def Let_def
      split: connection_grant.splits if_splits)

text \<open>A grant that lets anything through has an allow row.\<close>

definition grantsSomething :: "connection_grant \<Rightarrow> bool" where
  "grantsSomething grant = (case grant of FullGrant \<Rightarrow> True | CustomGrant g \<Rightarrow> cg_allow g \<noteq> [] \<or> cg_ask g \<noteq> [])"

lemma grantsSomething_allow_row:
  "grantsSomething grant \<Longrightarrow> \<exists>r \<in> set (compileConnectionStack reg nb provider grant conds). cr_action r = ''allow''"
  by (auto simp: grantsSomething_def compileConnectionStack_def toolRows_def Let_def sort_Nil_iff bex_Un
      split: connection_grant.splits)

lemma stackConditions_find:
  "stackConditions (stackRows base ids n p a c stack) =
     (case find (\<lambda>r. cr_action r = ''allow'' \<and> (case cr_conditions r of None \<Rightarrow> JNull | Some v \<Rightarrow> v) \<noteq> JNull) stack of
        None \<Rightarrow> JNull | Some r \<Rightarrow> (case cr_conditions r of None \<Rightarrow> JNull | Some v \<Rightarrow> v))"
  by (induction stack arbitrary: n p) (auto simp: stackConditions_def stackCreates_def)

lemma stackConditions_rows:
  assumes "grantsSomething grant"
  shows "stackConditions (stackRows base ids n p a c (compileConnectionStack reg nb provider grant conds)) = conds"
proof (cases "find (\<lambda>r. cr_action r = ''allow'' \<and> (case cr_conditions r of None \<Rightarrow> JNull | Some v \<Rightarrow> v) \<noteq> JNull)
    (compileConnectionStack reg nb provider grant conds)")
  case None
  obtain r where r: "r \<in> set (compileConnectionStack reg nb provider grant conds)" "cr_action r = ''allow''"
    using grantsSomething_allow_row [OF assms] by blast
  with None have "(case cr_conditions r of None \<Rightarrow> JNull | Some v \<Rightarrow> v) = JNull" unfolding find_None_iff by blast
  then have "conds = JNull" using allow_rows_conditions [OF r] by simp
  with None show ?thesis by (simp add: stackConditions_find)
next
  case (Some r)
  then have "r \<in> set (compileConnectionStack reg nb provider grant conds)" "cr_action r = ''allow''"
    by (auto simp: find_Some_iff)
  then have "cr_conditions r = Some conds" by (rule allow_rows_conditions)
  with Some show ?thesis by (simp add: stackConditions_find)
qed

lemma unchanged_save:
  assumes "cg_allow g \<noteq> [] \<or> cg_ask g \<noteq> []"
    and "existing = stackRows base ids n p a c (compileConnectionStack reg nb provider (CustomGrant g) conds)"
  shows "stackEquals existing (compileConnectionStack reg nb provider
    (withStoredUnlisted reg (CustomGrant (g\<lparr>cg_otherReads := None, cg_otherWrites := None\<rparr>)) existing provider)
    (stackConditions existing))"
proof -
  have conds: "stackConditions existing = conds"
    unfolding assms(2) using assms(1) by (intro stackConditions_rows) (simp add: grantsSomething_def)
  have stored: "stackToGrant reg existing provider = storedForm reg provider (CustomGrant g)"
    unfolding assms(2) using assms(1) by (intro stack_round_trip) (auto simp: namesTools_def)
  have "existing \<noteq> []" using grantsSomething_allow_row [of "CustomGrant g" reg nb provider conds] assms(1)
    by (auto simp: assms(2) grantsSomething_def stackCreates_def simp flip: length_greater_0_conv)
  then have "compileConnectionStack reg nb provider (withStoredUnlisted reg
      (CustomGrant (g\<lparr>cg_otherReads := None, cg_otherWrites := None\<rparr>)) existing provider) conds =
    compileConnectionStack reg nb provider (CustomGrant g) conds"
    by (simp add: withStoredUnlisted_def stored storedForm_def compileConnectionStack_def orElse_def Let_def
        toolRows_def blockedTools_def)
  then show ?thesis unfolding conds using stackEquals_rows [of "compileConnectionStack reg nb provider (CustomGrant g) conds"]
      compileConnectionStack_sorted by (simp add: assms(2))
qed

section \<open>The resource restriction of a stack\<close>

lemma grantRow_injects:
  "injectionIdentityMatches [\<lparr>ri_agentId = Some b, ri_userId = None, ri_groupId = None\<rparr>] a ps \<longleftrightarrow> b = a"
  "targetsConnection (grantRow base f p \<lparr>gc_rule = r, gc_target = connectionTarget cid r, gc_agentId = a\<rparr>) cid"
  by (auto simp: injectionIdentityMatches_def targetsConnection_def connectionTarget_def)

lemma foldl_last_conditions:
  assumes "\<forall>r \<in> set stack. cr_action r = ''allow'' \<longrightarrow> cr_conditions r = Some conds"
  shows "foldl (\<lambda>policy row.
      if row_isDefault row \<or> row_action row \<noteq> ''allow'' then policy
      else if \<not> injectionIdentityMatches (row_identities row) a ps then policy
      else if \<not> targetsConnection row c then policy
      else row_conditions row) acc (stackRows base ids n p a c stack) =
    (if \<exists>r \<in> set stack. cr_action r = ''allow'' then conds else acc)"
  using assms
  by (induction stack arbitrary: acc n p) (auto simp: stackCreates_def grantRow_injects)

lemma stack_selection:
  assumes "grantsSomething grant"
  shows "workspaceResourceSelection (stackRows base ids n p a c (compileConnectionStack reg nb provider grant conds)) a ps c =
    (if isSessionPolicy conds then Some conds else None)"
proof -
  have "\<forall>r \<in> set (compileConnectionStack reg nb provider grant conds). cr_action r = ''allow'' \<longrightarrow> cr_conditions r = Some conds"
    using allow_rows_conditions by blast
  note foldl_last_conditions [OF this]
  then show ?thesis using grantsSomething_allow_row [OF assms]
    by (simp add: workspaceResourceSelection_def foldSessionPolicy_def Let_def)
qed

section \<open>The default grant\<close>

text \<open>A tool of the catalog that its read groups list and no write group does.\<close>

definition listedUnder :: "registry \<Rightarrow> string \<Rightarrow> group_category \<Rightarrow> string \<Rightarrow> bool" where
  "listedUnder reg provider category i =
     (case getAppPermissionDefinition reg provider of
        None \<Rightarrow> False
      | Some def \<Rightarrow> list_ex (\<lambda>g. group_category g = category \<and> list_ex (\<lambda>t. tool_id t = i) (group_tools g)) (def_groups def))"

definition toolRequest :: "registry \<Rightarrow> string \<Rightarrow> policy_request \<Rightarrow> string \<Rightarrow> bool" where
  "toolRequest reg provider q i =
     (case getAppTool reg provider i of None \<Rightarrow> False | Some t \<Rightarrow> toolMatches q None t)"

lemma set_toolsOf:
  "getAppPermissionDefinition reg provider = Some def \<Longrightarrow>
     set (toolsOf (def_groups def) category) = Collect (listedUnder reg provider category)"
  by (fastforce simp: toolsOf_def listedUnder_def list_ex_iff)

lemma appTargetMatches_request:
  "appTargetMatches reg q provider ids None \<longleftrightarrow> (\<exists>i \<in> set ids. toolRequest reg provider q i)"
  by (auto simp: appTargetMatches_iff toolRequest_def split: option.splits)

lemma listed_catalogToolIds:
  "i \<in> set (catalogToolIds reg provider) \<longleftrightarrow> listedUnder reg provider Read i \<or> listedUnder reg provider Write i"
proof -
  have "group_category g = Read \<or> group_category g = Write" for g :: app_tool_group
    by (cases "group_category g") auto
  then show ?thesis by (auto simp: set_catalogToolIds listedUnder_def list_ex_iff split: option.splits)
qed

lemma filter_toolsOf_empty: "filter (\<lambda>t. t \<notin> set b) a = [] \<Longrightarrow> b = [] \<Longrightarrow> a = []"
  by simp

lemma default_grant_choice:
  assumes "catalogToolIds reg provider \<noteq> []"
  shows "grantChoice reg provider (defaultConnectionGrant reg provider) q =
    (if \<exists>i. listedUnder reg provider Read i \<and> \<not> listedUnder reg provider Write i \<and> toolRequest reg provider q i
     then UAllow
     else if \<exists>i. listedUnder reg provider Write i \<and> toolRequest reg provider q i then UAsk
     else if isRead q then defaultOtherReads (getAppPermissionDefinition reg provider) else UAsk)"
proof -
  obtain def where def: "getAppPermissionDefinition reg provider = Some def"
    using assms by (auto simp: catalogToolIds_def split: option.splits)
  let ?ask = "toolsOf (def_groups def) Write"
  let ?allow = "filter (\<lambda>t. t \<notin> set ?ask) (toolsOf (def_groups def) Read)"
  have cat: "set (catalogToolIds reg provider) = set ?allow \<union> set ?ask"
    using listed_catalogToolIds [of _ reg provider] by (auto simp: set_toolsOf [OF def])
  define g where "g = \<lparr>cg_allow = ?allow, cg_ask = ?ask,
      cg_otherReads = Some (defaultOtherReads (getAppPermissionDefinition reg provider)), cg_otherWrites = Some UAsk\<rparr>"
  have "\<not> (?allow = [] \<and> ?ask = [])" using cat assms by auto
  then have "defaultConnectionGrant reg provider = CustomGrant g"
    unfolding defaultConnectionGrant_def Let_def g_def def option.case by simp
  moreover have "blockedTools reg provider g = []"
    using set_blockedTools [of reg provider g] by (simp add: cat g_def del: set_filter flip: set_empty) blast
  ultimately show ?thesis
    by (auto simp: grantChoice_def g_def appTargetMatches_request set_toolsOf [OF def] orElse_def)
qed

section \<open>Conditions up to the order of keys\<close>

text \<open>Equal up to the order of object keys, as a stored JSON value may come back.\<close>

inductive same_json :: "json \<Rightarrow> json \<Rightarrow> bool" where
  same_refl: "same_json v v"
| same_arr: "list_all2 same_json vs ws \<Longrightarrow> same_json (JArr vs) (JArr ws)"
| same_obj: "distinct (map fst es) \<Longrightarrow> distinct (map fst fs) \<Longrightarrow> fst ` set es = fst ` set fs \<Longrightarrow>
    (\<And>k v w. (k, v) \<in> set es \<Longrightarrow> (k, w) \<in> set fs \<Longrightarrow> same_json v w) \<Longrightarrow> same_json (JObj es) (JObj fs)"

lemma js_entries_distinct:
  assumes "distinct (map fst es)"
  shows "js_entries es = es"
proof -
  have get: "obj_get es k = Some v" if "(k, v) \<in> set es" for k v
    using that assms by (simp add: obj_get_def map_of_is_SomeI rev_map [symmetric])
  have "js_uniq (map fst es) = map fst es" using assms by (rule js_uniq_distinct)
  then show ?thesis unfolding js_entries_def by (auto simp: get intro!: map_idI)
qed

lemma sort_key_fst_map_of:
  fixes es :: "(string \<times> 'b) list"
  assumes "distinct (map fst es)"
  shows "sort_key fst es = map (\<lambda>k. (k, the (map_of es k))) (sort (map fst es))"
proof -
  have "map (\<lambda>k. (k, the (map_of es k))) (map fst (sort_key fst es)) = sort_key fst es"
    using assms by (auto intro!: map_idI simp: map_of_is_SomeI)
  moreover have "map fst (sort_key fst es) = sort (map fst es)"
    using sort_key_map_comp [of "\<lambda>x. x" fst es] by simp
  ultimately show ?thesis by simp
qed

lemma same_json_sorted: "same_json a b \<Longrightarrow> sortKeysDeep a = sortKeysDeep b"
proof (induction rule: same_json.induct)
  case (same_arr vs ws)
  then show ?case by (auto simp: list_all2_conv_all_nth intro!: nth_equalityI)
next
  case (same_obj es fs)
  have keys: "sort (map fst es) = sort (map fst fs)"
    using same_obj by (intro sorted_distinct_set_unique) auto
  have "sortKeysDeep (the (map_of es k)) = sortKeysDeep (the (map_of fs k))" if "k \<in> fst ` set es" for k
  proof -
    have "map_of es k \<noteq> None" "map_of fs k \<noteq> None" using that same_obj(3) by (auto simp: map_of_eq_None_iff)
    then obtain v w where vw: "map_of es k = Some v" "map_of fs k = Some w" by blast
    with same_obj(5) [OF map_of_SomeD map_of_SomeD] show ?thesis by simp
  qed
  then show ?case
    unfolding sortKeysDeep.simps js_entries_distinct [OF same_obj(1)] js_entries_distinct [OF same_obj(2)]
      sort_key_fst_map_of [OF same_obj(1)] sort_key_fst_map_of [OF same_obj(2)]
    by (simp add: keys [symmetric] o_def)
qed simp

lemma same_json_null: "same_json a b \<Longrightarrow> a = JNull \<longleftrightarrow> b = JNull"
  by (induction rule: same_json.induct) auto

lemma same_json_equal: "same_json a b \<Longrightarrow> conditionsEqual (Some a) (Some b)"
  using same_json_sorted same_json_null by (fastforce simp: conditionsEqual_def canonicalJson_def)

section \<open>Concrete grants for the examples\<close>

definition sampleIds :: "nat \<Rightarrow> string \<times> string" where
  "sampleIds n = (''row'' @ nat_text n, ''rule'' @ nat_text n)"

definition sampleGrant :: custom_grant where
  "sampleGrant = \<lparr>cg_allow = [''list_emails''], cg_ask = [''send_email''], cg_otherReads = None, cg_otherWrites = Some UNever\<rparr>"

definition samplePolicy :: json where
  "samplePolicy = JObj [(''repositories'', JArr [JStr ''acme/app''])]"

definition defaultRows :: "sim_rule_row list" where
  "defaultRows = stackRows (WorkspaceScope ''w1'') sampleIds 0 1 ''a1'' ''c1''
     (compileConnectionStack exampleRegistry ''Grant'' ''google-calendar''
        (defaultConnectionGrant exampleRegistry ''google-calendar'') JNull)"

definition unlistedRead :: policy_request where
  "unlistedRead = sampleRequest\<lparr>req_host := ''www.googleapis.com'', req_path := ''/calendar/v3/unlisted''\<rparr>"

section \<open>Properties\<close>

text \<open>
  A grant decides as chosen.  The rows written for a grant of an agent on a connection, read back
  through the row decoder by the engine, decide a request exactly when it comes from that agent
  with that connection injected on a host of its provider; and then they decide what the user
  chose: an allowed tool is allowed, a tool set to ask needs approval, every other tool of the
  catalog is blocked, and a request no tool describes takes the choice for other reads (GET, HEAD)
  or other writes, by default approval, or a block for a catalog that blocks unlisted requests.\<close>

theorem grant_stack_decides:
  assumes "map_of cp c = Some provider" and "c \<noteq> []" and "decodeConditions conds = None"
  shows "map_option choiceOfRule (levelPick reg (map (engineRule sh cp) (createGrantRows base ids n p
      (stackCreates a c (compileConnectionStack reg nb provider grant conds)))) q) =
    (if req_agentId q = a \<and> req_winningConnectionId q = Some c \<and> providerHostMatches reg (req_host q) provider
     then Some (grantChoice reg provider grant q) else None)"
  by (rule grant_stack_choice [OF assms])

theorem grant_stack_decides_witness:
  "map_option choiceOfRule (levelPick exampleRegistry (map (engineRule noSecrets [(''c1'', ''resend'')])
      (createGrantRows (WorkspaceScope ''w1'') sampleIds 0 7 (stackCreates ''a1'' ''c1''
        (compileConnectionStack exampleRegistry ''Grant'' ''resend'' (CustomGrant sampleGrant) samplePolicy))))
      (sampleRequest\<lparr>req_method := ''POST''\<rparr>)) = Some UAsk"
proof -
  have "map_of [(''c1'', ''resend'')] ''c1'' = Some ''resend''" by simp
  note this [THEN grant_stack_decides, of samplePolicy exampleRegistry noSecrets "WorkspaceScope ''w1''"
      sampleIds 0 7 "''a1''" "''Grant''" "CustomGrant sampleGrant" "sampleRequest\<lparr>req_method := ''POST''\<rparr>"]
  moreover have "decodeConditions samplePolicy = None" by code_simp
  moreover have "providerHostMatches exampleRegistry (req_host (sampleRequest\<lparr>req_method := ''POST''\<rparr>)) ''resend''"
    by code_simp
  moreover have "grantChoice exampleRegistry ''resend'' (CustomGrant sampleGrant)
      (sampleRequest\<lparr>req_method := ''POST''\<rparr>) = UAsk" by code_simp
  ultimately show ?thesis by (simp add: sampleRequest_def)
qed

text \<open>
  C18: Grant round trip.  Reading the rows written for a grant back gives the grant: the same access,
  the same allowed and approval tools (sorted) and the same two catch-all choices, absent ones
  filled with the provider's default.  Only a custom grant without tools for a provider without a
  catalog is excluded.\<close>

theorem grant_round_trip:
  assumes "namesTools reg provider grant"
  shows "stackToGrant reg (stackRows base ids n p a c (compileConnectionStack reg nb provider grant conds)) provider =
    storedForm reg provider grant"
  by (rule stack_round_trip [OF assms])

theorem grant_round_trip_witness:
  "stackToGrant exampleRegistry (stackRows (WorkspaceScope ''w1'') sampleIds 0 7 ''a1'' ''c1''
      (compileConnectionStack exampleRegistry ''Grant'' ''resend'' (CustomGrant sampleGrant) samplePolicy)) ''resend'' =
   \<lparr>sg_full = False, sg_allow = [''list_emails''], sg_ask = [''send_email''],
    sg_otherReads = UAsk, sg_otherWrites = UNever\<rparr>"
proof -
  have "namesTools exampleRegistry ''resend'' (CustomGrant sampleGrant)" by code_simp
  moreover have "storedForm exampleRegistry ''resend'' (CustomGrant sampleGrant) =
      \<lparr>sg_full = False, sg_allow = [''list_emails''], sg_ask = [''send_email''],
       sg_otherReads = UAsk, sg_otherWrites = UNever\<rparr>" by code_simp
  ultimately show ?thesis using grant_round_trip by simp
qed

text \<open>
  A fresh connection changes nothing without a human.  For a provider with catalog tools, the grant
  written on attach lets a request through unasked only when a tool listed under reads and under
  no write group matches it, or when it is a GET or HEAD that no write tool matches and the catalog
  was marked safe for other reads; every other request on the connection needs approval, and
  none is blocked.\<close>

theorem default_grant_needs_approval:
  assumes "catalogToolIds reg provider \<noteq> []" and "map_of cp c = Some provider" and "c \<noteq> []"
    and "req_agentId q = a" and "req_winningConnectionId q = Some c" and "providerHostMatches reg (req_host q) provider"
  shows "map_option choiceOfRule (levelPick reg (map (engineRule sh cp) (createGrantRows base ids n p
      (stackCreates a c (compileConnectionStack reg nb provider (defaultConnectionGrant reg provider) JNull)))) q) =
    Some (if (\<exists>i. listedUnder reg provider Read i \<and> \<not> listedUnder reg provider Write i \<and> toolRequest reg provider q i) \<or>
             (isRead q \<and> defaultOtherReads (getAppPermissionDefinition reg provider) = UAllow \<and>
              \<not> (\<exists>i. listedUnder reg provider Write i \<and> toolRequest reg provider q i))
          then UAllow else UAsk)"
  using grant_stack_choice [OF assms(2,3) decodeConditions_JNull, of reg sh base ids n p a nb
      "defaultConnectionGrant reg provider" q] assms(4-6)
  unfolding default_grant_choice [OF assms(1)]
  by (auto simp: defaultOtherReads_def split: option.splits if_splits)

theorem default_grant_needs_approval_witness:
  "map_option choiceOfRule (levelPick exampleRegistry (map (engineRule noSecrets [(''c1'', ''resend'')])
      (createGrantRows (WorkspaceScope ''w1'') sampleIds 0 1 (stackCreates ''a1'' ''c1''
        (compileConnectionStack exampleRegistry ''Grant'' ''resend'' (defaultConnectionGrant exampleRegistry ''resend'') JNull))))
      (sampleRequest\<lparr>req_method := ''DELETE''\<rparr>)) \<noteq> Some UNever"
proof -
  have ok: "catalogToolIds exampleRegistry ''resend'' \<noteq> []" "map_of [(''c1'', ''resend'')] ''c1'' = Some ''resend''"
    "''c1'' \<noteq> []" "req_agentId (sampleRequest\<lparr>req_method := ''DELETE''\<rparr>) = ''a1''"
    "req_winningConnectionId (sampleRequest\<lparr>req_method := ''DELETE''\<rparr>) = Some ''c1''"
    "providerHostMatches exampleRegistry (req_host (sampleRequest\<lparr>req_method := ''DELETE''\<rparr>)) ''resend''"
    by code_simp+
  show ?thesis unfolding default_grant_needs_approval [OF ok] by simp
qed

text \<open>
  Saving an unchanged grant writes nothing.  When a client saves only the tools of a stored custom
  grant again, without naming the catch-all choices or the resources, the stack compiled from the
  request and from what the stored rows say compares equal to those rows: catch-alls, conditions,
  names and order included.\<close>

theorem unchanged_save_is_noop:
  assumes "cg_allow g \<noteq> [] \<or> cg_ask g \<noteq> []"
    and "existing = stackRows base ids n p a c (compileConnectionStack reg nb provider (CustomGrant g) conds)"
  shows "stackEquals existing (compileConnectionStack reg nb provider
    (withStoredUnlisted reg (CustomGrant (g\<lparr>cg_otherReads := None, cg_otherWrites := None\<rparr>)) existing provider)
    (stackConditions existing))"
  by (rule unchanged_save [OF assms])

theorem unchanged_save_is_noop_witness:
  "stackEquals (stackRows (WorkspaceScope ''w1'') sampleIds 0 7 ''a1'' ''c1''
      (compileConnectionStack exampleRegistry ''Grant'' ''resend'' (CustomGrant sampleGrant) samplePolicy))
    (compileConnectionStack exampleRegistry ''Grant'' ''resend''
      (withStoredUnlisted exampleRegistry (CustomGrant (sampleGrant\<lparr>cg_otherReads := None, cg_otherWrites := None\<rparr>))
        (stackRows (WorkspaceScope ''w1'') sampleIds 0 7 ''a1'' ''c1''
          (compileConnectionStack exampleRegistry ''Grant'' ''resend'' (CustomGrant sampleGrant) samplePolicy)) ''resend'')
      (stackConditions (stackRows (WorkspaceScope ''w1'') sampleIds 0 7 ''a1'' ''c1''
          (compileConnectionStack exampleRegistry ''Grant'' ''resend'' (CustomGrant sampleGrant) samplePolicy))))"
  by (rule unchanged_save_is_noop [OF _ refl]) (simp add: sampleGrant_def)

text \<open>
  The restriction reaches the injection.  The session policy that the injection side folds out of the
  rows of a stack, last match wins, is the resource restriction the grant was written with: no row
  of the stack drops it, and a grant without a restriction yields none.\<close>

theorem stack_carries_resource_restriction:
  assumes "grantsSomething grant"
  shows "workspaceResourceSelection (stackRows base ids n p a c (compileConnectionStack reg nb provider grant conds)) a ps c =
    (if isSessionPolicy conds then Some conds else None)"
  by (rule stack_selection [OF assms])

theorem stack_carries_resource_restriction_witness:
  "workspaceResourceSelection (stackRows (WorkspaceScope ''w1'') sampleIds 0 7 ''a1'' ''c1''
      (compileConnectionStack exampleRegistry ''Grant'' ''resend'' (CustomGrant sampleGrant) samplePolicy)) ''a1''
      \<lparr>ps_userIds = [], ps_groupIds = []\<rparr> ''c1'' = Some samplePolicy"
proof -
  have "grantsSomething (CustomGrant sampleGrant)" "isSessionPolicy samplePolicy" by code_simp+
  then show ?thesis using stack_carries_resource_restriction by simp
qed

text \<open>
  Never looser for an older reader.  A reader of the rows that ignores the method column, so that it
  takes the narrowed catch-all for a whole-app row, still decides every request of the
  connection, and at least as strictly as the user chose.\<close>

theorem older_reader_never_looser:
  assumes "map_of cp c = Some provider" and "c \<noteq> []" and "decodeConditions conds = None"
    and "req_agentId q = a" and "req_winningConnectionId q = Some c" and "providerHostMatches reg (req_host q) provider"
  shows "\<exists>rule. levelPick reg (map (engineRule sh cp) (createGrantRows base ids n p
      (stackCreates a c (withoutMethod (compileConnectionStack reg nb provider grant conds))))) q = Some rule \<and>
    strictness (grantChoice reg provider grant q) \<le> strictness (choiceOfRule rule)"
  by (rule legacy_choice [OF assms])

theorem older_reader_never_looser_witness:
  "\<exists>rule. levelPick exampleRegistry (map (engineRule noSecrets [(''c1'', ''resend'')]) (createGrantRows
      (WorkspaceScope ''w1'') sampleIds 0 1 (stackCreates ''a1'' ''c1''
      (withoutMethod (compileConnectionStack exampleRegistry ''Grant'' ''resend'' (CustomGrant sampleGrant) samplePolicy))))) sampleRequest = Some rule \<and>
    strictness (grantChoice exampleRegistry ''resend'' (CustomGrant sampleGrant) sampleRequest) \<le> strictness (choiceOfRule rule)"
proof (rule older_reader_never_looser)
  show "decodeConditions samplePolicy = None" by code_simp
  show "providerHostMatches exampleRegistry (req_host sampleRequest) ''resend''" by code_simp
qed (simp_all add: sampleRequest_def)

text \<open>
  Conditions compare up to the order of keys.  Two condition values that differ only in the order of
  object keys, at any depth, compare equal, so a value that comes back from the database with
  its keys reordered does not look changed.\<close>

theorem conditions_equal_up_to_key_order:
  assumes "same_json x y"
  shows "conditionsEqual (Some x) (Some y)"
  by (rule same_json_equal [OF assms])

theorem conditions_equal_up_to_key_order_witness:
  "conditionsEqual (Some (JObj [(''folders'', JArr [JStr ''f'']), (''drive'', JStr ''d'')]))
     (Some (JObj [(''drive'', JStr ''d''), (''folders'', JArr [JStr ''f''])]))"
  by (rule conditions_equal_up_to_key_order, rule same_obj) (auto intro: same_refl)

text \<open>
  A conflict warning about the product's own default.  The rows a fresh Google Calendar connection
  gets carry two catch-alls that differ in their method narrowing.  The overlap analysis ignores
  that narrowing and reports the second as in conflict with the first, so never taking effect; the engine picks it
  for a GET outside the tool list.\<close>

theorem conflict_warning_false_positive:
  "map (\<lambda>w. (ow_kind w, ow_logicalId w, ow_byName w)) (overlapsOf defaultRows) =
     [(Conflict, ''rule3'', ''Grant: all other writes'')] \<and>
   map_option rule_name (levelPick exampleRegistry (map (engineRule noSecrets [(''c1'', ''google-calendar'')])
     (candidates defaultRows)) unlistedRead) = Some ''Grant: all other reads'' \<and>
   map row_name (filter (\<lambda>r. row_logicalId r = ''rule3'') defaultRows) = [''Grant: all other reads'']"
  by (intro conjI; code_simp)

end
