(* ===== verification/PolicyStore.thy ===== *)
theory PolicyStore
  imports PolicyOverlap
begin

text \<open>
  The rule service (\<^verbatim>\<open>packages/api/src/services/policy-service.ts\<close>) over an explicit rule table:
  every write changes the draft of a scope and publishes it as a fresh generation in the same
  transaction, under the lock of the scope.  A transaction is one step on the store, an error
  leaves it as it was.

  \<^verbatim>\<open>gen n\<close> are the row id and the logical id the database generates for the n-th row created.
  Columns no decision reads (description, author, timestamps) are left out.  What the edition
  plugs in (the plan gate, the policy validator) is part of the environment.  A referenced row
  that is deleted between its check and the write (\<^verbatim>\<open>asReferenceError\<close>) does not occur in a
  step of the store.
\<close>

section \<open>Inputs, store and environment\<close>

datatype policy_target_input =
    TApp string "string list option" "string option"
  | TConnection string "string list option"
  | TSecret "string option" "string option"
  | TNetwork string "string option" "string option"

record create_input =
  ci_name :: string
  ci_enabled :: "bool option"
  ci_action :: string
  ci_rateLimit :: "int option"
  ci_rateLimitWindow :: "string option"
  ci_requireApproval :: "bool option"
  ci_conditions :: "json option"
  ci_identities :: "new_identity list option"
  ci_targets :: "policy_target_input list option"

text \<open>An update names the fields it changes; a nullable field can be changed to null.\<close>

record update_input =
  ui_name :: "string option"
  ui_enabled :: "bool option"
  ui_action :: "string option"
  ui_rateLimit :: "int option option"
  ui_rateLimitWindow :: "string option option"
  ui_requireApproval :: "bool option"
  ui_conditions :: "json option"
  ui_identities :: "new_identity list option"
  ui_targets :: "policy_target_input list option"

record policy_store =
  st_rules :: "sim_rule_row list"
  st_next :: nat

type_synonym id_supply = "nat \<Rightarrow> string \<times> string"

record agent_row =
  ag_id :: string
  ag_name :: string
  ag_workspaceId :: string

record policy_env =
  env_workspaceOrg :: "(string \<times> string) list"
  env_agents :: "agent_row list"
  env_directory :: directory
  env_connections :: "connection_row list"
  env_secrets :: "secret_row list"
  env_metadata :: "string \<Rightarrow> json"
  env_gate :: "policy_scope_base \<Rightarrow> string list \<Rightarrow> unit result"
  env_validateTargets :: "policy_target_input list \<Rightarrow> unit result"
  env_validatePolicy :: "string \<Rightarrow> string \<Rightarrow> json \<Rightarrow> json \<Rightarrow> unit result"

text \<open>Sequencing of calls that may throw.\<close>

definition and_then :: "'a result \<Rightarrow> ('a \<Rightarrow> 'b result) \<Rightarrow> 'b result" where
  "and_then r f = (case r of Inl e \<Rightarrow> Inl e | Inr x \<Rightarrow> f x)"

definition check_that :: "bool \<Rightarrow> service_error \<Rightarrow> unit result" where
  "check_that ok e = (if ok then Inr () else Inl e)"

section \<open>Scopes and columns\<close>

definition policyScope :: "string option \<Rightarrow> string option \<Rightarrow> policy_scope_base result" where
  "policyScope organizationId workspaceId =
     (if truthy organizationId then Inr (OrganizationScope (the organizationId))
      else if truthy workspaceId then Inr (WorkspaceScope (the workspaceId))
      else Inl BAD_REQUEST)"

definition scopeName :: "policy_scope_base \<Rightarrow> string" where
  "scopeName base = (case base of OrganizationScope _ \<Rightarrow> ''organization'' | WorkspaceScope _ \<Rightarrow> ''workspace'')"

definition scopeOrg :: "policy_scope_base \<Rightarrow> string option" where
  "scopeOrg base = (case base of OrganizationScope orgId \<Rightarrow> Some orgId | WorkspaceScope _ \<Rightarrow> None)"

definition scopeWorkspace :: "policy_scope_base \<Rightarrow> string option" where
  "scopeWorkspace base = (case base of OrganizationScope _ \<Rightarrow> None | WorkspaceScope wsId \<Rightarrow> Some wsId)"

definition identityCreate :: "new_identity \<Rightarrow> rule_identity_row" where
  "identityCreate i =
     (case i of
        AgentIdentity a \<Rightarrow> \<lparr>ri_agentId = Some a, ri_userId = None, ri_groupId = None\<rparr>
      | UserIdentity u \<Rightarrow> \<lparr>ri_agentId = None, ri_userId = Some u, ri_groupId = None\<rparr>
      | GroupIdentity g \<Rightarrow> \<lparr>ri_agentId = None, ri_userId = None, ri_groupId = Some g\<rparr>)"

definition emptyTarget :: "string \<Rightarrow> rule_target_row" where
  "emptyTarget kind =
     \<lparr>rt_kind = kind, rt_appProvider = None, rt_appTools = [], rt_appConnectionScope = None,
      rt_appConnectionId = None, rt_secretId = None, rt_secretScope = None, rt_hostPattern = None,
      rt_pathPattern = None, rt_method = None\<rparr>"

definition listOr :: "'a list option \<Rightarrow> 'a list" where
  "listOr xs = (case xs of None \<Rightarrow> [] | Some l \<Rightarrow> l)"

definition targetCreate :: "policy_target_input \<Rightarrow> rule_target_row" where
  "targetCreate t =
     (case t of
        TApp provider tools connectionScope \<Rightarrow>
          (emptyTarget ''app'')\<lparr>rt_appProvider := Some provider, rt_appTools := listOr tools,
            rt_appConnectionScope := connectionScope\<rparr>
      | TConnection connectionId tools \<Rightarrow>
          (emptyTarget ''connection'')\<lparr>rt_appConnectionId := Some connectionId, rt_appTools := listOr tools\<rparr>
      | TSecret secretId secretScope \<Rightarrow>
          (if secretId \<noteq> None then (emptyTarget ''secret'')\<lparr>rt_secretId := secretId\<rparr>
           else (emptyTarget ''secret'')\<lparr>rt_secretScope := secretScope\<rparr>)
      | TNetwork hostPattern pathPattern method \<Rightarrow>
          (emptyTarget ''network'')\<lparr>rt_hostPattern := Some hostPattern, rt_pathPattern := pathPattern,
            rt_method := method\<rparr>)"

text \<open>The copies a publish makes; \<^term>\<open>None\<close> is the error for a row that names no principal.\<close>

definition identityRowToCreate :: "rule_identity_row \<Rightarrow> rule_identity_row option" where
  "identityRowToCreate i =
     (if truthy (ri_agentId i) then Some \<lparr>ri_agentId = ri_agentId i, ri_userId = None, ri_groupId = None\<rparr>
      else if truthy (ri_userId i) then Some \<lparr>ri_agentId = None, ri_userId = ri_userId i, ri_groupId = None\<rparr>
      else if truthy (ri_groupId i) then Some \<lparr>ri_agentId = None, ri_userId = None, ri_groupId = ri_groupId i\<rparr>
      else None)"

definition targetRowToCreate :: "rule_target_row \<Rightarrow> rule_target_row" where
  "targetRowToCreate t =
     \<lparr>rt_kind = rt_kind t, rt_appProvider = rt_appProvider t, rt_appTools = rt_appTools t,
      rt_appConnectionScope = rt_appConnectionScope t,
      rt_appConnectionId = (if truthy (rt_appConnectionId t) then rt_appConnectionId t else None),
      rt_secretId = (if truthy (rt_secretId t) then rt_secretId t else None),
      rt_secretScope = rt_secretScope t, rt_hostPattern = rt_hostPattern t,
      rt_pathPattern = rt_pathPattern t, rt_method = rt_method t\<rparr>"

text \<open>The first entry of each key.\<close>

fun dedupeIdentities :: "new_identity list \<Rightarrow> new_identity list" where
  "dedupeIdentities [] = []"
| "dedupeIdentities (i # is) = i # filter (\<lambda>j. j \<noteq> i) (dedupeIdentities is)"

fun dedupeTargetsFrom :: "string list \<Rightarrow> string list \<Rightarrow> policy_target_input list \<Rightarrow> policy_target_input list" where
  "dedupeTargetsFrom seenConn seenSecret [] = []"
| "dedupeTargetsFrom seenConn seenSecret (t # ts) =
     (case t of
        TConnection connectionId tools \<Rightarrow>
          if connectionId \<in> set seenConn then dedupeTargetsFrom seenConn seenSecret ts
          else t # dedupeTargetsFrom (connectionId # seenConn) seenSecret ts
      | TSecret (Some secretId) secretScope \<Rightarrow>
          if secretId \<in> set seenSecret then dedupeTargetsFrom seenConn seenSecret ts
          else t # dedupeTargetsFrom seenConn (secretId # seenSecret) ts
      | _ \<Rightarrow> t # dedupeTargetsFrom seenConn seenSecret ts)"

definition dedupeTargets :: "policy_target_input list \<Rightarrow> policy_target_input list" where
  "dedupeTargets items = dedupeTargetsFrom [] [] items"

definition hasDirectoryIdentity :: "new_identity list option \<Rightarrow> bool" where
  "hasDirectoryIdentity identities =
     list_ex (\<lambda>i. case i of AgentIdentity _ \<Rightarrow> False | _ \<Rightarrow> True) (listOr identities)"

definition hasGroupIdentity :: "new_identity list option \<Rightarrow> bool" where
  "hasGroupIdentity identities =
     list_ex (\<lambda>i. case i of GroupIdentity _ \<Rightarrow> True | _ \<Rightarrow> False) (listOr identities)"

definition gatedActions :: "int option \<Rightarrow> bool \<Rightarrow> bool \<Rightarrow> bool \<Rightarrow> string list" where
  "gatedActions rateLimit requireApproval directoryIdentity groupIdentity =
     (if requireApproval then [''manual_approval''] else []) @
     (if rateLimit \<noteq> None then [''rate_limit''] else []) @
     (if directoryIdentity then [''identity_directory''] else []) @
     (if groupIdentity then [''identity_directory_group''] else [])"

definition jsonInput :: "json option \<Rightarrow> json" where
  "jsonInput value = (case value of None \<Rightarrow> JNull | Some v \<Rightarrow> v)"

section \<open>Validation\<close>

definition actingOrganization :: "policy_env \<Rightarrow> policy_scope_base \<Rightarrow> string option" where
  "actingOrganization env base =
     (case base of
        OrganizationScope orgId \<Rightarrow> Some orgId
      | WorkspaceScope wsId \<Rightarrow> map_of (env_workspaceOrg env) wsId)"

text \<open>A count over a table, against the ids asked for.\<close>

definition verifyCount :: "string list \<Rightarrow> nat \<Rightarrow> unit result" where
  "verifyCount ids n = check_that (length ids = 0 \<or> n = length ids) UNPROCESSABLE"

definition assertIdentitiesValid :: "policy_env \<Rightarrow> policy_scope_base \<Rightarrow> new_identity list \<Rightarrow> unit result" where
  "assertIdentitiesValid env base identities =
     (let deduped = dedupeIdentities identities;
          agentIds = List.map_filter (\<lambda>i. case i of AgentIdentity a \<Rightarrow> Some a | _ \<Rightarrow> None) deduped;
          userIds = List.map_filter (\<lambda>i. case i of UserIdentity u \<Rightarrow> Some u | _ \<Rightarrow> None) deduped;
          groupIds = List.map_filter (\<lambda>i. case i of GroupIdentity g \<Rightarrow> Some g | _ \<Rightarrow> None) deduped
      in if length deduped = 0 then Inr ()
         else if scopeName base = ''workspace'' \<and> (userIds \<noteq> [] \<or> groupIds \<noteq> []) then Inl UNPROCESSABLE
         else if scopeName base = ''organization'' \<and> agentIds \<noteq> [] then Inl UNPROCESSABLE
         else
           (if \<not> truthy (actingOrganization env base) then Inl BAD_REQUEST
            else
              (let organizationId = the (actingOrganization env base) in
               and_then (verifyCount agentIds (length (filter (\<lambda>a. ag_id a \<in> set agentIds \<and>
                   (case base of
                      WorkspaceScope wsId \<Rightarrow> ag_workspaceId a = wsId
                    | OrganizationScope _ \<Rightarrow> map_of (env_workspaceOrg env) (ag_workspaceId a) = Some organizationId))
                   (env_agents env)))) (\<lambda>_.
               and_then (verifyCount userIds (length (filter (\<lambda>m. om_userId m \<in> set userIds \<and>
                   om_organizationId m = organizationId \<and> om_status m \<noteq> ''suspended'')
                   (dir_members (env_directory env))))) (\<lambda>_.
               verifyCount groupIds (length (filter (\<lambda>g. gr_id g \<in> set groupIds \<and>
                   gr_organizationId g = organizationId) (dir_groups (env_directory env)))))))))"

definition connectionIdsOf :: "policy_target_input list \<Rightarrow> string list" where
  "connectionIdsOf targets =
     js_uniq (List.map_filter (\<lambda>t. case t of TConnection c _ \<Rightarrow> Some c | _ \<Rightarrow> None) targets)"

definition secretIdsOf :: "policy_target_input list \<Rightarrow> string list" where
  "secretIdsOf targets =
     js_uniq (List.map_filter (\<lambda>t. case t of TSecret s _ \<Rightarrow> s | _ \<Rightarrow> None) targets)"

definition ownedConnection :: "policy_scope_base \<Rightarrow> string \<Rightarrow> connection_row \<Rightarrow> bool" where
  "ownedConnection base organizationId c =
     (case base of
        WorkspaceScope wsId \<Rightarrow> con_workspaceId c = Some wsId
      | OrganizationScope _ \<Rightarrow> con_organizationId c = Some organizationId \<and> con_scope c = ''organization'')"

definition ownedSecret :: "policy_scope_base \<Rightarrow> string \<Rightarrow> secret_row \<Rightarrow> bool" where
  "ownedSecret base organizationId s =
     (case base of
        WorkspaceScope wsId \<Rightarrow> sec_workspaceId s = Some wsId
      | OrganizationScope _ \<Rightarrow> sec_organizationId s = Some organizationId \<and> sec_scope s = ''organization'')"

definition assertTargetsValid :: "policy_env \<Rightarrow> policy_scope_base \<Rightarrow> policy_target_input list \<Rightarrow> unit result" where
  "assertTargetsValid env base targets =
     (if list_ex (\<lambda>t. case t of TSecret s l \<Rightarrow> (s = None) = (l = None) | _ \<Rightarrow> False) targets
      then Inl UNPROCESSABLE
      else if scopeName base = ''workspace'' \<and>
        list_ex (\<lambda>t. case t of
            TApp _ _ l \<Rightarrow> l = Some ''organization''
          | TSecret _ l \<Rightarrow> l = Some ''organization''
          | _ \<Rightarrow> False) targets
      then Inl UNPROCESSABLE
      else
        (let connectionIds = connectionIdsOf targets; secretIds = secretIdsOf targets in
         if length connectionIds = 0 \<and> length secretIds = 0 then Inr ()
         else if \<not> truthy (actingOrganization env base) then Inl BAD_REQUEST
         else
           (let organizationId = the (actingOrganization env base) in
            and_then (verifyCount connectionIds (length (filter (\<lambda>c. con_id c \<in> set connectionIds \<and>
                ownedConnection base organizationId c) (env_connections env)))) (\<lambda>_.
            verifyCount secretIds (length (filter (\<lambda>s. sec_id s \<in> set secretIds \<and>
                ownedSecret base organizationId s) (env_secrets env)))))))"

fun validateEach :: "policy_env \<Rightarrow> string \<Rightarrow> json \<Rightarrow> connection_row list \<Rightarrow> unit result" where
  "validateEach env organizationId conditions [] = Inr ()"
| "validateEach env organizationId conditions (c # cs) =
     and_then (env_validatePolicy env organizationId (con_provider c) (env_metadata env (con_id c)) conditions)
       (\<lambda>_. validateEach env organizationId conditions cs)"

definition assertSessionPolicyValid ::
    "policy_env \<Rightarrow> policy_scope_base \<Rightarrow> policy_target_input list \<Rightarrow> json \<Rightarrow> string \<Rightarrow> unit result" where
  "assertSessionPolicyValid env base targets conditions action =
     (if \<not> isSessionPolicy conditions then Inr ()
      else if action \<noteq> ''allow'' then Inl UNPROCESSABLE
      else
        (let connectionIds = connectionIdsOf targets in
         if length connectionIds = 0 then Inl UNPROCESSABLE
         else if \<not> truthy (actingOrganization env base) then Inl BAD_REQUEST
         else
           (let organizationId = the (actingOrganization env base) in
            validateEach env organizationId conditions
              (filter (\<lambda>c. con_id c \<in> set connectionIds \<and> ownedConnection base organizationId c)
                (env_connections env)))))"

section \<open>Publishing\<close>

definition isDraft :: "policy_scope_base \<Rightarrow> sim_rule_row \<Rightarrow> bool" where
  "isDraft base r = (inScope base r \<and> row_status r = ''draft'')"

definition isPublished :: "policy_scope_base \<Rightarrow> sim_rule_row \<Rightarrow> bool" where
  "isPublished base r = (inScope base r \<and> row_status r = ''published'')"

definition byPriority :: "sim_rule_row list \<Rightarrow> sim_rule_row list" where
  "byPriority rows = sort_key row_priority (sort_key row_id rows)"

definition insertRow :: "id_supply \<Rightarrow> sim_rule_row \<Rightarrow> policy_store \<Rightarrow> sim_rule_row \<times> policy_store" where
  "insertRow gen row s =
     (let created = row\<lparr>row_id := fst (gen (st_next s))\<rparr>
      in (created, s\<lparr>st_rules := st_rules s @ [created], st_next := Suc (st_next s)\<rparr>))"

definition tailPriority :: "policy_scope_base \<Rightarrow> sim_rule_row list \<Rightarrow> int" where
  "tailPriority base table =
     (let tail = filter (\<lambda>r. isDraft base r \<and> \<not> row_isDefault r) table
      in if tail = [] then 0 else Max (set (map row_priority tail)))"

definition defaultAction :: "policy_scope_base \<Rightarrow> string" where
  "defaultAction base = ''allow''"

definition findDefault :: "policy_scope_base \<Rightarrow> string \<Rightarrow> policy_store \<Rightarrow> sim_rule_row option" where
  "findDefault base status s =
     (let where0 = (\<lambda>r. inScope base r \<and> row_status r = status \<and> row_isDefault r) in
      if status = ''published'' then
        (case maxGeneration (filter (isPublished base) (st_rules s)) of
           None \<Rightarrow> None
         | Some g \<Rightarrow> find (\<lambda>r. where0 r \<and> row_generation r = g) (st_rules s))
      else find where0 (st_rules s))"

definition defaultRow :: "policy_scope_base \<Rightarrow> string \<Rightarrow> sim_rule_row" where
  "defaultRow base logicalId =
     \<lparr>row_id = [], row_scope = scopeName base, row_organizationId = scopeOrg base,
      row_workspaceId = scopeWorkspace base, row_status = ''draft'', row_generation = 0,
      row_priority = 0, row_enabled = True, row_isDefault = True, row_logicalId = logicalId,
      row_source = ''default'', row_name = ''Default Rule'', row_action = defaultAction base,
      row_rateLimit = None, row_rateLimitWindow = None, row_requireApproval = False,
      row_conditions = JNull, row_identities = [], row_targets = []\<rparr>"

definition ensureDefault :: "policy_scope_base \<Rightarrow> id_supply \<Rightarrow> policy_store \<Rightarrow> sim_rule_row \<times> policy_store" where
  "ensureDefault base gen s =
     (case findDefault base ''draft'' s of
        Some existing \<Rightarrow> (existing, s)
      | None \<Rightarrow> insertRow gen (defaultRow base (snd (gen (st_next s)))) s)"

definition PUBLISHED_GENERATION_RETENTION :: int where
  "PUBLISHED_GENERATION_RETENTION = 10"

text \<open>The published copy of a draft row.\<close>

definition snapshotRow :: "policy_scope_base \<Rightarrow> int \<Rightarrow> string \<Rightarrow> sim_rule_row \<Rightarrow> sim_rule_row option" where
  "snapshotRow base generation i r =
     (case those (map identityRowToCreate (row_identities r)) of
        None \<Rightarrow> None
      | Some identities \<Rightarrow>
          Some \<lparr>row_id = i, row_scope = scopeName base, row_organizationId = scopeOrg base,
            row_workspaceId = scopeWorkspace base, row_status = ''published'',
            row_generation = generation, row_priority = row_priority r, row_enabled = row_enabled r,
            row_isDefault = row_isDefault r, row_logicalId = row_logicalId r, row_source = row_source r,
            row_name = row_name r, row_action = row_action r, row_rateLimit = row_rateLimit r,
            row_rateLimitWindow = row_rateLimitWindow r, row_requireApproval = row_requireApproval r,
            row_conditions = row_conditions r, row_identities = identities,
            row_targets = map targetRowToCreate (row_targets r)\<rparr>)"

fun snapshotRows ::
    "policy_scope_base \<Rightarrow> id_supply \<Rightarrow> int \<Rightarrow> nat \<Rightarrow> sim_rule_row list \<Rightarrow> sim_rule_row list option" where
  "snapshotRows base gen generation n [] = Some []"
| "snapshotRows base gen generation n (r # rs) =
     (case snapshotRow base generation (fst (gen n)) r of
        None \<Rightarrow> None
      | Some row \<Rightarrow> map_option (\<lambda>rows. row # rows) (snapshotRows base gen generation (Suc n) rs))"

definition nextGeneration :: "policy_scope_base \<Rightarrow> policy_store \<Rightarrow> int" where
  "nextGeneration base s =
     (case maxGeneration (filter (isPublished base) (st_rules s)) of None \<Rightarrow> 0 | Some g \<Rightarrow> g) + 1"

definition snapshotDraftRules ::
    "policy_scope_base \<Rightarrow> id_supply \<Rightarrow> sim_rule_row list \<Rightarrow> policy_store \<Rightarrow> ((int \<times> nat) \<times> policy_store) result" where
  "snapshotDraftRules base gen draftRules s =
     (let generation = nextGeneration base s in
      case snapshotRows base gen generation (st_next s) draftRules of
        None \<Rightarrow> Inl INTERNAL
      | Some created \<Rightarrow>
          (let rows = st_rules s @ created;
               kept = (if generation > PUBLISHED_GENERATION_RETENTION
                       then filter (\<lambda>r. \<not> (isPublished base r \<and>
                         row_generation r \<le> generation - PUBLISHED_GENERATION_RETENTION)) rows
                       else rows)
           in Inr ((generation, length draftRules),
                   s\<lparr>st_rules := kept, st_next := st_next s + length draftRules\<rparr>)))"

definition publishDraftInTx ::
    "policy_scope_base \<Rightarrow> id_supply \<Rightarrow> policy_store \<Rightarrow> ((int \<times> nat) \<times> policy_store) result" where
  "publishDraftInTx base gen s =
     (let s1 = snd (ensureDefault base gen s);
          draftRules = byPriority (filter (isDraft base) (st_rules s1))
      in snapshotDraftRules base gen draftRules s1)"

definition publishPolicy ::
    "policy_scope_base \<Rightarrow> id_supply \<Rightarrow> policy_store \<Rightarrow> ((int \<times> nat) \<times> policy_store) result" where
  "publishPolicy base gen s = publishDraftInTx base gen s"

section \<open>Reads\<close>

definition listPolicyRules :: "policy_scope_base \<Rightarrow> string \<Rightarrow> policy_store \<Rightarrow> overlap_rule list result" where
  "listPolicyRules base status s =
     (let where0 = (\<lambda>r. inScope base r \<and> row_status r = status \<and> \<not> row_isDefault r);
          rows = (if status = ''published'' then
              (case maxGeneration (filter (isPublished base) (st_rules s)) of
                 None \<Rightarrow> []
               | Some g \<Rightarrow> byPriority (filter (\<lambda>r. where0 r \<and> row_generation r = g) (st_rules s)))
            else byPriority (filter where0 (st_rules s)))
      in case those (map toRuleDto rows) of None \<Rightarrow> Inl INTERNAL | Some dtos \<Rightarrow> Inr dtos)"

definition findDraftRule :: "policy_scope_base \<Rightarrow> string \<Rightarrow> policy_store \<Rightarrow> sim_rule_row option" where
  "findDraftRule base i s = find (\<lambda>r. row_id r = i \<and> isDraft base r \<and> \<not> row_isDefault r) (st_rules s)"

definition dtoOf :: "sim_rule_row \<Rightarrow> overlap_rule result" where
  "dtoOf r = (case toRuleDto r of None \<Rightarrow> Inl INTERNAL | Some d \<Rightarrow> Inr d)"

definition getPolicyRule :: "policy_scope_base \<Rightarrow> string \<Rightarrow> policy_store \<Rightarrow> overlap_rule result" where
  "getPolicyRule base i s =
     (case findDraftRule base i s of None \<Rightarrow> Inl NOT_FOUND | Some rule \<Rightarrow> dtoOf rule)"

definition virtualDefault :: "policy_scope_base \<Rightarrow> overlap_rule" where
  "virtualDefault base =
     \<lparr>or_logicalId = [], or_isDefault = True, or_enabled = True, or_priority = 0,
      or_name = ''Default Rule'', or_action = defaultAction base, or_requireApproval = False,
      or_rateLimit = None, or_rateLimitWindow = None, or_identities = [], or_targets = [],
      or_conditions = JNull\<rparr>"

definition getPolicyDefault :: "policy_scope_base \<Rightarrow> string \<Rightarrow> policy_store \<Rightarrow> overlap_rule result" where
  "getPolicyDefault base status s =
     (case findDefault base status s of None \<Rightarrow> Inr (virtualDefault base) | Some r \<Rightarrow> dtoOf r)"

text \<open>The generation and size of the last publish.\<close>

definition getLastPublish :: "policy_scope_base \<Rightarrow> policy_store \<Rightarrow> (int \<times> nat) option" where
  "getLastPublish base s =
     (case maxGeneration (filter (isPublished base) (st_rules s)) of
        None \<Rightarrow> None
      | Some g \<Rightarrow> Some (g, length (filter (\<lambda>r. isPublished base r \<and> row_generation r = g) (st_rules s))))"

section \<open>Writes\<close>

text \<open>
  A change of the draft followed by the publish, in one transaction.  The response is rendered
  after it: \<^term>\<open>None\<close> there is an error the rule is already written behind.
\<close>

definition commitDraft ::
    "policy_scope_base \<Rightarrow> id_supply \<Rightarrow> 'a \<Rightarrow> policy_store \<Rightarrow> ('a \<times> policy_store) result" where
  "commitDraft base gen x s = and_then (publishDraftInTx base gen s) (\<lambda>(_, s'). Inr (x, s'))"

definition createRow :: "policy_scope_base \<Rightarrow> create_input \<Rightarrow> int \<Rightarrow> string \<Rightarrow> sim_rule_row" where
  "createRow base input priority logicalId =
     \<lparr>row_id = [], row_scope = scopeName base, row_organizationId = scopeOrg base,
      row_workspaceId = scopeWorkspace base, row_status = ''draft'', row_generation = 0,
      row_priority = priority, row_enabled = (case ci_enabled input of None \<Rightarrow> True | Some b \<Rightarrow> b),
      row_isDefault = False, row_logicalId = logicalId, row_source = ''custom'',
      row_name = ci_name input, row_action = ci_action input, row_rateLimit = ci_rateLimit input,
      row_rateLimitWindow = ci_rateLimitWindow input,
      row_requireApproval = (case ci_requireApproval input of None \<Rightarrow> False | Some b \<Rightarrow> b),
      row_conditions = jsonInput (ci_conditions input),
      row_identities = map identityCreate (dedupeIdentities (listOr (ci_identities input))),
      row_targets = map targetCreate (dedupeTargets (listOr (ci_targets input)))\<rparr>"

definition validateCreate :: "policy_env \<Rightarrow> policy_scope_base \<Rightarrow> create_input \<Rightarrow> unit result" where
  "validateCreate env base input =
     and_then (assertIdentitiesValid env base (listOr (ci_identities input))) (\<lambda>_.
     and_then (check_that (listOr (ci_targets input) \<noteq> []) UNPROCESSABLE) (\<lambda>_.
     and_then (assertTargetsValid env base (listOr (ci_targets input))) (\<lambda>_.
     and_then (env_validateTargets env (listOr (ci_targets input))) (\<lambda>_.
     and_then (assertSessionPolicyValid env base (listOr (ci_targets input))
                (jsonInput (ci_conditions input)) (ci_action input)) (\<lambda>_.
     env_gate env base (gatedActions (ci_rateLimit input) (ci_requireApproval input = Some True)
       (hasDirectoryIdentity (ci_identities input)) (hasGroupIdentity (ci_identities input))))))))"

definition createPolicyRule ::
    "policy_env \<Rightarrow> id_supply \<Rightarrow> policy_scope_base \<Rightarrow> create_input \<Rightarrow> policy_store \<Rightarrow> (overlap_rule option \<times> policy_store) result" where
  "createPolicyRule env gen base input s =
     and_then (validateCreate env base input) (\<lambda>_.
     (let (created, s1) = insertRow gen (createRow base input (tailPriority base (st_rules s) + 1)
            (snd (gen (st_next s)))) s
      in commitDraft base gen (toRuleDto created) s1))"

definition orKeep :: "'a option \<Rightarrow> 'a \<Rightarrow> 'a" where
  "orKeep x y = (case x of None \<Rightarrow> y | Some v \<Rightarrow> v)"

definition mergedTargets :: "update_input \<Rightarrow> sim_rule_row \<Rightarrow> policy_target_input list" where
  "mergedTargets input existing =
     (case ui_targets input of
        Some ts \<Rightarrow> ts
      | None \<Rightarrow> List.map_filter (\<lambda>t. if rt_kind t = ''connection''
          then map_option (\<lambda>c. TConnection c None) (rt_appConnectionId t) else None) (row_targets existing))"

definition validateUpdate :: "policy_env \<Rightarrow> policy_scope_base \<Rightarrow> update_input \<Rightarrow> sim_rule_row \<Rightarrow> unit result" where
  "validateUpdate env base input existing =
     (let nextAction = orKeep (ui_action input) (row_action existing);
          nextRateLimit = orKeep (ui_rateLimit input) (row_rateLimit existing);
          nextWindow = orKeep (ui_rateLimitWindow input) (row_rateLimitWindow existing);
          nextApproval = orKeep (ui_requireApproval input) (row_requireApproval existing)
      in and_then (check_that (\<not> (nextAction = ''block'' \<and>
             (nextRateLimit \<noteq> None \<or> nextWindow \<noteq> None \<or> nextApproval))) UNPROCESSABLE) (\<lambda>_.
         and_then (check_that ((nextRateLimit = None) = (nextWindow = None)) UNPROCESSABLE) (\<lambda>_.
         and_then (case ui_identities input of None \<Rightarrow> Inr () | Some is \<Rightarrow> assertIdentitiesValid env base is) (\<lambda>_.
         and_then (case ui_targets input of
             None \<Rightarrow> Inr ()
           | Some ts \<Rightarrow>
               and_then (check_that (length ts > 0) UNPROCESSABLE) (\<lambda>_.
               and_then (assertTargetsValid env base ts) (\<lambda>_. env_validateTargets env ts))) (\<lambda>_.
         and_then (if ui_conditions input \<noteq> None \<or> ui_targets input \<noteq> None \<or> ui_action input \<noteq> None
             then assertSessionPolicyValid env base (mergedTargets input existing)
                    (orKeep (ui_conditions input) (row_conditions existing))
                    (orKeep (ui_action input) (row_action existing))
             else Inr ()) (\<lambda>_.
         env_gate env base (gatedActions (orKeep (ui_rateLimit input) None) (ui_requireApproval input = Some True)
           (hasDirectoryIdentity (ui_identities input)) (hasGroupIdentity (ui_identities input)))))))))"

definition applyUpdate :: "update_input \<Rightarrow> sim_rule_row \<Rightarrow> sim_rule_row" where
  "applyUpdate input r =
     r\<lparr>row_name := orKeep (ui_name input) (row_name r),
       row_enabled := orKeep (ui_enabled input) (row_enabled r),
       row_action := orKeep (ui_action input) (row_action r),
       row_rateLimit := orKeep (ui_rateLimit input) (row_rateLimit r),
       row_rateLimitWindow := orKeep (ui_rateLimitWindow input) (row_rateLimitWindow r),
       row_requireApproval := orKeep (ui_requireApproval input) (row_requireApproval r),
       row_conditions := orKeep (ui_conditions input) (row_conditions r),
       row_identities := (case ui_identities input of
           None \<Rightarrow> row_identities r | Some is \<Rightarrow> map identityCreate (dedupeIdentities is)),
       row_targets := (case ui_targets input of
           None \<Rightarrow> row_targets r | Some ts \<Rightarrow> map targetCreate (dedupeTargets ts))\<rparr>"

text \<open>\<^verbatim>\<open>update\<close> by row id.\<close>

definition updateRow :: "string \<Rightarrow> (sim_rule_row \<Rightarrow> sim_rule_row) \<Rightarrow> policy_store \<Rightarrow> policy_store" where
  "updateRow i f s = s\<lparr>st_rules := map (\<lambda>r. if row_id r = i then f r else r) (st_rules s)\<rparr>"

definition updatePolicyRule ::
    "policy_env \<Rightarrow> id_supply \<Rightarrow> policy_scope_base \<Rightarrow> string \<Rightarrow> update_input \<Rightarrow> policy_store \<Rightarrow> (overlap_rule option \<times> policy_store) result" where
  "updatePolicyRule env gen base i input s =
     (case findDraftRule base i s of
        None \<Rightarrow> Inl NOT_FOUND
      | Some existing \<Rightarrow>
          and_then (validateUpdate env base input existing) (\<lambda>_.
          commitDraft base gen (toRuleDto (applyUpdate input existing)) (updateRow i (applyUpdate input) s)))"

definition deletePolicyRule ::
    "id_supply \<Rightarrow> policy_scope_base \<Rightarrow> string \<Rightarrow> policy_store \<Rightarrow> (unit \<times> policy_store) result" where
  "deletePolicyRule gen base i s =
     (let doomed = (\<lambda>r. row_id r = i \<and> isDraft base r \<and> \<not> row_isDefault r) in
      if filter doomed (st_rules s) = [] then Inl NOT_FOUND
      else commitDraft base gen () (s\<lparr>st_rules := filter (\<lambda>r. \<not> doomed r) (st_rules s)\<rparr>))"

fun assignPriorities :: "int \<Rightarrow> string list \<Rightarrow> policy_store \<Rightarrow> policy_store" where
  "assignPriorities p [] s = s"
| "assignPriorities p (i # is) s = assignPriorities (p + 1) is (updateRow i (\<lambda>r. r\<lparr>row_priority := p\<rparr>) s)"

definition reorderPolicyRules ::
    "id_supply \<Rightarrow> policy_scope_base \<Rightarrow> string list \<Rightarrow> policy_store \<Rightarrow> (overlap_rule list result \<times> policy_store) result" where
  "reorderPolicyRules gen base orderedIds s =
     (let draftIds = js_uniq (map row_id (filter (\<lambda>r. isDraft base r \<and> \<not> row_isDefault r) (st_rules s)));
          uniqueOrdered = js_uniq orderedIds;
          namesEveryRuleOnce = (length orderedIds = length draftIds \<and>
            length uniqueOrdered = length orderedIds \<and> list_all (\<lambda>i. i \<in> set draftIds) orderedIds)
      in if \<not> namesEveryRuleOnce then Inl CONFLICT
         else and_then (commitDraft base gen () (assignPriorities 1 orderedIds s)) (\<lambda>(_, s').
              Inr (listPolicyRules base ''draft'' s', s')))"

definition setPolicyDefaultAction ::
    "id_supply \<Rightarrow> policy_scope_base \<Rightarrow> string \<Rightarrow> policy_store \<Rightarrow> (overlap_rule option \<times> policy_store) result" where
  "setPolicyDefaultAction gen base action s =
     (let (def, s1) = ensureDefault base gen s in
      commitDraft base gen (toRuleDto (def\<lparr>row_action := action\<rparr>))
        (updateRow (row_id def) (\<lambda>r. r\<lparr>row_action := action\<rparr>) s1))"

section \<open>Deleting a principal\<close>

datatype deleted_principal = DeletedAgent string string | DeletedGroup string string | DeletedUser string

text \<open>\<^verbatim>\<open>some\<close> and \<^verbatim>\<open>every\<close> identity is the principal.\<close>

definition namesOnly :: "(rule_identity_row \<Rightarrow> bool) \<Rightarrow> sim_rule_row \<Rightarrow> bool" where
  "namesOnly is r = (list_ex is (row_identities r) \<and> list_all is (row_identities r))"

definition namesPrincipal :: "deleted_principal \<Rightarrow> rule_identity_row \<Rightarrow> bool" where
  "namesPrincipal who i =
     (case who of
        DeletedAgent a _ \<Rightarrow> ri_agentId i = Some a
      | DeletedGroup g _ \<Rightarrow> ri_groupId i = Some g
      | DeletedUser u \<Rightarrow> ri_userId i = Some u)"

definition droppedWith :: "deleted_principal \<Rightarrow> sim_rule_row \<Rightarrow> bool" where
  "droppedWith who r =
     (case who of
        DeletedAgent a workspaceId \<Rightarrow>
          inScope (WorkspaceScope workspaceId) r \<and>
          (namesOnly (namesPrincipal who) r \<or> row_source r = ''grant'' \<and> row_identities r = [])
      | DeletedGroup g organizationId \<Rightarrow>
          inScope (OrganizationScope organizationId) r \<and> namesOnly (namesPrincipal who) r
      | DeletedUser u \<Rightarrow>
          row_scope r = ''organization'' \<and> namesOnly (namesPrincipal who) r)"

definition dropPrincipalFromPolicyInTx ::
    "deleted_principal \<Rightarrow> policy_store \<Rightarrow> string list \<times> policy_store" where
  "dropPrincipalFromPolicyInTx who s =
     (let dropped = filter (droppedWith who) (st_rules s) in
      (case who of
         DeletedAgent _ _ \<Rightarrow> []
       | DeletedGroup _ organizationId \<Rightarrow> if length dropped > 0 then [organizationId] else []
       | DeletedUser _ \<Rightarrow> sort (js_uniq (concat (map (\<lambda>r. truthyOf (row_organizationId r)) dropped))),
       s\<lparr>st_rules := filter (\<lambda>r. \<not> droppedWith who r) (st_rules s)\<rparr>))"

text \<open>The foreign keys' cascade when the principal's own row goes.\<close>

definition cascadePrincipal :: "deleted_principal \<Rightarrow> policy_store \<Rightarrow> policy_store" where
  "cascadePrincipal who s =
     s\<lparr>st_rules := map (\<lambda>r. r\<lparr>row_identities :=
         filter (\<lambda>i. \<not> namesPrincipal who i) (row_identities r)\<rparr>) (st_rules s)\<rparr>"

section \<open>Seeding a scope\<close>

datatype backfill_target =
    BNetwork string "string option" "string option"
  | BApp string "string list" "string option"
  | BConnection string "string list"
  | BSecret string

record backfill_rule =
  bf_priority :: int
  bf_isDefault :: bool
  bf_source :: string
  bf_name :: string
  bf_action :: string
  bf_rateLimit :: "int option"
  bf_rateLimitWindow :: "string option"
  bf_requireApproval :: bool
  bf_conditions :: "json option"
  bf_identities :: "new_identity list"
  bf_targets :: "backfill_target list"
  bf_enabled :: "bool option"

definition backfillTargetCreate :: "backfill_target \<Rightarrow> rule_target_row" where
  "backfillTargetCreate t =
     (case t of
        BApp provider tools connectionScope \<Rightarrow>
          (emptyTarget ''app'')\<lparr>rt_appProvider := Some provider, rt_appTools := tools,
            rt_appConnectionScope := connectionScope\<rparr>
      | BNetwork hostPattern pathPattern method \<Rightarrow>
          (emptyTarget ''network'')\<lparr>rt_hostPattern := Some hostPattern, rt_pathPattern := pathPattern,
            rt_method := method\<rparr>
      | BConnection connectionId tools \<Rightarrow>
          (emptyTarget ''connection'')\<lparr>rt_appConnectionId := Some connectionId, rt_appTools := tools\<rparr>
      | BSecret secretId \<Rightarrow> (emptyTarget ''secret'')\<lparr>rt_secretId := Some secretId\<rparr>)"

definition backfillRow :: "policy_scope_base \<Rightarrow> backfill_rule \<Rightarrow> string \<Rightarrow> int \<Rightarrow> string \<Rightarrow> sim_rule_row" where
  "backfillRow base r status generation logicalId =
     \<lparr>row_id = [], row_scope = scopeName base, row_organizationId = scopeOrg base,
      row_workspaceId = scopeWorkspace base, row_status = status, row_generation = generation,
      row_priority = bf_priority r, row_enabled = (case bf_enabled r of None \<Rightarrow> True | Some b \<Rightarrow> b),
      row_isDefault = bf_isDefault r, row_logicalId = logicalId, row_source = bf_source r,
      row_name = bf_name r, row_action = bf_action r, row_rateLimit = bf_rateLimit r,
      row_rateLimitWindow = bf_rateLimitWindow r, row_requireApproval = bf_requireApproval r,
      row_conditions = jsonInput (bf_conditions r),
      row_identities = map identityCreate (bf_identities r),
      row_targets = map backfillTargetCreate (bf_targets r)\<rparr>"

definition backfillOne :: "policy_scope_base \<Rightarrow> id_supply \<Rightarrow> policy_store \<Rightarrow> backfill_rule \<Rightarrow> policy_store" where
  "backfillOne base gen s r =
     (let (draft, s1) = insertRow gen (backfillRow base r ''draft'' 0 (snd (gen (st_next s)))) s
      in snd (insertRow gen (backfillRow base r ''published'' 1 (row_logicalId draft)) s1))"

text \<open>The result is whether the scope was skipped, the generation and the number of rules.\<close>

definition backfillPublishScope ::
    "id_supply \<Rightarrow> policy_scope_base \<Rightarrow> backfill_rule list \<Rightarrow> policy_store \<Rightarrow> (bool \<times> int option \<times> nat) \<times> policy_store" where
  "backfillPublishScope gen base rules s =
     (if length (filter (isPublished base) (st_rules s)) > 0 then ((True, None, 0), s)
      else ((False, if length rules > 0 then Some 1 else None, length rules),
            foldl (backfillOne base gen) s rules))"

definition onpremWorkspaceDefaultRule :: backfill_rule where
  "onpremWorkspaceDefaultRule =
     \<lparr>bf_priority = 0, bf_isDefault = True, bf_source = ''default'', bf_name = ''Default Rule'',
      bf_action = ''allow'', bf_rateLimit = None, bf_rateLimitWindow = None, bf_requireApproval = False,
      bf_conditions = None, bf_identities = [], bf_targets = [], bf_enabled = None\<rparr>"

definition ALLOW_DEFAULT :: backfill_rule where
  "ALLOW_DEFAULT =
     \<lparr>bf_priority = 0, bf_isDefault = True, bf_source = ''default'', bf_name = ''Default Rule'',
      bf_action = ''allow'', bf_rateLimit = None, bf_rateLimitWindow = None, bf_requireApproval = False,
      bf_conditions = None, bf_identities = [], bf_targets = [], bf_enabled = None\<rparr>"

definition onpremNewWorkspacePolicySeeder :: "id_supply \<Rightarrow> string option \<Rightarrow> policy_store \<Rightarrow> policy_store" where
  "onpremNewWorkspacePolicySeeder gen workspaceId s =
     (if \<not> truthy workspaceId then s
      else snd (backfillPublishScope gen (WorkspaceScope (the workspaceId)) [onpremWorkspaceDefaultRule] s))"

definition eeNewOrgPolicySeeder :: "id_supply \<Rightarrow> string \<Rightarrow> policy_store \<Rightarrow> policy_store" where
  "eeNewOrgPolicySeeder gen organizationId s =
     snd (backfillPublishScope gen (OrganizationScope organizationId) [ALLOW_DEFAULT] s)"

end
