(* ===== verification/GrantsService.thy ===== *)
theory GrantsService
  imports GrantStack PolicyStore
begin

text \<open>
  The grant writers of \<^verbatim>\<open>packages/api/src/services/grants-service.ts\<close>: reading an agent's stack,
  replacing it and publishing, in one transaction.  The refresh of the agent's home and the
  restart of its sandbox come after the transaction and are not part of the store.
\<close>

section \<open>Definitions\<close>

record grant_scope =
  gs_organizationId :: string
  gs_workspaceId :: string

definition grantBase :: "grant_scope \<Rightarrow> policy_scope_base" where
  "grantBase scope = WorkspaceScope (gs_workspaceId scope)"

text \<open>The attach pool.\<close>

definition poolConnection :: "grant_scope \<Rightarrow> connection_row \<Rightarrow> bool" where
  "poolConnection scope c =
     (con_workspaceId c = Some (gs_workspaceId scope) \<or>
      con_organizationId c = Some (gs_organizationId scope) \<and> con_scope c = ''organization'')"

definition poolSecret :: "grant_scope \<Rightarrow> secret_row \<Rightarrow> bool" where
  "poolSecret scope s =
     (sec_workspaceId s = Some (gs_workspaceId scope) \<or>
      sec_organizationId s = Some (gs_organizationId scope) \<and> sec_scope s = ''organization'')"

definition requireAgent :: "policy_env \<Rightarrow> grant_scope \<Rightarrow> string \<Rightarrow> agent_row result" where
  "requireAgent env scope agentId =
     (case find (\<lambda>a. ag_id a = agentId \<and> ag_workspaceId a = gs_workspaceId scope) (env_agents env) of
        None \<Rightarrow> Inl NOT_FOUND | Some a \<Rightarrow> Inr a)"

definition requireConnection :: "policy_env \<Rightarrow> grant_scope \<Rightarrow> string \<Rightarrow> connection_row result" where
  "requireConnection env scope connectionId =
     (case find (\<lambda>c. con_id c = connectionId \<and> poolConnection scope c) (env_connections env) of
        None \<Rightarrow> Inl NOT_FOUND | Some c \<Rightarrow> Inr c)"

definition requireSecret :: "policy_env \<Rightarrow> grant_scope \<Rightarrow> string \<Rightarrow> secret_row result" where
  "requireSecret env scope secretId =
     (case find (\<lambda>s. sec_id s = secretId \<and> poolSecret scope s) (env_secrets env) of
        None \<Rightarrow> Inl NOT_FOUND | Some s \<Rightarrow> Inr s)"

text \<open>Which draft grant rows a stack is: by agent, connection or secret.\<close>

definition grantRowWhere ::
    "grant_scope \<Rightarrow> string option \<Rightarrow> string option \<Rightarrow> string option \<Rightarrow> sim_rule_row \<Rightarrow> bool" where
  "grantRowWhere scope agentId connectionId secretId r =
     (isDraft (grantBase scope) r \<and> row_source r = GRANT_SOURCE \<and>
      (truthy agentId \<longrightarrow> list_ex (\<lambda>i. ri_agentId i = agentId) (row_identities r)) \<and>
      (truthy connectionId \<longrightarrow> list_ex (\<lambda>t. rt_appConnectionId t = connectionId) (row_targets r)) \<and>
      (truthy secretId \<longrightarrow> list_ex (\<lambda>t. rt_secretId t = secretId) (row_targets r)))"

definition readGrantRows ::
    "grant_scope \<Rightarrow> string option \<Rightarrow> string option \<Rightarrow> string option \<Rightarrow> policy_store \<Rightarrow> sim_rule_row list" where
  "readGrantRows scope agentId connectionId secretId s =
     byPriority (filter (grantRowWhere scope agentId connectionId secretId) (st_rules s))"

definition grantResources :: "sim_rule_row list \<Rightarrow> json option" where
  "grantResources rows =
     (let conditions = stackConditions rows in if isSessionPolicy conditions then Some conditions else None)"

definition assertWithinOrgBoundary ::
    "policy_env \<Rightarrow> grant_scope \<Rightarrow> string \<Rightarrow> string \<Rightarrow> json \<Rightarrow> policy_store \<Rightarrow> unit result" where
  "assertWithinOrgBoundary env scope agentId connectionId resources s =
     (let orgRows = loadInjectionRules (st_rules s) (OrganizationScope (gs_organizationId scope)) ''published'';
          principals = resolvePrincipalSet (env_directory env) (gs_workspaceId scope) (gs_organizationId scope)
      in case orgResourceBoundary orgRows agentId principals connectionId of
           None \<Rightarrow> Inr ()
         | Some boundary \<Rightarrow> check_that (entriesOutside resources boundary = []) UNPROCESSABLE)"

definition grantName :: "string \<Rightarrow> string \<Rightarrow> string" where
  "grantName agentName resourceLabel = ''Grant: '' @ agentName @ '' '' @ utf8 183 @ '' '' @ resourceLabel"

definition appendGrantRules ::
    "policy_scope_base \<Rightarrow> id_supply \<Rightarrow> grant_create list \<Rightarrow> policy_store \<Rightarrow> policy_store" where
  "appendGrantRules base gen creates s =
     s\<lparr>st_rules := st_rules s @
         createGrantRows base gen (st_next s) (tailPriority base (st_rules s) + 1) creates,
       st_next := st_next s + length creates\<rparr>"

definition replaceAndPublish ::
    "grant_scope \<Rightarrow> id_supply \<Rightarrow> (sim_rule_row \<Rightarrow> bool) \<Rightarrow> grant_create list \<Rightarrow> policy_store \<Rightarrow>
     ((int \<times> nat) \<times> policy_store) result" where
  "replaceAndPublish scope gen deleteWhere creates s =
     publishDraftInTx (grantBase scope) gen
       (appendGrantRules (grantBase scope) gen creates
          (s\<lparr>st_rules := filter (\<lambda>r. \<not> deleteWhere r) (st_rules s)\<rparr>))"

text \<open>The connection's label, when it has one.\<close>

definition connectionLabel :: "(string \<Rightarrow> string option) \<Rightarrow> connection_row \<Rightarrow> string" where
  "connectionLabel labels c = (case labels (con_id c) of None \<Rightarrow> con_provider c | Some l \<Rightarrow> l)"

text \<open>
  A request: the product default, or a grant; its resources are absent (keep what is stored),
  null (clear) or a session policy.
\<close>

datatype grant_request = DefaultRequest | GrantRequest connection_grant

definition requestInput :: "registry \<Rightarrow> string \<Rightarrow> grant_request \<Rightarrow> connection_grant" where
  "requestInput reg provider request =
     (case request of DefaultRequest \<Rightarrow> defaultConnectionGrant reg provider | GrantRequest g \<Rightarrow> g)"

definition validateTools :: "registry \<Rightarrow> string \<Rightarrow> connection_grant \<Rightarrow> unit result" where
  "validateTools reg provider input =
     (case input of FullGrant \<Rightarrow> Inr () | CustomGrant g \<Rightarrow> assertToolIdsValid reg provider (cg_allow g @ cg_ask g))"

definition validateUnlisted :: "registry \<Rightarrow> string \<Rightarrow> connection_grant \<Rightarrow> unit result" where
  "validateUnlisted reg provider grant =
     (case grant of
        FullGrant \<Rightarrow> Inr ()
      | CustomGrant g \<Rightarrow> assertUnlistedChoicesValid reg provider [cg_otherReads g, cg_otherWrites g])"

definition resolveConditions ::
    "policy_env \<Rightarrow> grant_scope \<Rightarrow> string \<Rightarrow> connection_row \<Rightarrow> json option \<Rightarrow> sim_rule_row list \<Rightarrow> policy_store \<Rightarrow> json result" where
  "resolveConditions env scope agentId connection resources existing s =
     (case resources of
        None \<Rightarrow> Inr (stackConditions existing)
      | Some r \<Rightarrow>
          (case canonicalPolicy r of
             None \<Rightarrow> Inr JNull
           | Some policy \<Rightarrow>
               and_then (env_validatePolicy env (gs_organizationId scope) (con_provider connection)
                   (env_metadata env (con_id connection)) policy) (\<lambda>_.
               and_then (assertWithinOrgBoundary env scope agentId (con_id connection) policy s) (\<lambda>_.
               Inr policy))))"

definition gateApproval :: "policy_env \<Rightarrow> grant_scope \<Rightarrow> compiled_rule list \<Rightarrow> unit result" where
  "gateApproval env scope desired =
     (if list_ex cr_requireApproval desired
      then env_gate env (grantBase scope) (gatedActions None True False False) else Inr ())"

text \<open>The result is whether anything changed, the rule ids and the new generation.\<close>

record grant_mutation =
  gm_changed :: bool
  gm_generation :: "int option"

definition setConnectionGrant ::
    "registry \<Rightarrow> policy_env \<Rightarrow> (string \<Rightarrow> string option) \<Rightarrow> id_supply \<Rightarrow> grant_scope \<Rightarrow> string \<Rightarrow> string \<Rightarrow>
     grant_request \<Rightarrow> json option \<Rightarrow> policy_store \<Rightarrow> (grant_mutation \<times> policy_store) result" where
  "setConnectionGrant reg env labels gen scope agentId connectionId request resources s =
     and_then (requireAgent env scope agentId) (\<lambda>agent.
     and_then (requireConnection env scope connectionId) (\<lambda>connection.
     (let provider = con_provider connection;
          input = requestInput reg provider request in
      and_then (validateTools reg provider input) (\<lambda>_.
      (let nameBase = grantName (ag_name agent) (connectionLabel labels connection);
           existing = readGrantRows scope (Some agentId) (Some connectionId) None s;
           grant = withStoredUnlisted reg input existing provider in
       and_then (validateUnlisted reg provider grant) (\<lambda>_.
       and_then (resolveConditions env scope agentId connection resources existing s) (\<lambda>conditions.
       (let desired = compileConnectionStack reg nameBase provider grant conditions in
        and_then (gateApproval env scope desired) (\<lambda>_.
        if stackEquals existing desired then Inr (\<lparr>gm_changed = False, gm_generation = None\<rparr>, s)
        else and_then (replaceAndPublish scope gen (grantRowWhere scope (Some agentId) (Some connectionId) None)
               (stackCreates agentId connectionId desired) s) (\<lambda>((generation, _), s').
             Inr (\<lparr>gm_changed = True, gm_generation = Some generation\<rparr>, s')))))))))))"

definition removeConnectionGrant ::
    "policy_env \<Rightarrow> id_supply \<Rightarrow> grant_scope \<Rightarrow> string \<Rightarrow> string \<Rightarrow> policy_store \<Rightarrow> (grant_mutation \<times> policy_store) result" where
  "removeConnectionGrant env gen scope agentId connectionId s =
     and_then (requireAgent env scope agentId) (\<lambda>agent.
     if length (readGrantRows scope (Some (ag_id agent)) (Some connectionId) None s) = 0
     then Inr (\<lparr>gm_changed = False, gm_generation = None\<rparr>, s)
     else and_then (replaceAndPublish scope gen (grantRowWhere scope (Some agentId) (Some connectionId) None) [] s)
       (\<lambda>((generation, _), s'). Inr (\<lparr>gm_changed = True, gm_generation = Some generation\<rparr>, s')))"

definition secretCreates :: "string \<Rightarrow> string \<Rightarrow> compiled_rule list \<Rightarrow> grant_create list" where
  "secretCreates agentId secretId stack =
     map (\<lambda>r. \<lparr>gc_rule = r, gc_target = secretTarget secretId, gc_agentId = agentId\<rparr>) stack"

definition setSecretGrant ::
    "policy_env \<Rightarrow> (string \<Rightarrow> string) \<Rightarrow> id_supply \<Rightarrow> grant_scope \<Rightarrow> string \<Rightarrow> string \<Rightarrow> policy_store \<Rightarrow>
     (grant_mutation \<times> policy_store) result" where
  "setSecretGrant env secretNames gen scope agentId secretId s =
     and_then (requireAgent env scope agentId) (\<lambda>agent.
     and_then (requireSecret env scope secretId) (\<lambda>secret.
     (let desired = compileSecretGrant (grantName (ag_name agent) (secretNames (sec_id secret)));
          existing = readGrantRows scope (Some agentId) None (Some secretId) s in
      if stackEquals existing desired then Inr (\<lparr>gm_changed = False, gm_generation = None\<rparr>, s)
      else and_then (replaceAndPublish scope gen (grantRowWhere scope (Some agentId) None (Some secretId))
             (secretCreates agentId secretId desired) s) (\<lambda>((generation, _), s').
           Inr (\<lparr>gm_changed = True, gm_generation = Some generation\<rparr>, s')))))"

definition removeSecretGrant ::
    "policy_env \<Rightarrow> id_supply \<Rightarrow> grant_scope \<Rightarrow> string \<Rightarrow> string \<Rightarrow> policy_store \<Rightarrow> (grant_mutation \<times> policy_store) result" where
  "removeSecretGrant env gen scope agentId secretId s =
     and_then (requireAgent env scope agentId) (\<lambda>agent.
     if length (readGrantRows scope (Some (ag_id agent)) None (Some secretId) s) = 0
     then Inr (\<lparr>gm_changed = False, gm_generation = None\<rparr>, s)
     else and_then (replaceAndPublish scope gen (grantRowWhere scope (Some agentId) None (Some secretId)) [] s)
       (\<lambda>((generation, _), s'). Inr (\<lparr>gm_changed = True, gm_generation = Some generation\<rparr>, s')))"

definition attachDefaultConnectionGrant ::
    "registry \<Rightarrow> policy_env \<Rightarrow> (string \<Rightarrow> string option) \<Rightarrow> id_supply \<Rightarrow> grant_scope \<Rightarrow> string \<Rightarrow> string \<Rightarrow>
     policy_store \<Rightarrow> (bool \<times> policy_store) result" where
  "attachDefaultConnectionGrant reg env labels gen scope agentId connectionId s =
     and_then (requireAgent env scope agentId) (\<lambda>agent.
     and_then (requireConnection env scope connectionId) (\<lambda>connection.
     (let provider = con_provider connection;
          desired = compileConnectionStack reg (grantName (ag_name agent) (connectionLabel labels connection))
            provider (defaultConnectionGrant reg provider) JNull in
      and_then (gateApproval env scope desired) (\<lambda>_.
      if length (readGrantRows scope (Some agentId) (Some connectionId) None s) > 0 then Inr (False, s)
      else and_then (publishDraftInTx (grantBase scope) gen
             (appendGrantRules (grantBase scope) gen (stackCreates agentId connectionId desired) s))
           (\<lambda>(_, s'). Inr (True, s'))))))"

section \<open>Reading grants back\<close>

text \<open>The stack of each connection, in the order the connections are first met.\<close>

fun stacksByConnection :: "sim_rule_row list \<Rightarrow> (string \<times> sim_rule_row list) list \<Rightarrow> (string \<times> sim_rule_row list) list" where
  "stacksByConnection [] acc = acc"
| "stacksByConnection (row # rows) acc =
     (case row_targets row of
        [] \<Rightarrow> stacksByConnection rows acc
      | target # _ \<Rightarrow>
          if rt_kind target = ''connection'' \<and> truthy (rt_appConnectionId target) then
            (let c = the (rt_appConnectionId target);
                 stack = (case map_of acc c of None \<Rightarrow> [] | Some rs \<Rightarrow> rs)
             in stacksByConnection rows (AList.update c (stack @ [row]) acc))
          else stacksByConnection rows acc)"

record agent_grant_connection =
  ac_connectionId :: string
  ac_provider :: string
  ac_scope :: string
  ac_grant :: stored_grant
  ac_resources :: "json option"

definition getAgentGrants ::
    "registry \<Rightarrow> policy_env \<Rightarrow> grant_scope \<Rightarrow> string \<Rightarrow> policy_store \<Rightarrow> (agent_grant_connection list \<times> string list) result" where
  "getAgentGrants reg env scope agentId s =
     and_then (requireAgent env scope agentId) (\<lambda>agent.
     (let rows = readGrantRows scope (Some agentId) None None s;
          byConnection = stacksByConnection rows [];
          secretIds = List.map_filter (\<lambda>row. case row_targets row of
              [] \<Rightarrow> None
            | target # _ \<Rightarrow>
                if rt_kind target = ''connection'' \<and> truthy (rt_appConnectionId target) then None
                else if rt_kind target = ''secret'' \<and> truthy (rt_secretId target) then rt_secretId target
                else None) rows;
          connections = filter (\<lambda>c. con_id c \<in> set (map fst byConnection) \<and> poolConnection scope c) (env_connections env);
          secrets = filter (\<lambda>x. sec_id x \<in> set secretIds \<and> poolSecret scope x) (env_secrets env)
      in Inr (map (\<lambda>c. let stack = (case map_of byConnection (con_id c) of None \<Rightarrow> [] | Some rs \<Rightarrow> rs) in
                \<lparr>ac_connectionId = con_id c, ac_provider = con_provider c,
                 ac_scope = (if con_scope c = ''organization'' then ''organization'' else ''workspace''),
                 ac_grant = stackToGrant reg stack (con_provider c),
                 ac_resources = grantResources stack\<rparr>) connections,
              map sec_id secrets)))"

end
