(* ===== verification/Blocklist.thy ===== *)
theory Blocklist
  imports PolicyStore
begin

text \<open>
  The per-app host blocklist (\<^verbatim>\<open>packages/api/src/services/app-blocklist-service.ts\<close>): block rules
  written in lockstep into the draft of a scope and into its live generation, without publishing.
\<close>

section \<open>Definitions\<close>

record blocklist_host =
  bh_id :: string
  bh_name :: string
  bh_hostPattern :: string

record blocklist_host_state =
  bs_hostId :: string
  bs_ruleId :: "string option"
  bs_enabled :: bool
  bs_custom :: bool
  bs_name :: string
  bs_hostPattern :: string
  bs_scope :: "string option"

definition BLOCKLIST_SOURCE :: string where
  "BLOCKLIST_SOURCE = ''blocklist''"

definition ANY_PATH :: string where
  "ANY_PATH = ''/*''"

definition liveGeneration :: "policy_scope_base \<Rightarrow> policy_store \<Rightarrow> int option" where
  "liveGeneration base s = maxGeneration (filter (isPublished base) (st_rules s))"

text \<open>A set of rules: the draft, or one published generation.\<close>

definition inSet :: "policy_scope_base \<Rightarrow> string \<Rightarrow> int option \<Rightarrow> sim_rule_row \<Rightarrow> bool" where
  "inSet base status generation r =
     (inScope base r \<and> row_status r = status \<and>
      (case generation of None \<Rightarrow> True | Some g \<Rightarrow> row_generation r = g))"

definition insertPriority :: "policy_scope_base \<Rightarrow> string \<Rightarrow> int option \<Rightarrow> policy_store \<Rightarrow> int" where
  "insertPriority base status generation s =
     (let rules = byPriority (filter (\<lambda>r. inSet base status generation r \<and> \<not> row_isDefault r) (st_rules s)) in
      case find (\<lambda>r. row_action r \<noteq> ''block'') rules of
        Some firstLooser \<Rightarrow> row_priority firstLooser
      | None \<Rightarrow> (if rules = [] then 0 else row_priority (last rules)) + 1)"

definition shiftDown :: "policy_scope_base \<Rightarrow> string \<Rightarrow> int option \<Rightarrow> int \<Rightarrow> policy_store \<Rightarrow> policy_store" where
  "shiftDown base status generation priority s =
     s\<lparr>st_rules := map (\<lambda>r.
         if inSet base status generation r \<and> \<not> row_isDefault r \<and> row_priority r \<ge> priority
         then r\<lparr>row_priority := row_priority r + 1\<rparr> else r) (st_rules s)\<rparr>"

record block_rule =
  br_logicalId :: string
  br_name :: string
  br_hostPattern :: string

definition blockRow :: "policy_scope_base \<Rightarrow> string \<Rightarrow> int option \<Rightarrow> int \<Rightarrow> block_rule \<Rightarrow> sim_rule_row" where
  "blockRow base status generation priority rule =
     \<lparr>row_id = [], row_scope = scopeName base, row_organizationId = scopeOrg base,
      row_workspaceId = scopeWorkspace base, row_status = status,
      row_generation = (case generation of None \<Rightarrow> 0 | Some g \<Rightarrow> g), row_priority = priority,
      row_enabled = True, row_isDefault = False, row_logicalId = br_logicalId rule,
      row_source = BLOCKLIST_SOURCE, row_name = br_name rule, row_action = ''block'',
      row_rateLimit = None, row_rateLimitWindow = None, row_requireApproval = False,
      row_conditions = JNull, row_identities = [],
      row_targets = [(emptyTarget ''network'')\<lparr>rt_hostPattern := Some (br_hostPattern rule),
        rt_pathPattern := Some ANY_PATH\<rparr>]\<rparr>"

definition createBlockRule ::
    "id_supply \<Rightarrow> policy_scope_base \<Rightarrow> string \<Rightarrow> int option \<Rightarrow> block_rule \<Rightarrow> policy_store \<Rightarrow> policy_store" where
  "createBlockRule gen base status generation rule s =
     (let priority = insertPriority base status generation s in
      snd (insertRow gen (blockRow base status generation priority rule)
             (shiftDown base status generation priority s)))"

definition listDraftRules :: "policy_scope_base \<Rightarrow> policy_store \<Rightarrow> sim_rule_row list" where
  "listDraftRules base s = filter (\<lambda>r. isDraft base r \<and> row_source r = BLOCKLIST_SOURCE) (st_rules s)"

definition ownScope :: "string option \<Rightarrow> string option \<Rightarrow> policy_scope_base result" where
  "ownScope organizationId workspaceId =
     (if truthy workspaceId then Inr (WorkspaceScope (the workspaceId))
      else policyScope organizationId workspaceId)"

definition inheritedScope :: "string option \<Rightarrow> string option \<Rightarrow> policy_scope_base option" where
  "inheritedScope organizationId workspaceId =
     (if truthy workspaceId \<and> truthy organizationId
      then Some (OrganizationScope (the organizationId)) else None)"

definition hostPatternOf :: "sim_rule_row \<Rightarrow> string option" where
  "hostPatternOf rule = (case row_targets rule of [] \<Rightarrow> None | t # ts \<Rightarrow> rt_hostPattern t)"

text \<open>One missing host: the draft rule, then its live twin when the scope has published.\<close>

definition blockHost :: "id_supply \<Rightarrow> policy_scope_base \<Rightarrow> int option \<Rightarrow> policy_store \<Rightarrow> blocklist_host \<Rightarrow> policy_store" where
  "blockHost gen base generation s host =
     (let rule = \<lparr>br_logicalId = snd (gen (st_next s)), br_name = ''Block '' @ bh_name host,
                  br_hostPattern = bh_hostPattern host\<rparr>;
          s1 = createBlockRule gen base ''draft'' None rule s
      in case generation of
           None \<Rightarrow> s1
         | Some g \<Rightarrow> createBlockRule gen base ''published'' (Some g) rule s1)"

definition initBlocklistDefaults ::
    "id_supply \<Rightarrow> policy_scope_base \<Rightarrow> blocklist_host list \<Rightarrow> policy_store \<Rightarrow> policy_store" where
  "initBlocklistDefaults gen base hosts s =
     (if length hosts = 0 then s
      else
        (let covered = filter truthy (map hostPatternOf (listDraftRules base s));
             missing = filter (\<lambda>h. Some (bh_hostPattern h) \<notin> set covered) hosts
         in if length missing = 0 then s
            else foldl (blockHost gen base (liveGeneration base s)) s missing))"

text \<open>The last rule of a host wins, the inherited scope's after the own ones.\<close>

definition stateOf ::
    "policy_scope_base \<Rightarrow> policy_scope_base option \<Rightarrow> policy_store \<Rightarrow> string \<Rightarrow> (string \<times> bool \<times> string) option" where
  "stateOf base inherited s host =
     map_of (rev (List.map_filter (\<lambda>(from, r).
         if truthy (hostPatternOf r)
         then Some (the (hostPatternOf r), (row_id r, row_enabled r, scopeName from)) else None)
       (map (\<lambda>r. (base, r)) (listDraftRules base s) @
        (case inherited of None \<Rightarrow> [] | Some b \<Rightarrow> map (\<lambda>r. (b, r)) (listDraftRules b s))))) host"

definition getBlocklistState ::
    "policy_scope_base \<Rightarrow> policy_scope_base option \<Rightarrow> blocklist_host list \<Rightarrow> policy_store \<Rightarrow> blocklist_host_state list" where
  "getBlocklistState base inherited hosts s =
     map (\<lambda>host. let rule = stateOf base inherited s (bh_hostPattern host) in
        \<lparr>bs_hostId = bh_id host, bs_ruleId = map_option fst rule,
         bs_enabled = (case rule of None \<Rightarrow> False | Some r \<Rightarrow> fst (snd r)), bs_custom = False,
         bs_name = bh_name host, bs_hostPattern = bh_hostPattern host,
         bs_scope = map_option (\<lambda>r. snd (snd r)) rule\<rparr>) hosts"

definition requireDraftRule :: "policy_scope_base \<Rightarrow> string \<Rightarrow> policy_store \<Rightarrow> sim_rule_row result" where
  "requireDraftRule base ruleId s =
     (case find (\<lambda>r. row_id r = ruleId \<and> isDraft base r \<and> row_source r = BLOCKLIST_SOURCE) (st_rules s) of
        None \<Rightarrow> Inl NOT_FOUND | Some r \<Rightarrow> Inr r)"

text \<open>The draft and, when there is one, the live generation.\<close>

definition draftOrLive :: "policy_scope_base \<Rightarrow> int option \<Rightarrow> sim_rule_row \<Rightarrow> bool" where
  "draftOrLive base generation r =
     (inScope base r \<and>
      (case generation of
         None \<Rightarrow> row_status r = ''draft''
       | Some g \<Rightarrow> row_status r = ''draft'' \<or> row_status r = ''published'' \<and> row_generation r = g))"

definition toggleBlocklistRule ::
    "policy_scope_base \<Rightarrow> string \<Rightarrow> bool \<Rightarrow> policy_store \<Rightarrow> policy_store result" where
  "toggleBlocklistRule base ruleId enabled s =
     and_then (requireDraftRule base ruleId s) (\<lambda>rule.
       Inr (s\<lparr>st_rules := map (\<lambda>r.
           if draftOrLive base (liveGeneration base s) r \<and> row_logicalId r = row_logicalId rule
           then r\<lparr>row_enabled := enabled\<rparr> else r) (st_rules s)\<rparr>))"

definition activateBlocklistHost ::
    "id_supply \<Rightarrow> policy_scope_base \<Rightarrow> string \<Rightarrow> blocklist_host list \<Rightarrow> policy_store \<Rightarrow>
     (blocklist_host_state \<times> policy_store) result" where
  "activateBlocklistHost gen base hostId hosts s =
     (case find (\<lambda>h. bh_id h = hostId) hosts of
        None \<Rightarrow> Inl BAD_REQUEST
      | Some host \<Rightarrow>
          (let state = (\<lambda>ruleId. \<lparr>bs_hostId = hostId, bs_ruleId = ruleId, bs_enabled = True,
                 bs_custom = False, bs_name = bh_name host, bs_hostPattern = bh_hostPattern host,
                 bs_scope = Some (scopeName base)\<rparr>);
               ofHost = (\<lambda>s. find (\<lambda>r. hostPatternOf r = Some (bh_hostPattern host)) (listDraftRules base s))
           in case ofHost s of
                Some existing \<Rightarrow>
                  (if \<not> row_enabled existing
                   then and_then (toggleBlocklistRule base (row_id existing) True s)
                          (\<lambda>s'. Inr (state (Some (row_id existing)), s'))
                   else Inr (state (Some (row_id existing)), s))
              | None \<Rightarrow>
                  (let s' = initBlocklistDefaults gen base [host] s
                   in Inr (state (map_option row_id (ofHost s')), s'))))"

definition deleteByLogicalIds :: "policy_scope_base \<Rightarrow> string list \<Rightarrow> policy_store \<Rightarrow> policy_store" where
  "deleteByLogicalIds base logicalIds s =
     (if length logicalIds = 0 then s
      else s\<lparr>st_rules := filter (\<lambda>r. \<not> (draftOrLive base (liveGeneration base s) r \<and>
             row_source r = BLOCKLIST_SOURCE \<and> row_logicalId r \<in> set logicalIds)) (st_rules s)\<rparr>)"

definition removeBlocklistRule :: "policy_scope_base \<Rightarrow> string \<Rightarrow> policy_store \<Rightarrow> policy_store result" where
  "removeBlocklistRule base ruleId s =
     and_then (requireDraftRule base ruleId s) (\<lambda>rule.
       Inr (deleteByLogicalIds base [row_logicalId rule] s))"

definition removeAllBlocklistRules :: "policy_scope_base \<Rightarrow> blocklist_host list \<Rightarrow> policy_store \<Rightarrow> policy_store" where
  "removeAllBlocklistRules base hosts s =
     (if length hosts = 0 then s
      else
        (let patterns = map bh_hostPattern hosts;
             doomed = map row_logicalId (filter (\<lambda>r. case hostPatternOf r of
                 None \<Rightarrow> False | Some host \<Rightarrow> host \<in> set patterns) (listDraftRules base s))
         in deleteByLogicalIds base doomed s))"

end
