(* ===== verification/StoreInvariant.thy ===== *)
theory StoreInvariant
  imports GrantsService Blocklist "HOL-Library.Multiset"
begin

text \<open>
  The invariant of the rule table: unique row ids, well-shaped rows, and per scope a draft ordered
  without ties, a live generation that says what the draft says, and a bounded history.  The
  section on publishing shows that a publish always succeeds and re-establishes the invariant for
  its scope; the sections after it show that the writers of the rule service keep it.
\<close>

section \<open>Rows of a scope\<close>

text \<open>What a row says, apart from its own id, its scope's id, and the set it belongs to.\<close>

definition content :: "sim_rule_row \<Rightarrow> sim_rule_row" where
  "content r = r\<lparr>row_id := [], row_organizationId := None, row_workspaceId := None, row_status := [], row_generation := 0\<rparr>"

definition scopeRows :: "policy_scope_base \<Rightarrow> policy_store \<Rightarrow> sim_rule_row list" where
  "scopeRows b s = filter (inScope b) (st_rules s)"

definition drafts :: "sim_rule_row list \<Rightarrow> sim_rule_row list" where
  "drafts rows = filter (\<lambda>r. row_status r = ''draft'') rows"

definition published :: "sim_rule_row list \<Rightarrow> sim_rule_row list" where
  "published rows = filter (\<lambda>r. row_status r = ''published'') rows"

definition live :: "sim_rule_row list \<Rightarrow> sim_rule_row list" where
  "live rows = (case maxGeneration (published rows) of
      None \<Rightarrow> [] | Some g \<Rightarrow> filter (\<lambda>r. row_generation r = g) (published rows))"

lemma content_fields [simp]:
  "row_priority (content r) = row_priority r" "row_enabled (content r) = row_enabled r"
  "row_isDefault (content r) = row_isDefault r" "row_logicalId (content r) = row_logicalId r"
  "row_source (content r) = row_source r" "row_action (content r) = row_action r"
  "row_identities (content r) = row_identities r" "row_targets (content r) = row_targets r"
  "row_scope (content r) = row_scope r"
  by (simp_all add: content_def)

lemma engineRule_content: "engineRule sh cp r = engineRule sh cp (content r)"
  by (simp add: toSimRule_def content_def Let_def decodeIdentities_def)

lemma inScope_unique: "inScope b r \<Longrightarrow> inScope b' r \<Longrightarrow> b = b'"
  by (auto simp: inScope_def split: policy_scope_base.splits)

section \<open>The invariant\<close>

text \<open>Well-shaped identities and targets, as the database checks and the input schemas demand.\<close>

definition targetShape :: "rule_target_row \<Rightarrow> bool" where
  "targetShape t = (rt_appConnectionId t \<noteq> Some [] \<and> rt_secretId t \<noteq> Some [])"

definition rowShape :: "sim_rule_row \<Rightarrow> bool" where
  "rowShape r = (list_all onePrincipal (row_identities r) \<and> list_all targetShape (row_targets r) \<and>
     (row_isDefault r \<longrightarrow> row_identities r = [] \<and> row_source r = ''default''))"

definition idsOk :: "id_supply \<Rightarrow> policy_store \<Rightarrow> bool" where
  "idsOk gen s = (distinct (map row_id (st_rules s)) \<and>
     (\<forall>r \<in> set (st_rules s). \<exists>n < st_next s. row_id r = fst (gen n)))"

text \<open>A set of rules the engine orders without ties, with one Default Rule in front of none.\<close>

definition ordered :: "sim_rule_row list \<Rightarrow> bool" where
  "ordered rows = (distinct (map row_priority rows) \<and>
     (\<forall>r \<in> set rows. if row_isDefault r then row_priority r = 0 else 1 \<le> row_priority r))"

definition synced :: "sim_rule_row list \<Rightarrow> bool" where
  "synced rows = (published rows = [] \<or>
     mset (map content (live rows)) = mset (map content (drafts rows)) \<and>
     (\<exists>r \<in> set (live rows). row_isDefault r))"

definition retained :: "sim_rule_row list \<Rightarrow> bool" where
  "retained rows = (\<forall>r \<in> set (published rows). 1 \<le> row_generation r \<and>
     (\<forall>r' \<in> set (published rows). row_generation r' - PUBLISHED_GENERATION_RETENTION < row_generation r))"

definition scopeOk :: "sim_rule_row list \<Rightarrow> bool" where
  "scopeOk rows = (ordered (drafts rows) \<and> synced rows \<and> retained rows)"

definition storeOk :: "id_supply \<Rightarrow> policy_store \<Rightarrow> bool" where
  "storeOk gen s = (idsOk gen s \<and> (\<forall>r \<in> set (st_rules s). rowShape r) \<and> (\<forall>b. scopeOk (scopeRows b s)))"

section \<open>Publishing\<close>

lemma identityRowToCreate_id: "onePrincipal i \<Longrightarrow> identityRowToCreate i = Some i"
  by (cases i) (auto simp: onePrincipal_def identityRowToCreate_def truthy_def split: option.splits)

lemma targetRowToCreate_id: "targetShape t \<Longrightarrow> targetRowToCreate t = t"
  by (cases t) (auto simp: targetShape_def targetRowToCreate_def truthy_def split: option.splits)

lemma those_map_Some: "list_all onePrincipal is \<Longrightarrow> those (map identityRowToCreate is) = Some is"
  by (induction "is") (auto simp: identityRowToCreate_id)

lemma inScope_name: "inScope b r \<Longrightarrow> row_scope r = scopeName b"
  by (auto simp: inScope_def scopeName_def split: policy_scope_base.splits)

text \<open>The published copy of a row, and of a list of rows.\<close>

lemma snapshotRow_ok:
  assumes "rowShape r" and "inScope b r"
  obtains x where "snapshotRow b g i r = Some x" "content x = content r" "row_id x = i"
    "row_status x = ''published''" "row_generation x = g" "inScope b x" "rowShape x"
proof -
  have "those (map identityRowToCreate (row_identities r)) = Some (row_identities r)"
    using assms(1) by (simp add: rowShape_def those_map_Some)
  moreover have "map targetRowToCreate (row_targets r) = row_targets r"
    using assms(1) by (auto simp: rowShape_def list_all_iff targetRowToCreate_id intro!: map_idI)
  ultimately show thesis using assms that
    by (cases b) (fastforce simp: snapshotRow_def content_def inScope_def scopeName_def scopeOrg_def scopeWorkspace_def rowShape_def)+
qed

lemma snapshotRows_ok:
  assumes "\<forall>r \<in> set rs. rowShape r \<and> inScope b r"
  shows "\<exists>xs. snapshotRows b gen g n rs = Some xs \<and> map content xs = map content rs \<and>
    map row_id xs = map (\<lambda>k. fst (gen k)) [n..<n + length rs] \<and>
    (\<forall>x \<in> set xs. row_status x = ''published'' \<and> row_generation x = g \<and> inScope b x \<and> rowShape x)"
  using assms
proof (induction rs arbitrary: n)
  case (Cons r rs)
  from Cons(2) obtain x where x: "snapshotRow b g (fst (gen n)) r = Some x" "content x = content r"
    "row_id x = fst (gen n)" "row_status x = ''published''" "row_generation x = g" "inScope b x" "rowShape x"
    using snapshotRow_ok [of r b g "fst (gen n)"] by auto
  from Cons obtain xs where xs: "snapshotRows b gen g (Suc n) rs = Some xs" "map content xs = map content rs"
    "map row_id xs = map (\<lambda>k. fst (gen k)) [Suc n..<Suc n + length rs]"
    "\<forall>x \<in> set xs. row_status x = ''published'' \<and> row_generation x = g \<and> inScope b x \<and> rowShape x" by fastforce
  have "[n..<n + length (r # rs)] = n # [Suc n..<Suc n + length rs]" by (simp add: upt_rec)
  with x xs show ?case by auto
qed simp

lemma idsOk_extend:
  assumes "idsOk gen s" and "inj (\<lambda>k. fst (gen k))"
    and "map row_id xs = map (\<lambda>k. fst (gen k)) [st_next s..<st_next s + m]"
  shows "idsOk gen (s\<lparr>st_rules := st_rules s @ xs, st_next := st_next s + m\<rparr>)"
proof -
  have old: "\<exists>n < st_next s. i = fst (gen n)" if "i \<in> set (map row_id (st_rules s))" for i
    using assms(1) that by (auto simp: idsOk_def)
  have new: "set (map row_id xs) = (\<lambda>k. fst (gen k)) ` {st_next s..<st_next s + m}"
    unfolding assms(3) by simp
  have "distinct (map row_id xs)" unfolding assms(3) using assms(2) by (simp add: distinct_map inj_on_def)
  moreover have "set (map row_id (st_rules s)) \<inter> set (map row_id xs) = {}"
  proof (rule ccontr)
    assume "set (map row_id (st_rules s)) \<inter> set (map row_id xs) \<noteq> {}"
    then obtain i where i: "i \<in> set (map row_id (st_rules s))" "i \<in> (\<lambda>k. fst (gen k)) ` {st_next s..<st_next s + m}"
      using new by blast
    obtain n where n: "n < st_next s" "i = fst (gen n)" using old [OF i(1)] by blast
    obtain k where k: "k \<ge> st_next s" "i = fst (gen k)" using i(2) by auto
    show False using injD [OF assms(2), of n k] n k by simp
  qed
  moreover have "\<exists>n < st_next s + m. row_id r = fst (gen n)" if r: "r \<in> set (st_rules s @ xs)" for r
  proof (cases "r \<in> set (st_rules s)")
    case True
    then show ?thesis using old [of "row_id r"] by (auto intro: trans_less_add1)
  next
    case False
    then have "row_id r \<in> (\<lambda>k. fst (gen k)) ` {st_next s..<st_next s + m}" using r new by fastforce
    then show ?thesis by auto
  qed
  ultimately show ?thesis using assms(1) by (auto simp: idsOk_def)
qed

lemma idsOk_filter: "idsOk gen s \<Longrightarrow> idsOk gen (s\<lparr>st_rules := filter P (st_rules s)\<rparr>)"
  by (auto simp: idsOk_def distinct_map_filter)

lemma idsOk_map: "idsOk gen s \<Longrightarrow> (\<And>r. row_id (f r) = row_id r) \<Longrightarrow> idsOk gen (s\<lparr>st_rules := map f (st_rules s)\<rparr>)"
  by (auto simp: idsOk_def o_def)

lemma insertRow_ok:
  assumes "idsOk gen s" and "inj (\<lambda>k. fst (gen k))"
  shows "idsOk gen (snd (insertRow gen row s))"
    and "st_rules (snd (insertRow gen row s)) = st_rules s @ [row\<lparr>row_id := fst (gen (st_next s))\<rparr>]"
    and "st_next (snd (insertRow gen row s)) = Suc (st_next s)"
  using idsOk_extend [OF assms, of "[row\<lparr>row_id := fst (gen (st_next s))\<rparr>]" 1]
  by (simp_all add: insertRow_def Let_def)

lemma drafts_append [simp]: "drafts (xs @ ys) = drafts xs @ drafts ys" "drafts [] = []"
  by (simp_all add: drafts_def)

lemma published_append [simp]: "published (xs @ ys) = published xs @ published ys" "published [] = []"
  by (simp_all add: published_def)

lemma isDraft_scope: "filter (isDraft b) (st_rules s) = drafts (scopeRows b s)"
  by (auto simp: isDraft_def drafts_def scopeRows_def intro: filter_cong)

lemma isPublished_scope: "filter (isPublished b) (st_rules s) = published (scopeRows b s)"
  by (auto simp: isPublished_def published_def scopeRows_def intro: filter_cong)

lemma maxGeneration_append:
  assumes "ys \<noteq> []" and "\<forall>y \<in> set ys. row_generation y = g" and "\<forall>x \<in> set xs. row_generation x < g"
  shows "maxGeneration (xs @ ys) = Some g" and "filter (\<lambda>r. row_generation r = g) (xs @ ys) = ys"
proof -
  have "Max (set (map row_generation (xs @ ys))) = g"
    using assms by (intro Max_eqI) (auto simp: neq_Nil_conv intro: less_imp_le)
  then show "maxGeneration (xs @ ys) = Some g" using assms(1) by (simp add: maxGeneration_def)
  show "filter (\<lambda>r. row_generation r = g) (xs @ ys) = ys"
    using assms by (auto simp: filter_empty_conv intro!: filter_True)
qed

lemma generation_below_next: "r \<in> set (published (scopeRows b s)) \<Longrightarrow> row_generation r < nextGeneration b s"
  unfolding nextGeneration_def isPublished_scope maxGeneration_def
  by (auto simp: less_add_one intro!: zle_add1_eq_le [THEN iffD2] Max_ge split: option.splits)

lemma set_byPriority [simp]: "set (byPriority xs) = set xs" "length (byPriority xs) = length xs"
  by (simp_all add: byPriority_def)

lemma mset_byPriority [simp]: "mset (byPriority xs) = mset xs"
  by (simp add: byPriority_def)

text \<open>A store ready to publish a scope: everything but the scope's own synchrony holds.\<close>

definition readyFor :: "policy_scope_base \<Rightarrow> id_supply \<Rightarrow> policy_store \<Rightarrow> bool" where
  "readyFor b gen s = (idsOk gen s \<and> (\<forall>r \<in> set (st_rules s). rowShape r) \<and>
     (\<forall>b'. b' \<noteq> b \<longrightarrow> scopeOk (scopeRows b' s)) \<and> ordered (drafts (scopeRows b s)) \<and> retained (scopeRows b s))"

lemma findDefault_draft:
  "findDefault b ''draft'' s = find row_isDefault (drafts (scopeRows b s))"
proof -
  have "find P (filter Q xs) = find (\<lambda>x. Q x \<and> P x) xs" for P Q and xs :: "sim_rule_row list"
    by (induction xs) auto
  then show ?thesis by (auto simp: findDefault_def drafts_def scopeRows_def conj_assoc intro: arg_cong [of _ _ "\<lambda>P. find P _"])
qed

lemma scopeRows_insert:
  "scopeRows b' (snd (insertRow gen row s)) = scopeRows b' s @
     (if inScope b' row then [row\<lparr>row_id := fst (gen (st_next s))\<rparr>] else [])"
proof -
  have "inScope b' (row\<lparr>row_id := i\<rparr>) = inScope b' row" for i by (simp add: inScope_def split: policy_scope_base.split)
  then show ?thesis by (simp add: insertRow_def Let_def scopeRows_def)
qed

lemma defaultRow_facts [simp]:
  "inScope b' (defaultRow b l) \<longleftrightarrow> b' = b" "row_status (defaultRow b l) = ''draft''"
  "row_isDefault (defaultRow b l)" "row_priority (defaultRow b l) = 0" "rowShape (defaultRow b l)"
  "row_generation (defaultRow b l) = 0"
  by (auto simp: defaultRow_def inScope_def scopeName_def scopeOrg_def scopeWorkspace_def rowShape_def
      split: policy_scope_base.splits)

lemma rowShape_id [simp]: "rowShape (r\<lparr>row_id := i\<rparr>) = rowShape r"
  by (simp add: rowShape_def)

lemma retained_cong: "published xs = published ys \<Longrightarrow> retained xs = retained ys"
  by (simp add: retained_def)

lemma ensureDefault_ok:
  assumes "readyFor b gen s" and "inj (\<lambda>k. fst (gen k))"
  shows "readyFor b gen (snd (ensureDefault b gen s))"
    and "\<exists>r \<in> set (drafts (scopeRows b (snd (ensureDefault b gen s)))). row_isDefault r"
    and "filter (\<lambda>r. \<not> row_isDefault r) (drafts (scopeRows b (snd (ensureDefault b gen s)))) =
      filter (\<lambda>r. \<not> row_isDefault r) (drafts (scopeRows b s))"
    and "b' \<noteq> b \<Longrightarrow> scopeRows b' (snd (ensureDefault b gen s)) = scopeRows b' s"
    and "published (scopeRows b (snd (ensureDefault b gen s))) = published (scopeRows b s)"
    and "fst (ensureDefault b gen s) \<in> set (drafts (scopeRows b (snd (ensureDefault b gen s))))"
    and "row_isDefault (fst (ensureDefault b gen s))"
proof -
  have "readyFor b gen (snd (ensureDefault b gen s)) \<and>
    (\<exists>r \<in> set (drafts (scopeRows b (snd (ensureDefault b gen s)))). row_isDefault r) \<and>
    filter (\<lambda>r. \<not> row_isDefault r) (drafts (scopeRows b (snd (ensureDefault b gen s)))) =
      filter (\<lambda>r. \<not> row_isDefault r) (drafts (scopeRows b s)) \<and>
    (\<forall>b'. b' \<noteq> b \<longrightarrow> scopeRows b' (snd (ensureDefault b gen s)) = scopeRows b' s) \<and>
    published (scopeRows b (snd (ensureDefault b gen s))) = published (scopeRows b s) \<and>
    fst (ensureDefault b gen s) \<in> set (drafts (scopeRows b (snd (ensureDefault b gen s)))) \<and>
    row_isDefault (fst (ensureDefault b gen s))"
  proof (cases "find row_isDefault (drafts (scopeRows b s))")
    case (Some d)
    then have "ensureDefault b gen s = (d, s)" by (simp add: ensureDefault_def findDefault_draft)
    moreover have "d \<in> set (drafts (scopeRows b s))" "row_isDefault d" using Some by (auto simp: find_Some_iff)
    ultimately show ?thesis using assms(1) by auto
  next
    case None
    define row where "row = defaultRow b (snd (gen (st_next s)))"
    have e: "ensureDefault b gen s = insertRow gen row s"
      using None by (simp add: ensureDefault_def findDefault_draft row_def)
    have none: "\<forall>r \<in> set (drafts (scopeRows b s)). \<not> row_isDefault r" using None by (simp add: find_None_iff)
    have sr: "scopeRows b' (snd (insertRow gen row s)) = scopeRows b' s @
        (if b' = b then [row\<lparr>row_id := fst (gen (st_next s))\<rparr>] else [])" for b'
      by (simp add: scopeRows_insert row_def)
    have row: "drafts [row\<lparr>row_id := i\<rparr>] = [row\<lparr>row_id := i\<rparr>]" "published [row\<lparr>row_id := i\<rparr>] = []" for i
      by (simp_all add: drafts_def published_def row_def)
    have "\<forall>r \<in> set (drafts (scopeRows b s)). 1 \<le> row_priority r"
      using assms(1) none by (auto simp: readyFor_def ordered_def)
    moreover have d: "drafts (scopeRows b (snd (insertRow gen row s))) =
        drafts (scopeRows b s) @ [row\<lparr>row_id := fst (gen (st_next s))\<rparr>]" by (simp add: sr row)
    ultimately have "ordered (drafts (scopeRows b (snd (insertRow gen row s))))"
      using assms(1) none unfolding d ordered_def readyFor_def by (auto simp: row_def)
    moreover have pub: "published (scopeRows b (snd (insertRow gen row s))) = published (scopeRows b s)"
      by (simp add: sr row)
    moreover have "rowShape row" by (simp add: row_def)
    ultimately have "readyFor b gen (snd (insertRow gen row s))"
      using assms(1) insertRow_ok [OF _ assms(2), of s row] retained_cong [OF pub]
      by (auto simp: readyFor_def sr)
    moreover have "fst (insertRow gen row s) = row\<lparr>row_id := fst (gen (st_next s))\<rparr>" by (simp add: insertRow_def Let_def)
    ultimately show ?thesis unfolding e by (simp add: sr row) (simp add: row_def)
  qed
  then show "readyFor b gen (snd (ensureDefault b gen s))"
    and "\<exists>r \<in> set (drafts (scopeRows b (snd (ensureDefault b gen s)))). row_isDefault r"
    and "filter (\<lambda>r. \<not> row_isDefault r) (drafts (scopeRows b (snd (ensureDefault b gen s)))) =
      filter (\<lambda>r. \<not> row_isDefault r) (drafts (scopeRows b s))"
    and "b' \<noteq> b \<Longrightarrow> scopeRows b' (snd (ensureDefault b gen s)) = scopeRows b' s"
    and "published (scopeRows b (snd (ensureDefault b gen s))) = published (scopeRows b s)"
    and "fst (ensureDefault b gen s) \<in> set (drafts (scopeRows b (snd (ensureDefault b gen s))))"
    and "row_isDefault (fst (ensureDefault b gen s))" by blast+
qed

lemma idsOk_drop:
  "idsOk gen (s\<lparr>st_rules := rows @ xs, st_next := n\<rparr>) \<Longrightarrow> idsOk gen (s\<lparr>st_rules := filter P rows @ xs, st_next := n\<rparr>)"
  by (auto simp: idsOk_def distinct_map_filter)

lemma filter_scope_other:
  "b' \<noteq> b \<Longrightarrow> filter (inScope b') (filter (\<lambda>r. \<not> (isPublished b r \<and> Q r)) rows) = filter (inScope b') rows"
  using inScope_unique by (auto simp: isPublished_def intro: filter_cong)

lemma drafts_prune:
  "drafts (filter (inScope b) (filter (\<lambda>r. \<not> (isPublished b r \<and> Q r)) rows)) = drafts (filter (inScope b) rows)"
  by (auto simp: drafts_def isPublished_def intro: filter_cong)

lemma scopeRows_update [simp]:
  "scopeRows b (s\<lparr>st_rules := rows, st_next := n\<rparr>) = filter (inScope b) rows"
  "scopeRows b (s\<lparr>st_rules := rows\<rparr>) = filter (inScope b) rows"
  by (simp_all add: scopeRows_def)

lemma byPriority_Nil [simp]: "byPriority xs = [] \<longleftrightarrow> xs = []"
  by (metis set_byPriority(1) set_empty)

text \<open>The generations a publish keeps.\<close>

definition keptRows :: "policy_scope_base \<Rightarrow> int \<Rightarrow> sim_rule_row list \<Rightarrow> sim_rule_row list" where
  "keptRows b g rows = (if g > PUBLISHED_GENERATION_RETENTION
     then filter (\<lambda>r. \<not> (isPublished b r \<and> row_generation r \<le> g - PUBLISHED_GENERATION_RETENTION)) rows
     else rows)"

lemma keptRows_facts [simp]:
  "keptRows b g (xs @ ys) = keptRows b g xs @ keptRows b g ys"
  "drafts (filter (inScope b) (keptRows b g xs)) = drafts (filter (inScope b) xs)"
  "b' \<noteq> b \<Longrightarrow> filter (inScope b') (keptRows b g xs) = filter (inScope b') xs"
  by (simp_all add: keptRows_def drafts_prune filter_scope_other del: filter_filter de_Morgan_conj)

lemma keptRows_published:
  assumes "r \<in> set (published (filter (inScope b) (keptRows b g rows)))"
  shows "r \<in> set (published (filter (inScope b) rows))"
    and "1 \<le> row_generation r \<Longrightarrow> g - PUBLISHED_GENERATION_RETENTION < row_generation r"
  using assms by (auto simp: keptRows_def published_def isPublished_def split: if_splits)

text \<open>The fresh generation: copies of the ordered draft, appended to the rows that are kept.\<close>

definition freshGeneration ::
    "policy_scope_base \<Rightarrow> id_supply \<Rightarrow> policy_store \<Rightarrow> sim_rule_row list \<Rightarrow> policy_store \<Rightarrow> bool" where
  "freshGeneration b gen s xs s' =
     (let g = nextGeneration b s; D = drafts (scopeRows b s) in
      s' = s\<lparr>st_rules := keptRows b g (st_rules s) @ xs, st_next := st_next s + length D\<rparr> \<and>
      map content xs = map content (byPriority D) \<and>
      map row_id xs = map (\<lambda>k. fst (gen k)) [st_next s..<st_next s + length D] \<and>
      (\<forall>x \<in> set xs. row_status x = ''published'' \<and> row_generation x = g \<and> inScope b x \<and> rowShape x))"

lemma publish_fresh:
  assumes "readyFor b gen s" and "inj (\<lambda>k. fst (gen k))"
  shows "\<exists>k xs s'. publishDraftInTx b gen s = Inr ((nextGeneration b s, k), s') \<and>
    freshGeneration b gen (snd (ensureDefault b gen s)) xs s'"
proof -
  define s1 where "s1 = snd (ensureDefault b gen s)"
  note ed = ensureDefault_ok [OF assms, folded s1_def]
  define D where "D = drafts (scopeRows b s1)"
  have gs: "nextGeneration b s1 = nextGeneration b s" unfolding nextGeneration_def isPublished_scope ed(5) ..
  have "\<forall>r \<in> set (byPriority D). rowShape r \<and> inScope b r"
    using ed(1) by (auto simp: D_def readyFor_def drafts_def scopeRows_def)
  from snapshotRows_ok [OF this, of gen "nextGeneration b s" "st_next s1"]
  obtain xs where xs: "snapshotRows b gen (nextGeneration b s) (st_next s1) (byPriority D) = Some xs"
    "map content xs = map content (byPriority D)"
    "map row_id xs = map (\<lambda>k. fst (gen k)) [st_next s1..<st_next s1 + length D]"
    "\<forall>x \<in> set xs. row_status x = ''published'' \<and> row_generation x = nextGeneration b s \<and> inScope b x \<and> rowShape x"
    by auto
  then have new: "keptRows b (nextGeneration b s) xs = xs"
    by (auto simp: keptRows_def PUBLISHED_GENERATION_RETENTION_def intro!: filter_True)
  let ?s' = "s1\<lparr>st_rules := keptRows b (nextGeneration b s) (st_rules s1 @ xs), st_next := st_next s1 + length D\<rparr>"
  have "publishDraftInTx b gen s = Inr ((nextGeneration b s, length D), ?s')"
    unfolding publishDraftInTx_def Let_def s1_def [symmetric] isDraft_scope D_def [symmetric]
      snapshotDraftRules_def gs keptRows_def
    by (simp add: xs(1))
  moreover have "freshGeneration b gen s1 xs ?s'"
    using xs new by (simp add: freshGeneration_def Let_def gs D_def)
  ultimately show ?thesis unfolding s1_def by blast
qed

lemma fresh_scopes:
  assumes "freshGeneration b gen s xs s'"
  shows "b' \<noteq> b \<Longrightarrow> scopeRows b' s' = scopeRows b' s" and "drafts (scopeRows b s') = drafts (scopeRows b s)"
    and "published (scopeRows b s') = published (filter (inScope b) (keptRows b (nextGeneration b s) (st_rules s))) @ xs"
proof -
  have xs: "\<forall>x \<in> set xs. row_status x = ''published'' \<and> inScope b x"
    and s': "st_rules s' = keptRows b (nextGeneration b s) (st_rules s) @ xs"
    using assms by (auto simp: freshGeneration_def Let_def)
  then have "drafts xs = []" "published xs = xs" "filter (inScope b) xs = xs"
    by (auto simp: drafts_def published_def filter_empty_conv)
  then show "drafts (scopeRows b s') = drafts (scopeRows b s)"
    "published (scopeRows b s') = published (filter (inScope b) (keptRows b (nextGeneration b s) (st_rules s))) @ xs"
    by (simp_all add: scopeRows_def s')
  have "filter (inScope b') xs = []" if "b' \<noteq> b" using xs that inScope_unique by (fastforce simp: filter_empty_conv)
  then show "b' \<noteq> b \<Longrightarrow> scopeRows b' s' = scopeRows b' s" by (simp add: scopeRows_def s')
qed

lemma fresh_live:
  assumes "freshGeneration b gen s xs s'" and "drafts (scopeRows b s) \<noteq> []"
  shows "maxGeneration (published (scopeRows b s')) = Some (nextGeneration b s)" and "live (scopeRows b s') = xs"
proof -
  have xs: "\<forall>x \<in> set xs. row_generation x = nextGeneration b s" "map content xs = map content (byPriority (drafts (scopeRows b s)))"
    using assms(1) by (auto simp: freshGeneration_def Let_def)
  have "xs \<noteq> []" using xs(2) assms(2) by auto
  moreover have "\<forall>x \<in> set (published (filter (inScope b) (keptRows b (nextGeneration b s) (st_rules s)))).
      row_generation x < nextGeneration b s"
    using keptRows_published(1) generation_below_next by (fastforce simp: scopeRows_def)
  ultimately have "maxGeneration (published (scopeRows b s')) = Some (nextGeneration b s)"
    "filter (\<lambda>r. row_generation r = nextGeneration b s) (published (scopeRows b s')) = xs"
    unfolding fresh_scopes(3) [OF assms(1)] using maxGeneration_append xs(1) by auto
  then show "maxGeneration (published (scopeRows b s')) = Some (nextGeneration b s)" "live (scopeRows b s') = xs"
    by (simp_all add: live_def)
qed

lemma nextGeneration_pos:
  assumes "retained (scopeRows b s)"
  shows "1 \<le> nextGeneration b s"
proof (cases "published (scopeRows b s)")
  case (Cons r rs)
  then have "1 \<le> row_generation r" using assms by (simp add: retained_def)
  also have "row_generation r \<le> Max (set (map row_generation (published (scopeRows b s))))" using Cons by simp
  finally show ?thesis by (simp add: nextGeneration_def isPublished_scope maxGeneration_def)
qed (simp add: nextGeneration_def isPublished_scope maxGeneration_def)

lemma fresh_retained:
  assumes "freshGeneration b gen s xs s'" and "retained (scopeRows b s)"
  shows "retained (scopeRows b s')"
proof -
  let ?g = "nextGeneration b s"
  have "1 \<le> row_generation r \<and> row_generation r \<le> ?g \<and> ?g - PUBLISHED_GENERATION_RETENTION < row_generation r"
    if r: "r \<in> set (published (scopeRows b s'))" for r
  proof (cases "r \<in> set xs")
    case True
    then have "row_generation r = ?g" using assms(1) by (auto simp: freshGeneration_def Let_def)
    then show ?thesis using nextGeneration_pos [OF assms(2)] by (simp add: PUBLISHED_GENERATION_RETENTION_def)
  next
    case False
    then have r': "r \<in> set (published (filter (inScope b) (keptRows b ?g (st_rules s))))"
      using r unfolding fresh_scopes(3) [OF assms(1)] by simp
    then have p: "r \<in> set (published (scopeRows b s))" using keptRows_published(1) by (simp add: scopeRows_def)
    then have "1 \<le> row_generation r" using assms(2) by (simp add: retained_def)
    then show ?thesis using keptRows_published(2) [OF r'] generation_below_next [OF p] by simp
  qed
  note bounds = this
  show ?thesis unfolding retained_def
  proof (intro ballI conjI)
    fix r r' assume "r \<in> set (published (scopeRows b s'))" "r' \<in> set (published (scopeRows b s'))"
    from bounds [OF this(1)] bounds [OF this(2)]
    show "row_generation r' - PUBLISHED_GENERATION_RETENTION < row_generation r" by linarith
  qed (simp add: bounds)
qed

lemma fresh_synced:
  assumes "freshGeneration b gen s xs s'" and "\<exists>d \<in> set (drafts (scopeRows b s)). row_isDefault d"
  shows "synced (scopeRows b s')"
proof -
  have eq: "map content xs = map content (byPriority (drafts (scopeRows b s)))"
    using assms(1) by (simp add: freshGeneration_def Let_def)
  obtain d where d: "d \<in> set (byPriority (drafts (scopeRows b s)))" "row_isDefault d" using assms(2) by auto
  then have "content d \<in> content ` set xs" using eq by (metis imageI list.set_map)
  then obtain x where "x \<in> set xs" "content x = content d" by fastforce
  then have "\<exists>r \<in> set xs. row_isDefault r" using d(2) by (metis content_fields(3))
  moreover have "mset (map content xs) = mset (map content (drafts (scopeRows b s)))"
    unfolding eq by (simp add: mset_map)
  moreover have "live (scopeRows b s') = xs" using fresh_live(2) [OF assms(1)] d(1) by fastforce
  ultimately show ?thesis using fresh_scopes(2) [OF assms(1)] by (simp add: synced_def)
qed

lemma publish_ok:
  assumes ready: "readyFor b gen s" and inj: "inj (\<lambda>k. fst (gen k))"
  shows "\<exists>g k s'. publishDraftInTx b gen s = Inr ((g, k), s') \<and> storeOk gen s' \<and>
    liveGeneration b s' = Some g \<and> g = nextGeneration b s \<and>
    drafts (scopeRows b s') = drafts (scopeRows b (snd (ensureDefault b gen s))) \<and>
    (\<forall>b'. b' \<noteq> b \<longrightarrow> scopeRows b' s' = scopeRows b' s)"
proof -
  define s1 where "s1 = snd (ensureDefault b gen s)"
  note ed = ensureDefault_ok [OF ready inj, folded s1_def]
  obtain k xs s' where p: "publishDraftInTx b gen s = Inr ((nextGeneration b s, k), s')" and f: "freshGeneration b gen s1 xs s'"
    using publish_fresh [OF assms] by (auto simp: s1_def)
  have ne: "drafts (scopeRows b s1) \<noteq> []" using ed(2) by auto
  have gs: "nextGeneration b s1 = nextGeneration b s" unfolding nextGeneration_def isPublished_scope ed(5) ..
  have "scopeOk (scopeRows b s')"
    using fresh_synced [OF f ed(2)] fresh_retained [OF f] fresh_scopes(2) [OF f] ed(1) by (simp add: scopeOk_def readyFor_def)
  moreover have "scopeOk (scopeRows b' s')" if "b' \<noteq> b" for b'
    using fresh_scopes(1) [OF f that] ed(4) [OF that] ready that by (simp add: readyFor_def)
  ultimately have scopes: "\<forall>b'. scopeOk (scopeRows b' s')" by metis
  have "idsOk gen (s1\<lparr>st_rules := st_rules s1 @ xs, st_next := st_next s1 + length (drafts (scopeRows b s1))\<rparr>)"
    using ed(1) inj f by (intro idsOk_extend) (simp_all add: readyFor_def freshGeneration_def Let_def)
  from this idsOk_drop [OF this] have "idsOk gen s'" using f
    by (auto simp: freshGeneration_def Let_def keptRows_def)
  moreover have "\<forall>r \<in> set (st_rules s'). rowShape r"
    using ed(1) f by (auto simp: freshGeneration_def Let_def keptRows_def readyFor_def split: if_splits)
  ultimately have "storeOk gen s'" using scopes by (simp add: storeOk_def)
  moreover have "liveGeneration b s' = Some (nextGeneration b s)"
    using fresh_live(1) [OF f ne] by (simp add: liveGeneration_def isPublished_scope gs)
  ultimately show ?thesis using p fresh_scopes [OF f] ed(4) by (auto simp: s1_def)
qed

section \<open>Changing a draft\<close>

lemma storeOk_readyFor: "storeOk gen s \<Longrightarrow> readyFor b gen s"
  by (simp add: storeOk_def readyFor_def scopeOk_def)

lemma in_drafts: "r \<in> set (drafts (scopeRows b s)) \<longleftrightarrow> r \<in> set (st_rules s) \<and> isDraft b r"
  by (auto simp: drafts_def scopeRows_def isDraft_def)

text \<open>Rows outside the draft of a scope stay as they are, whatever happens to the draft.\<close>

lemma scope_filter:
  assumes "\<forall>r \<in> set (st_rules s). \<not> isDraft b r \<longrightarrow> P r"
  shows "b' \<noteq> b \<Longrightarrow> filter (inScope b') (filter P (st_rules s)) = scopeRows b' s"
    and "drafts (filter (inScope b) (filter P (st_rules s))) = filter P (drafts (scopeRows b s))"
    and "published (filter (inScope b) (filter P (st_rules s))) = published (scopeRows b s)"
  using assms inScope_unique
  by (auto simp: scopeRows_def drafts_def published_def isDraft_def conj_commute intro!: filter_cong)

lemma ready_filter:
  assumes "readyFor b gen s" and "\<forall>r \<in> set (st_rules s). \<not> isDraft b r \<longrightarrow> P r"
  shows "readyFor b gen (s\<lparr>st_rules := filter P (st_rules s)\<rparr>)"
  using assms(1) scope_filter [OF assms(2)] idsOk_filter [of gen s P]
    retained_cong [OF scope_filter(3) [OF assms(2)]]
  by (auto simp: readyFor_def ordered_def distinct_map_filter)

lemma filter_map_keep:
  assumes "\<forall>r \<in> set xs. Q (f r) = Q r"
  shows "filter Q (map f xs) = map f (filter Q xs)"
  using assms by (induction xs) auto

lemma scope_map:
  assumes "\<forall>r \<in> set (st_rules s). if isDraft b r then isDraft b (f r) else f r = r"
  shows "b' \<noteq> b \<Longrightarrow> filter (inScope b') (map f (st_rules s)) = scopeRows b' s"
    and "drafts (filter (inScope b) (map f (st_rules s))) = map f (drafts (scopeRows b s))"
    and "published (filter (inScope b) (map f (st_rules s))) = published (scopeRows b s)"
proof -
  have keep: "inScope b'' (f r) = inScope b'' r" if "r \<in> set (st_rules s)" for b'' r
    using assms that inScope_unique by (fastforce simp: isDraft_def split: if_splits)
  have same: "f r = r" if "r \<in> set (st_rules s)" "\<not> isDraft b r" for r using assms that by auto
  have st: "row_status (f r) = row_status r" if "r \<in> set (st_rules s)" for r
    using assms that by (cases "isDraft b r") (auto simp: isDraft_def)
  have sc: "filter (inScope b'') (map f (st_rules s)) = map f (scopeRows b'' s)" for b''
    unfolding scopeRows_def using keep by (intro filter_map_keep) blast
  show "filter (inScope b') (map f (st_rules s)) = scopeRows b' s" if "b' \<noteq> b"
    unfolding sc using that same inScope_unique
    by (intro map_idI) (auto simp: scopeRows_def isDraft_def)
  show "drafts (filter (inScope b) (map f (st_rules s))) = map f (drafts (scopeRows b s))"
    unfolding sc drafts_def using st by (intro filter_map_keep) (auto simp: scopeRows_def)
  have "published (filter (inScope b) (map f (st_rules s))) = map f (published (scopeRows b s))"
    unfolding sc published_def using st by (intro filter_map_keep) (auto simp: scopeRows_def)
  also have "\<dots> = published (scopeRows b s)"
    using same by (intro map_idI) (auto simp: published_def scopeRows_def isDraft_def)
  finally show "published (filter (inScope b) (map f (st_rules s))) = published (scopeRows b s)" .
qed

lemma ready_map:
  assumes "readyFor b gen s"
    and "\<forall>r \<in> set (st_rules s). if isDraft b r then isDraft b (f r) else f r = r"
    and "\<And>r. row_id (f r) = row_id r" and "\<forall>r \<in> set (st_rules s). rowShape (f r)"
    and "ordered (map f (drafts (scopeRows b s)))"
  shows "readyFor b gen (s\<lparr>st_rules := map f (st_rules s)\<rparr>)"
  using assms(1,4,5) scope_map [OF assms(2)] idsOk_map [of gen s f, OF _ assms(3)]
    retained_cong [OF scope_map(3) [OF assms(2)]]
  by (auto simp: readyFor_def)

lemma ordered_map:
  assumes "\<forall>r \<in> set xs. row_priority (f r) = row_priority r \<and> row_isDefault (f r) = row_isDefault r"
  shows "ordered (map f xs) = ordered xs"
proof -
  have "map row_priority (map f xs) = map row_priority xs" using assms by simp
  moreover have "(\<forall>r \<in> set (map f xs). if row_isDefault r then row_priority r = 0 else 1 \<le> row_priority r) =
      (\<forall>r \<in> set xs. if row_isDefault r then row_priority r = 0 else 1 \<le> row_priority r)"
    using assms by auto
  ultimately show ?thesis unfolding ordered_def by argo
qed

text \<open>One row of the draft changed in place.\<close>

lemma ready_updateRow:
  assumes "readyFor b gen s" and "e \<in> set (drafts (scopeRows b s))"
    and "isDraft b (h e)" and "rowShape (h e)" and "row_priority (h e) = row_priority e"
    and "row_isDefault (h e) = row_isDefault e" and "\<And>r. row_id (h r) = row_id r"
  shows "readyFor b gen (updateRow (row_id e) h s)"
proof -
  have ids: "distinct (map row_id (st_rules s))" using assms(1) by (simp add: readyFor_def idsOk_def)
  have e: "e \<in> set (st_rules s)" "isDraft b e" using assms(2) by (simp_all add: in_drafts)
  have uniq: "r = e" if "r \<in> set (st_rules s)" "row_id r = row_id e" for r
    using ids that e(1) by (simp add: distinct_map inj_on_def)
  let ?f = "\<lambda>r. if row_id r = row_id e then h r else r"
  have "\<forall>r \<in> set (drafts (scopeRows b s)). row_priority (?f r) = row_priority r \<and> row_isDefault (?f r) = row_isDefault r"
    using uniq assms(5,6) by (metis in_drafts)
  then have "ordered (map ?f (drafts (scopeRows b s)))"
    using assms(1) ordered_map [of "drafts (scopeRows b s)" ?f] by (simp add: readyFor_def)
  then have "readyFor b gen (s\<lparr>st_rules := map ?f (st_rules s)\<rparr>)"
    using assms uniq e by (intro ready_map) (auto simp: readyFor_def)
  then show ?thesis by (simp add: updateRow_def)
qed

text \<open>Rows appended behind the tail of a draft.\<close>

lemma tailPriority_ge:
  "r \<in> set (drafts (scopeRows b s)) \<Longrightarrow> \<not> row_isDefault r \<Longrightarrow> row_priority r \<le> tailPriority b (st_rules s)"
  by (auto simp: tailPriority_def Let_def in_drafts filter_empty_conv intro!: Max_ge)

lemma tailPriority_nonneg:
  assumes "ordered (drafts (scopeRows b s))"
  shows "0 \<le> tailPriority b (st_rules s)"
proof (cases "filter (\<lambda>r. isDraft b r \<and> \<not> row_isDefault r) (st_rules s)")
  case (Cons r rs)
  then have r: "r \<in> set (drafts (scopeRows b s))" "\<not> row_isDefault r"
    by (auto simp: in_drafts dest!: filter_eq_ConsD)
  then have "1 \<le> row_priority r" using assms by (auto simp: ordered_def)
  then show ?thesis using tailPriority_ge [OF r] by simp
qed (simp add: tailPriority_def)

lemma ready_append:
  assumes "readyFor b gen s" and "inj (\<lambda>k. fst (gen k))"
    and "map row_id xs = map (\<lambda>k. fst (gen k)) [st_next s..<st_next s + length xs]"
    and "\<forall>x \<in> set xs. isDraft b x \<and> \<not> row_isDefault x \<and> rowShape x \<and> tailPriority b (st_rules s) < row_priority x"
    and "distinct (map row_priority xs)"
  shows "readyFor b gen (s\<lparr>st_rules := st_rules s @ xs, st_next := st_next s + length xs\<rparr>)"
proof -
  have d: "drafts (filter (inScope b) xs) = xs" "published (filter (inScope b) xs) = []"
    using assms(4) by (auto simp: drafts_def published_def isDraft_def filter_empty_conv)
  have o: "filter (inScope b') xs = []" if "b' \<noteq> b" for b'
    using assms(4) that inScope_unique by (fastforce simp: filter_empty_conv isDraft_def)
  have t: "0 \<le> tailPriority b (st_rules s)" using assms(1) tailPriority_nonneg by (simp add: readyFor_def)
  have below: "row_priority r \<le> tailPriority b (st_rules s)" if "r \<in> set (drafts (scopeRows b s))" for r
    using tailPriority_ge [OF that] assms(1) t that by (cases "row_isDefault r") (auto simp: readyFor_def ordered_def)
  have "set (map row_priority (drafts (scopeRows b s))) \<inter> set (map row_priority xs) = {}"
    using below assms(4) by fastforce
  then have "ordered (drafts (scopeRows b s) @ xs)"
    using assms(1,4,5) t by (auto simp: ordered_def readyFor_def)
  moreover have "retained (scopeRows b s @ filter (inScope b) xs)"
    using assms(1) d retained_cong [of "scopeRows b s @ filter (inScope b) xs" "scopeRows b s"]
    by (simp add: readyFor_def)
  ultimately show ?thesis
    using assms(1,4) idsOk_extend [OF _ assms(2,3)] d o
    by (auto simp: readyFor_def scopeRows_def)
qed

section \<open>The writers of the rule service\<close>

lemma and_then_Inr: "and_then r f = Inr y \<longleftrightarrow> (\<exists>x. r = Inr x \<and> f x = Inr y)"
  by (auto simp: and_then_def split: sum.splits)

lemma commitDraft_ok:
  assumes "readyFor b gen s" and "inj (\<lambda>k. fst (gen k))"
  shows "\<exists>s'. commitDraft b gen x s = Inr (x, s') \<and> storeOk gen s' \<and> liveGeneration b s' = Some (nextGeneration b s) \<and>
    drafts (scopeRows b s') = drafts (scopeRows b (snd (ensureDefault b gen s)))"
proof -
  obtain g k s' where "publishDraftInTx b gen s = Inr ((g, k), s')" "storeOk gen s'" "liveGeneration b s' = Some g"
    "g = nextGeneration b s" "drafts (scopeRows b s') = drafts (scopeRows b (snd (ensureDefault b gen s)))"
    using publish_ok [OF assms] by blast
  then show ?thesis by (simp add: commitDraft_def and_then_def)
qed

lemma commitDraft_storeOk:
  "readyFor b gen s \<Longrightarrow> inj (\<lambda>k. fst (gen k)) \<Longrightarrow> commitDraft b gen x s = Inr (y, s') \<Longrightarrow> storeOk gen s'"
  using commitDraft_ok [of b gen s x] by auto

text \<open>The input schemas: no empty id.\<close>

definition identityInputOk :: "new_identity \<Rightarrow> bool" where
  "identityInputOk i = (case i of AgentIdentity a \<Rightarrow> a \<noteq> [] | UserIdentity u \<Rightarrow> u \<noteq> [] | GroupIdentity g \<Rightarrow> g \<noteq> [])"

definition targetInputOk :: "policy_target_input \<Rightarrow> bool" where
  "targetInputOk t = (case t of TConnection c _ \<Rightarrow> c \<noteq> [] | TSecret i _ \<Rightarrow> i \<noteq> Some [] | _ \<Rightarrow> True)"

definition createInputOk :: "create_input \<Rightarrow> bool" where
  "createInputOk input = (list_all identityInputOk (listOr (ci_identities input)) \<and>
     list_all targetInputOk (listOr (ci_targets input)))"

definition updateInputOk :: "update_input \<Rightarrow> bool" where
  "updateInputOk input = (list_all identityInputOk (listOr (ui_identities input)) \<and>
     list_all targetInputOk (listOr (ui_targets input)))"

lemma identityCreate_shape: "identityInputOk i \<Longrightarrow> onePrincipal (identityCreate i)"
  by (cases i) (auto simp: identityInputOk_def identityCreate_def onePrincipal_def)

lemma targetCreate_shape: "targetInputOk t \<Longrightarrow> targetShape (targetCreate t)"
  by (cases t) (auto simp: targetInputOk_def targetCreate_def targetShape_def emptyTarget_def)

lemma set_dedupeIdentities: "set (dedupeIdentities is) = set is"
  by (induction "is") auto

lemma set_dedupeTargetsFrom: "set (dedupeTargetsFrom a b ts) \<subseteq> set ts"
  by (induction a b ts rule: dedupeTargetsFrom.induct) (auto split: policy_target_input.splits option.splits if_splits)

lemma input_shape:
  "list_all identityInputOk is \<Longrightarrow> list_all onePrincipal (map identityCreate (dedupeIdentities is))"
  "list_all targetInputOk ts \<Longrightarrow> list_all targetShape (map targetCreate (dedupeTargets ts))"
  using set_dedupeTargetsFrom [of "[]" "[]" ts]
  by (auto simp: list_all_iff set_dedupeIdentities identityCreate_shape dedupeTargets_def intro!: targetCreate_shape)

lemma isDraft_facts:
  "isDraft b (createRow b input p l)" "\<not> row_isDefault (createRow b input p l)" "row_priority (createRow b input p l) = p"
  "isDraft b (row\<lparr>row_id := i\<rparr>) = isDraft b row" "row_isDefault (row\<lparr>row_id := i\<rparr>) = row_isDefault row"
  "row_priority (row\<lparr>row_id := i\<rparr>) = row_priority row"
  by (auto simp: isDraft_def createRow_def inScope_def scopeName_def scopeOrg_def scopeWorkspace_def
      split: policy_scope_base.split)

lemma create_ready:
  assumes "readyFor b gen s" and "inj (\<lambda>k. fst (gen k))" and "createInputOk input"
  shows "readyFor b gen (snd (insertRow gen (createRow b input (tailPriority b (st_rules s) + 1) l) s))"
proof -
  define row where "row = createRow b input (tailPriority b (st_rules s) + 1) l"
  have "rowShape row"
    using assms(3) input_shape by (simp add: row_def rowShape_def createRow_def createInputOk_def)
  then have "readyFor b gen (s\<lparr>st_rules := st_rules s @ [row\<lparr>row_id := fst (gen (st_next s))\<rparr>],
      st_next := st_next s + length [row\<lparr>row_id := fst (gen (st_next s))\<rparr>]\<rparr>)"
    by (intro ready_append [OF assms(1,2)]) (auto simp: isDraft_facts row_def)
  then show ?thesis by (simp add: insertRow_def Let_def row_def)
qed

lemma createPolicyRule_ok:
  assumes "storeOk gen s" and "inj (\<lambda>k. fst (gen k))" and "createInputOk input"
    and "createPolicyRule env gen b input s = Inr (x, s')"
  shows "storeOk gen s'"
proof (cases "insertRow gen (createRow b input (tailPriority b (st_rules s) + 1) (snd (gen (st_next s)))) s")
  case (Pair created s1)
  then have "readyFor b gen s1"
    using create_ready [OF storeOk_readyFor [OF assms(1)] assms(2,3), of b "snd (gen (st_next s))"] by simp
  then show ?thesis using assms(4) commitDraft_storeOk [OF _ assms(2)] Pair
    by (auto simp: createPolicyRule_def and_then_Inr)
qed

lemma findDraftRule_SomeD:
  "findDraftRule b i s = Some e \<Longrightarrow> e \<in> set (drafts (scopeRows b s)) \<and> row_id e = i \<and> \<not> row_isDefault e"
  by (auto simp: findDraftRule_def find_Some_iff in_drafts)

lemma updatePolicyRule_ok:
  assumes "storeOk gen s" and "inj (\<lambda>k. fst (gen k))" and "updateInputOk input"
    and "updatePolicyRule env gen b i input s = Inr (x, s')"
  shows "storeOk gen s'"
proof -
  obtain e where e: "findDraftRule b i s = Some e"
    and c: "commitDraft b gen (toRuleDto (applyUpdate input e)) (updateRow i (applyUpdate input) s) = Inr (x, s')"
    using assms(4) by (auto simp: updatePolicyRule_def and_then_Inr split: option.splits)
  note e' = findDraftRule_SomeD [OF e]
  have "rowShape e" using assms(1) e' by (auto simp: storeOk_def in_drafts)
  then have "rowShape (applyUpdate input e)"
    using assms(3) e' input_shape(1) [of "listOr (ui_identities input)"] input_shape(2) [of "listOr (ui_targets input)"]
    by (auto simp: rowShape_def applyUpdate_def updateInputOk_def listOr_def split: option.splits)
  moreover have "isDraft b (applyUpdate input e)" using e' by (auto simp: in_drafts isDraft_def inScope_def applyUpdate_def
        split: policy_scope_base.splits)
  ultimately have "readyFor b gen (updateRow (row_id e) (applyUpdate input) s)"
    using e' by (intro ready_updateRow [OF storeOk_readyFor [OF assms(1)]]) (auto simp: applyUpdate_def)
  then show ?thesis using c e' commitDraft_storeOk [OF _ assms(2)] by auto
qed

lemma deletePolicyRule_ok:
  assumes "storeOk gen s" and "inj (\<lambda>k. fst (gen k))" and "deletePolicyRule gen b i s = Inr (x, s')"
  shows "storeOk gen s'"
proof -
  have "readyFor b gen (s\<lparr>st_rules := filter (\<lambda>r. \<not> (row_id r = i \<and> isDraft b r \<and> \<not> row_isDefault r)) (st_rules s)\<rparr>)"
    by (intro ready_filter [OF storeOk_readyFor [OF assms(1)]]) auto
  then show ?thesis using assms(3) commitDraft_storeOk [OF _ assms(2)]
    by (auto simp: deletePolicyRule_def Let_def split: if_splits)
qed

lemma setPolicyDefaultAction_ok:
  assumes "storeOk gen s" and "inj (\<lambda>k. fst (gen k))" and "setPolicyDefaultAction gen b action s = Inr (x, s')"
  shows "storeOk gen s'"
proof -
  obtain d s1 where d: "ensureDefault b gen s = (d, s1)" by (cases "ensureDefault b gen s") auto
  note ed = ensureDefault_ok [OF storeOk_readyFor [OF assms(1)] assms(2), of b, unfolded d fst_conv snd_conv]
  let ?h = "\<lambda>r. r\<lparr>row_action := action\<rparr>"
  have "rowShape (?h d)" using ed(1,6) by (auto simp: readyFor_def in_drafts rowShape_def)
  moreover have "isDraft b (?h d)" using ed(6) by (auto simp: in_drafts isDraft_def inScope_def split: policy_scope_base.splits)
  ultimately have "readyFor b gen (updateRow (row_id d) ?h s1)"
    by (intro ready_updateRow [OF ed(1,6)]) auto
  then show ?thesis using assms(3) commitDraft_storeOk [OF _ assms(2)]
    by (auto simp: setPolicyDefaultAction_def d)
qed

lemma publishPolicy_ok:
  "storeOk gen s \<Longrightarrow> inj (\<lambda>k. fst (gen k)) \<Longrightarrow> publishPolicy b gen s = Inr (x, s') \<Longrightarrow> storeOk gen s'"
  using publish_ok [OF storeOk_readyFor, of gen s b] by (auto simp: publishPolicy_def)

end
