(* ===== verification/StoreWriters.thy ===== *)
theory StoreWriters
  imports StoreInvariant
begin

text \<open>
  The remaining writers of the rule table keep its invariant: reordering, the cleanup that rides
  the deletion of a principal, the blocklist, the grants and the seeding of a new scope.  A change
  made alike to the draft and to the live generation is the contract \<^verbatim>\<open>alike_change\<close>, interpreted
  on the deletion of a principal, on switching a block rule and on removing block rules.
\<close>

section \<open>Reordering\<close>

definition position :: "'a list \<Rightarrow> 'a \<Rightarrow> nat" where
  "position xs x = length (takeWhile (\<lambda>y. y \<noteq> x) xs)"

definition placed :: "int \<Rightarrow> string list \<Rightarrow> sim_rule_row \<Rightarrow> sim_rule_row" where
  "placed p is r = (if row_id r \<in> set is then r\<lparr>row_priority := p + int (position is (row_id r))\<rparr> else r)"

lemma position_Cons: "position (y # ys) x = (if x = y then 0 else Suc (position ys x))"
  by (simp add: position_def)

lemma nth_position: "x \<in> set xs \<Longrightarrow> xs ! position xs x = x \<and> position xs x < length xs"
  by (induction xs) (auto simp: position_Cons)

lemma position_inj: "x \<in> set xs \<Longrightarrow> y \<in> set xs \<Longrightarrow> position xs x = position xs y \<Longrightarrow> x = y"
  by (metis nth_position)

lemma placed_facts [simp]:
  "row_id (placed p is r) = row_id r" "row_isDefault (placed p is r) = row_isDefault r"
  "row_status (placed p is r) = row_status r" "inScope b (placed p is r) = inScope b r"
  "rowShape (placed p is r) = rowShape r" "isDraft b (placed p is r) = isDraft b r"
  by (auto simp: placed_def rowShape_def isDraft_def inScope_def split: policy_scope_base.split)

lemma assignPriorities_placed:
  "distinct is \<Longrightarrow> assignPriorities p is s = s\<lparr>st_rules := map (placed p is) (st_rules s)\<rparr>"
proof (induction p "is" s rule: assignPriorities.induct)
  case (1 p s)
  then show ?case by (simp add: placed_def [abs_def])
next
  case (2 p i "is" s)
  have "placed (p + 1) is (if row_id r = i then r\<lparr>row_priority := p\<rparr> else r) = placed p (i # is) r" for r
    using 2(2) by (auto simp: placed_def position_Cons)
  then show ?case using 2 by (simp add: updateRow_def o_def)
qed

definition ruleIds :: "policy_scope_base \<Rightarrow> policy_store \<Rightarrow> string list" where
  "ruleIds b s = map row_id (filter (\<lambda>r. \<not> row_isDefault r) (drafts (scopeRows b s)))"

lemma ruleIds_filter: "map row_id (filter (\<lambda>r. isDraft b r \<and> \<not> row_isDefault r) (st_rules s)) = ruleIds b s"
  unfolding ruleIds_def isDraft_scope [symmetric] by (simp add: conj_commute)

lemma ruleIds_distinct: "idsOk gen s \<Longrightarrow> distinct (ruleIds b s)"
  unfolding ruleIds_filter [symmetric] idsOk_def by (simp add: distinct_map_filter)

lemma js_uniq_length: "length (js_uniq xs) = length xs \<longleftrightarrow> distinct xs"
  by (metis js_uniq_distinct set_js_uniq distinct_js_uniq card_distinct distinct_card)

lemma reorder_check:
  fixes b :: policy_scope_base and s :: policy_store
  assumes "idsOk gen s"
  defines "d \<equiv> js_uniq (map row_id (filter (\<lambda>r. isDraft b r \<and> \<not> row_isDefault r) (st_rules s)))"
  shows "(length is = length d \<and> length (js_uniq is) = length is \<and> list_all (\<lambda>i. i \<in> set d) is) \<longleftrightarrow>
    mset is = mset (ruleIds b s)"
proof -
  have d: "set d = set (ruleIds b s)" "length d = length (ruleIds b s)"
    using ruleIds_distinct [OF assms(1), of b] unfolding d_def ruleIds_filter by (simp_all add: js_uniq_length)
  have "mset is = mset (ruleIds b s) \<longleftrightarrow> distinct is \<and> set is = set (ruleIds b s)"
    using ruleIds_distinct [OF assms(1), of b] by (metis set_eq_iff_mset_eq_distinct mset_eq_setD mset_eq_imp_distinct_iff)
  also have "\<dots> \<longleftrightarrow> distinct is \<and> length is = length (ruleIds b s) \<and> set is \<subseteq> set (ruleIds b s)"
    using ruleIds_distinct [OF assms(1), of b] by (metis card_subset_eq distinct_card finite_set order_refl)
  finally show ?thesis unfolding d js_uniq_length by (auto simp: list_all_iff)
qed

lemma reorder_ready:
  assumes "readyFor b gen s" and "mset is = mset (ruleIds b s)"
  shows "readyFor b gen (assignPriorities 1 is s)"
proof -
  let ?f = "placed 1 is" and ?d = "drafts (scopeRows b s)"
  have ids: "idsOk gen s" using assms(1) by (simp add: readyFor_def)
  have dist: "distinct is" using ruleIds_distinct [OF ids, of b] assms(2) by (metis mset_eq_imp_distinct_iff)
  have mem: "row_id r \<in> set is \<longleftrightarrow> isDraft b r \<and> \<not> row_isDefault r" if "r \<in> set (st_rules s)" for r
  proof -
    have "set is = set (ruleIds b s)" using assms(2) by (rule mset_eq_setD)
    then have "row_id r \<in> set is \<longleftrightarrow> (\<exists>x \<in> set (st_rules s). row_id x = row_id r \<and> isDraft b x \<and> \<not> row_isDefault x)"
      unfolding ruleIds_filter [symmetric] by (auto simp: image_iff intro: sym)
    moreover have "x = r" if "x \<in> set (st_rules s)" "row_id x = row_id r" for x
      using ids that \<open>r \<in> set (st_rules s)\<close> by (auto simp: idsOk_def distinct_map inj_on_def)
    ultimately show ?thesis using that by metis
  qed
  have same: "?f r = r" if "r \<in> set (st_rules s)" "\<not> isDraft b r" for r using mem that by (simp add: placed_def)
  have prio: "row_priority (?f r) = (if row_isDefault r then 0 else 1 + int (position is (row_id r)))" if "r \<in> set ?d" for r
    using mem [of r] that assms(1) by (auto simp: placed_def in_drafts readyFor_def ordered_def)
  have inj: "inj_on row_id (set ?d)" "inj_on row_priority (set ?d)"
    using ids assms(1) by (auto simp: idsOk_def distinct_map inj_on_def in_drafts readyFor_def ordered_def)
  have "r = r'" if r: "r \<in> set ?d" "r' \<in> set ?d" "row_priority (?f r) = row_priority (?f r')" for r r'
  proof (cases "row_isDefault r \<or> row_isDefault r'")
    case True
    then have "row_isDefault r" "row_isDefault r'" using r prio by (auto split: if_splits)
    then have "row_priority r = row_priority r'" using r(1,2) assms(1) by (auto simp: readyFor_def ordered_def)
    then show ?thesis using inj(2) r by (simp add: inj_on_def)
  next
    case False
    then have "position is (row_id r) = position is (row_id r')" using r prio by simp
    moreover have "row_id r \<in> set is" "row_id r' \<in> set is" using False r mem by (auto simp: in_drafts)
    ultimately show ?thesis using position_inj [of "row_id r" "is" "row_id r'"] inj(1) r by (simp add: inj_on_def)
  qed
  then have "inj_on (row_priority \<circ> ?f) (set ?d)" by (simp add: inj_on_def)
  then have "ordered (map ?f ?d)" using prio assms(1) ids
    by (auto simp: ordered_def distinct_map readyFor_def)
  then show ?thesis unfolding assignPriorities_placed [OF dist]
    using assms(1) same by (intro ready_map) (auto simp: readyFor_def)
qed

lemma reorderPolicyRules_ok:
  assumes "storeOk gen s" and "inj (\<lambda>k. fst (gen k))" and "reorderPolicyRules gen b is s = Inr (x, s')"
  shows "storeOk gen s'"
proof -
  have ids: "idsOk gen s" using assms(1) by (simp add: storeOk_def)
  have "mset is = mset (ruleIds b s)"
    using assms(3) reorder_check [OF ids, of "is" b] by (auto simp: reorderPolicyRules_def Let_def split: if_splits)
  from reorder_ready [OF storeOk_readyFor [OF assms(1)] this]
  show ?thesis using assms(3) commitDraft_storeOk [OF _ assms(2)]
    by (auto simp: reorderPolicyRules_def Let_def and_then_Inr split: if_splits)
qed

section \<open>Changes made alike to the draft and to the live generation\<close>

lemma maxGeneration_keep:
  assumes "maxGeneration xs = Some g" and "\<exists>r \<in> set ys. row_generation r = g"
    and "row_generation ` set ys \<subseteq> row_generation ` set xs"
  shows "maxGeneration ys = Some g"
proof -
  have xs: "xs \<noteq> []" "g = Max (row_generation ` set xs)" using assms(1) by (auto simp: maxGeneration_def split: if_splits)
  have "Max (row_generation ` set ys) = g"
  proof (rule Max_eqI)
    show "g \<in> row_generation ` set ys" using assms(2) by force
  qed (use assms(3) xs in auto)
  then show ?thesis using assms(2) by (auto simp: maxGeneration_def)
qed

text \<open>
  A change \<^term>\<open>f\<close> of the rows that satisfy \<^term>\<open>P\<close>, the others dropped, which on the draft and on
  the live generation only looks at what the rows say.
\<close>

locale alike_change =
  fixes P :: "sim_rule_row \<Rightarrow> bool" and f :: "sim_rule_row \<Rightarrow> sim_rule_row"
  assumes keeps: "row_id (f r) = row_id r" "row_status (f r) = row_status r" "row_generation (f r) = row_generation r"
      "row_priority (f r) = row_priority r" "row_isDefault (f r) = row_isDefault r" "inScope b (f r) = inScope b r"
    and default_kept: "rowShape r \<Longrightarrow> row_isDefault r \<Longrightarrow> P r"
    and shape: "rowShape r \<Longrightarrow> P r \<Longrightarrow> rowShape (f r)"
begin

lemma scopeRows_change: "filter (inScope b) (map f (filter P rows)) = map f (filter P (filter (inScope b) rows))"
  by (simp add: filter_map o_def keeps) (metis filter_filter conj_commute)

lemma parts_change:
  "drafts (map f (filter P rows)) = map f (filter P (drafts rows))"
  "published (map f (filter P rows)) = map f (filter P (published rows))"
  by (simp_all add: drafts_def published_def filter_map o_def keeps) (metis filter_filter conj_commute)+

lemma live_change:
  assumes "\<forall>r \<in> set rows. rowShape r" and "\<exists>d \<in> set (live rows). row_isDefault d"
  shows "live (map f (filter P rows)) = map f (filter P (live rows))"
proof -
  obtain g where g: "maxGeneration (published rows) = Some g"
    using assms(2) by (cases "maxGeneration (published rows)") (auto simp: live_def)
  obtain d where d: "d \<in> set (published rows)" "row_generation d = g" "row_isDefault d"
    using assms(2) g by (auto simp: live_def)
  then have "P d" using assms(1) default_kept by (auto simp: published_def)
  then have "maxGeneration (published (map f (filter P rows))) = Some g"
    using d by (intro maxGeneration_keep [OF g]) (auto simp: parts_change keeps)
  then show ?thesis unfolding live_def g parts_change
    by (simp add: filter_map o_def keeps) (metis filter_filter conj_commute)
qed

lemma scope_change:
  assumes ok: "scopeOk rows" and shapes: "\<forall>r \<in> set rows. rowShape r"
    and alike: "\<forall>r \<in> set (live rows) \<union> set (drafts rows). P r = Q (content r) \<and> content (f r) = h (content r)"
  shows "scopeOk (map f (filter P rows))"
proof -
  have "ordered (map f (filter P (drafts rows)))"
    using ok by (subst ordered_map) (auto simp: keeps scopeOk_def ordered_def distinct_map_filter)
  moreover have "retained (map f (filter P rows))"
    using ok by (auto simp: scopeOk_def retained_def parts_change keeps)
  moreover have "synced (map f (filter P rows))"
  proof (cases "published rows = []")
    case False
    then have d: "\<exists>d \<in> set (live rows). row_isDefault d"
      and m: "mset (map content (live rows)) = mset (map content (drafts rows))" using ok by (auto simp: scopeOk_def synced_def)
    have sub: "set (live rows) \<subseteq> set rows" by (auto simp: live_def published_def split: option.splits)
    have image: "mset (map content (map f (filter P xs))) = image_mset h (filter_mset Q (mset (map content xs)))"
      if "set xs \<subseteq> set (live rows) \<union> set (drafts rows)" for xs
      using that alike by (induction xs) auto
    have "\<exists>x \<in> set (map f (filter P (live rows))). row_isDefault x"
      using d shapes sub default_kept by (force simp: keeps)
    moreover have "mset (map content (map f (filter P (live rows)))) = mset (map content (map f (filter P (drafts rows))))"
      using image [of "live rows"] image [of "drafts rows"] m by simp
    ultimately show ?thesis unfolding synced_def live_change [OF shapes d] parts_change by blast
  qed (simp add: synced_def parts_change)
  ultimately show ?thesis by (simp add: scopeOk_def parts_change)
qed

lemma store_change:
  assumes "storeOk gen s"
    and "\<And>b. \<exists>Q h. \<forall>r \<in> set (live (scopeRows b s)) \<union> set (drafts (scopeRows b s)). P r = Q (content r) \<and> content (f r) = h (content r)"
  shows "storeOk gen (s\<lparr>st_rules := map f (filter P (st_rules s))\<rparr>)"
proof -
  have "scopeOk (map f (filter P (scopeRows b s)))" for b
  proof -
    obtain Q h where "\<forall>r \<in> set (live (scopeRows b s)) \<union> set (drafts (scopeRows b s)). P r = Q (content r) \<and> content (f r) = h (content r)"
      using assms(2) [of b] by (elim exE)
    then show ?thesis using assms(1) by (intro scope_change [of _ Q h]) (auto simp: storeOk_def scopeRows_def)
  qed
  then have "scopeOk (scopeRows b (s\<lparr>st_rules := map f (filter P (st_rules s))\<rparr>))" for b
    by (simp add: scopeRows_def scopeRows_change)
  moreover have "idsOk gen (s\<lparr>st_rules := map f (filter P (st_rules s))\<rparr>)"
    using assms(1) idsOk_map [OF idsOk_filter, of gen s f P] keeps(1) by (simp add: storeOk_def)
  ultimately show ?thesis using assms(1) shape by (auto simp: storeOk_def)
qed

end

section \<open>Deleting a principal\<close>

definition withoutPrincipal :: "deleted_principal \<Rightarrow> sim_rule_row \<Rightarrow> sim_rule_row" where
  "withoutPrincipal who r = r\<lparr>row_identities := filter (\<lambda>i. \<not> namesPrincipal who i) (row_identities r)\<rparr>"

lemma deletion_rows:
  "cascadePrincipal who (snd (dropPrincipalFromPolicyInTx who s)) =
     s\<lparr>st_rules := map (withoutPrincipal who) (filter (\<lambda>r. \<not> droppedWith who r) (st_rules s))\<rparr>"
  by (simp add: cascadePrincipal_def dropPrincipalFromPolicyInTx_def Let_def withoutPrincipal_def [abs_def])

interpretation deletion: alike_change "\<lambda>r. \<not> droppedWith who r" "withoutPrincipal who" for who
  by unfold_locales (auto simp: withoutPrincipal_def inScope_def droppedWith_def namesOnly_def rowShape_def list_all_iff
      split: policy_scope_base.splits deleted_principal.splits)

lemma deletion_alike:
  "\<exists>Q h. \<forall>r \<in> set (live (scopeRows b s)) \<union> set (drafts (scopeRows b s)).
     (\<not> droppedWith who r) = Q (content r) \<and> content (withoutPrincipal who r) = h (content r)"
proof (intro exI ballI)
  fix r assume "r \<in> set (live (scopeRows b s)) \<union> set (drafts (scopeRows b s))"
  then have "inScope b r" by (auto simp: live_def drafts_def published_def scopeRows_def split: option.splits)
  then have sc: "inScope b' r \<longleftrightarrow> b' = b" for b' using inScope_unique by metis
  show "(\<not> droppedWith who r) = (case who of
        DeletedAgent a w \<Rightarrow> \<not> (b = WorkspaceScope w \<and> (namesOnly (namesPrincipal who) (content r) \<or>
          row_source (content r) = ''grant'' \<and> row_identities (content r) = []))
      | DeletedGroup g orgId \<Rightarrow> \<not> (b = OrganizationScope orgId \<and> namesOnly (namesPrincipal who) (content r))
      | DeletedUser u \<Rightarrow> \<not> (row_scope (content r) = ''organization'' \<and> namesOnly (namesPrincipal who) (content r))) \<and>
     content (withoutPrincipal who r) = withoutPrincipal who (content r)"
    by (auto simp: droppedWith_def sc namesOnly_def withoutPrincipal_def content_def split: deleted_principal.splits)
qed

lemma deletion_ok:
  "storeOk gen s \<Longrightarrow> storeOk gen (cascadePrincipal who (snd (dropPrincipalFromPolicyInTx who s)))"
  unfolding deletion_rows by (intro deletion.store_change deletion_alike)

section \<open>Switching and removing block rules\<close>

lemma draftOrLive_iff:
  assumes "r \<in> set (live (scopeRows b s)) \<union> set (drafts (scopeRows b s))"
  shows "draftOrLive base (liveGeneration base s) r \<longleftrightarrow> base = b"
proof -
  have "inScope b r" using assms by (auto simp: live_def drafts_def published_def scopeRows_def split: option.splits)
  then show ?thesis using assms inScope_unique [of b r base] unfolding draftOrLive_def liveGeneration_def isPublished_scope
    by (auto simp: live_def drafts_def published_def scopeRows_def split: option.splits)
qed

definition switched :: "policy_scope_base \<Rightarrow> int option \<Rightarrow> string \<Rightarrow> bool \<Rightarrow> sim_rule_row \<Rightarrow> sim_rule_row" where
  "switched base g l e r = (if draftOrLive base g r \<and> row_logicalId r = l then r\<lparr>row_enabled := e\<rparr> else r)"

interpretation switching: alike_change "\<lambda>_. True" "switched base g l e" for base g l e
  by unfold_locales (auto simp: switched_def inScope_def rowShape_def split: policy_scope_base.splits)

lemma switch_ok:
  assumes "storeOk gen s"
  shows "storeOk gen (s\<lparr>st_rules := map (switched base (liveGeneration base s) l e) (st_rules s)\<rparr>)"
proof -
  have "\<exists>Q h. \<forall>r \<in> set (live (scopeRows b s)) \<union> set (drafts (scopeRows b s)). True = Q (content r) \<and>
      content (switched base (liveGeneration base s) l e r) = h (content r)" for b
    by (rule exI [of _ "\<lambda>_. True"], rule exI [of _ "\<lambda>c. if base = b \<and> row_logicalId c = l then c\<lparr>row_enabled := e\<rparr> else c"])
      (auto simp: switched_def draftOrLive_iff [unfolded Un_iff] content_def)
  from switching.store_change [OF assms this] show ?thesis by simp
qed

lemma toggleBlocklistRule_ok:
  "storeOk gen s \<Longrightarrow> toggleBlocklistRule base i e s = Inr s' \<Longrightarrow> storeOk gen s'"
  using switch_ok by (auto simp: toggleBlocklistRule_def and_then_Inr switched_def [abs_def])

definition blockedRow :: "policy_scope_base \<Rightarrow> int option \<Rightarrow> string list \<Rightarrow> sim_rule_row \<Rightarrow> bool" where
  "blockedRow base g ls r = (draftOrLive base g r \<and> row_source r = BLOCKLIST_SOURCE \<and> row_logicalId r \<in> set ls)"

interpretation removal: alike_change "\<lambda>r. \<not> blockedRow base g ls r" "\<lambda>r. r" for base g ls
  by unfold_locales (auto simp: blockedRow_def rowShape_def BLOCKLIST_SOURCE_def)

lemma deleteByLogicalIds_ok:
  assumes "storeOk gen s"
  shows "storeOk gen (deleteByLogicalIds base ls s)"
proof -
  have "\<exists>Q h. \<forall>r \<in> set (live (scopeRows b s)) \<union> set (drafts (scopeRows b s)).
      (\<not> blockedRow base (liveGeneration base s) ls r) = Q (content r) \<and> content r = h (content r)" for b
    by (rule exI [of _ "\<lambda>c. \<not> (base = b \<and> row_source c = BLOCKLIST_SOURCE \<and> row_logicalId c \<in> set ls)"], rule exI [of _ "\<lambda>c. c"])
      (auto simp: blockedRow_def draftOrLive_iff [unfolded Un_iff])
  from removal.store_change [OF assms this] show ?thesis using assms
    by (simp add: deleteByLogicalIds_def blockedRow_def [abs_def])
qed

lemma removeBlocklistRule_ok:
  "storeOk gen s \<Longrightarrow> removeBlocklistRule base i s = Inr s' \<Longrightarrow> storeOk gen s'"
  using deleteByLogicalIds_ok by (auto simp: removeBlocklistRule_def and_then_Inr)

lemma removeAllBlocklistRules_ok: "storeOk gen s \<Longrightarrow> storeOk gen (removeAllBlocklistRules base hosts s)"
  using deleteByLogicalIds_ok by (simp add: removeAllBlocklistRules_def Let_def)

section \<open>Inserting block rules\<close>

text \<open>Where a block goes depends on what the rules of the set say, and leaves a gap there.\<close>

definition slot :: "sim_rule_row list \<Rightarrow> int" where
  "slot rules =
     (case find (\<lambda>r. row_action r \<noteq> ''block'') rules of
        Some firstLooser \<Rightarrow> row_priority firstLooser
      | None \<Rightarrow> (if rules = [] then 0 else row_priority (last rules)) + 1)"

definition others :: "sim_rule_row list \<Rightarrow> sim_rule_row list" where
  "others rows = filter (\<lambda>r. \<not> row_isDefault r) rows"

lemma insertPriority_slot:
  "insertPriority b status g s = slot (byPriority (others (filter (inSet b status g) (st_rules s))))"
  unfolding insertPriority_def slot_def others_def filter_filter Let_def ..

lemma slot_content: "slot (map content rs) = slot rs"
proof -
  have "find (\<lambda>r. row_action r \<noteq> ''block'') (map content rs) = map_option content (find (\<lambda>r. row_action r \<noteq> ''block'') rs)"
    by (induction rs) auto
  then show ?thesis by (auto simp: slot_def last_map split: option.splits)
qed

lemma content_byPriority:
  assumes "mset (map content xs) = mset (map content ys)" and "distinct (map row_priority xs)"
  shows "map content (byPriority xs) = map content (byPriority ys)"
proof -
  have inj: "inj_on row_priority (set (map content zs))" if "mset (map content zs) = mset (map content xs)" for zs
  proof -
    have "set (map content zs) = set (map content xs)" using that by (rule mset_eq_setD)
    then show ?thesis using assms(2) by (auto simp: distinct_map inj_on_def)
  qed
  have "sort_key row_priority (map content xs) = map content (byPriority zs)"
    if "mset (map content zs) = mset (map content xs)" for zs
    using that by (intro sort_key_inj_key_eq inj) (simp_all add: byPriority_def o_def)
  from this [of xs] this [of ys] show ?thesis using assms(1) by simp
qed

lemma slot_alike:
  assumes "mset (map content xs) = mset (map content ys)" and "distinct (map row_priority xs)"
  shows "slot (byPriority (others xs)) = slot (byPriority (others ys))"
proof -
  have others: "mset (map content (others zs)) = filter_mset (\<lambda>c. \<not> row_isDefault c) (mset (map content zs))" for zs
    unfolding others_def by (induction zs) auto
  have "map content (byPriority (others xs)) = map content (byPriority (others ys))"
    using assms(2) others [of xs] others [of ys] assms(1)
    by (intro content_byPriority) (simp_all add: others_def distinct_map_filter)
  then show ?thesis by (metis slot_content)
qed

lemma slot_pos:
  assumes "\<forall>r \<in> set rs. 1 \<le> row_priority r"
  shows "1 \<le> slot rs"
  using assms by (force simp: slot_def find_Some_iff find_None_iff dest: last_in_set split: option.splits)

text \<open>Making room at a priority, and the block put there.\<close>

definition makeRoom :: "int \<Rightarrow> sim_rule_row \<Rightarrow> sim_rule_row" where
  "makeRoom p r = (if \<not> row_isDefault r \<and> p \<le> row_priority r then r\<lparr>row_priority := row_priority r + 1\<rparr> else r)"

lemma makeRoom_facts [simp]:
  "row_id (makeRoom p r) = row_id r" "row_status (makeRoom p r) = row_status r"
  "row_generation (makeRoom p r) = row_generation r" "row_isDefault (makeRoom p r) = row_isDefault r"
  "inScope b (makeRoom p r) = inScope b r" "rowShape (makeRoom p r) = rowShape r"
  "content (makeRoom p r) = makeRoom p (content r)"
  by (auto simp: makeRoom_def inScope_def rowShape_def content_def split: policy_scope_base.splits)

lemma ordered_makeRoom:
  assumes "ordered rows" and "1 \<le> p" and "row_priority x = p" and "\<not> row_isDefault x"
  shows "ordered (map (makeRoom p) rows @ [x])"
proof -
  have default: "row_isDefault r \<Longrightarrow> row_priority r = 0" "\<not> row_isDefault r \<Longrightarrow> 1 \<le> row_priority r" if "r \<in> set rows" for r
    using assms(1) that by (auto simp: ordered_def)
  have inj: "inj_on row_priority (set rows)" "distinct rows" using assms(1) by (auto simp: ordered_def distinct_map)
  have "r = r'" if "r \<in> set rows" "r' \<in> set rows" "row_priority (makeRoom p r) = row_priority (makeRoom p r')" for r r'
    using that default [OF that(1)] default [OF that(2)] inj_onD [OF inj(1) _ that(1,2)] assms(2)
    by (auto simp: makeRoom_def split: if_splits)
  then have "inj_on (row_priority \<circ> makeRoom p) (set rows)" by (simp add: inj_on_def)
  moreover have "row_priority (makeRoom p r) \<noteq> p" if "r \<in> set rows" for r
    using default [OF that] assms(2) by (auto simp: makeRoom_def)
  then have "p \<notin> (row_priority \<circ> makeRoom p) ` set rows" by (metis comp_apply imageE)
  ultimately have "distinct (map row_priority (map (makeRoom p) rows @ [x]))"
    using inj(2) assms(3) by (simp add: distinct_map)
  moreover have "row_isDefault r \<Longrightarrow> row_priority (makeRoom p r) = 0" "\<not> row_isDefault r \<Longrightarrow> 1 \<le> row_priority (makeRoom p r)"
    if "r \<in> set rows" for r using default [OF that] assms(2) by (auto simp: makeRoom_def)
  ultimately show ?thesis using assms(2-4) by (auto simp: ordered_def)
qed

definition blockAt :: "id_supply \<Rightarrow> policy_scope_base \<Rightarrow> string \<Rightarrow> int option \<Rightarrow> int \<Rightarrow> block_rule \<Rightarrow> policy_store \<Rightarrow> sim_rule_row" where
  "blockAt gen b status g p rule s = (blockRow b status g p rule)\<lparr>row_id := fst (gen (st_next s))\<rparr>"

lemma blockAt_facts [simp]:
  "inScope b' (blockAt gen b status g p rule s) \<longleftrightarrow> b' = b" "row_status (blockAt gen b status g p rule s) = status"
  "row_priority (blockAt gen b status g p rule s) = p" "\<not> row_isDefault (blockAt gen b status g p rule s)"
  "row_generation (blockAt gen b status (Some g') p rule s) = g'" "rowShape (blockAt gen b status g p rule s)"
  by (auto simp: blockAt_def blockRow_def inScope_def scopeName_def scopeOrg_def scopeWorkspace_def rowShape_def targetShape_def emptyTarget_def
      split: policy_scope_base.splits)

lemma blockAt_content: "content (blockAt gen b st1 g1 p rule s) = content (blockAt gen' b st2 g2 p rule s')"
  by (simp add: blockAt_def blockRow_def content_def)

lemma createBlockRule_store:
  fixes gen b status g rule s
  defines "p \<equiv> insertPriority b status g s"
  shows "createBlockRule gen b status g rule s =
    s\<lparr>st_rules := map (\<lambda>r. if inSet b status g r then makeRoom p r else r) (st_rules s) @ [blockAt gen b status g p rule s],
      st_next := Suc (st_next s)\<rparr>"
  unfolding createBlockRule_def p_def [symmetric] Let_def insertRow_def shiftDown_def blockAt_def
  by (auto simp: makeRoom_def)

lemma createBlockRule_scopes:
  fixes gen b status g rule s
  defines "p \<equiv> insertPriority b status g s"
  shows "scopeRows b (createBlockRule gen b status g rule s) =
      map (\<lambda>r. if inSet b status g r then makeRoom p r else r) (scopeRows b s) @ [blockAt gen b status g p rule s]"
    and "b' \<noteq> b \<Longrightarrow> scopeRows b' (createBlockRule gen b status g rule s) = scopeRows b' s"
proof -
  let ?f = "\<lambda>r. if inSet b status g r then makeRoom p r else r"
  have f: "filter (inScope b'') (map ?f xs) = map ?f (filter (inScope b'') xs)" for b'' xs by (induction xs) auto
  show "scopeRows b (createBlockRule gen b status g rule s) = map ?f (scopeRows b s) @ [blockAt gen b status g p rule s]"
    unfolding createBlockRule_store p_def [symmetric] scopeRows_def by (simp add: f)
  show "scopeRows b' (createBlockRule gen b status g rule s) = scopeRows b' s" if "b' \<noteq> b"
  proof -
    have "map ?f (filter (inScope b') (st_rules s)) = filter (inScope b') (st_rules s)"
      using that by (auto simp: inSet_def dest: inScope_unique intro!: map_idI)
    then show ?thesis unfolding createBlockRule_store p_def [symmetric] scopeRows_def using that by (simp add: f)
  qed
qed

lemma createBlockRule_base:
  assumes "idsOk gen s" and "inj (\<lambda>k. fst (gen k))" and "\<forall>r \<in> set (st_rules s). rowShape r"
  shows "idsOk gen (createBlockRule gen b status g rule s)"
    and "\<forall>r \<in> set (st_rules (createBlockRule gen b status g rule s)). rowShape r"
proof -
  let ?p = "insertPriority b status g s"
  let ?f = "\<lambda>r. if inSet b status g r then makeRoom ?p r else r"
  have "idsOk gen (s\<lparr>st_rules := map ?f (st_rules s)\<rparr>)" using assms(1) by (intro idsOk_map) auto
  from idsOk_extend [OF this assms(2), of "[blockAt gen b status g ?p rule s]" 1]
  show "idsOk gen (createBlockRule gen b status g rule s)" by (simp add: createBlockRule_store blockAt_def)
  show "\<forall>r \<in> set (st_rules (createBlockRule gen b status g rule s)). rowShape r"
    using assms(3) by (auto simp: createBlockRule_store)
qed

lemma createBlockRule_draft:
  fixes gen b rule s
  defines "p \<equiv> slot (byPriority (others (drafts (scopeRows b s))))" and "s' \<equiv> createBlockRule gen b ''draft'' None rule s"
  shows "drafts (scopeRows b s') = map (makeRoom p) (drafts (scopeRows b s)) @ [blockAt gen b ''draft'' None p rule s]"
    and "published (scopeRows b s') = published (scopeRows b s)"
proof -
  have T: "inSet b ''draft'' None r \<longleftrightarrow> row_status r = ''draft''" if "r \<in> set (scopeRows b s)" for r
    using that by (simp add: inSet_def scopeRows_def)
  have "filter (inSet b ''draft'' None) (st_rules s) = drafts (scopeRows b s)"
    by (auto simp: inSet_def drafts_def scopeRows_def intro: filter_cong)
  then have p: "insertPriority b ''draft'' None s = p" by (simp add: insertPriority_slot p_def)
  have sc: "scopeRows b s' = map (\<lambda>r. if row_status r = ''draft'' then makeRoom p r else r) (scopeRows b s) @ [blockAt gen b ''draft'' None p rule s]"
    unfolding s'_def createBlockRule_scopes(1) p using T by simp
  have "drafts (map (\<lambda>r. if row_status r = ''draft'' then makeRoom p r else r) xs) = map (makeRoom p) (drafts xs)"
    "published (map (\<lambda>r. if row_status r = ''draft'' then makeRoom p r else r) xs) = published xs" for xs
    by (induction xs) (auto simp: drafts_def published_def)
  then show "drafts (scopeRows b s') = map (makeRoom p) (drafts (scopeRows b s)) @ [blockAt gen b ''draft'' None p rule s]"
    "published (scopeRows b s') = published (scopeRows b s)"
    unfolding sc by (simp_all add: drafts_def published_def)
qed

lemma createBlockRule_live:
  fixes gen b g rule s
  defines "p \<equiv> slot (byPriority (others (live (scopeRows b s))))" and "s' \<equiv> createBlockRule gen b ''published'' (Some g) rule s"
  assumes g: "maxGeneration (published (scopeRows b s)) = Some g"
  shows "drafts (scopeRows b s') = drafts (scopeRows b s)"
    and "live (scopeRows b s') = map (makeRoom p) (live (scopeRows b s)) @ [blockAt gen b ''published'' (Some g) p rule s]"
    and "maxGeneration (published (scopeRows b s')) = Some g"
    and "row_generation ` set (published (scopeRows b s')) = row_generation ` set (published (scopeRows b s))"
proof -
  let ?x = "blockAt gen b ''published'' (Some g) p rule s"
  let ?f = "\<lambda>r. if row_status r = ''published'' \<and> row_generation r = g then makeRoom p r else r"
  have T: "inSet b ''published'' (Some g) r \<longleftrightarrow> row_status r = ''published'' \<and> row_generation r = g" if "r \<in> set (scopeRows b s)" for r
    using that by (simp add: inSet_def scopeRows_def)
  have "filter (inSet b ''published'' (Some g)) (st_rules s) = live (scopeRows b s)"
    unfolding live_def g by (auto simp: inSet_def published_def scopeRows_def intro: filter_cong)
  then have "insertPriority b ''published'' (Some g) s = p" by (simp add: insertPriority_slot p_def)
  then have sc: "scopeRows b s' = map ?f (scopeRows b s) @ [?x]"
    unfolding s'_def createBlockRule_scopes(1) using T by simp
  have parts: "drafts (map ?f xs) = drafts xs" "published (map ?f xs) = map ?f (published xs)"
    "filter (\<lambda>r. row_generation r = g) (map ?f (published xs)) = map (makeRoom p) (filter (\<lambda>r. row_generation r = g) (published xs))" for xs
    by (induction xs) (auto simp: drafts_def published_def)
  show "drafts (scopeRows b s') = drafts (scopeRows b s)" unfolding sc by (simp add: parts) (simp add: drafts_def)
  have pub: "published (scopeRows b s') = map ?f (published (scopeRows b s)) @ [?x]"
    unfolding sc by (simp add: parts) (simp add: published_def)
  have "g \<in> row_generation ` set (published (scopeRows b s))"
    using g Max_in [of "row_generation ` set (published (scopeRows b s))"] by (auto simp: maxGeneration_def split: if_splits)
  then show gens: "row_generation ` set (published (scopeRows b s')) = row_generation ` set (published (scopeRows b s))"
    unfolding pub by (auto simp: image_iff)
  show m: "maxGeneration (published (scopeRows b s')) = Some g"
    using maxGeneration_keep [OF g, of "published (scopeRows b s')"] gens pub by auto
  show "live (scopeRows b s') = map (makeRoom p) (live (scopeRows b s)) @ [?x]"
  proof -
    have "live (scopeRows b s') = filter (\<lambda>r. row_generation r = g) (published (scopeRows b s'))"
      "live (scopeRows b s) = filter (\<lambda>r. row_generation r = g) (published (scopeRows b s))"
      using m g by (simp_all add: live_def)
    then show ?thesis by (simp add: pub parts)
  qed
qed

lemma insert_scopeOk:
  assumes "ordered (drafts rows)" and "retained rows" and "drafts rows' = map (makeRoom p) (drafts rows) @ [x]"
    and "1 \<le> p" and "row_priority x = p" and "\<not> row_isDefault x"
    and "row_generation ` set (published rows') = row_generation ` set (published rows)" and "synced rows'"
  shows "scopeOk rows'"
proof -
  have "retained rows'"
    unfolding retained_def using assms(2,7) unfolding retained_def by (smt (verit, best) image_iff)
  then show ?thesis using assms ordered_makeRoom [OF assms(1,4,5,6)] by (simp add: scopeOk_def)
qed

lemma storeOk_parts: "storeOk gen s \<Longrightarrow> idsOk gen s" "storeOk gen s \<Longrightarrow> \<forall>r \<in> set (st_rules s). rowShape r"
  by (simp_all add: storeOk_def)

lemma storeOk_intro:
  assumes "idsOk gen s" and "\<forall>r \<in> set (st_rules s). rowShape r" and "scopeOk (scopeRows b s)"
    and "\<And>b'. b' \<noteq> b \<Longrightarrow> scopeOk (scopeRows b' s)"
  shows "storeOk gen s"
proof -
  have "scopeOk (scopeRows b' s)" for b' using assms(3,4) by (cases "b' = b") auto
  then show ?thesis using assms(1,2) by (simp add: storeOk_def)
qed

lemma draft_slot_pos: "ordered (drafts rows) \<Longrightarrow> 1 \<le> slot (byPriority (others (drafts rows)))"
  by (intro slot_pos) (auto simp: others_def ordered_def)

lemma block_pair_ok:
  fixes rule :: block_rule
  assumes ok: "storeOk gen s" and inj: "inj (\<lambda>k. fst (gen k))" and k: "maxGeneration (published (scopeRows b s)) = Some k"
  defines "s1 \<equiv> createBlockRule gen b ''draft'' None rule s"
  defines "s2 \<equiv> createBlockRule gen b ''published'' (Some k) rule s1"
  shows "storeOk gen s2 \<and> maxGeneration (published (scopeRows b s2)) = Some k"
proof -
  define p where "p = slot (byPriority (others (drafts (scopeRows b s))))"
  note d = createBlockRule_draft [where b = b and gen = gen and rule = rule and s = s, folded p_def s1_def]
  have so: "ordered (drafts (scopeRows b s))" "retained (scopeRows b s)" "synced (scopeRows b s)"
    using ok by (auto simp: storeOk_def scopeOk_def)
  have sy: "mset (map content (live (scopeRows b s))) = mset (map content (drafts (scopeRows b s)))"
    "\<exists>r \<in> set (live (scopeRows b s)). row_isDefault r"
    using so(3) k by (auto simp: synced_def maxGeneration_def)
  have live1: "live (scopeRows b s1) = live (scopeRows b s)" unfolding live_def d(2) ..
  have p2: "slot (byPriority (others (live (scopeRows b s)))) = p"
    using slot_alike [OF sy(1) [symmetric]] so(1) by (simp add: p_def ordered_def)
  have k1: "maxGeneration (published (scopeRows b s1)) = Some k" using k d(2) by simp
  note l = createBlockRule_live [OF k1, where gen = gen and rule = rule, folded s2_def, unfolded p2 live1]
  note base1 = createBlockRule_base [OF storeOk_parts(1) [OF ok] inj storeOk_parts(2) [OF ok], of b "''draft''" None rule, folded s1_def]
  note base = createBlockRule_base [OF base1(1) inj base1(2), of b "''published''" "Some k" rule, folded s2_def]
  have im: "mset (map content (map (makeRoom p) xs)) = image_mset (makeRoom p) (mset (map content xs))" for xs
    by (induction xs) auto
  have "mset (map content (live (scopeRows b s2))) = mset (map content (drafts (scopeRows b s2)))"
    unfolding l(1,2) d(1) map_append mset_append im sy(1)
    by (simp add: blockAt_content [of gen b "''published''" "Some k" p rule s1 gen "''draft''" None s])
  then have "synced (scopeRows b s2)" using sy(2) by (auto simp: synced_def l(2))
  then have "scopeOk (scopeRows b s2)"
    using insert_scopeOk [OF so(1,2) trans [OF l(1) d(1)] draft_slot_pos [OF so(1), folded p_def]] l(4) d(2) by simp
  moreover have "scopeOk (scopeRows b' s2)" if "b' \<noteq> b" for b'
    using ok createBlockRule_scopes(2) [OF that] by (simp add: s1_def s2_def storeOk_def)
  ultimately have "storeOk gen s2" by (intro storeOk_intro [OF base, of b])
  then show ?thesis using l(3) by simp
qed

lemma block_draft_ok:
  fixes rule :: block_rule
  assumes ok: "storeOk gen s" and inj: "inj (\<lambda>k. fst (gen k))" and none: "published (scopeRows b s) = []"
  defines "s1 \<equiv> createBlockRule gen b ''draft'' None rule s"
  shows "storeOk gen s1 \<and> published (scopeRows b s1) = []"
proof -
  note d = createBlockRule_draft [where b = b and gen = gen and rule = rule and s = s, folded s1_def]
  have so: "ordered (drafts (scopeRows b s))" "retained (scopeRows b s)" using ok by (auto simp: storeOk_def scopeOk_def)
  note base = createBlockRule_base [OF storeOk_parts(1) [OF ok] inj storeOk_parts(2) [OF ok], of b "''draft''" None rule, folded s1_def]
  have "scopeOk (scopeRows b s1)"
    using insert_scopeOk [OF so(1,2) d(1) draft_slot_pos [OF so(1)]] d(2) none by (simp add: synced_def)
  moreover have "scopeOk (scopeRows b' s1)" if "b' \<noteq> b" for b'
    using ok createBlockRule_scopes(2) [OF that] by (simp add: s1_def storeOk_def)
  ultimately have "storeOk gen s1" by (intro storeOk_intro [OF base, of b])
  then show ?thesis using d(2) none by simp
qed

lemma blockHost_ok:
  assumes "storeOk gen s" and "inj (\<lambda>k. fst (gen k))" and "liveGeneration b s = g"
  shows "storeOk gen (blockHost gen b g s host) \<and> liveGeneration b (blockHost gen b g s host) = g"
proof (cases g)
  case None
  then have "published (scopeRows b s) = []"
    using assms(3) by (simp add: liveGeneration_def isPublished_scope maxGeneration_def split: if_splits)
  from block_draft_ok [OF assms(1,2) this] show ?thesis
    unfolding blockHost_def Let_def None option.case by (simp add: liveGeneration_def isPublished_scope maxGeneration_def)
next
  case (Some k)
  then have "maxGeneration (published (scopeRows b s)) = Some k"
    using assms(3) by (simp add: liveGeneration_def isPublished_scope)
  from block_pair_ok [OF assms(1,2) this] show ?thesis
    unfolding blockHost_def Let_def Some option.case by (simp add: liveGeneration_def isPublished_scope)
qed

lemma initBlocklistDefaults_ok:
  assumes "storeOk gen s" and "inj (\<lambda>k. fst (gen k))"
  shows "storeOk gen (initBlocklistDefaults gen b hosts s)"
proof -
  have "storeOk gen (foldl (blockHost gen b g) s hs)" if "storeOk gen s" "liveGeneration b s = g" for g s hs
    using that by (induction hs arbitrary: s) (simp_all add: blockHost_ok assms(2))
  then show ?thesis using assms(1) by (simp add: initBlocklistDefaults_def Let_def)
qed

lemma activateBlocklistHost_ok:
  assumes "storeOk gen s" and "inj (\<lambda>k. fst (gen k))" and "activateBlocklistHost gen b i hosts s = Inr (x, s')"
  shows "storeOk gen s'"
  using assms initBlocklistDefaults_ok [OF assms(1,2)] toggleBlocklistRule_ok [OF assms(1)]
  by (auto simp: activateBlocklistHost_def Let_def and_then_Inr split: option.splits if_splits)

section \<open>Grants\<close>

lemma createGrantRows_facts:
  "map row_id (createGrantRows b gen n p cs) = map (\<lambda>k. fst (gen k)) [n..<n + length cs]"
  "map row_priority (createGrantRows b gen n p cs) = map (\<lambda>k. p + int k) [0..<length cs]"
  "length (createGrantRows b gen n p cs) = length cs"
proof (induction cs arbitrary: n p)
  case (Cons c cs)
  {
    case 1
    have "[n..<n + length (c # cs)] = n # [Suc n..<Suc n + length cs]" by (simp add: upt_rec)
    then show ?case by (simp add: Cons grantRow_def)
  next
    case 2
    have "[0..<length (c # cs)] = 0 # map Suc [0..<length cs]" unfolding list.size by (metis Suc_eq_plus1 add_0 map_Suc_upt upt_conv_Cons zero_less_Suc add.right_neutral)
    then show ?case by (simp add: Cons grantRow_def o_def)
  next
    case 3
    then show ?case by (simp add: Cons)
  }
qed simp_all

text \<open>A create that names an agent and a resource by a nonempty id.\<close>

definition createOk :: "grant_create \<Rightarrow> bool" where
  "createOk c = (gc_agentId c \<noteq> [] \<and> targetShape (gc_target c))"

lemma createGrantRows_shape:
  "list_all createOk cs \<Longrightarrow> x \<in> set (createGrantRows (WorkspaceScope w) gen n p cs) \<Longrightarrow>
     isDraft (WorkspaceScope w) x \<and> \<not> row_isDefault x \<and> rowShape x \<and> p \<le> row_priority x"
proof (induction cs arbitrary: n p)
  case (Cons c cs)
  show ?case
  proof (cases "x = grantRow (WorkspaceScope w) (gen n) p c")
    case True
    then show ?thesis using Cons(2)
      by (auto simp: grantRow_def isDraft_def inScope_def rowShape_def createOk_def onePrincipal_def)
  next
    case False
    then show ?thesis using Cons(1) [of "Suc n" "p + 1"] Cons(2,3) by auto
  qed
qed simp

lemma ready_grants:
  assumes "readyFor (grantBase scope) gen s" and "inj (\<lambda>k. fst (gen k))" and "list_all createOk cs"
  shows "readyFor (grantBase scope) gen (appendGrantRules (grantBase scope) gen cs s)"
proof -
  let ?b = "grantBase scope"
  let ?xs = "createGrantRows ?b gen (st_next s) (tailPriority ?b (st_rules s) + 1) cs"
  have "readyFor ?b gen (s\<lparr>st_rules := st_rules s @ ?xs, st_next := st_next s + length ?xs\<rparr>)"
    using createGrantRows_facts [of ?b gen "st_next s" "tailPriority ?b (st_rules s) + 1" cs]
      createGrantRows_shape [OF assms(3)]
    by (intro ready_append [OF assms(1,2)]) (fastforce simp: grantBase_def distinct_map inj_on_def)+
  then show ?thesis by (simp add: appendGrantRules_def createGrantRows_facts)
qed

lemma replaceAndPublish_ok:
  assumes "storeOk gen s" and "inj (\<lambda>k. fst (gen k))" and "list_all createOk cs"
    and "\<And>r. P r \<Longrightarrow> isDraft (grantBase scope) r"
  shows "\<exists>g k s'. replaceAndPublish scope gen P cs s = Inr ((g, k), s') \<and> storeOk gen s' \<and>
    liveGeneration (grantBase scope) s' = Some g"
proof -
  have "readyFor (grantBase scope) gen (s\<lparr>st_rules := filter (\<lambda>r. \<not> P r) (st_rules s)\<rparr>)"
    using assms(4) by (intro ready_filter [OF storeOk_readyFor [OF assms(1)]]) auto
  from publish_ok [OF ready_grants [OF this assms(2,3)] assms(2)] show ?thesis
    unfolding replaceAndPublish_def by blast
qed

lemma creates_ok:
  "agentId \<noteq> [] \<Longrightarrow> connectionId \<noteq> [] \<Longrightarrow> list_all createOk (stackCreates agentId connectionId rules)"
  "agentId \<noteq> [] \<Longrightarrow> secretId \<noteq> [] \<Longrightarrow> list_all createOk (secretCreates agentId secretId rules)"
  by (auto simp: list_all_iff createOk_def stackCreates_def secretCreates_def connectionTarget_def secretTarget_def targetShape_def)

lemma replace_keeps:
  assumes "storeOk gen s" and "inj (\<lambda>k. fst (gen k))" and "list_all createOk cs"
    and "replaceAndPublish scope gen (grantRowWhere scope a c sec) cs s = Inr (x, s')"
  shows "storeOk gen s'"
  using replaceAndPublish_ok [OF assms(1-3), of "grantRowWhere scope a c sec" scope] assms(4)
  by (auto simp: grantRowWhere_def)

lemma setConnectionGrant_ok:
  assumes "storeOk gen s" and "inj (\<lambda>k. fst (gen k))" and "agentId \<noteq> []" and "connectionId \<noteq> []"
    and "setConnectionGrant reg env labels gen scope agentId connectionId request resources s = Inr (x, s')"
  shows "storeOk gen s'"
  using assms(5) replace_keeps [OF assms(1,2) creates_ok(1) [OF assms(3,4)]] assms(1)
  by (auto simp: setConnectionGrant_def Let_def and_then_Inr split: if_splits)

lemma removeConnectionGrant_ok:
  assumes "storeOk gen s" and "inj (\<lambda>k. fst (gen k))"
    and "removeConnectionGrant env gen scope agentId connectionId s = Inr (x, s')"
  shows "storeOk gen s'"
  using assms(3) replace_keeps [OF assms(1,2), of "[]"] assms(1)
  by (auto simp: removeConnectionGrant_def and_then_Inr split: if_splits)

lemma setSecretGrant_ok:
  assumes "storeOk gen s" and "inj (\<lambda>k. fst (gen k))" and "agentId \<noteq> []" and "secretId \<noteq> []"
    and "setSecretGrant env names gen scope agentId secretId s = Inr (x, s')"
  shows "storeOk gen s'"
  using assms(5) replace_keeps [OF assms(1,2) creates_ok(2) [OF assms(3,4)]] assms(1)
  by (auto simp: setSecretGrant_def Let_def and_then_Inr split: if_splits)

lemma removeSecretGrant_ok:
  assumes "storeOk gen s" and "inj (\<lambda>k. fst (gen k))"
    and "removeSecretGrant env gen scope agentId secretId s = Inr (x, s')"
  shows "storeOk gen s'"
  using assms(3) replace_keeps [OF assms(1,2), of "[]"] assms(1)
  by (auto simp: removeSecretGrant_def and_then_Inr split: if_splits)

lemma attachDefaultConnectionGrant_ok:
  assumes "storeOk gen s" and "inj (\<lambda>k. fst (gen k))" and "agentId \<noteq> []" and "connectionId \<noteq> []"
    and "attachDefaultConnectionGrant reg env labels gen scope agentId connectionId s = Inr (x, s')"
  shows "storeOk gen s'"
proof -
  have "storeOk gen s''" if "publishDraftInTx (grantBase scope) gen
      (appendGrantRules (grantBase scope) gen (stackCreates agentId connectionId rules) s) = Inr (y, s'')" for rules y s''
    using publish_ok [OF ready_grants [OF storeOk_readyFor [OF assms(1)] assms(2) creates_ok(1) [OF assms(3,4), of rules]] assms(2), of scope]
      that by auto
  then show ?thesis using assms(1,5)
    by (auto simp: attachDefaultConnectionGrant_def Let_def and_then_Inr split: if_splits)
qed

section \<open>Seeding\<close>

lemma seed_default_ok:
  assumes "storeOk gen s" and "inj (\<lambda>k. fst (gen k))" and "scopeRows b s = []"
    and "bf_isDefault r" and "bf_priority r = 0" and "bf_source r = ''default''" and "bf_identities r = []" and "bf_targets r = []"
  shows "storeOk gen (snd (backfillPublishScope gen b [r] s))"
proof -
  let ?d = "(backfillRow b r ''draft'' 0 (snd (gen (st_next s))))\<lparr>row_id := fst (gen (st_next s))\<rparr>"
  let ?l = "(backfillRow b r ''published'' 1 (snd (gen (st_next s))))\<lparr>row_id := fst (gen (Suc (st_next s)))\<rparr>"
  have none: "filter (isPublished b) (st_rules s) = []"
    using assms(3) by (auto simp: scopeRows_def filter_empty_conv isPublished_def)
  have e: "snd (backfillPublishScope gen b [r] s) = s\<lparr>st_rules := st_rules s @ [?d, ?l], st_next := Suc (Suc (st_next s))\<rparr>"
    by (simp add: backfillPublishScope_def none backfillOne_def insertRow_def backfillRow_def Let_def)
  have sc: "inScope b' ?d \<longleftrightarrow> b' = b" "inScope b' ?l \<longleftrightarrow> b' = b" for b'
    by (auto simp: backfillRow_def inScope_def scopeName_def scopeOrg_def scopeWorkspace_def split: policy_scope_base.splits)
  have "scopeRows b (snd (backfillPublishScope gen b [r] s)) = [?d, ?l]"
    unfolding e using assms(3) sc by (simp add: scopeRows_def)
  moreover have "scopeOk [?d, ?l]"
    using assms(4,5) by (simp add: scopeOk_def ordered_def synced_def retained_def drafts_def published_def live_def
        maxGeneration_def backfillRow_def content_def PUBLISHED_GENERATION_RETENTION_def)
  moreover have "scopeRows b' (snd (backfillPublishScope gen b [r] s)) = scopeRows b' s" if "b' \<noteq> b" for b'
    unfolding e using that sc by (simp add: scopeRows_def)
  moreover have "idsOk gen (snd (backfillPublishScope gen b [r] s))"
    unfolding e using idsOk_extend [OF _ assms(2), of s "[?d, ?l]" 2] assms(1) by (simp add: storeOk_def upt_rec)
  moreover have "rowShape ?d" "rowShape ?l" using assms(4-8) by (simp_all add: rowShape_def backfillRow_def)
  then have "\<forall>x \<in> set (st_rules (snd (backfillPublishScope gen b [r] s))). rowShape x"
    unfolding e using assms(1) by (simp add: storeOk_def)
  ultimately show ?thesis using assms(1) by (intro storeOk_intro [of _ _ b]) (simp_all add: storeOk_def)
qed

lemma seeders_ok:
  assumes "storeOk gen s" and "inj (\<lambda>k. fst (gen k))"
  shows "scopeRows (WorkspaceScope w) s = [] \<Longrightarrow> storeOk gen (onpremNewWorkspacePolicySeeder gen (Some w) s)"
    and "scopeRows (OrganizationScope orgId) s = [] \<Longrightarrow> storeOk gen (eeNewOrgPolicySeeder gen orgId s)"
  using assms seed_default_ok [OF assms]
  by (simp_all add: onpremNewWorkspacePolicySeeder_def eeNewOrgPolicySeeder_def onpremWorkspaceDefaultRule_def ALLOW_DEFAULT_def)

end
