(* ===== verification/PolicySteps.thy ===== *)
theory PolicySteps
  imports StoreWriters
begin

text \<open>
  The rule table as a state machine: every transaction of every writer is a step, and a store is
  reachable when steps lead to it from the empty table.  Reachable stores satisfy the invariant;
  what it gives the engine is that the live generation loads as the draft does.  The section on
  reordering shows which orders are accepted and that they take effect.
\<close>

section \<open>The writers as steps\<close>

text \<open>
  One transaction of any writer.  The premises are what the input schemas demand (no empty id) and,
  for a seed, that the scope is new; everything else the writers check themselves.
\<close>

inductive policy_step :: "id_supply \<Rightarrow> policy_store \<Rightarrow> policy_store \<Rightarrow> bool" for gen where
  step_create: "createInputOk input \<Longrightarrow> createPolicyRule env gen b input s = Inr (x, s') \<Longrightarrow> policy_step gen s s'"
| step_update: "updateInputOk u \<Longrightarrow> updatePolicyRule env gen b i u s = Inr (x, s') \<Longrightarrow> policy_step gen s s'"
| step_delete: "deletePolicyRule gen b i s = Inr (y, s') \<Longrightarrow> policy_step gen s s'"
| step_reorder: "reorderPolicyRules gen b is s = Inr (z, s') \<Longrightarrow> policy_step gen s s'"
| step_default: "setPolicyDefaultAction gen b action s = Inr (x, s') \<Longrightarrow> policy_step gen s s'"
| step_publish: "publishPolicy b gen s = Inr (g, s') \<Longrightarrow> policy_step gen s s'"
| step_principal: "policy_step gen s (cascadePrincipal who (snd (dropPrincipalFromPolicyInTx who s)))"
| step_seed_workspace: "scopeRows (WorkspaceScope w) s = [] \<Longrightarrow> policy_step gen s (onpremNewWorkspacePolicySeeder gen (Some w) s)"
| step_seed_organization: "scopeRows (OrganizationScope orgId) s = [] \<Longrightarrow> policy_step gen s (eeNewOrgPolicySeeder gen orgId s)"
| step_block_defaults: "policy_step gen s (initBlocklistDefaults gen b hosts s)"
| step_block_host: "activateBlocklistHost gen b i hosts s = Inr (st, s') \<Longrightarrow> policy_step gen s s'"
| step_block_toggle: "toggleBlocklistRule b i enabled s = Inr s' \<Longrightarrow> policy_step gen s s'"
| step_block_remove: "removeBlocklistRule b i s = Inr s' \<Longrightarrow> policy_step gen s s'"
| step_block_remove_all: "policy_step gen s (removeAllBlocklistRules b hosts s)"
| step_grant: "a \<noteq> [] \<Longrightarrow> c \<noteq> [] \<Longrightarrow> setConnectionGrant reg env labels gen scope a c request resources s = Inr (m, s') \<Longrightarrow>
    policy_step gen s s'"
| step_revoke: "removeConnectionGrant env gen scope a c s = Inr (m, s') \<Longrightarrow> policy_step gen s s'"
| step_grant_secret: "a \<noteq> [] \<Longrightarrow> c \<noteq> [] \<Longrightarrow> setSecretGrant env names gen scope a c s = Inr (m, s') \<Longrightarrow> policy_step gen s s'"
| step_revoke_secret: "removeSecretGrant env gen scope a c s = Inr (m, s') \<Longrightarrow> policy_step gen s s'"
| step_attach: "a \<noteq> [] \<Longrightarrow> c \<noteq> [] \<Longrightarrow> attachDefaultConnectionGrant reg env labels gen scope a c s = Inr (k, s') \<Longrightarrow>
    policy_step gen s s'"

inductive reachable :: "id_supply \<Rightarrow> policy_store \<Rightarrow> bool" for gen where
  reachable_init: "reachable gen \<lparr>st_rules = [], st_next = 0\<rparr>"
| reachable_step: "reachable gen s \<Longrightarrow> policy_step gen s s' \<Longrightarrow> reachable gen s'"

lemmas writers_ok =
  createPolicyRule_ok updatePolicyRule_ok deletePolicyRule_ok reorderPolicyRules_ok setPolicyDefaultAction_ok
  publishPolicy_ok deletion_ok seeders_ok initBlocklistDefaults_ok activateBlocklistHost_ok toggleBlocklistRule_ok
  removeBlocklistRule_ok removeAllBlocklistRules_ok setConnectionGrant_ok removeConnectionGrant_ok
  setSecretGrant_ok removeSecretGrant_ok attachDefaultConnectionGrant_ok

lemma policy_step_ok:
  assumes "policy_step gen s s'" and "inj (\<lambda>k. fst (gen k))" and "storeOk gen s"
  shows "storeOk gen s'"
  using assms by (induction rule: policy_step.induct) (blast intro: writers_ok)+

lemma empty_store_ok: "storeOk gen \<lparr>st_rules = [], st_next = 0\<rparr>"
  by (simp add: storeOk_def idsOk_def scopeOk_def scopeRows_def ordered_def synced_def retained_def)

lemma reachable_ok:
  assumes "reachable gen s" and "inj (\<lambda>k. fst (gen k))"
  shows "storeOk gen s"
  using assms by (induction rule: reachable.induct) (simp_all add: empty_store_ok policy_step_ok)

section \<open>What the invariant gives the engine\<close>

lemma loadRules_draft:
  "loadRules (st_rules s) b ''draft'' e = byPriority (filter (\<lambda>r. row_enabled r \<and> (e \<or> row_source r \<noteq> ''equipment'')) (drafts (scopeRows b s)))"
  by (auto simp: loadRules_def byPriority_def drafts_def scopeRows_def Let_def intro!: arg_cong [of _ _ "sort_key _"] filter_cong)

lemma loadRules_live:
  "loadRules (st_rules s) b ''published'' e = byPriority (filter (\<lambda>r. row_enabled r \<and> (e \<or> row_source r \<noteq> ''equipment'')) (live (scopeRows b s)))"
proof -
  have p: "filter (\<lambda>r. inScope b r \<and> row_status r = ''published'') (st_rules s) = published (scopeRows b s)"
    by (auto simp: published_def scopeRows_def intro: filter_cong)
  show ?thesis
  proof (cases "maxGeneration (published (scopeRows b s))")
    case None
    then show ?thesis by (simp add: loadRules_def p live_def byPriority_def)
  next
    case (Some g)
    have "filter (\<lambda>r. (inScope b r \<and> row_status r = ''published'' \<and> row_enabled r \<and> (if e then True else row_source r \<noteq> ''equipment'')) \<and>
        row_generation r = g) (st_rules s) =
      filter (\<lambda>r. row_enabled r \<and> (e \<or> row_source r \<noteq> ''equipment'')) (filter (\<lambda>r. row_generation r = g) (published (scopeRows b s)))"
      unfolding published_def scopeRows_def filter_filter by (rule filter_cong) auto
    then show ?thesis using Some by (simp add: loadRules_def p live_def byPriority_def)
  qed
qed

lemma live_loads_as_draft:
  assumes "storeOk gen s" and "published (scopeRows b s) \<noteq> []"
  shows "map content (loadRules (st_rules s) b ''published'' e) = map content (loadRules (st_rules s) b ''draft'' e)"
proof -
  let ?P = "\<lambda>r. row_enabled r \<and> (e \<or> row_source r \<noteq> ''equipment'')"
  have sy: "mset (map content (live (scopeRows b s))) = mset (map content (drafts (scopeRows b s)))"
    and o: "distinct (map row_priority (drafts (scopeRows b s)))"
    using assms by (auto simp: storeOk_def scopeOk_def synced_def ordered_def)
  have f: "mset (map content (filter ?P xs)) = filter_mset ?P (mset (map content xs))" for xs by (induction xs) auto
  have "mset (map content (filter ?P (drafts (scopeRows b s)))) = mset (map content (filter ?P (live (scopeRows b s))))"
    unfolding f sy ..
  from content_byPriority [OF this] show ?thesis unfolding loadRules_draft loadRules_live using o
    by (simp add: distinct_map_filter)
qed

lemma live_decides_as_draft:
  assumes "storeOk gen s" and "published (scopeRows b s) \<noteq> []"
  shows "map (engineRule sh cp) (loadRules (st_rules s) b ''published'' e) = map (engineRule sh cp) (loadRules (st_rules s) b ''draft'' e)"
proof -
  have "map (engineRule sh cp) xs = map (engineRule sh cp) (map content xs)" for xs
    by (simp add: engineRule_content [symmetric])
  then show ?thesis using live_loads_as_draft [OF assms] by metis
qed

lemma generations_bounded:
  assumes "storeOk gen s"
  shows "card (row_generation ` set (published (scopeRows b s))) \<le> 10"
proof (cases "published (scopeRows b s)")
  case (Cons r rs)
  let ?G = "row_generation ` set (published (scopeRows b s))"
  let ?m = "Max ?G"
  have m: "?m \<in> ?G" using Cons by (intro Max_in) auto
  have "retained (scopeRows b s)" using assms by (simp add: storeOk_def scopeOk_def)
  then have "?m - 10 < g" if "g \<in> ?G" for g
    using that m by (force simp: retained_def PUBLISHED_GENERATION_RETENTION_def)
  then have "?G \<subseteq> {?m - 9..?m}" by (auto simp: less_le_not_le) (smt (verit) Max_ge finite_imageI finite_set imageI)+
  from card_mono [OF _ this] show ?thesis by simp
qed simp

section \<open>Reordering\<close>

lemma sorted_position: "distinct xs \<Longrightarrow> sorted (map (position xs) xs)"
proof (induction xs)
  case (Cons x xs)
  have suc: "sorted (map Suc ys)" if "sorted ys" for ys using that by (induction ys) auto
  have "map (position (x # xs)) (x # xs) = 0 # map Suc (map (position xs) xs)"
    using Cons(2) by (auto simp: position_Cons)
  then show ?case using suc [of "map (position xs) xs"] Cons by (simp del: list.map)
qed simp

lemma order_by_position:
  assumes "mset zs = mset xs" and "distinct xs" and "sorted (map (position xs) zs)"
  shows "zs = xs"
proof -
  have inj: "inj_on (position xs) (set xs)" using position_inj by (fastforce simp: inj_on_def)
  have "sort_key (position xs) xs = zs" using assms inj by (intro sort_key_inj_key_eq) auto
  moreover have "sort_key (position xs) xs = xs" using assms(2) inj by (intro sort_key_inj_key_eq sorted_position) auto
  ultimately show ?thesis by simp
qed

lemma others_ensureDefault:
  "readyFor b gen s \<Longrightarrow> inj (\<lambda>k. fst (gen k)) \<Longrightarrow>
     others (drafts (scopeRows b (snd (ensureDefault b gen s)))) = others (drafts (scopeRows b s))"
  unfolding others_def by (rule ensureDefault_ok(3))

text \<open>A change of the draft, then the publish: the rules it leaves are those of the changed draft.\<close>

lemma commit_result:
  assumes "readyFor b gen s" and "inj (\<lambda>k. fst (gen k))"
  obtains s' where "commitDraft b gen x s = Inr (x, s')" "storeOk gen s'" "published (scopeRows b s') \<noteq> []"
    "others (drafts (scopeRows b s')) = others (drafts (scopeRows b s))"
proof -
  obtain s' where s': "commitDraft b gen x s = Inr (x, s')" "storeOk gen s'" "liveGeneration b s' = Some (nextGeneration b s)"
    "drafts (scopeRows b s') = drafts (scopeRows b (snd (ensureDefault b gen s)))"
    using commitDraft_ok [OF assms, of x] by (elim exE conjE)
  have "published (scopeRows b s') \<noteq> []"
    using s'(3) by (auto simp: liveGeneration_def isPublished_scope maxGeneration_def)
  then show thesis using that s' others_ensureDefault [OF assms] by simp
qed

lemma reorder_order:
  assumes "readyFor b gen s" and "mset is = mset (ruleIds b s)"
  shows "map row_id (byPriority (others (drafts (scopeRows b (assignPriorities 1 is s))))) = is"
proof -
  have dist: "distinct is" using ruleIds_distinct assms by (metis mset_eq_imp_distinct_iff readyFor_def)
  let ?rows = "map (placed 1 is) (others (drafts (scopeRows b s)))"
  have rows: "others (drafts (scopeRows b (assignPriorities 1 is s))) = ?rows"
    unfolding assignPriorities_placed [OF dist] others_def drafts_def scopeRows_def
    by (simp add: filter_map o_def)
  have ids: "map row_id ?rows = ruleIds b s" by (simp add: ruleIds_def others_def)
  have "row_priority r = 1 + int (position is (row_id r))" if "r \<in> set ?rows" for r
  proof -
    have "row_id r \<in> set (map row_id ?rows)" using that by (metis imageI list.set_map)
    then have "row_id r \<in> set is" unfolding ids using assms(2) by (metis mset_eq_setD)
    then show ?thesis using that by (auto simp: placed_def)
  qed
  then have "map row_priority (byPriority ?rows) = map (\<lambda>n. 1 + int n) (map (position is) (map row_id (byPriority ?rows)))"
    by simp
  moreover have "sorted (map row_priority (byPriority ?rows))" by (simp add: byPriority_def)
  moreover have "sorted ns" if "sorted (map (\<lambda>n. 1 + int n) ns)" for ns using that by (induction ns) auto
  ultimately have "sorted (map (position is) (map row_id (byPriority ?rows)))" by metis
  moreover have "mset (map row_id (byPriority ?rows)) = mset is"
  proof -
    have "mset (map row_id (byPriority ?rows)) = mset (map row_id ?rows)" by (metis mset_byPriority mset_map)
    then show ?thesis by (simp only: ids assms(2))
  qed
  ultimately show ?thesis unfolding rows using order_by_position dist by blast
qed

lemma reorder_result:
  assumes "storeOk gen s" and "inj (\<lambda>k. fst (gen k))"
  shows "if mset is = mset (ruleIds b s)
    then \<exists>dtos s'. reorderPolicyRules gen b is s = Inr (dtos, s') \<and>
           map row_id (byPriority (others (drafts (scopeRows b s')))) = is
    else reorderPolicyRules gen b is s = Inl CONFLICT"
proof (cases "mset is = mset (ruleIds b s)")
  case True
  have ready: "readyFor b gen s" using assms(1) by (rule storeOk_readyFor)
  obtain s' where "commitDraft b gen () (assignPriorities 1 is s) = Inr ((), s')"
    "others (drafts (scopeRows b s')) = others (drafts (scopeRows b (assignPriorities 1 is s)))"
    using commit_result [OF reorder_ready [OF ready True] assms(2)] by metis
  then show ?thesis using reorder_order [OF ready True] reorder_check [OF storeOk_parts(1) [OF assms(1)], of "is" b] True
    by (simp add: reorderPolicyRules_def Let_def and_then_def)
next
  case False
  then show ?thesis using reorder_check [OF storeOk_parts(1) [OF assms(1)], of "is" b]
    by (simp add: reorderPolicyRules_def Let_def)
qed

end
