(* ===== verification/PolicyEffects.thy ===== *)
theory PolicyEffects
  imports PolicySteps
begin

text \<open>
  What a write does to decisions: deleting a principal is invisible to everyone else, a saved
  grant decides as chosen behind the other rules of its workspace, and a blocked host is denied.
\<close>

section \<open>Deleting a principal\<close>

text \<open>A rule up to whom it names: what a decision reads of the rule that decides.\<close>

definition anyone :: "new_rule \<Rightarrow> new_rule" where
  "anyone r = r\<lparr>rule_identities := []\<rparr>"

lemma anyone_facts:
  "strictnessRank r = strictnessRank (anyone r)" "toDecision r = toDecision (anyone r)"
  "rule_action_of r = rule_action_of (anyone r)"
  by (simp_all add: anyone_def strictnessRank_def toDecision_def)

lemma evaluateNew_anyone:
  assumes "\<And>l. map_option anyone (pickAt reg l rules q) = map_option anyone (pickAt reg l rules' q)"
    and "\<And>l. map_option anyone (defaultAt l rules) = map_option anyone (defaultAt l rules')"
  shows "evaluateNew reg rules q = evaluateNew reg rules' q"
proof -
  have floor: "floorAt l rules q = floorAt l rules' q" for l
    using assms(2) [of l] anyone_facts(3) unfolding floorAt_def
    by (cases "defaultAt l rules"; cases "defaultAt l rules'") (auto, metis+)
  have same: "rule_action_of a = rule_action_of b" "strictnessRank a = strictnessRank b" "toDecision a = toDecision b"
    if "anyone a = anyone b" for a b using that anyone_facts by metis+
  show ?thesis
    unfolding evaluateNew_def evaluatePolicyOutcome_levels floor
    using assms(1) [of Organization] assms(1) [of Workspace]
    by (cases "pickAt reg Organization rules q"; cases "pickAt reg Organization rules' q";
        cases "pickAt reg Workspace rules q"; cases "pickAt reg Workspace rules' q")
      (auto simp: outcomeToDecision_def dest: same, (metis same(2))+)
qed

definition rowLevel :: "sim_rule_row \<Rightarrow> level" where
  "rowLevel r = (if row_scope r = ''organization'' then Organization else Workspace)"

lemma pickAt_rows:
  "pickAt reg l (map (engineRule sh cp) rows) q = map_option (engineRule sh cp)
     (find (\<lambda>r. ruleMatches reg (engineRule sh cp r) q)
       (sort_key row_priority (filter (\<lambda>r. \<not> row_isDefault r \<and> rowLevel r = l) rows)))"
proof -
  have "explicitAt l (map (engineRule sh cp) rows) = map (engineRule sh cp) (filter (\<lambda>r. \<not> row_isDefault r \<and> rowLevel r = l) rows)"
    by (induction rows) (auto simp: explicitAt_def toSimRule_def Let_def rowLevel_def)
  then show ?thesis by (simp add: pickAt_def levelPick_rows)
qed

lemma defaultAt_rows:
  "defaultAt l (map (engineRule sh cp) rows) = map_option (engineRule sh cp) (find (\<lambda>r. row_isDefault r \<and> rowLevel r = l) rows)"
  by (induction rows) (auto simp: defaultAt_def toSimRule_def Let_def rowLevel_def)

lemma find_map_filter:
  assumes "\<And>z. z \<in> set zs \<Longrightarrow> M z \<longleftrightarrow> P z \<and> M (w z)"
  shows "find M (map w (filter P zs)) = map_option w (find M zs)"
  using assms by (induction zs) auto

text \<open>A change of rows that a request cannot see.\<close>

lemma unseen_change:
  assumes keep: "\<And>r. row_priority (w r) = row_priority r" "\<And>r. row_isDefault (w r) = row_isDefault r" "\<And>r. rowLevel (w r) = rowLevel r"
      "\<And>r. anyone (engineRule sh cp (w r)) = anyone (engineRule sh cp r)"
    and default: "\<And>r. r \<in> set rows \<Longrightarrow> row_isDefault r \<Longrightarrow> P r"
    and unseen: "\<And>r. r \<in> set rows \<Longrightarrow> \<not> row_isDefault r \<Longrightarrow>
      ruleMatches reg (engineRule sh cp r) q \<longleftrightarrow> P r \<and> ruleMatches reg (engineRule sh cp (w r)) q"
  shows "evaluateNew reg (map (engineRule sh cp) (map w (filter P rows))) q = evaluateNew reg (map (engineRule sh cp) rows) q"
proof (rule evaluateNew_anyone)
  fix l
  let ?A = "\<lambda>r. \<not> row_isDefault r \<and> rowLevel r = l" and ?M = "\<lambda>r. ruleMatches reg (engineRule sh cp r) q"
  have "sort_key row_priority (filter ?A (map w (filter P rows))) = map w (filter P (sort_key row_priority (filter ?A rows)))"
  proof -
    have "filter ?A (map w (filter P rows)) = map w (filter P (filter ?A rows))"
      by (simp add: filter_map o_def keep) (metis (no_types, lifting) filter_filter conj_commute)
    moreover have "sort_key row_priority (map w zs) = map w (sort_key row_priority zs)" for zs
      using sort_key_map_comp [of row_priority w zs] by (simp add: o_def keep(1))
    ultimately show ?thesis by (simp add: filter_sort)
  qed
  moreover have "find ?M (map w (filter P (sort_key row_priority (filter ?A rows)))) =
      map_option w (find ?M (sort_key row_priority (filter ?A rows)))"
    using unseen by (intro find_map_filter) auto
  ultimately show "map_option anyone (pickAt reg l (map (engineRule sh cp) (map w (filter P rows))) q) =
      map_option anyone (pickAt reg l (map (engineRule sh cp) rows) q)"
    unfolding pickAt_rows by (simp add: option.map_comp o_def keep(4))
  have "find (\<lambda>r. row_isDefault r \<and> rowLevel r = l) (map w (filter P rows)) =
      map_option w (find (\<lambda>r. row_isDefault r \<and> rowLevel r = l) rows)"
    using default by (intro find_map_filter) (auto simp: keep)
  then show "map_option anyone (defaultAt l (map (engineRule sh cp) (map w (filter P rows)))) =
      map_option anyone (defaultAt l (map (engineRule sh cp) rows))"
    unfolding defaultAt_rows by (simp add: option.map_comp o_def keep(4))
qed

text \<open>The principal takes part in a request, and where the rules that may name it live.\<close>

definition actsIn :: "deleted_principal \<Rightarrow> policy_request \<Rightarrow> bool" where
  "actsIn who q =
     (case who of
        DeletedAgent a _ \<Rightarrow> req_agentId q = a
      | DeletedGroup g _ \<Rightarrow> g \<in> set (case req_groupIds q of None \<Rightarrow> [] | Some gs \<Rightarrow> gs)
      | DeletedUser u \<Rightarrow> u \<in> set (case req_userIds q of None \<Rightarrow> [] | Some us \<Rightarrow> us))"

definition namedAtHome :: "deleted_principal \<Rightarrow> sim_rule_row \<Rightarrow> bool" where
  "namedAtHome who r =
     (list_ex (namesPrincipal who) (row_identities r) \<longrightarrow>
       (case who of
          DeletedAgent _ workspaceId \<Rightarrow> inScope (WorkspaceScope workspaceId) r
        | DeletedGroup _ organizationId \<Rightarrow> inScope (OrganizationScope organizationId) r
        | DeletedUser _ \<Rightarrow> row_scope r = ''organization''))"

definition grantNamesAgent :: "sim_rule_row \<Rightarrow> bool" where
  "grantNamesAgent r = (row_source r = ''grant'' \<longrightarrow> row_identities r \<noteq> [])"

definition identityHolds :: "new_identity \<Rightarrow> policy_request \<Rightarrow> bool" where
  "identityHolds i q =
     (case i of
        AgentIdentity a \<Rightarrow> a = req_agentId q
      | UserIdentity u \<Rightarrow> u \<in> set (case req_userIds q of None \<Rightarrow> [] | Some us \<Rightarrow> us)
      | GroupIdentity g \<Rightarrow> g \<in> set (case req_groupIds q of None \<Rightarrow> [] | Some gs \<Rightarrow> gs))"

lemma identityMatches_rows:
  "identityMatches (engineRule sh cp r) q \<longleftrightarrow>
     row_identities r = [] \<or> (\<exists>i \<in> set (row_identities r). identityHolds (decodeIdentity i) q)"
  by (simp add: identityMatches_def engineRule_fields list_ex_iff identityHolds_def)

lemma named_not_holding:
  "onePrincipal i \<Longrightarrow> namesPrincipal who i \<Longrightarrow> \<not> actsIn who q \<Longrightarrow> \<not> identityHolds (decodeIdentity i) q"
  by (cases who) (auto simp: onePrincipal_def namesPrincipal_def actsIn_def identityHolds_def decodeIdentity_def split: option.splits)

lemma ruleMatches_anyone: "ruleMatches reg a q \<longleftrightarrow> identityMatches a q \<and> ruleMatches reg (anyone a) q"
proof -
  have "rule_conditions (anyone a) = rule_conditions a" by (simp add: anyone_def)
  then have "targetMatches reg t (anyone a) q = targetMatches reg t a q" for t
    unfolding targetMatches_def by (simp only:)
  moreover have "identityMatches (anyone a) q" by (simp add: identityMatches_def anyone_def)
  ultimately show ?thesis by (simp add: ruleMatches_def) (simp add: anyone_def)
qed

lemma withoutPrincipal_facts:
  "row_priority (withoutPrincipal who r) = row_priority r" "row_isDefault (withoutPrincipal who r) = row_isDefault r"
  "rowLevel (withoutPrincipal who r) = rowLevel r" "row_id (withoutPrincipal who r) = row_id r"
  "anyone (engineRule sh cp (withoutPrincipal who r)) = anyone (engineRule sh cp r)"
  by (simp_all add: withoutPrincipal_def rowLevel_def anyone_def toSimRule_def Let_def)

lemma deletion_unseen:
  assumes "rowShape r" and "namedAtHome who r" and "grantNamesAgent r" and "\<not> actsIn who q"
  shows "ruleMatches reg (engineRule sh cp r) q \<longleftrightarrow>
    \<not> droppedWith who r \<and> ruleMatches reg (engineRule sh cp (withoutPrincipal who r)) q"
proof -
  have one: "list_all onePrincipal (row_identities r)" using assms(1) by (simp add: rowShape_def)
  have quiet: "\<not> identityHolds (decodeIdentity i) q" if "i \<in> set (row_identities r)" "namesPrincipal who i" for i
    using named_not_holding [OF _ that(2) assms(4)] one that(1) by (simp add: list_all_iff)
  have dropped: "droppedWith who r \<longleftrightarrow> namesOnly (namesPrincipal who) r"
    using assms(2,3) unfolding droppedWith_def namedAtHome_def grantNamesAgent_def namesOnly_def
    by (cases who) auto
  have "identityMatches (engineRule sh cp r) q \<longleftrightarrow>
      \<not> droppedWith who r \<and> identityMatches (engineRule sh cp (withoutPrincipal who r)) q"
    unfolding dropped identityMatches_rows using quiet
    by (auto simp: namesOnly_def withoutPrincipal_def list_ex_iff list_all_iff filter_empty_conv)
  then show ?thesis
    using ruleMatches_anyone [of reg "engineRule sh cp r"] ruleMatches_anyone [of reg "engineRule sh cp (withoutPrincipal who r)"]
    by (auto simp: withoutPrincipal_facts)
qed

lemma byPriority_change:
  assumes "\<And>r. row_priority (w r) = row_priority r" and "\<And>r. row_id (w r) = row_id r"
  shows "byPriority (map w (filter P xs)) = map w (filter P (byPriority xs))"
proof -
  have "sort_key row_priority (map w zs) = map w (sort_key row_priority zs)" "sort_key row_id (map w zs) = map w (sort_key row_id zs)" for zs
    using sort_key_map_comp [of row_priority w zs] sort_key_map_comp [of row_id w zs] by (simp_all add: o_def assms)
  then show ?thesis by (simp add: byPriority_def filter_sort)
qed

lemma deletion_loads:
  fixes who :: deleted_principal
  assumes "storeOk gen s" and "status = ''draft'' \<or> status = ''published''"
  defines "s' \<equiv> cascadePrincipal who (snd (dropPrincipalFromPolicyInTx who s))"
  shows "loadRules (st_rules s') b status e = map (withoutPrincipal who) (filter (\<lambda>r. \<not> droppedWith who r) (loadRules (st_rules s) b status e))"
proof -
  let ?w = "withoutPrincipal who" and ?P = "\<lambda>r. \<not> droppedWith who r"
  let ?E = "\<lambda>r. row_enabled r \<and> (e \<or> row_source r \<noteq> ''equipment'')"
  have sc: "scopeRows b s' = map ?w (filter ?P (scopeRows b s))"
    unfolding s'_def deletion_rows scopeRows_def by (simp add: deletion.scopeRows_change)
  have live: "live (scopeRows b s') = map ?w (filter ?P (live (scopeRows b s)))"
  proof (cases "published (scopeRows b s) = []")
    case True
    then show ?thesis unfolding sc live_def deletion.parts_change by (simp add: maxGeneration_def)
  next
    case False
    then have "\<exists>d \<in> set (live (scopeRows b s)). row_isDefault d" using assms(1) by (auto simp: storeOk_def scopeOk_def synced_def)
    then show ?thesis unfolding sc using assms(1) by (intro deletion.live_change) (auto simp: storeOk_def scopeRows_def)
  qed
  have draft: "drafts (scopeRows b s') = map ?w (filter ?P (drafts (scopeRows b s)))"
    unfolding sc by (rule deletion.parts_change)
  have enabled: "filter ?E (map ?w (filter ?P xs)) = map ?w (filter ?P (filter ?E xs))" for xs
    by (induction xs) (auto simp: withoutPrincipal_def)
  have sorted: "byPriority (map ?w (filter ?P xs)) = map ?w (filter ?P (byPriority xs))" for xs
    by (intro byPriority_change) (simp_all add: withoutPrincipal_facts)
  from assms(2) show ?thesis
    by (elim disjE) (simp_all only: loadRules_draft loadRules_live live draft enabled sorted)
qed

lemma deletion_verdict:
  assumes "storeOk gen s" and "status = ''draft'' \<or> status = ''published''"
    and "\<forall>r \<in> set (st_rules s). namedAtHome who r \<and> grantNamesAgent r" and "\<not> actsIn who q"
  defines "s' \<equiv> cascadePrincipal who (snd (dropPrincipalFromPolicyInTx who s))"
  shows "evaluateNew reg (map (engineRule sh cp) (loadRules (st_rules s') b1 status e @ loadRules (st_rules s') b2 status e)) q =
    evaluateNew reg (map (engineRule sh cp) (loadRules (st_rules s) b1 status e @ loadRules (st_rules s) b2 status e)) q"
proof -
  let ?rows = "loadRules (st_rules s) b1 status e @ loadRules (st_rules s) b2 status e"
  have mem: "r \<in> set (st_rules s)" if "r \<in> set ?rows" for r
    using that assms(2) by (auto simp: loadRules_draft loadRules_live live_def published_def drafts_def scopeRows_def split: option.splits)
  then have shape: "rowShape r" if "r \<in> set ?rows" for r using that assms(1) by (simp add: storeOk_def)
  have "loadRules (st_rules s') b1 status e @ loadRules (st_rules s') b2 status e =
      map (withoutPrincipal who) (filter (\<lambda>r. \<not> droppedWith who r) ?rows)"
    unfolding s'_def deletion_loads [OF assms(1,2)] by simp
  then show ?thesis
    using unseen_change [of "withoutPrincipal who" sh cp ?rows "\<lambda>r. \<not> droppedWith who r" reg q]
      deletion_unseen [OF shape _ _ assms(4)] deletion.default_kept [OF shape] assms(3) mem
    by (simp add: withoutPrincipal_facts del: map_append filter_append)
qed

section \<open>A saved grant\<close>

lemma byPriority_append:
  assumes "distinct (map row_priority (xs @ ys))" and "sorted (map row_priority ys)"
    and "\<forall>x \<in> set xs. \<forall>y \<in> set ys. row_priority x \<le> row_priority y"
  shows "byPriority (xs @ ys) = byPriority xs @ ys"
proof -
  have "inj_on row_priority (set (xs @ ys))" using assms(1) by (simp only: distinct_map)
  moreover have "sorted (map row_priority (byPriority xs @ ys))"
    using assms(2,3) by (auto simp: sorted_append) (simp add: byPriority_def)
  ultimately have "sort_key row_priority (sort_key row_id (xs @ ys)) = byPriority xs @ ys"
    by (intro sort_key_inj_key_eq) (simp_all only: set_sort mset_sort mset_append mset_byPriority)
  then show ?thesis by (simp add: byPriority_def)
qed

lemma replace_result:
  assumes "storeOk gen s" and "inj (\<lambda>k. fst (gen k))" and "list_all createOk cs" and "\<And>r. P r \<Longrightarrow> isDraft (grantBase scope) r"
    and "replaceAndPublish scope gen P cs s = Inr (x, s')"
  obtains n p where "storeOk gen s'" "published (scopeRows (grantBase scope) s') \<noteq> []"
    "others (drafts (scopeRows (grantBase scope) s')) = filter (\<lambda>r. \<not> P r) (others (drafts (scopeRows (grantBase scope) s))) @
       createGrantRows (grantBase scope) gen n p cs"
    "\<forall>r \<in> set (others (drafts (scopeRows (grantBase scope) s))). \<not> P r \<longrightarrow> row_priority r < p"
proof -
  let ?b = "grantBase scope"
  define s0 where "s0 = s\<lparr>st_rules := filter (\<lambda>r. \<not> P r) (st_rules s)\<rparr>"
  define p where "p = tailPriority ?b (st_rules s0) + 1"
  have r0: "readyFor ?b gen s0"
    unfolding s0_def using assms(4) by (intro ready_filter [OF storeOk_readyFor [OF assms(1)]]) auto
  note r1 = ready_grants [OF r0 assms(2,3)]
  obtain g k s'' where pub: "publishDraftInTx ?b gen (appendGrantRules ?b gen cs s0) = Inr ((g, k), s'')" "storeOk gen s''"
      "liveGeneration ?b s'' = Some g"
      "drafts (scopeRows ?b s'') = drafts (scopeRows ?b (snd (ensureDefault ?b gen (appendGrantRules ?b gen cs s0))))"
    using publish_ok [OF r1 assms(2)] by blast
  then have s': "s'' = s'" using assms(5) by (simp add: replaceAndPublish_def s0_def)
  have d0: "drafts (scopeRows ?b s0) = filter (\<lambda>r. \<not> P r) (drafts (scopeRows ?b s))"
    using scope_filter(2) [of s ?b "\<lambda>r. \<not> P r"] assms(4) by (auto simp: s0_def scopeRows_def)
  let ?new = "createGrantRows ?b gen (st_next s0) p cs"
  have new: "\<forall>x \<in> set ?new. isDraft ?b x \<and> \<not> row_isDefault x" using createGrantRows_shape [OF assms(3)] by (fastforce simp: grantBase_def)
  then have "filter (inScope ?b) ?new = ?new" "drafts ?new = ?new" "others ?new = ?new"
    by (auto simp: drafts_def isDraft_def others_def)
  then have d1: "others (drafts (scopeRows ?b (appendGrantRules ?b gen cs s0))) = others (drafts (scopeRows ?b s0)) @ ?new"
    by (simp add: appendGrantRules_def scopeRows_def p_def others_def)
  have "others (drafts (scopeRows ?b s0)) = filter (\<lambda>r. \<not> P r) (others (drafts (scopeRows ?b s)))"
    unfolding d0 others_def by (auto intro: filter_cong)
  then have "others (drafts (scopeRows ?b s')) = filter (\<lambda>r. \<not> P r) (others (drafts (scopeRows ?b s))) @ ?new"
    using pub(4) others_ensureDefault [OF r1 assms(2)] d1 s' by simp
  moreover have "\<forall>r \<in> set (others (drafts (scopeRows ?b s))). \<not> P r \<longrightarrow> row_priority r < p"
    using tailPriority_ge [of _ ?b s0] d0 by (auto simp: p_def others_def)
  moreover have "published (scopeRows ?b s') \<noteq> []"
    using pub(3) s' by (auto simp: liveGeneration_def isPublished_scope maxGeneration_def)
  ultimately show thesis using that pub(2) s' by blast
qed

text \<open>The rule a workspace's level picks among rows of its draft, as a search in priority order.\<close>

lemma pick_workspace:
  assumes "\<forall>r \<in> set rows. inScope (WorkspaceScope w) r"
  shows "pickAt reg Workspace (map (engineRule sh cp) (byPriority rows)) q =
    map_option (engineRule sh cp) (find (\<lambda>r. ruleMatches reg (engineRule sh cp r) q) (byPriority (others rows)))"
proof -
  have "filter (\<lambda>r. \<not> row_isDefault r \<and> rowLevel r = Workspace) (byPriority rows) = byPriority (others rows)"
  proof -
    have "filter (\<lambda>r. \<not> row_isDefault r \<and> rowLevel r = Workspace) (byPriority rows) = filter (\<lambda>r. \<not> row_isDefault r) (byPriority rows)"
      using assms by (intro filter_cong) (auto simp: rowLevel_def inScope_def)
    then show ?thesis by (simp add: byPriority_def filter_sort others_def)
  qed
  moreover have "sort_key row_priority (byPriority xs) = byPriority xs" for xs
    by (rule sort_key_id_if_sorted) (simp add: byPriority_def)
  ultimately show ?thesis by (simp add: pickAt_rows)
qed

lemma createGrantRows_loaded:
  "filter (\<lambda>r. row_enabled r \<and> row_source r \<noteq> ''equipment'') (createGrantRows b gen n p cs) = createGrantRows b gen n p cs"
  by (induction cs arbitrary: n p) (auto simp: grantRow_def GRANT_SOURCE_def)

lemma replaced_level:
  fixes scope :: grant_scope
  defines "b \<equiv> grantBase scope"
  assumes "storeOk gen s" and "inj (\<lambda>k. fst (gen k))" and "list_all createOk cs" and "\<And>r. P r \<Longrightarrow> isDraft b r"
    and "replaceAndPublish scope gen P cs s = Inr (x, s')"
  obtains n p where
    "pickAt reg Workspace (map (engineRule sh cp) (loadRules (st_rules s') b ''published'' False)) q =
      (case pickAt reg Workspace (map (engineRule sh cp) (filter (\<lambda>r. \<not> P r) (loadRules (st_rules s) b ''draft'' False))) q of
         None \<Rightarrow> levelPick reg (map (engineRule sh cp) (createGrantRows b gen n p cs)) q
       | Some r \<Rightarrow> Some r)"
proof -
  let ?L = "\<lambda>r. row_enabled r \<and> row_source r \<noteq> ''equipment''" and ?M = "\<lambda>r. ruleMatches reg (engineRule sh cp r) q"
  obtain n p where r: "storeOk gen s'" "published (scopeRows b s') \<noteq> []"
    "others (drafts (scopeRows b s')) = filter (\<lambda>r. \<not> P r) (others (drafts (scopeRows b s))) @ createGrantRows b gen n p cs"
    "\<forall>r \<in> set (others (drafts (scopeRows b s))). \<not> P r \<longrightarrow> row_priority r < p"
    using replace_result [OF assms(2-4) assms(5) [unfolded b_def] assms(6)] unfolding b_def by blast
  let ?new = "createGrantRows b gen n p cs" and ?old = "filter ?L (filter (\<lambda>r. \<not> P r) (others (drafts (scopeRows b s))))"
  have scope: "\<forall>r \<in> set (drafts (scopeRows b t)). inScope (WorkspaceScope (gs_workspaceId scope)) r" for t
    by (auto simp: drafts_def scopeRows_def b_def grantBase_def)
  have comm: "others (filter Q xs) = filter Q (others xs)" for Q xs by (auto simp: others_def intro: filter_cong)
  have "ordered (drafts (scopeRows b s'))" using r(1) by (simp add: storeOk_def scopeOk_def)
  then have "distinct (map row_priority (filter ?L (others (drafts (scopeRows b s')))))"
    by (simp add: ordered_def others_def distinct_map_filter)
  then have "distinct (map row_priority (?old @ ?new))" unfolding r(3) filter_append createGrantRows_loaded .
  then have app: "byPriority (?old @ ?new) = byPriority ?old @ ?new"
    using createGrantRows_sorted [of b gen n p cs] r(4) by (intro byPriority_append) fastforce+
  have rows': "others (filter ?L (drafts (scopeRows b s'))) = ?old @ ?new" unfolding comm r(3) filter_append createGrantRows_loaded ..
  have rows: "others (filter (\<lambda>r. \<not> P r) (filter ?L (drafts (scopeRows b s)))) = ?old" unfolding comm by (auto intro: filter_cong)
  have load: "filter (\<lambda>r. \<not> P r) (loadRules (st_rules s) b ''draft'' False) = byPriority (filter (\<lambda>r. \<not> P r) (filter ?L (drafts (scopeRows b s))))"
    "loadRules (st_rules s') b ''draft'' False = byPriority (filter ?L (drafts (scopeRows b s')))"
    by (simp_all add: loadRules_draft byPriority_def filter_sort)
  have pick: "pickAt reg Workspace (map (engineRule sh cp) (byPriority (filter Q (drafts (scopeRows b t))))) q =
      map_option (engineRule sh cp) (find ?M (byPriority (others (filter Q (drafts (scopeRows b t))))))" for Q t
    using scope [of t] by (intro pick_workspace [of _ "gs_workspaceId scope"]) simp
  have "pickAt reg Workspace (map (engineRule sh cp) (loadRules (st_rules s') b ''published'' False)) q =
      (case pickAt reg Workspace (map (engineRule sh cp) (filter (\<lambda>r. \<not> P r) (loadRules (st_rules s) b ''draft'' False))) q of
         None \<Rightarrow> levelPick reg (map (engineRule sh cp) ?new) q | Some r \<Rightarrow> Some r)"
    unfolding live_decides_as_draft [OF r(1,2)] load pick rows' app find_append levelPick_rows sort_createGrantRows
    using pick [of "\<lambda>r. ?L r \<and> \<not> P r" s] rows by (simp add: conj_ac split: option.split)
  then show thesis by (rule that)
qed

lemma canonical_not_list: "canonicalPolicy r = Some p \<Longrightarrow> decodeConditions p = None"
  by (auto simp: canonicalPolicy_def decodeConditions_def axisBuild_def split: option.splits if_splits json.splits)

lemma resolved_not_list:
  assumes "resolveConditions env scope a con resources existing s = Inr conds" and "decodeConditions (stackConditions existing) = None"
  shows "decodeConditions conds = None"
  using assms by (auto simp: resolveConditions_def and_then_Inr canonical_not_list split: option.splits)

text \<open>The grant a request asks for, the choices it leaves out filled from the stored one.\<close>

definition requestedGrant :: "registry \<Rightarrow> grant_scope \<Rightarrow> string \<Rightarrow> connection_row \<Rightarrow> grant_request \<Rightarrow> policy_store \<Rightarrow> connection_grant" where
  "requestedGrant reg scope a con request s =
     withStoredUnlisted reg (requestInput reg (con_provider con) request)
       (readGrantRows scope (Some a) (Some (con_id con)) None s) (con_provider con)"

lemma setConnectionGrant_changed:
  assumes "setConnectionGrant reg env labels gen scope a c request resources s = Inr (m, s')" and "gm_changed m"
    and "requireConnection env scope c = Inr con" and "decodeConditions (stackConditions (readGrantRows scope (Some a) (Some c) None s)) = None"
  obtains nb conds x where "decodeConditions conds = None"
    "replaceAndPublish scope gen (grantRowWhere scope (Some a) (Some c) None)
       (stackCreates a c (compileConnectionStack reg nb (con_provider con) (requestedGrant reg scope a con request s) conds)) s = Inr (x, s')"
proof -
  have "con_id con = c" using assms(3) by (auto simp: requireConnection_def find_Some_iff split: option.splits)
  then show thesis using assms that resolved_not_list [OF _ assms(4)]
    by (auto simp: setConnectionGrant_def and_then_Inr Let_def requestedGrant_def split: if_splits) blast
qed

lemma saved_grant_decides:
  assumes ok: "storeOk gen s" "inj (\<lambda>k. fst (gen k))" and ids: "a \<noteq> []" "c \<noteq> []"
    and saved: "setConnectionGrant reg env labels gen scope a c request resources s = Inr (m, s')" "gm_changed m"
    and con: "requireConnection env scope c = Inr con" "map_of cp c = Some (con_provider con)"
    and stored: "decodeConditions (stackConditions (readGrantRows scope (Some a) (Some c) None s)) = None"
  shows "map_option choiceOfRule (pickAt reg Workspace (map (engineRule sh cp) (loadRules (st_rules s') (grantBase scope) ''published'' False)) q) =
    (case pickAt reg Workspace (map (engineRule sh cp) (filter (\<lambda>r. \<not> grantRowWhere scope (Some a) (Some c) None r)
            (loadRules (st_rules s) (grantBase scope) ''draft'' False))) q of
       Some r \<Rightarrow> Some (choiceOfRule r)
     | None \<Rightarrow>
         if req_agentId q = a \<and> req_winningConnectionId q = Some c \<and> providerHostMatches reg (req_host q) (con_provider con)
         then Some (grantChoice reg (con_provider con) (requestedGrant reg scope a con request s) q) else None)"
proof -
  obtain nb conds x where conds: "decodeConditions conds = None"
    and r: "replaceAndPublish scope gen (grantRowWhere scope (Some a) (Some c) None)
       (stackCreates a c (compileConnectionStack reg nb (con_provider con) (requestedGrant reg scope a con request s) conds)) s = Inr (x, s')"
    by (rule setConnectionGrant_changed [OF saved con(1) stored])
  have draft: "grantRowWhere scope (Some a) (Some c) None r \<Longrightarrow> isDraft (grantBase scope) r" for r by (simp add: grantRowWhere_def)
  obtain n p where "pickAt reg Workspace (map (engineRule sh cp) (loadRules (st_rules s') (grantBase scope) ''published'' False)) q =
      (case pickAt reg Workspace (map (engineRule sh cp) (filter (\<lambda>r. \<not> grantRowWhere scope (Some a) (Some c) None r)
              (loadRules (st_rules s) (grantBase scope) ''draft'' False))) q of
         None \<Rightarrow> levelPick reg (map (engineRule sh cp) (createGrantRows (grantBase scope) gen n p
           (stackCreates a c (compileConnectionStack reg nb (con_provider con) (requestedGrant reg scope a con request s) conds)))) q
       | Some r \<Rightarrow> Some r)"
    by (rule replaced_level [OF ok creates_ok(1) [OF ids] draft r])
  then show ?thesis
    using grant_stack_choice [OF con(2) ids(2) conds, of reg sh "grantBase scope" gen n p a nb "requestedGrant reg scope a con request s" q]
    by (simp split: option.split)
qed

section \<open>A blocked host\<close>

lemma slot_le:
  assumes "r \<in> set rows" and "\<not> row_isDefault r" and "row_action r \<noteq> ''block''"
  shows "slot (byPriority (others rows)) \<le> row_priority r"
proof -
  have r: "r \<in> set (byPriority (others rows))" using assms by (simp add: others_def)
  then obtain x where x: "find (\<lambda>r. row_action r \<noteq> ''block'') (byPriority (others rows)) = Some x"
    using assms(3) by (cases "find (\<lambda>r. row_action r \<noteq> ''block'') (byPriority (others rows))") (auto simp: find_None_iff)
  have "row_priority x \<le> row_priority r"
    by (rule find_sorted_least [OF _ x r]) (simp_all add: assms(3) byPriority_def)
  then show ?thesis using x by (simp add: slot_def)
qed

text \<open>A block of a host in front of every looser rule.\<close>

definition blocksHost :: "string \<Rightarrow> sim_rule_row \<Rightarrow> bool" where
  "blocksHost h r =
     (row_enabled r \<and> \<not> row_isDefault r \<and> row_source r = BLOCKLIST_SOURCE \<and> row_action r = ''block'' \<and>
      row_identities r = [] \<and> row_conditions r = JNull \<and>
      row_targets r = [(emptyTarget ''network'')\<lparr>rt_hostPattern := Some h, rt_pathPattern := Some ANY_PATH\<rparr>])"

definition guarded :: "string \<Rightarrow> sim_rule_row list \<Rightarrow> bool" where
  "guarded h rows = (\<exists>x \<in> set rows. blocksHost h x \<and>
     (\<forall>r \<in> set rows. \<not> row_isDefault r \<and> row_action r \<noteq> ''block'' \<longrightarrow> row_priority x < row_priority r))"

lemma makeRoom_more [simp]: "row_action (makeRoom p r) = row_action r" "blocksHost h (makeRoom p r) = blocksHost h r"
  by (simp_all add: makeRoom_def blocksHost_def)

lemma guarded_insert:
  assumes "x = blockAt gen b ''draft'' None (slot (byPriority (others rows))) rule s"
  shows "guarded (br_hostPattern rule) (map (makeRoom (slot (byPriority (others rows)))) rows @ [x])"
    and "guarded h rows \<Longrightarrow> guarded h (map (makeRoom (slot (byPriority (others rows)))) rows @ [x])"
proof -
  let ?p = "slot (byPriority (others rows))"
  have x: "blocksHost (br_hostPattern rule) x" "row_priority x = ?p" "row_action x = ''block''"
    unfolding assms by (simp_all add: blockAt_def blockRow_def blocksHost_def)
  have "?p < row_priority (makeRoom ?p r)" if "r \<in> set rows" "\<not> row_isDefault r" "row_action r \<noteq> ''block''" for r
    using slot_le [OF that] that(2) by (simp add: makeRoom_def)
  then show "guarded (br_hostPattern rule) (map (makeRoom ?p) rows @ [x])"
    unfolding guarded_def using x by (intro bexI [of _ x]) auto
  assume "guarded h rows"
  then obtain y where y: "y \<in> set rows" "blocksHost h y"
    "\<And>r. r \<in> set rows \<Longrightarrow> \<not> row_isDefault r \<Longrightarrow> row_action r \<noteq> ''block'' \<Longrightarrow> row_priority y < row_priority r"
    by (auto simp: guarded_def)
  have "row_priority (makeRoom ?p y) < row_priority (makeRoom ?p r)"
    if "r \<in> set rows" "\<not> row_isDefault r" "row_action r \<noteq> ''block''" for r
    using y(3) [OF that] that(2) by (auto simp: makeRoom_def)
  then show "guarded h (map (makeRoom ?p) rows @ [x])"
    unfolding guarded_def using x y by (intro bexI [of _ "makeRoom ?p y"]) auto
qed

lemma blockHost_drafts:
  assumes "liveGeneration b s = g"
  shows "guarded (bh_hostPattern host) (drafts (scopeRows b (blockHost gen b g s host)))"
    and "guarded h (drafts (scopeRows b s)) \<Longrightarrow> guarded h (drafts (scopeRows b (blockHost gen b g s host)))"
proof -
  define rule where "rule = \<lparr>br_logicalId = snd (gen (st_next s)), br_name = ''Block '' @ bh_name host, br_hostPattern = bh_hostPattern host\<rparr>"
  note d = createBlockRule_draft [where b = b and gen = gen and rule = rule and s = s]
  have "drafts (scopeRows b (blockHost gen b g s host)) = drafts (scopeRows b (createBlockRule gen b ''draft'' None rule s))"
  proof (cases g)
    case None
    then show ?thesis unfolding blockHost_def Let_def rule_def [symmetric] by (simp only: option.case)
  next
    case (Some k)
    have "maxGeneration (published (scopeRows b (createBlockRule gen b ''draft'' None rule s))) = Some k"
      using assms Some d(2) by (simp add: liveGeneration_def isPublished_scope)
    from createBlockRule_live(1) [OF this] show ?thesis
      unfolding blockHost_def Let_def rule_def [symmetric] Some option.case .
  qed
  then show "guarded (bh_hostPattern host) (drafts (scopeRows b (blockHost gen b g s host)))"
    "guarded h (drafts (scopeRows b s)) \<Longrightarrow> guarded h (drafts (scopeRows b (blockHost gen b g s host)))"
    using guarded_insert [OF refl, where rows = "drafts (scopeRows b s)" and gen = gen and b = b and rule = rule and s = s] d(1) by (simp_all add: rule_def)
qed

lemma foldl_blockHost:
  assumes "storeOk gen s" and "inj (\<lambda>k. fst (gen k))" and "liveGeneration b s = g"
    and "h \<in> bh_hostPattern ` set hosts \<or> guarded h (drafts (scopeRows b s))"
  shows "guarded h (drafts (scopeRows b (foldl (blockHost gen b g) s hosts))) \<and>
    liveGeneration b (foldl (blockHost gen b g) s hosts) = g"
  using assms(1,3,4)
proof (induction hosts arbitrary: s)
  case (Cons host hosts)
  have ok: "storeOk gen (blockHost gen b g s host)" "liveGeneration b (blockHost gen b g s host) = g"
    using blockHost_ok [OF Cons(2) assms(2) Cons(3)] by blast+
  have "h \<in> bh_hostPattern ` set hosts \<or> guarded h (drafts (scopeRows b (blockHost gen b g s host)))"
    using Cons(4) blockHost_drafts [OF Cons(3)] by auto
  from Cons.IH [OF ok this] show ?case by simp
qed simp

lemma blocked_row_matches:
  assumes "blocksHost h r" and "hostMatches (req_host q) h" and "prefix ''/'' (stripQuery (req_path q))"
  shows "ruleMatches reg (engineRule sh cp r) q"
proof -
  have "pathMatches (req_path q) ''/*''" using pathMatches_slash_star [of "[]" "req_path q"] assms(3) by simp
  then have "endpointMatches q \<lparr>ep_pathPattern = ''/*'', ep_method = None, ep_conditions = None\<rparr>"
    by (simp add: endpointMatches_def conditionsMatch_iff)
  then show ?thesis using assms(1,2)
    by (simp add: blocksHost_def ruleMatches_def identityMatches_rows engineRule_fields decodeTarget_def emptyTarget_def
        targetMatches_def ANY_PATH_def)
qed

lemma guarded_blocks:
  assumes "guarded h rows" and "hostMatches (req_host q) h" and "prefix ''/'' (stripQuery (req_path q))"
    and "\<forall>r \<in> set rows. rowLevel r = l"
  shows "\<exists>r. pickAt reg l (map (engineRule sh cp) (filter (\<lambda>r. row_enabled r \<and> row_source r \<noteq> ''equipment'') rows)) q = Some r \<and>
    rule_action_of r = Block"
proof -
  obtain x where x: "x \<in> set rows" "blocksHost h x"
    "\<And>r. r \<in> set rows \<Longrightarrow> \<not> row_isDefault r \<Longrightarrow> row_action r \<noteq> ''block'' \<Longrightarrow> row_priority x < row_priority r"
    using assms(1) by (auto simp: guarded_def)
  let ?rows = "filter (\<lambda>r. row_enabled r \<and> row_source r \<noteq> ''equipment'') rows"
  let ?rules = "explicitAt l (map (engineRule sh cp) ?rows)"
  have X: "engineRule sh cp x \<in> set ?rules"
    using x(1,2) assms(4) by (auto simp: explicitAt_def blocksHost_def BLOCKLIST_SOURCE_def toSimRule_def Let_def rowLevel_def)
  have m: "ruleMatches reg (engineRule sh cp x) q" using blocked_row_matches [OF x(2) assms(2,3)] .
  then obtain r where r: "levelPick reg ?rules q = Some r" using engine.pick_total [OF X] by blast
  then have "r \<in> set ?rules" using engine.pick_applies by blast
  then obtain y where y: "y \<in> set rows" "r = engineRule sh cp y" "\<not> row_isDefault y"
    by (auto simp: explicitAt_def engineRule_fields)
  have "row_priority y \<le> row_priority x" using engine.pick_least [OF r X m] y(2) by (simp add: engineRule_fields)
  then have "row_action y = ''block''" using x(3) [OF y(1,3)] by fastforce
  then show ?thesis using r y(2) by (simp add: pickAt_def toSimRule_def Let_def)
qed

lemma pick_block_decides:
  assumes "pickAt reg l rules q = Some r" and "rule_action_of r = Block"
  shows "dec_action (evaluateNew reg rules q) = Block"
  using assms unfolding evaluateNew_def evaluatePolicyOutcome_levels
  by (cases l) (auto simp: outcomeToDecision_def strictnessRank_def split: option.splits)

lemma scope_level: "inScope b r \<Longrightarrow> rowLevel r = (case b of OrganizationScope _ \<Rightarrow> Organization | WorkspaceScope _ \<Rightarrow> Workspace)"
  by (auto simp: inScope_def rowLevel_def split: policy_scope_base.splits)

lemma loaded_rows:
  fixes s :: policy_store
  assumes "status = ''draft'' \<or> status = ''published''" and "r \<in> set (loadRules (st_rules s) b status e)"
  shows "inScope b r" and "r \<in> set (st_rules s)"
  using assms by (auto simp: loadRules_draft loadRules_live live_def published_def drafts_def scopeRows_def split: option.splits)

lemma pickAt_levels:
  assumes "\<forall>r \<in> set xs. rowLevel r = l" and "\<forall>r \<in> set ys. rowLevel r \<noteq> l"
  shows "pickAt reg l (map (engineRule sh cp) (xs @ ys)) q = pickAt reg l (map (engineRule sh cp) xs) q"
    and "pickAt reg l (map (engineRule sh cp) (ys @ xs)) q = pickAt reg l (map (engineRule sh cp) xs) q"
proof -
  have "filter (\<lambda>r. \<not> row_isDefault r \<and> rowLevel r = l) ys = []" using assms(2) by (simp add: filter_empty_conv)
  then show "pickAt reg l (map (engineRule sh cp) (xs @ ys)) q = pickAt reg l (map (engineRule sh cp) xs) q"
    "pickAt reg l (map (engineRule sh cp) (ys @ xs)) q = pickAt reg l (map (engineRule sh cp) xs) q"
    by (simp_all only: pickAt_rows filter_append append_Nil append_Nil2)
qed

lemma published_levels:
  fixes s :: policy_store and orgId wsId :: string and e :: bool
  defines "org \<equiv> loadRules (st_rules s) (OrganizationScope orgId) ''published'' e"
    and "ws \<equiv> loadRules (st_rules s) (WorkspaceScope wsId) ''published'' e"
  shows "pickAt reg Organization (map (engineRule sh cp) (org @ ws)) q = pickAt reg Organization (map (engineRule sh cp) org) q"
    and "pickAt reg Workspace (map (engineRule sh cp) (org @ ws)) q = pickAt reg Workspace (map (engineRule sh cp) ws) q"
proof -
  have "\<forall>r \<in> set org. rowLevel r = Organization" "\<forall>r \<in> set ws. rowLevel r = Workspace"
    unfolding org_def ws_def by (auto dest!: loaded_rows(1) [rotated] scope_level)
  then show "pickAt reg Organization (map (engineRule sh cp) (org @ ws)) q = pickAt reg Organization (map (engineRule sh cp) org) q"
    "pickAt reg Workspace (map (engineRule sh cp) (org @ ws)) q = pickAt reg Workspace (map (engineRule sh cp) ws) q"
    by (intro pickAt_levels; simp)+
qed

lemma blocked_host_denied:
  assumes ok: "storeOk gen s" "inj (\<lambda>k. fst (gen k))" and pub: "published (scopeRows b s) \<noteq> []"
    and host: "host \<in> set hosts" "Some (bh_hostPattern host) \<notin> set (map hostPatternOf (listDraftRules b s))"
    and q: "hostMatches (req_host q) (bh_hostPattern host)" "prefix ''/'' (stripQuery (req_path q))"
    and b: "b = OrganizationScope orgId \<or> b = WorkspaceScope wsId"
  defines "s' \<equiv> initBlocklistDefaults gen b hosts s"
  shows "dec_action (evaluateNew reg (map (engineRule sh cp) (loadRules (st_rules s') (OrganizationScope orgId) ''published'' False @
      loadRules (st_rules s') (WorkspaceScope wsId) ''published'' False)) q) = Block"
proof -
  let ?miss = "filter (\<lambda>h. Some (bh_hostPattern h) \<notin> set (filter truthy (map hostPatternOf (listDraftRules b s)))) hosts"
  have miss: "host \<in> set ?miss" using host by auto
  then have s': "s' = foldl (blockHost gen b (liveGeneration b s)) s ?miss"
    unfolding s'_def initBlocklistDefaults_def Let_def by auto
  have g: "guarded (bh_hostPattern host) (drafts (scopeRows b s'))" "liveGeneration b s' = liveGeneration b s"
    using foldl_blockHost [OF ok refl, of "bh_hostPattern host" ?miss] miss unfolding s' by blast+
  have ok': "storeOk gen s'" unfolding s'_def by (rule initBlocklistDefaults_ok [OF ok])
  have pub': "published (scopeRows b s') \<noteq> []"
    using g(2) pub by (auto simp: liveGeneration_def isPublished_scope maxGeneration_def split: if_splits)
  define l where "l = (case b of OrganizationScope _ \<Rightarrow> Organization | WorkspaceScope _ \<Rightarrow> Workspace)"
  have "\<forall>r \<in> set (byPriority (drafts (scopeRows b s'))). rowLevel r = l"
    unfolding l_def using scope_level by (auto simp: drafts_def scopeRows_def)
  moreover have "guarded (bh_hostPattern host) (byPriority (drafts (scopeRows b s')))" using g(1) by (simp add: guarded_def)
  ultimately have "\<exists>r. pickAt reg l (map (engineRule sh cp) (filter (\<lambda>r. row_enabled r \<and> row_source r \<noteq> ''equipment'')
      (byPriority (drafts (scopeRows b s'))))) q = Some r \<and> rule_action_of r = Block" using q by (intro guarded_blocks)
  then obtain r where "pickAt reg l (map (engineRule sh cp) (loadRules (st_rules s') b ''published'' False)) q = Some r" "rule_action_of r = Block"
    unfolding live_decides_as_draft [OF ok' pub'] loadRules_draft by (auto simp: byPriority_def filter_sort)
  moreover have "pickAt reg l (map (engineRule sh cp) (loadRules (st_rules s') (OrganizationScope orgId) ''published'' False @
      loadRules (st_rules s') (WorkspaceScope wsId) ''published'' False)) q = pickAt reg l (map (engineRule sh cp) (loadRules (st_rules s') b ''published'' False)) q"
    using b published_levels unfolding l_def by (elim disjE) (simp_all only: policy_scope_base.case)
  ultimately show ?thesis by (metis pick_block_decides)
qed

end
