(* ===== verification/PolicyTheorems.thy ===== *)
theory PolicyTheorems
  imports PolicyEffects
begin

text \<open>
  The properties of the rule table, over every store the writers can reach, and the concrete
  workspace their examples use.
\<close>

section \<open>Creating a rule\<close>

lemma create_result:
  assumes "storeOk gen s" and "inj (\<lambda>k. fst (gen k))" and "createInputOk input" and "validateCreate env b input = Inr ()"
  shows "\<exists>s' row. createPolicyRule env gen b input s = Inr (toRuleDto row, s') \<and>
    others (drafts (scopeRows b s')) = others (drafts (scopeRows b s)) @ [row] \<and>
    row = (createRow b input (row_priority row) (row_logicalId row))\<lparr>row_id := row_id row\<rparr> \<and>
    (\<forall>r \<in> set (others (drafts (scopeRows b s))). row_priority r < row_priority row)"
proof -
  define p where "p = tailPriority b (st_rules s) + 1"
  define row where "row = (createRow b input p (snd (gen (st_next s))))\<lparr>row_id := fst (gen (st_next s))\<rparr>"
  define s1 where "s1 = snd (insertRow gen (createRow b input p (snd (gen (st_next s)))) s)"
  have s1: "insertRow gen (createRow b input p (snd (gen (st_next s)))) s = (row, s1)" "st_rules s1 = st_rules s @ [row]"
    by (simp_all add: s1_def insertRow_def Let_def row_def)
  have ready: "readyFor b gen s1"
    unfolding s1_def p_def by (rule create_ready [OF storeOk_readyFor [OF assms(1)] assms(2,3)])
  obtain s' where s': "commitDraft b gen (toRuleDto row) s1 = Inr (toRuleDto row, s')"
    "others (drafts (scopeRows b s')) = others (drafts (scopeRows b s1))"
    using commit_result [OF ready assms(2), of "toRuleDto row"] by metis
  have "isDraft b row" "\<not> row_isDefault row" by (simp_all add: row_def isDraft_facts)
  then have d: "others (drafts (scopeRows b s1)) = others (drafts (scopeRows b s)) @ [row]"
    by (simp add: s1(2) scopeRows_def others_def isDraft_def) (simp add: drafts_def)
  have "createPolicyRule env gen b input s = commitDraft b gen (toRuleDto row) s1"
    unfolding createPolicyRule_def p_def [symmetric] s1(1) by (simp add: and_then_def assms(4))
  moreover have "\<forall>r \<in> set (others (drafts (scopeRows b s))). row_priority r < row_priority row"
    using tailPriority_ge [of _ b s] by (auto simp: others_def row_def p_def createRow_def)
  moreover have "row = (createRow b input (row_priority row) (row_logicalId row))\<lparr>row_id := row_id row\<rparr>"
    by (simp add: row_def createRow_def)
  ultimately show ?thesis using s' d by metis
qed

section \<open>A concrete workspace\<close>

definition sampleSupply :: id_supply where
  "sampleSupply n = (replicate (Suc n) CHR ''r'', replicate (Suc n) CHR ''l'')"

definition emptyStore :: policy_store where
  "emptyStore = \<lparr>st_rules = [], st_next = 0\<rparr>"

definition seededStore :: policy_store where
  "seededStore = onpremNewWorkspacePolicySeeder sampleSupply (Some ''w1'') emptyStore"

definition sampleEnv :: policy_env where
  "sampleEnv =
     \<lparr>env_workspaceOrg = [(''w1'', ''o1'')],
      env_agents = [\<lparr>ag_id = ''a1'', ag_name = ''Agent'', ag_workspaceId = ''w1''\<rparr>],
      env_directory = \<lparr>dir_workspaceAccess = [], dir_groups = [], dir_groupMembers = [], dir_members = []\<rparr>,
      env_connections = [\<lparr>con_id = ''c1'', con_scope = ''workspace'', con_workspaceId = Some ''w1'',
        con_organizationId = None, con_provider = ''resend''\<rparr>],
      env_secrets = [], env_metadata = (\<lambda>_. JNull), env_gate = (\<lambda>_ _. Inr ()),
      env_validateTargets = (\<lambda>_. Inr ()), env_validatePolicy = (\<lambda>_ _ _ _. Inr ())\<rparr>"

definition sampleScope :: grant_scope where
  "sampleScope = \<lparr>gs_organizationId = ''o1'', gs_workspaceId = ''w1''\<rparr>"

definition sampleInput :: create_input where
  "sampleInput =
     \<lparr>ci_name = ''No mail'', ci_enabled = None, ci_action = ''block'', ci_rateLimit = None, ci_rateLimitWindow = None,
      ci_requireApproval = None, ci_conditions = None, ci_identities = Some [AgentIdentity ''a1''],
      ci_targets = Some [TNetwork ''api.resend.com'' None None]\<rparr>"

lemma sampleSupply_inj: "inj (\<lambda>k. fst (sampleSupply k))"
  by (auto simp: inj_on_def sampleSupply_def dest: arg_cong [of _ _ length])

lemma empty_reachable: "reachable gen emptyStore"
  unfolding emptyStore_def by (rule reachable_init)

lemma seeded_reachable: "reachable sampleSupply seededStore"
  unfolding seededStore_def
  by (rule reachable_step [OF empty_reachable step_seed_workspace]) (simp add: emptyStore_def scopeRows_def)

definition ruledStore :: policy_store where
  "ruledStore = snd (projr (createPolicyRule sampleEnv sampleSupply (WorkspaceScope ''w1'') sampleInput seededStore))"

lemma ruled_created: "\<exists>x. createPolicyRule sampleEnv sampleSupply (WorkspaceScope ''w1'') sampleInput seededStore = Inr (x, ruledStore)"
proof -
  have "\<not> isl (createPolicyRule sampleEnv sampleSupply (WorkspaceScope ''w1'') sampleInput seededStore)" by code_simp
  then show ?thesis unfolding ruledStore_def by (cases "createPolicyRule sampleEnv sampleSupply (WorkspaceScope ''w1'') sampleInput seededStore") auto
qed

lemma seeded_published: "filter (isPublished (WorkspaceScope ''w1'')) (st_rules seededStore) \<noteq> []"
  by code_simp

lemma ruled_reachable: "reachable sampleSupply ruledStore"
proof -
  have "createInputOk sampleInput" by code_simp
  then show ?thesis using reachable_step [OF seeded_reachable step_create] ruled_created by blast
qed




definition fullStore :: policy_store where
  "fullStore = snd (projr (setConnectionGrant exampleRegistry sampleEnv (\<lambda>_. None) sampleSupply sampleScope ''a1'' ''c1''
     (GrantRequest FullGrant) None seededStore))"

definition widenUpdate :: update_input where
  "widenUpdate =
     \<lparr>ui_name = None, ui_enabled = None, ui_action = Some ''block'', ui_rateLimit = None, ui_rateLimitWindow = None,
      ui_requireApproval = None, ui_conditions = None, ui_identities = Some [], ui_targets = None\<rparr>"

definition widenedStore :: policy_store where
  "widenedStore = snd (projr (updatePolicyRule sampleEnv sampleSupply (WorkspaceScope ''w1'') ''rrr'' widenUpdate fullStore))"

lemma result_projr: "\<not> isl r \<Longrightarrow> \<exists>x. r = Inr (x, snd (projr r))"
  by (cases r) auto

lemma widened_reachable: "reachable sampleSupply widenedStore"
proof -
  have "\<not> isl (setConnectionGrant exampleRegistry sampleEnv (\<lambda>_. None) sampleSupply sampleScope ''a1'' ''c1'' (GrantRequest FullGrant) None seededStore)"
    by code_simp
  then have "policy_step sampleSupply seededStore fullStore"
    unfolding fullStore_def using step_grant [of "''a1''" "''c1''"] result_projr by (metis list.distinct(1))
  moreover have "\<not> isl (updatePolicyRule sampleEnv sampleSupply (WorkspaceScope ''w1'') ''rrr'' widenUpdate fullStore)" by code_simp
  moreover have "updateInputOk widenUpdate" by code_simp
  ultimately have "policy_step sampleSupply fullStore widenedStore"
    unfolding widenedStore_def using step_update result_projr by metis
  then show ?thesis using \<open>policy_step sampleSupply seededStore fullStore\<close> seeded_reachable reachable_step by metis
qed

section \<open>Properties\<close>

text \<open>
  C2: What is live is what was last saved.  In every store that the writers can produce, once a scope
  has published, the engine loads exactly the same rules from its live generation as from its
  draft, in the same order, for decisions (\<^verbatim>\<open>e\<close> false) and for injection (\<^verbatim>\<open>e\<close> true).  The writers
  are the rule service, the blocklist, the grants, the seeders and the deletion of principals.\<close>

theorem live_rules_are_the_draft:
  assumes "inj (\<lambda>k. fst (gen k))" and "reachable gen s" and "filter (isPublished b) (st_rules s) \<noteq> []"
  shows "map (engineRule sh cp) (loadRules (st_rules s) b ''published'' e) =
    map (engineRule sh cp) (loadRules (st_rules s) b ''draft'' e)"
  using live_decides_as_draft [OF reachable_ok [OF assms(2,1)], of b sh cp e] assms(3) by (simp add: isPublished_scope)

theorem live_rules_are_the_draft_witness:
  "map (engineRule noSecrets []) (loadRules (st_rules ruledStore) (WorkspaceScope ''w1'') ''published'' False) =
     map (engineRule noSecrets []) (loadRules (st_rules ruledStore) (WorkspaceScope ''w1'') ''draft'' False) \<and>
   length (loadRules (st_rules ruledStore) (WorkspaceScope ''w1'') ''draft'' False) = 2"
proof -
  have "filter (isPublished (WorkspaceScope ''w1'')) (st_rules ruledStore) \<noteq> []" by code_simp
  note live_rules_are_the_draft [OF sampleSupply_inj ruled_reachable this, of noSecrets "[]" False]
  moreover have "length (loadRules (st_rules ruledStore) (WorkspaceScope ''w1'') ''draft'' False) = 2" by code_simp
  ultimately show ?thesis by blast
qed

text \<open>
  The history is bounded.  A scope never keeps more published generations than the retention.\<close>

theorem published_history_bounded:
  assumes "inj (\<lambda>k. fst (gen k))" and "reachable gen s"
  shows "int (card (row_generation ` set (filter (isPublished b) (st_rules s)))) \<le> PUBLISHED_GENERATION_RETENTION"
  using generations_bounded [OF reachable_ok [OF assms(2,1)], of b]
  by (simp add: isPublished_scope PUBLISHED_GENERATION_RETENTION_def)

theorem published_history_bounded_witness:
  "int (card (row_generation ` set (filter (isPublished (WorkspaceScope ''w1'')) (st_rules ruledStore)))) \<le> PUBLISHED_GENERATION_RETENTION"
  using published_history_bounded [OF sampleSupply_inj ruled_reachable] by blast

text \<open>
  C19: A publish always succeeds.  From every store the writers can produce, publishing a scope ends
  without an error in a new generation that is newer than the one that was live, with the rules of
  the draft as they were, and no other scope changes.\<close>

theorem publish_always_succeeds:
  assumes "inj (\<lambda>k. fst (gen k))" and "reachable gen s"
  shows "\<exists>n s'. publishPolicy b gen s = Inr ((nextGeneration b s, n), s') \<and>
    liveGeneration b s' = Some (nextGeneration b s) \<and>
    (\<forall>g. liveGeneration b s = Some g \<longrightarrow> g < nextGeneration b s) \<and>
    others (drafts (scopeRows b s')) = others (drafts (scopeRows b s)) \<and>
    (\<forall>b'. b' \<noteq> b \<longrightarrow> scopeRows b' s' = scopeRows b' s)"
proof -
  have ready: "readyFor b gen s" using reachable_ok [OF assms(2,1)] by (rule storeOk_readyFor)
  have "g < nextGeneration b s" if "liveGeneration b s = Some g" for g
    using that by (simp add: liveGeneration_def nextGeneration_def)
  then show ?thesis
    using publish_ok [OF ready assms(1)] others_ensureDefault [OF ready assms(1)] by (auto simp: publishPolicy_def)
qed

theorem publish_always_succeeds_witness:
  "\<exists>n s'. publishPolicy (WorkspaceScope ''w1'') sampleSupply seededStore = Inr ((2, n), s')"
proof -
  have "nextGeneration (WorkspaceScope ''w1'') seededStore = 2" by code_simp
  then show ?thesis
    using publish_always_succeeds [OF sampleSupply_inj seeded_reachable, of "WorkspaceScope ''w1''"] by auto
qed

text \<open>
  C20: Reordering.  A reorder is accepted exactly when the ids name every rule of the draft once, the
  Default Rule excepted; then the rules stand in exactly that order.  Any other list of ids is a
  conflict, and nothing is written.\<close>

theorem reorder_accepts_permutations:
  assumes "inj (\<lambda>k. fst (gen k))" and "reachable gen s"
  shows "if mset is = mset (map row_id (filter (\<lambda>r. isDraft b r \<and> \<not> row_isDefault r) (st_rules s)))
    then \<exists>dtos s'. reorderPolicyRules gen b is s = Inr (dtos, s') \<and>
           map row_id (byPriority (filter (\<lambda>r. isDraft b r \<and> \<not> row_isDefault r) (st_rules s'))) = is
    else reorderPolicyRules gen b is s = Inl CONFLICT"
proof -
  have "filter (\<lambda>r. isDraft b r \<and> \<not> row_isDefault r) (st_rules t) = others (drafts (scopeRows b t))" for t
    unfolding isDraft_scope [symmetric] others_def by (simp add: conj_commute)
  then show ?thesis using reorder_result [OF reachable_ok [OF assms(2,1)] assms(1), of "is" b]
    unfolding ruleIds_filter by simp
qed

theorem reorder_accepts_permutations_witness:
  "reorderPolicyRules sampleSupply (WorkspaceScope ''w1'') [''nope''] ruledStore = Inl CONFLICT \<and>
   (\<exists>dtos s'. reorderPolicyRules sampleSupply (WorkspaceScope ''w1'') [''rrr''] ruledStore = Inr (dtos, s'))"
proof -
  have ids: "map row_id (filter (\<lambda>r. isDraft (WorkspaceScope ''w1'') r \<and> \<not> row_isDefault r) (st_rules ruledStore)) = [''rrr'']"
    by code_simp
  note reorder_accepts_permutations [OF sampleSupply_inj ruled_reachable, of _ "WorkspaceScope ''w1''", unfolded ids]
  from this [of "[''nope'']"] this [of "[''rrr'']"] show ?thesis by (auto split: if_splits)
qed

text \<open>
  C24: Creating a rule.  A rule that fails validation is refused with that error.  A valid one is
  always written: it becomes the last of the explicit rules of its draft, behind every other, with
  the columns of the input, and the other rules stay as they are.\<close>

theorem create_appends_or_refuses:
  assumes "inj (\<lambda>k. fst (gen k))" and "reachable gen s" and "createInputOk input"
  shows "case validateCreate env b input of
      Inl e \<Rightarrow> createPolicyRule env gen b input s = Inl e
    | Inr _ \<Rightarrow> \<exists>s' row. createPolicyRule env gen b input s = Inr (toRuleDto row, s') \<and>
        others (drafts (scopeRows b s')) = others (drafts (scopeRows b s)) @ [row] \<and>
        row = (createRow b input (row_priority row) (row_logicalId row))\<lparr>row_id := row_id row\<rparr> \<and>
        (\<forall>r \<in> set (others (drafts (scopeRows b s))). row_priority r < row_priority row)"
proof (cases "validateCreate env b input")
  case (Inl e)
  then show ?thesis by (simp add: createPolicyRule_def and_then_def)
next
  case (Inr u)
  then show ?thesis using create_result [OF reachable_ok [OF assms(2,1)] assms(1,3)] by simp
qed

theorem create_appends_or_refuses_witness:
  "(\<exists>s' row. createPolicyRule sampleEnv sampleSupply (WorkspaceScope ''w1'') sampleInput seededStore = Inr (toRuleDto row, s') \<and>
     others (drafts (scopeRows (WorkspaceScope ''w1'') s')) = [row] \<and> row_name row = ''No mail'') \<and>
   createPolicyRule sampleEnv sampleSupply (OrganizationScope ''o1'') sampleInput seededStore = Inl UNPROCESSABLE"
proof -
  have input: "createInputOk sampleInput" by code_simp
  have v: "validateCreate sampleEnv (WorkspaceScope ''w1'') sampleInput = Inr ()" by code_simp
  have v': "validateCreate sampleEnv (OrganizationScope ''o1'') sampleInput = Inl UNPROCESSABLE" by code_simp
  have none: "others (drafts (scopeRows (WorkspaceScope ''w1'') seededStore)) = []" by code_simp
  note c = create_appends_or_refuses [OF sampleSupply_inj seeded_reachable input, of sampleEnv]
  obtain s' row where s': "createPolicyRule sampleEnv sampleSupply (WorkspaceScope ''w1'') sampleInput seededStore = Inr (toRuleDto row, s')"
    "others (drafts (scopeRows (WorkspaceScope ''w1'') s')) = [row]"
    "row = (createRow (WorkspaceScope ''w1'') sampleInput (row_priority row) (row_logicalId row))\<lparr>row_id := row_id row\<rparr>"
    using c [of "WorkspaceScope ''w1''"] unfolding v none by auto
  moreover have "row_name row = ''No mail''" by (subst s'(3)) (simp add: createRow_def sampleInput_def)
  moreover have "createPolicyRule sampleEnv sampleSupply (OrganizationScope ''o1'') sampleInput seededStore = Inl UNPROCESSABLE"
    using c [of "OrganizationScope ''o1''"] unfolding v' by simp
  ultimately show ?thesis by blast
qed







text \<open>
  A grant without an identity does not stay an orphan.  A rule update can turn the row of a grant
  into a block for everyone: the rule service lets it drop all identities and does not look at the
  source.  Deleting any agent of the workspace then deletes that rule, and a third agent, blocked
  before, is allowed.\<close>

theorem identityless_grant_swept_for_everyone:
  "reachable sampleSupply widenedStore \<and>
   dec_action (evaluateNew exampleRegistry (map (engineRule noSecrets [(''c1'', ''resend'')])
     (loadRules (st_rules widenedStore) (WorkspaceScope ''w1'') ''published'' False)) (sampleRequest\<lparr>req_agentId := ''a2''\<rparr>)) = Block \<and>
   dec_action (evaluateNew exampleRegistry (map (engineRule noSecrets [(''c1'', ''resend'')])
     (loadRules (st_rules (cascadePrincipal (DeletedAgent ''a3'' ''w1'')
        (snd (dropPrincipalFromPolicyInTx (DeletedAgent ''a3'' ''w1'') widenedStore)))) (WorkspaceScope ''w1'') ''published'' False))
     (sampleRequest\<lparr>req_agentId := ''a2''\<rparr>)) = Allow"
proof (intro conjI)
  show "reachable sampleSupply widenedStore" by (rule widened_reachable)
  show "dec_action (evaluateNew exampleRegistry (map (engineRule noSecrets [(''c1'', ''resend'')])
     (loadRules (st_rules widenedStore) (WorkspaceScope ''w1'') ''published'' False)) (sampleRequest\<lparr>req_agentId := ''a2''\<rparr>)) = Block"
    by code_simp
  show "dec_action (evaluateNew exampleRegistry (map (engineRule noSecrets [(''c1'', ''resend'')])
     (loadRules (st_rules (cascadePrincipal (DeletedAgent ''a3'' ''w1'')
        (snd (dropPrincipalFromPolicyInTx (DeletedAgent ''a3'' ''w1'') widenedStore)))) (WorkspaceScope ''w1'') ''published'' False))
     (sampleRequest\<lparr>req_agentId := ''a2''\<rparr>)) = Allow"
    by code_simp
qed

end
