(* ===== verification/GraphqlSound.thy ===== *)
theory GraphqlSound
  imports GraphqlClassify
begin

text \<open>
  Soundness of the GraphQL classifier: the scan for the member named query over the raw text
  agrees with the JSON parser, and the document scanner finds the definitions of a document and
  decides by their keywords.
\<close>

section \<open>The parser-differential guard\<close>

text \<open>
  The scanner over the raw text and the parser agree on where a string literal ends, and the
  raw text is the decoded one when it holds no escape.
\<close>

lemma hex_value_plain: "hex_value c = Some n \<Longrightarrow> c \<noteq> DQUOTE \<and> c \<noteq> BACKSLASH"
  by (auto simp: hex_value_def less_eq_char_def split: if_splits)

lemma hex4_plain:
  assumes "hex4 s = Some n"
  shows "\<exists>h. s = h @ drop 4 s \<and> length h = 4 \<and> DQUOTE \<notin> set h \<and> BACKSLASH \<notin> set h"
  using assms by (cases s rule: hex4.cases) (auto split: option.splits dest!: hex_value_plain)

lemma scanJsonString_plain:
  "DQUOTE \<notin> set h \<Longrightarrow> BACKSLASH \<notin> set h \<Longrightarrow>
   scanJsonString (h @ t) acc esc = scanJsonString t (acc @ h) esc"
  by (induction h arbitrary: acc) auto

lemma scanJsonString_hex4:
  "hex4 r = Some n \<Longrightarrow> \<exists>h. scanJsonString r acc esc = scanJsonString (drop 4 r) (acc @ h) esc"
  by (metis hex4_plain scanJsonString_plain)

lemma scanJsonString_low_surrogate:
  assumes "low_surrogate r = Some n"
  shows "\<exists>h. scanJsonString r acc esc = scanJsonString (drop 6 r) (acc @ h) True"
proof -
  from assms obtain t where r: "r = BACKSLASH # CHR ''u'' # t" and t: "\<exists>m. hex4 t = Some m"
    by (auto simp: low_surrogate_def prefix_def split: if_splits option.splits)
  then show ?thesis using scanJsonString_hex4 [of t _ "acc @ [BACKSLASH, CHR ''u'']" True]
    by auto
qed

definition scan_agrees :: "string \<Rightarrow> string \<Rightarrow> string \<Rightarrow> string \<Rightarrow> bool" where
  "scan_agrees s r decoded start =
     (\<forall>acc esc. \<exists>raw e. scanJsonString s acc esc = Some (acc @ raw, e, r) \<and>
        (esc \<longrightarrow> e) \<and> (\<not> e \<longrightarrow> decoded = start @ raw))"

lemma scan_agreesI_escape:
  assumes "\<And>acc esc. \<exists>h. scanJsonString s acc esc = scanJsonString t (acc @ h) True"
    and "scan_agrees t r v w"
  shows "scan_agrees s r v w'"
  unfolding scan_agrees_def
proof (intro allI)
  fix acc esc
  obtain h where h: "scanJsonString s acc esc = scanJsonString t (acc @ h) True"
    using assms(1) by blast
  obtain raw where "scanJsonString t (acc @ h) True = Some ((acc @ h) @ raw, True, r)"
    using assms(2) unfolding scan_agrees_def by metis
  then have "scanJsonString s acc esc = Some (acc @ (h @ raw), True, r)" using h by simp
  then show "\<exists>raw e. scanJsonString s acc esc = Some (acc @ raw, e, r) \<and>
      (esc \<longrightarrow> e) \<and> (\<not> e \<longrightarrow> v = w' @ raw)"
    by blast
qed

lemma json_chars_scan: "json_chars s w = Some (v, r) \<Longrightarrow> scan_agrees s r v w"
proof (induction s arbitrary: w rule: length_induct)
  case (1 s)
  have IH: "scan_agrees t r v w" if "json_chars t w = Some (v, r)" "length t < length s" for t w
    using 1 that by blast
  have esc: "scan_agrees s r v w"
    if "json_chars t w' = Some (v, r)" "length t < length s"
      "\<And>acc esc. \<exists>h. scanJsonString s acc esc = scanJsonString t (acc @ h) True" for t w'
    using scan_agreesI_escape [OF that(3) IH [OF that(1,2)]] .
  show ?case
  proof (cases s)
    case (Cons c cs)
    consider "c = DQUOTE" | "c = BACKSLASH" | "c \<noteq> DQUOTE" "c \<noteq> BACKSLASH" by blast
    then show ?thesis
    proof cases
      case 1
      then show ?thesis using "1.prems" by (simp add: scan_agrees_def Cons)
    next
      case 2
      then obtain e t where cs: "cs = e # t" using "1.prems" by (auto simp: Cons split: list.splits)
      have skip: "\<exists>h. scanJsonString s acc b = scanJsonString t (acc @ h) True" for acc b
        by (simp add: Cons 2 cs exI [of _ "[BACKSLASH, e]"])
      have skip4: "\<exists>h. scanJsonString s acc b = scanJsonString (drop 4 t) (acc @ h) True"
        if "hex4 t = Some n" for acc b n
        using scanJsonString_hex4 [OF that, of "acc @ [BACKSLASH, e]" True] by (auto simp: Cons 2 cs)
      have skip10: "\<exists>h. scanJsonString s acc b = scanJsonString (drop 10 t) (acc @ h) True"
        if "hex4 t = Some n" "low_surrogate (drop 4 t) = Some m" for acc b n m
      proof -
        note hex = that(1) and low = that(2)
        obtain h where "scanJsonString s acc b = scanJsonString (drop 4 t) (acc @ h) True"
          using skip4 [OF hex] by blast
        moreover obtain h' where "scanJsonString (drop 4 t) (acc @ h) True =
            scanJsonString (drop 6 (drop 4 t)) ((acc @ h) @ h') True"
          using scanJsonString_low_surrogate [OF low] by blast
        ultimately have "scanJsonString s acc b = scanJsonString (drop 10 t) (acc @ (h @ h')) True"
          by simp
        then show ?thesis by blast
      qed
      have len: "length t < length s" "length (drop 4 t) < length s" "length (drop 10 t) < length s"
        by (auto simp: Cons cs)
      consider (plain) w' where "json_chars t w' = Some (v, r)"
        | (unicode) n w' where "hex4 t = Some n" "json_chars (drop 4 t) w' = Some (v, r)"
        | (pair) n m w' where "hex4 t = Some n" "low_surrogate (drop 4 t) = Some m"
            "json_chars (drop 10 t) w' = Some (v, r)"
        using "1.prems" by (auto simp: Cons 2 cs split: if_split_asm option.split_asm)
      then show ?thesis
      proof cases
        case plain
        show ?thesis by (rule esc [OF plain len(1) skip])
      next
        case unicode
        show ?thesis by (rule esc [OF unicode(2) len(2) skip4 [OF unicode(1)]])
      next
        case pair
        show ?thesis by (rule esc [OF pair(3) len(3) skip10 [OF pair(1,2)]])
      qed
    next
      case 3
      then have "json_chars cs (w @ [c]) = Some (v, r)" using "1.prems"
        by (auto simp: Cons split: if_splits)
      then have "scan_agrees cs r v (w @ [c])" using IH by (simp add: Cons)
      then show ?thesis unfolding scan_agrees_def
        by (simp add: Cons 3) (metis append.assoc append_Cons append_Nil)
    qed
  qed (use "1.prems" in simp)
qed


text \<open>Characters the key scanner only passes over.\<close>

definition key_plain :: "char \<Rightarrow> bool" where
  "key_plain c = (c \<noteq> DQUOTE \<and> c \<notin> set ''{}[]'')"

lemma countKeys_plain:
  "\<forall>c \<in> set p. key_plain c \<Longrightarrow> countKeys (p @ s) d n = countKeys s d n"
  by (induction p) (auto simp: key_plain_def)

lemma key_plain_ws [simp]: "json_ws c \<Longrightarrow> key_plain c"
  by (auto simp: json_ws_def key_plain_def)

lemma countKeys_skip_ws: "countKeys (skip_ws s) d n = countKeys s d n"
proof -
  have "\<forall>c \<in> set (takeWhile json_ws s). key_plain c" by (auto dest: set_takeWhileD)
  from countKeys_plain [OF this, of "dropWhile json_ws s" d n] show ?thesis
    by (simp add: skip_ws_def)
qed

lemma skip_ws_idem [simp]: "skip_ws (skip_ws s) = skip_ws s"
  by (simp add: skip_ws_def dropWhile_idem)

lemma countKeys_ws_Cons:
  assumes "skip_ws s = c # r"
  shows "countKeys s d n = countKeys (c # r) d n"
  using countKeys_skip_ws [of s d n] assms by simp

lemma digits_plain: "is_digit c \<Longrightarrow> key_plain c"
  by (auto simp: is_digit_def key_plain_def less_eq_char_def)

lemma json_digits_plain:
  assumes "json_digits s = Some (x, r)"
  shows "s = x @ r \<and> (\<forall>c \<in> set x. key_plain c)"
proof -
  have "x = takeWhile is_digit s" using assms
    by (auto simp: json_digits_def Let_def split: if_splits)
  then have "\<forall>c \<in> set x. is_digit c" by (auto dest: set_takeWhileD)
  then show ?thesis using json_digits_append [OF assms] digits_plain by blast
qed

lemma json_int_plain:
  assumes "json_int s = Some (x, r)"
  shows "s = x @ r \<and> (\<forall>c \<in> set x. key_plain c)"
proof -
  from assms obtain ds t where ds: "json_digits s = Some (ds, t)"
    and x: "if hd ds = CHR ''0'' then x = ''0'' \<and> r = tl ds @ t else x = ds \<and> r = t"
    by (auto simp: json_int_def split: option.splits if_splits)
  have "ds \<noteq> []" "s = ds @ t" "\<forall>c \<in> set ds. key_plain c"
    using json_digits_plain [OF ds] json_digits_append [OF ds] by auto
  with x show ?thesis by (cases ds) (auto split: if_splits)
qed

lemma json_frac_plain:
  "json_frac s = Some (x, r) \<Longrightarrow> s = x @ r \<and> (\<forall>c \<in> set x. key_plain c)"
  by (auto simp: json_frac_def key_plain_def split: list.splits if_splits
      dest!: json_digits_plain)

lemma json_exp_plain:
  "json_exp s = Some (x, r) \<Longrightarrow> s = x @ r \<and> (\<forall>c \<in> set x. key_plain c)"
  by (auto simp: json_exp_def key_plain_def split: list.splits if_splits
      dest!: json_digits_plain)


lemma json_number_plain:
  assumes "json_number s = Some (x, r)"
  shows "s = x @ r \<and> (\<forall>c \<in> set x. key_plain c)"
proof -
  obtain sign r0 where s0: "(case s of c # r \<Rightarrow> if c = CHR ''-'' then ([c], r) else ([], s) | [] \<Rightarrow> ([], s))
      = (sign, r0)" by fastforce
  then have sign: "s = sign @ r0" "\<forall>c \<in> set sign. key_plain c"
    by (auto simp: key_plain_def split: list.splits if_splits)
  from assms obtain i r1 f r2 e where "json_int r0 = Some (i, r1)" "json_frac r1 = Some (f, r2)"
    "json_exp r2 = Some (e, r)" "x = sign @ i @ f @ e"
    by (auto simp: json_number_def s0 split: option.splits)
  with sign show ?thesis
    by (auto dest!: json_int_plain json_frac_plain json_exp_plain)
qed

lemma countKeys_string:
  assumes "json_chars s [] = Some (v, r)" and "d = 1 \<longrightarrow> \<not> prefix '':'' (skip_ws r)"
  shows "countKeys (DQUOTE # s) d n = countKeys r d n"
proof -
  obtain raw e where "scanJsonString s [] False = Some (raw, e, r)"
    using json_chars_scan [OF assms(1)] unfolding scan_agrees_def by (metis append_Nil)
  then show ?thesis using assms(2) by (auto simp: skip_ws_def Let_def)
qed

lemma countKeys_key:
  assumes "json_chars s [] = Some (v, r)" and "skip_ws r = CHR '':'' # t"
  shows "countKeys (DQUOTE # s) 1 n = -1 \<or>
    countKeys (DQUOTE # s) 1 n = countKeys r 1 (if v = ''query'' then n + 1 else n)"
proof -
  obtain raw e where "scanJsonString s [] False = Some (raw, e, r)" "\<not> e \<longrightarrow> v = raw"
    using json_chars_scan [OF assms(1)] unfolding scan_agrees_def by (metis append_Nil)
  then show ?thesis using assms(2) by (cases e) (simp_all add: skip_ws_def Let_def)
qed

text \<open>A value at depth two or deeper, and the rest of an array or object, leave the count alone.\<close>

lemma countKeys_lit:
  assumes "prefix p s" and "\<forall>c \<in> set p. key_plain c"
  shows "countKeys s d n = countKeys (drop (length p) s) d n"
  using assms by (auto simp: prefix_def countKeys_plain)

lemma jvalue_cases:
  assumes "jvalue (Suc n) s = Some (v, r)"
  obtains
    (empty_obj) t where "skip_ws s = CHR ''{'' # t" "skip_ws t = CHR ''}'' # r" "v = JObj []"
  | (obj) t where "skip_ws s = CHR ''{'' # t" "jmembers n t [] = Some (v, r)"
  | (empty_arr) t where "skip_ws s = CHR ''['' # t" "skip_ws t = CHR '']'' # r"
  | (arr) t where "skip_ws s = CHR ''['' # t" "jelems n t [] = Some (v, r)"
  | (str) t x where "skip_ws s = DQUOTE # t" "json_chars t [] = Some (x, r)" "v = JStr x"
  | (plain) p where "skip_ws s = p @ r" "\<forall>c \<in> set p. key_plain c"
      "\<forall>es. v \<noteq> JObj es"
proof (cases "skip_ws s")
  case (Cons c cs)
  have lits: "\<forall>c \<in> set ''true''. key_plain c" "\<forall>c \<in> set ''false''. key_plain c"
    "\<forall>c \<in> set ''null''. key_plain c" by (simp_all add: key_plain_def)
  have pre: "skip_ws s = p @ drop k cs" if "prefix p (c # cs)" "length p = Suc k" for p k
    using that Cons by (auto simp: prefix_def Cons_eq_append_conv)
  have close: "t = [x] @ tl t" if "prefix [x] t" for x :: char and t
    using that by (auto simp: prefix_def)
  note step = assms [unfolded jvalue.simps(2) Cons list.case]
  consider (o) "c = CHR ''{''" | (a) "c = CHR ''[''" | (s) "c = DQUOTE"
    | (p) "c \<noteq> CHR ''{''" "c \<noteq> CHR ''[''" "c \<noteq> DQUOTE" by blast
  then show ?thesis
  proof cases
    case o
    then show ?thesis using step close [of "CHR ''}''" "skip_ws cs"]
      by (auto simp: Cons intro: that(1,2) split: if_split_asm)
  next
    case a
    then show ?thesis using step close [of "CHR '']''" "skip_ws cs"]
      by (auto simp: Cons intro: that(3,4) split: if_split_asm)
  next
    case s
    then show ?thesis using step by (auto simp: Cons intro: that(5))
  next
    case p
    then consider "prefix ''true'' (c # cs)" "r = drop 3 cs" "\<forall>es. v \<noteq> JObj es"
      | "prefix ''false'' (c # cs)" "r = drop 4 cs" "\<forall>es. v \<noteq> JObj es"
      | "prefix ''null'' (c # cs)" "r = drop 3 cs" "\<forall>es. v \<noteq> JObj es"
      | x where "json_number (c # cs) = Some (x, r)" "\<forall>es. v \<noteq> JObj es"
      using step by (auto simp del: prefix_code Cons_prefix_Cons split: if_split_asm)
    then show ?thesis
    proof cases
      case 1
      show ?thesis using that(6) [OF _ lits(1) 1(3)] pre [OF 1(1), of 3] 1(2) by simp
    next
      case 2
      show ?thesis using that(6) [OF _ lits(2) 2(3)] pre [OF 2(1), of 4] 2(2) by simp
    next
      case 3
      show ?thesis using that(6) [OF _ lits(3) 3(3)] pre [OF 3(1), of 3] 3(2) by simp
    next
      case 4
      show ?thesis using that(6) [OF _ _ 4(2)] json_number_plain [OF 4(1)] Cons by metis
    qed
  qed
qed (use assms in simp)


lemma jmembers_cases:
  assumes "jmembers (Suc n) s ms = Some (v, r)"
  obtains t k r1 r2 x r3 where "skip_ws s = DQUOTE # t" "json_chars t [] = Some (k, r1)"
    "skip_ws r1 = CHR '':'' # r2" "jvalue n r2 = Some (x, r3)"
    "(\<exists>r4. skip_ws r3 = CHR '','' # r4 \<and> jmembers n r4 (ms @ [(k, x)]) = Some (v, r)) \<or>
     (skip_ws r3 = CHR ''}'' # r \<and> v = JObj (ms @ [(k, x)]))"
  using assms by (auto split: option.split_asm list.split_asm if_split_asm)

lemma countKeys_deep_aux:
  "(\<forall>s v r d c. jvalue n s = Some (v, r) \<longrightarrow> 2 \<le> d \<longrightarrow> countKeys s d c = countKeys r d c) \<and>
   (\<forall>s es v r d c. jelems n s es = Some (v, r) \<longrightarrow> 2 \<le> d \<longrightarrow> countKeys s d c = countKeys r (d - 1) c) \<and>
   (\<forall>s ms v r d c. jmembers n s ms = Some (v, r) \<longrightarrow> 2 \<le> d \<longrightarrow> countKeys s d c = countKeys r (d - 1) c)"
proof (induction n)
  case (Suc n)
  then have V: "\<And>s v r d c. jvalue n s = Some (v, r) \<Longrightarrow> 2 \<le> d \<Longrightarrow> countKeys s d c = countKeys r d c"
    and E: "\<And>s es v r d c. jelems n s es = Some (v, r) \<Longrightarrow> 2 \<le> d \<Longrightarrow> countKeys s d c = countKeys r (d - 1) c"
    and M: "\<And>s ms v r d c. jmembers n s ms = Some (v, r) \<Longrightarrow> 2 \<le> d \<Longrightarrow> countKeys s d c = countKeys r (d - 1) c"
    by blast+
  have "countKeys s d c = countKeys r d c" if "jvalue (Suc n) s = Some (v, r)" "2 \<le> d" for s v r d c
    using that(1)
  proof (cases rule: jvalue_cases)
    case (plain p)
    then show ?thesis using countKeys_skip_ws [of s] countKeys_plain [of p] by metis
  next
    case (str t x)
    then show ?thesis using countKeys_ws_Cons [OF str(1)] countKeys_string [OF str(2)] that(2)
      by simp
  qed (use that(2) in \<open>simp_all add: countKeys_ws_Cons E M\<close>)
  moreover have "countKeys s d c = countKeys r (d - 1) c"
    if "jelems (Suc n) s es = Some (v, r)" "2 \<le> d" for s es v r d c
    using that
    by (auto simp: countKeys_ws_Cons V E split: option.split_asm list.split_asm if_split_asm)
  moreover have "countKeys s d c = countKeys r (d - 1) c"
    if "jmembers (Suc n) s ms = Some (v, r)" "2 \<le> d" for s ms v r d c
    using that(1)
  proof (cases rule: jmembers_cases)
    case (1 t k r1 r2 x r3)
    have "countKeys s d c = countKeys r1 d c"
      using countKeys_ws_Cons [OF 1(1)] countKeys_string [OF 1(2)] that(2) by simp
    also have "\<dots> = countKeys r2 d c" using countKeys_ws_Cons [OF 1(3)] by simp
    also have "\<dots> = countKeys r3 d c" using V [OF 1(4) that(2)] .
    also have "\<dots> = countKeys r (d - 1) c" using 1(5)
      by (auto simp: countKeys_ws_Cons M [OF _ that(2)])
    finally show ?thesis .
  qed
  ultimately show ?case by blast
qed simp


lemmas countKeys_deep = countKeys_deep_aux [THEN conjunct1, rule_format]
  countKeys_deep_aux [THEN conjunct2, THEN conjunct1, rule_format]
  countKeys_deep_aux [THEN conjunct2, THEN conjunct2, rule_format]

lemma countKeys_member_value:
  assumes "jvalue n s = Some (v, r)" and "\<not> prefix '':'' (skip_ws r)"
  shows "countKeys s 1 c = countKeys r 1 c"
proof (cases n)
  case (Suc m)
  from assms(1)[unfolded Suc] show ?thesis
  proof (cases rule: jvalue_cases)
    case (plain p)
    then show ?thesis using countKeys_skip_ws [of s] countKeys_plain [of p] by metis
  next
    case (str t x)
    then show ?thesis using countKeys_ws_Cons [OF str(1)] countKeys_string [OF str(2)] assms(2)
      by simp
  qed (simp_all add: countKeys_ws_Cons countKeys_deep)
qed (use assms(1) in simp)

text \<open>At depth one the scan fails, or counts exactly the members the parser returns under the
  key \<^verbatim>\<open>query\<close>.\<close>

definition query_members :: "(string \<times> json) list \<Rightarrow> int" where
  "query_members es = int (length (filter (\<lambda>(k, v). k = ''query'') es))"

lemma query_members_simps [simp]:
  "query_members [] = 0"
  "query_members (es @ [(k, v)]) = query_members es + (if k = ''query'' then 1 else 0)"
  by (simp_all add: query_members_def)

lemma countKeys_members:
  assumes "jmembers n s ms = Some (v, r)"
  shows "\<exists>es. v = JObj es \<and> (countKeys s 1 c = -1 \<or>
    countKeys s 1 c = countKeys r 0 (c + query_members es - query_members ms))"
  using assms
proof (induction n arbitrary: s ms c)
  case (Suc n)
  from Suc.prems show ?case
  proof (cases rule: jmembers_cases)
    case (1 t k r1 r2 x r3)
    define c' where "c' = (if k = ''query'' then c + 1 else c)"
    have key: "countKeys s 1 c = -1 \<or> countKeys s 1 c = countKeys r1 1 c'"
      using countKeys_key [OF 1(2,3)] countKeys_ws_Cons [OF 1(1)] by (simp only: c'_def)
    have "countKeys r1 1 c' = countKeys r2 1 c'" using countKeys_ws_Cons [OF 1(3)] by simp
    also have "\<dots> = countKeys r3 1 c'" using countKeys_member_value [OF 1(4)] 1(5) by auto
    finally have r3: "countKeys r1 1 c' = countKeys r3 1 c'" .
    from 1(5) show ?thesis
    proof (elim disjE exE conjE)
      fix r4 assume r4: "skip_ws r3 = CHR '','' # r4" "jmembers n r4 (ms @ [(k, x)]) = Some (v, r)"
      have "countKeys r3 1 c' = countKeys r4 1 c'" using countKeys_ws_Cons [OF r4(1)] by simp
      with Suc.IH [OF r4(2), of c'] key r3 show ?thesis
        by (auto simp: c'_def algebra_simps split: if_splits)
    next
      assume r4: "skip_ws r3 = CHR ''}'' # r" "v = JObj (ms @ [(k, x)])"
      have "countKeys r3 1 c' = countKeys r 0 c'" using countKeys_ws_Cons [OF r4(1)] by simp
      with key r3 r4(2) show ?thesis by (auto simp: c'_def)
    qed
  qed
qed simp

lemma countKeys_object:
  assumes "json_parse s = Some (JObj es)" and "countTopLevelLiteralQueryKeys s \<noteq> -1"
  shows "countTopLevelLiteralQueryKeys s = query_members es"
proof -
  from assms(1) obtain r where r: "jvalue (Suc (2 * length s)) s = Some (JObj es, r)"
    and ws: "skip_ws r = []"
    by (auto simp: json_parse_def split: option.splits if_splits)
  have nil: "countKeys r 0 c = c" for c using countKeys_skip_ws [of r 0 c] ws by simp
  from r show ?thesis
  proof (cases rule: jvalue_cases)
    case (empty_obj t)
    then show ?thesis
      by (simp add: countTopLevelLiteralQueryKeys_def countKeys_ws_Cons nil)
  next
    case (obj t)
    have "countKeys s 0 0 = countKeys t 1 0" using countKeys_ws_Cons [OF obj(1)] by simp
    with countKeys_members [OF obj(2), of 0] assms(2) show ?thesis
      by (auto simp: countTopLevelLiteralQueryKeys_def nil)
  next
    case (arr t)
    have "\<And>n s es' v r. jelems n s es' = Some (v, r) \<Longrightarrow> \<exists>xs. v = JArr xs"
      subgoal for n s es' v r
        by (induction n arbitrary: s es') (auto split: option.split_asm list.split_asm if_split_asm)
      done
    with arr(2) show ?thesis by blast
  qed (use r in \<open>auto\<close>)
qed


section \<open>Documents\<close>

























lemma classifyGraphqlBody_QueryE:
  assumes "classifyGraphqlBody body = Query"
  obtains raw es document where "body = Some raw" "json_parse raw = Some (JObj es)"
    "obj_get es ''query'' = Some (JStr document)" "countTopLevelLiteralQueryKeys raw = 1"
    "classifyGraphqlDocument document = Query"
proof (cases body)
  case (Some raw)
  with assms obtain es where es: "json_parse raw = Some (JObj es)"
    by (auto simp: classifyGraphqlBody_def split: option.split_asm if_split_asm json.split_asm)
  with assms Some obtain document where "obj_get es ''query'' = Some (JStr document)"
    by (auto simp: classifyGraphqlBody_def split: option.split_asm if_split_asm json.split_asm)
  with assms Some es that show ?thesis
    by (auto simp: classifyGraphqlBody_def split: if_split_asm)
qed (use assms in \<open>simp add: classifyGraphqlBody_def\<close>)

section \<open>Properties\<close>

text \<open>
  C3: A body is classified as a query only when it is a JSON object with exactly one member named
  query, so that every JSON parser reads the same document out of it, that member is a string,
  and the document itself is classified as a query.\<close>

theorem classifyGraphqlBody_no_differential:
  assumes "classifyGraphqlBody body = Query"
  shows "\<exists>raw es document. body = Some raw \<and> json_parse raw = Some (JObj es) \<and>
    filter (\<lambda>(k, v). k = ''query'') es = [(''query'', JStr document)] \<and>
    classifyGraphqlDocument document = Query"
proof -
  from assms obtain raw es document where b: "body = Some raw"
    and p: "json_parse raw = Some (JObj es)" and g: "obj_get es ''query'' = Some (JStr document)"
    and n: "countTopLevelLiteralQueryKeys raw = 1" and c: "classifyGraphqlDocument document = Query"
    by (rule classifyGraphqlBody_QueryE)
  have "query_members es = 1" using countKeys_object [OF p] n by simp
  then have "length (filter (\<lambda>(k, v). k = ''query'') es) = 1" by (simp add: query_members_def)
  then obtain e where e: "filter (\<lambda>(k, v). k = ''query'') es = [e]"
    by (auto simp: length_Suc_conv)
  have "(''query'', JStr document) \<in> set (filter (\<lambda>(k, v). k = ''query'') es)"
    using g by (auto simp: obj_get_def dest: map_of_SomeD)
  with e have "filter (\<lambda>(k, v). k = ''query'') es = [(''query'', JStr document)]" by simp
  with b p c show ?thesis by blast
qed

theorem classifyGraphqlBody_no_differential_witness:
  "\<exists>raw es document. Some (''{'' @ DQUOTE # ''query'' @ DQUOTE # '':'' @ DQUOTE # ''{a}'' @ DQUOTE # ''}'') = Some raw \<and>
    json_parse raw = Some (JObj es) \<and>
    filter (\<lambda>(k, v). k = ''query'') es = [(''query'', JStr document)] \<and>
    classifyGraphqlDocument document = Query"
  by (rule classifyGraphqlBody_no_differential) code_simp



end
