(* ===== verification/SshWire.thy ===== *)
theory SshWire
  imports JsPrelude "HOL-Library.Word"
begin

text \<open>
  The wire format of SSH certificates and session grants
  (\<^verbatim>\<open>packages/ssh-cert/src/wire.ts\<close>): bytes are 8-bit words, a \<^verbatim>\<open>Buffer\<close> a list of them.  The
  writer appends to a buffer, the reader is a buffer with a cursor; what the code throws is the
  left side of the result.
\<close>

section \<open>Bytes and texts\<close>

type_synonym buffer = "8 word list"

datatype ssh_error =
    RangeError
  | TruncatedLength
  | TruncatedBody
  | TruncatedUint32
  | TruncatedUint64
  | TrailingBytes
  | UnsupportedKeyType
  | KeyLength
  | EmptyKey
  | MalformedLine
  | NotSpki
  | NoPrincipal
  | EmptyWindow
  | OddPacking
  | SignatureLength
  | UnsupportedCertificate
  | UnsupportedSignature
  | WrongMagic

type_synonym 'a wire = "ssh_error + 'a"

definition try_then :: "('e + 'a) \<Rightarrow> ('a \<Rightarrow> 'e + 'b) \<Rightarrow> 'e + 'b" where
  "try_then r f = (case r of Inl e \<Rightarrow> Inl e | Inr x \<Rightarrow> f x)"

definition ensure :: "bool \<Rightarrow> 'e \<Rightarrow> 'e + unit" where
  "ensure ok e = (if ok then Inr () else Inl e)"

text \<open>\<^verbatim>\<open>Buffer.from(text, "utf8")\<close>; a text is its UTF-8 bytes already.\<close>

definition textBytes :: "string \<Rightarrow> buffer" where
  "textBytes s = map (\<lambda>c. word_of_nat (of_char c)) s"

text \<open>
  \<^verbatim>\<open>buffer.toString("utf8")\<close>: the decoder of the Encoding standard.  It expects \<^term>\<open>n\<close> more bytes,
  the next one between \<^term>\<open>lo\<close> and \<^term>\<open>hi\<close>; what is not well-formed becomes U+FFFD.
\<close>

definition REPLACEMENT :: buffer where
  "REPLACEMENT = [0xEF, 0xBF, 0xBD]"

definition leadByte :: "8 word \<Rightarrow> (nat \<times> 8 word \<times> 8 word) option" where
  "leadByte b =
     (if 0xC2 \<le> b \<and> b \<le> 0xDF then Some (1, 0x80, 0xBF)
      else if 0xE0 \<le> b \<and> b \<le> 0xEF then
        Some (2, if b = 0xE0 then 0xA0 else 0x80, if b = 0xED then 0x9F else 0xBF)
      else if 0xF0 \<le> b \<and> b \<le> 0xF4 then
        Some (3, if b = 0xF0 then 0x90 else 0x80, if b = 0xF4 then 0x8F else 0xBF)
      else None)"

function decodeFrom :: "nat \<Rightarrow> 8 word \<Rightarrow> 8 word \<Rightarrow> buffer \<Rightarrow> buffer \<Rightarrow> buffer" where
  "decodeFrom n lo hi pending [] = (if n = 0 then [] else REPLACEMENT)"
| "decodeFrom 0 lo hi pending (b # bs) =
     (if b \<le> 0x7F then b # decodeFrom 0 0 0 [] bs
      else case leadByte b of
        None \<Rightarrow> REPLACEMENT @ decodeFrom 0 0 0 [] bs
      | Some (n, lo, hi) \<Rightarrow> decodeFrom n lo hi [b] bs)"
| "decodeFrom (Suc n) lo hi pending (b # bs) =
     (if lo \<le> b \<and> b \<le> hi then
        (if n = 0 then pending @ b # decodeFrom 0 0 0 [] bs
         else decodeFrom n 0x80 0xBF (pending @ [b]) bs)
      else REPLACEMENT @ decodeFrom 0 0 0 [] (b # bs))"
  by pat_completeness auto
termination
  by (relation "measure (\<lambda>(n, lo, hi, pending, bs). 2 * length bs + (if n = 0 then 0 else 1))") auto

definition bufferText :: "buffer \<Rightarrow> string" where
  "bufferText bs = map (\<lambda>b. char_of (unat b)) (decodeFrom 0 0 0 [] bs)"

text \<open>Big-endian integers: \<^verbatim>\<open>writeUInt32BE\<close>, \<^verbatim>\<open>writeBigUInt64BE\<close> and their readers.\<close>

fun beBytes :: "nat \<Rightarrow> int \<Rightarrow> buffer" where
  "beBytes 0 v = []"
| "beBytes (Suc n) v = beBytes n (v div 256) @ [word_of_int v]"

definition beInt :: "buffer \<Rightarrow> int" where
  "beInt bs = foldl (\<lambda>a b. a * 256 + uint b) 0 bs"

section \<open>Writer\<close>

definition writeBytes :: "buffer \<Rightarrow> buffer \<Rightarrow> buffer wire" where
  "writeBytes bytes w = Inr (w @ bytes)"

definition writeUint32 :: "int \<Rightarrow> buffer \<Rightarrow> buffer wire" where
  "writeUint32 v w = (if 0 \<le> v \<and> v \<le> 0xffffffff then Inr (w @ beBytes 4 v) else Inl RangeError)"

definition writeString :: "buffer \<Rightarrow> buffer \<Rightarrow> buffer wire" where
  "writeString bytes w =
     (if int (length bytes) \<le> 0xffffffff then Inr (w @ beBytes 4 (int (length bytes)) @ bytes) else Inl RangeError)"

definition writeUint64 :: "int \<Rightarrow> buffer \<Rightarrow> buffer wire" where
  "writeUint64 v w = (if v < 0 \<or> v > 0xffffffffffffffff then Inl RangeError else Inr (w @ beBytes 8 v))"

section \<open>Reader\<close>

record wire_reader =
  rd_buf :: buffer
  rd_offset :: nat

definition newReader :: "buffer \<Rightarrow> wire_reader" where
  "newReader b = \<lparr>rd_buf = b, rd_offset = 0\<rparr>"

definition remaining :: "wire_reader \<Rightarrow> int" where
  "remaining r = int (length (rd_buf r)) - int (rd_offset r)"

definition span :: "nat \<Rightarrow> wire_reader \<Rightarrow> buffer" where
  "span n r = take n (drop (rd_offset r) (rd_buf r))"

definition advance :: "nat \<Rightarrow> wire_reader \<Rightarrow> wire_reader" where
  "advance n r = r\<lparr>rd_offset := rd_offset r + n\<rparr>"

definition readString :: "wire_reader \<Rightarrow> (buffer \<times> wire_reader) wire" where
  "readString r =
     (if remaining r < 4 then Inl TruncatedLength
      else
        (let len = beInt (span 4 r); r1 = advance 4 r in
         if remaining r1 < len then Inl TruncatedBody
         else Inr (span (nat len) r1, advance (nat len) r1)))"

definition readUint32 :: "wire_reader \<Rightarrow> (int \<times> wire_reader) wire" where
  "readUint32 r = (if remaining r < 4 then Inl TruncatedUint32 else Inr (beInt (span 4 r), advance 4 r))"

definition readUint64 :: "wire_reader \<Rightarrow> (int \<times> wire_reader) wire" where
  "readUint64 r = (if remaining r < 8 then Inl TruncatedUint64 else Inr (beInt (span 8 r), advance 8 r))"

definition expectEnd :: "wire_reader \<Rightarrow> unit wire" where
  "expectEnd r = (if remaining r \<noteq> 0 then Inl TrailingBytes else Inr ())"

text \<open>The strings packed into a field, one after the other.\<close>

lemma remaining_advance: "remaining (advance n r) = remaining r - int n"
  by (simp add: remaining_def advance_def)

lemma beInt_nonneg: "0 \<le> beInt bs"
proof -
  have "0 \<le> a \<Longrightarrow> 0 \<le> foldl (\<lambda>a b. a * 256 + uint b) a bs" for a
    by (induction bs arbitrary: a) simp_all
  then show ?thesis by (simp add: beInt_def)
qed

lemma readString_consumes: "readString r = Inr (s, r') \<Longrightarrow> 0 \<le> remaining r' \<and> remaining r' < remaining r"
  using beInt_nonneg [of "span 4 r"] by (auto simp: readString_def Let_def remaining_advance split: if_splits)

function readStrings :: "wire_reader \<Rightarrow> buffer list wire" where
  "readStrings r =
     (if remaining r > 0
      then (case readString r of
          Inl e \<Rightarrow> Inl e
        | Inr (s, r') \<Rightarrow> (case readStrings r' of Inl e \<Rightarrow> Inl e | Inr ss \<Rightarrow> Inr (s # ss)))
      else Inr [])"
  by pat_completeness auto
termination
  by (relation "measure (\<lambda>r. nat (remaining r))") (auto dest!: readString_consumes)

declare readStrings.simps [simp del]

definition readPackedStrings :: "buffer \<Rightarrow> buffer list wire" where
  "readPackedStrings packed = readStrings (newReader packed)"

section \<open>Lemmas\<close>

lemma length_beBytes [simp]: "length (beBytes n v) = n"
  by (induction n arbitrary: v) auto

lemma beInt_append [simp]: "beInt (bs @ [b]) = beInt bs * 256 + uint b" "beInt [] = 0"
  by (simp_all add: beInt_def)

lemma beInt_beBytes: "0 \<le> v \<Longrightarrow> v < 256 ^ n \<Longrightarrow> beInt (beBytes n v) = v"
proof (induction n arbitrary: v)
  case (Suc n)
  have "v div 256 < 256 ^ n" using Suc(3) by (simp add: div_less_iff_less_mult mult.commute)
  then have "beInt (beBytes n (v div 256)) = v div 256" using Suc(1,2) by simp
  moreover have "uint (word_of_int v :: 8 word) = v mod 256" by (simp add: uint_word_of_int)
  ultimately show ?case by simp
qed simp

lemma beInt_bounds: "0 \<le> beInt bs \<and> beInt bs < 256 ^ length bs"
proof (induction bs rule: rev_induct)
  case (snoc b bs)
  have "uint b < 256" using uint_bounded [of b] by simp
  then show ?case using snoc uint_ge_0 [of b] by simp
qed simp

lemma beBytes_beInt: "beBytes (length bs) (beInt bs) = bs"
proof (induction bs rule: rev_induct)
  case (snoc b bs)
  have "uint b < 256" using uint_bounded [of b] by simp
  then have "(beInt bs * 256 + uint b) div 256 = beInt bs" using uint_ge_0 [of b] by simp
  moreover have "word_of_int (beInt bs * 256 + uint b) = b"
  proof -
    have "uint (word_of_int k :: 8 word) = k mod 256" for k by (simp add: uint_word_of_int)
    then have "uint (word_of_int (beInt bs * 256 + uint b) :: 8 word) = uint b"
      using \<open>uint b < 256\<close> uint_ge_0 [of b] by (simp only: mod_mult_self3 mod_pos_pos_trivial)
    then show ?thesis by (simp only: word_uint_eq_iff)
  qed
  ultimately show ?case using snoc by simp
qed simp

text \<open>
  A codec: what is written reads back, with the cursor behind it, and whatever is read was written
  there exactly so.
\<close>

definition consumed :: "wire_reader \<Rightarrow> buffer" where
  "consumed r = take (rd_offset r) (rd_buf r)"

definition rest :: "wire_reader \<Rightarrow> buffer" where
  "rest r = drop (rd_offset r) (rd_buf r)"

definition sane :: "wire_reader \<Rightarrow> bool" where
  "sane r = (rd_offset r \<le> length (rd_buf r))"

definition cursor :: "buffer \<Rightarrow> buffer \<Rightarrow> wire_reader" where
  "cursor pre post = \<lparr>rd_buf = pre @ post, rd_offset = length pre\<rparr>"

lemma cursor_facts [simp]:
  "sane (cursor pre post)" "consumed (cursor pre post) = pre" "rest (cursor pre post) = post"
  "rd_buf (cursor pre post) = pre @ post" "rd_offset (cursor pre post) = length pre"
  by (simp_all add: cursor_def sane_def consumed_def rest_def)

lemma consumed_rest: "rd_buf r = consumed r @ rest r"
  by (simp add: consumed_def rest_def)

lemma cursor_of: "sane r \<Longrightarrow> r = cursor (consumed r) (rest r)"
  by (cases r) (simp add: cursor_def consumed_def rest_def sane_def)

locale wire_codec =
  fixes put :: "'a \<Rightarrow> buffer" and get :: "wire_reader \<Rightarrow> ('a \<times> wire_reader) wire" and valid :: "'a \<Rightarrow> bool"
  assumes get_put: "valid x \<Longrightarrow> get \<lparr>rd_buf = pre @ put x @ post, rd_offset = length pre\<rparr> =
      Inr (x, \<lparr>rd_buf = pre @ put x @ post, rd_offset = length pre + length (put x)\<rparr>)"
    and get_exact: "get r = Inr (x, r') \<Longrightarrow> sane r \<Longrightarrow>
      valid x \<and> sane r' \<and> rd_buf r' = rd_buf r \<and> consumed r' = consumed r @ put x"
begin

lemma get_at:
  assumes "valid x" and "rd_buf r = pre @ put x @ post" and "rd_offset r = length pre"
  shows "get r = Inr (x, advance (length (put x)) r)"
  using get_put [OF assms(1), of pre post] assms(2,3) by (cases r) (simp add: advance_def)

lemma get_rest:
  assumes "valid x" and "sane r" and "rest r = put x @ post"
  shows "get r = Inr (x, advance (length (put x)) r)" and "rest (advance (length (put x)) r) = post"
    and "sane (advance (length (put x)) r)" and "consumed (advance (length (put x)) r) = consumed r @ put x"
proof -
  have b: "rd_buf r = consumed r @ put x @ post" "rd_offset r = length (consumed r)"
    unfolding assms(3) [symmetric] using assms(2) by (simp_all add: rest_def consumed_def sane_def)
  have d: "drop (rd_offset r + length (put x)) (rd_buf r) = post" "take (rd_offset r + length (put x)) (rd_buf r) = consumed r @ put x"
    unfolding b(2) by (simp_all only: b(1) drop_append take_append) simp_all
  have l: "rd_offset r + length (put x) \<le> length (rd_buf r)" unfolding b(2) by (subst b(1)) simp
  show "get r = Inr (x, advance (length (put x)) r)" by (rule get_at [OF assms(1) b])
  show "rest (advance (length (put x)) r) = post" using d(1) by (simp add: rest_def advance_def)
  show "sane (advance (length (put x)) r)" using l by (simp add: sane_def advance_def)
  show "consumed (advance (length (put x)) r) = consumed r @ put x"
    unfolding consumed_def [of "advance (length (put x)) r"] using d(2) by (simp add: advance_def)
qed

text \<open>Reading at a cursor succeeds exactly when an encoding stands behind it.\<close>

lemma get_iff:
  "get (cursor pre b) = Inr (x, r') \<longleftrightarrow> valid x \<and> (\<exists>post. b = put x @ post \<and> r' = cursor (pre @ put x) post)"
proof
  assume read: "get (cursor pre b) = Inr (x, r')"
  note e = get_exact [OF read cursor_facts(1)]
  have c: "consumed r' = pre @ put x" "rd_buf r' = pre @ b" "sane r'" using e by simp_all
  then have "b = put x @ rest r'" using consumed_rest [of r'] by simp
  moreover have "r' = cursor (pre @ put x) (rest r')" using cursor_of [OF c(3)] c(1) by simp
  ultimately show "valid x \<and> (\<exists>post. b = put x @ post \<and> r' = cursor (pre @ put x) post)" using e by blast
next
  assume "valid x \<and> (\<exists>post. b = put x @ post \<and> r' = cursor (pre @ put x) post)"
  then show "get (cursor pre b) = Inr (x, r')" using get_put [of x pre] by (auto simp: cursor_def)
qed

lemma get_then:
  "try_then (get (cursor pre b)) f = Inr y \<longleftrightarrow>
     (\<exists>x post. valid x \<and> b = put x @ post \<and> f (x, cursor (pre @ put x) post) = Inr y)"
proof -
  have "try_then (get (cursor pre b)) f = Inr y \<longleftrightarrow> (\<exists>x r'. get (cursor pre b) = Inr (x, r') \<and> f (x, r') = Inr y)"
    by (auto simp: try_then_def split: sum.splits)
  then show ?thesis by (auto simp: get_iff)
qed

lemma get_cursor: "valid x \<Longrightarrow> get (cursor pre (put x @ post)) = Inr (x, cursor (pre @ put x) post)"
  and get_last: "valid x \<Longrightarrow> get (cursor pre (put x)) = Inr (x, cursor (pre @ put x) [])"
  by (simp_all add: get_iff)

text \<open>Two encodings at the same place are the same value.\<close>

lemma put_unique:
  assumes "valid x" and "valid y" and "put x @ xs = put y @ ys"
  shows "x = y \<and> xs = ys"
proof -
  have "get \<lparr>rd_buf = put x @ xs, rd_offset = 0\<rparr> = Inr (x, \<lparr>rd_buf = put x @ xs, rd_offset = length (put x)\<rparr>)"
    using get_put [OF assms(1), of "[]" xs] by simp
  moreover have "get \<lparr>rd_buf = put y @ ys, rd_offset = 0\<rparr> = Inr (y, \<lparr>rd_buf = put y @ ys, rd_offset = length (put y)\<rparr>)"
    using get_put [OF assms(2), of "[]" ys] by simp
  ultimately show ?thesis using assms(3) by simp
qed

end

lemma span_at: "n = length xs \<Longrightarrow> span n \<lparr>rd_buf = pre @ xs @ post, rd_offset = length pre\<rparr> = xs"
  by (simp add: span_def)

lemma span_exact:
  assumes "sane r" and "int n \<le> remaining r"
  shows "length (span n r) = n" and "consumed (advance n r) = consumed r @ span n r" and "sane (advance n r)"
  using assms by (auto simp: span_def sane_def remaining_def consumed_def advance_def take_add)

definition putString :: "buffer \<Rightarrow> buffer" where
  "putString bytes = beBytes 4 (int (length bytes)) @ bytes"

definition shortBuffer :: "buffer \<Rightarrow> bool" where
  "shortBuffer bytes = (int (length bytes) \<le> 0xffffffff)"

interpretation u32: wire_codec "beBytes 4" readUint32 "\<lambda>v. 0 \<le> v \<and> v \<le> 0xffffffff"
proof
  fix x :: int and pre post :: buffer
  assume "0 \<le> x \<and> x \<le> 0xffffffff"
  then show "readUint32 \<lparr>rd_buf = pre @ beBytes 4 x @ post, rd_offset = length pre\<rparr> =
      Inr (x, \<lparr>rd_buf = pre @ beBytes 4 x @ post, rd_offset = length pre + length (beBytes 4 x)\<rparr>)"
    by (simp add: readUint32_def remaining_def span_at beInt_beBytes advance_def)
next
  fix r r' and x :: int
  assume "readUint32 r = Inr (x, r')" "sane r"
  then show "(0 \<le> x \<and> x \<le> 0xffffffff) \<and> sane r' \<and> rd_buf r' = rd_buf r \<and> consumed r' = consumed r @ beBytes 4 x"
    using span_exact [of r 4] beInt_bounds [of "span 4 r"] beBytes_beInt [of "span 4 r"]
    by (auto simp: readUint32_def advance_def split: if_splits)
qed

interpretation u64: wire_codec "beBytes 8" readUint64 "\<lambda>v. 0 \<le> v \<and> v \<le> 0xffffffffffffffff"
proof
  fix x :: int and pre post :: buffer
  assume "0 \<le> x \<and> x \<le> 0xffffffffffffffff"
  then show "readUint64 \<lparr>rd_buf = pre @ beBytes 8 x @ post, rd_offset = length pre\<rparr> =
      Inr (x, \<lparr>rd_buf = pre @ beBytes 8 x @ post, rd_offset = length pre + length (beBytes 8 x)\<rparr>)"
    by (simp add: readUint64_def remaining_def span_at beInt_beBytes advance_def)
next
  fix r r' and x :: int
  assume "readUint64 r = Inr (x, r')" "sane r"
  then show "(0 \<le> x \<and> x \<le> 0xffffffffffffffff) \<and> sane r' \<and> rd_buf r' = rd_buf r \<and> consumed r' = consumed r @ beBytes 8 x"
    using span_exact [of r 8] beInt_bounds [of "span 8 r"] beBytes_beInt [of "span 8 r"]
    by (auto simp: readUint64_def advance_def split: if_splits)
qed

interpretation str: wire_codec putString readString shortBuffer
proof
  fix x pre post :: buffer
  assume "shortBuffer x"
  then have len: "beInt (beBytes 4 (int (length x))) = int (length x)" by (simp add: beInt_beBytes shortBuffer_def)
  let ?r = "\<lparr>rd_buf = pre @ putString x @ post, rd_offset = length pre\<rparr>"
  have "span 4 ?r = beBytes 4 (int (length x))" unfolding putString_def by (simp add: span_at)
  moreover have "span (length x) (advance 4 ?r) = x"
    using span_at [of "length x" x "pre @ beBytes 4 (int (length x))" post] by (simp add: advance_def putString_def)
  ultimately show "readString ?r = Inr (x, \<lparr>rd_buf = pre @ putString x @ post, rd_offset = length pre + length (putString x)\<rparr>)"
    using len by (simp add: readString_def Let_def remaining_advance) (simp add: remaining_def advance_def putString_def)
next
  fix r r' and x :: buffer
  assume read: "readString r = Inr (x, r')" and s: "sane r"
  define len where "len = beInt (span 4 r)"
  define r1 where "r1 = advance 4 r"
  have x: "4 \<le> remaining r" "len \<le> remaining r1" "x = span (nat len) r1" "r' = advance (nat len) r1"
    using read by (auto simp: readString_def Let_def len_def r1_def split: if_splits)
  note four = span_exact [OF s, of 4, folded r1_def]
  have bound: "0 \<le> len" "len \<le> 0xffffffff" using beInt_bounds [of "span 4 r"] four(1) x(1) by (simp_all add: len_def)
  note body = span_exact [of r1 "nat len"]
  have "length x = nat len" "consumed r' = consumed r @ span 4 r @ x" "sane r'"
    using body four x bound by simp_all
  moreover have "beBytes 4 len = span 4 r" using beBytes_beInt [of "span 4 r"] four(1) x(1) by (simp add: len_def)
  ultimately show "shortBuffer x \<and> sane r' \<and> rd_buf r' = rd_buf r \<and> consumed r' = consumed r @ putString x"
    using bound x by (simp add: shortBuffer_def putString_def) (simp add: r1_def advance_def)
qed

lemma newReader_facts [simp]: "sane (newReader b)" "rest (newReader b) = b" "consumed (newReader b) = []"
  by (simp_all add: newReader_def sane_def rest_def consumed_def)

lemma remaining_rest: "sane r \<Longrightarrow> remaining r = int (length (rest r))"
  by (simp add: sane_def remaining_def rest_def)

lemma expectEnd_rest: "sane r \<Longrightarrow> expectEnd r = Inr () \<longleftrightarrow> rest r = []"
  by (simp add: expectEnd_def remaining_rest)

lemma newReader_cursor: "newReader b = cursor [] b"
  by (simp add: newReader_def cursor_def)

lemma expectEnd_cursor: "expectEnd (cursor pre post) = (if post = [] then Inr () else Inl TrailingBytes)"
  by (simp add: expectEnd_def remaining_rest)

section \<open>Writing\<close>

lemma write_simps:
  "writeString x w = (if shortBuffer x then Inr (w @ putString x) else Inl RangeError)"
  "writeUint32 v w = (if 0 \<le> v \<and> v \<le> 0xffffffff then Inr (w @ beBytes 4 v) else Inl RangeError)"
  "writeUint64 v w = (if 0 \<le> v \<and> v \<le> 0xffffffffffffffff then Inr (w @ beBytes 8 v) else Inl RangeError)"
  by (auto simp: writeString_def shortBuffer_def putString_def writeUint32_def writeUint64_def)

lemma try_then_Inr: "try_then r f = Inr y \<longleftrightarrow> (\<exists>x. r = Inr x \<and> f x = Inr y)"
  by (auto simp: try_then_def split: sum.splits)

lemma try_then_simps [simp]: "try_then (Inr x) f = f x" "try_then (Inl e) f = Inl e"
  by (simp_all add: try_then_def)

lemma ensure_Inr: "ensure b e = Inr u \<longleftrightarrow> b"
  by (simp add: ensure_def)

section \<open>Packed strings\<close>

definition packStrings :: "buffer list \<Rightarrow> buffer" where
  "packStrings ss = concat (map putString ss)"

lemma readStrings_pack:
  "list_all shortBuffer ss \<Longrightarrow> sane r \<Longrightarrow> rest r = packStrings ss \<Longrightarrow> readStrings r = Inr ss"
proof (induction ss arbitrary: r)
  case Nil
  then show ?case by (subst readStrings.simps) (simp add: remaining_rest packStrings_def)
next
  case (Cons s ss)
  have rest: "rest r = putString s @ packStrings ss" using Cons(4) by (simp add: packStrings_def)
  note g = str.get_rest [OF _ Cons(3) rest]
  have "0 < remaining r" using rest Cons(3) by (simp add: remaining_rest putString_def)
  then show ?case using g Cons by (subst readStrings.simps) simp
qed

lemma readStrings_exact:
  "readStrings r = Inr ss \<Longrightarrow> sane r \<Longrightarrow> rest r = packStrings ss \<and> list_all shortBuffer ss"
proof (induction r arbitrary: ss rule: readStrings.induct)
  case (1 r)
  show ?case
  proof (cases "0 < remaining r")
    case True
    then obtain s r' ss' where r: "readString r = Inr (s, r')" "readStrings r' = Inr ss'" "ss = s # ss'"
      using 1(2) by (subst (asm) readStrings.simps) (auto split: sum.splits)
    note e = str.get_exact [OF r(1) 1(3)]
    have "rest r' = packStrings ss' \<and> list_all shortBuffer ss'" using 1(1) [OF True r(1) refl r(2)] e by simp
    moreover have "rest r = putString s @ rest r'"
      using e consumed_rest [of r] consumed_rest [of r'] by (metis append.assoc same_append_eq)
    ultimately show ?thesis using e r(3) by (simp add: packStrings_def)
  next
    case False
    then have "ss = []" using 1(2) by (subst (asm) readStrings.simps) simp
    moreover have "rest r = []" using False remaining_rest [OF 1(3)] by simp
    ultimately show ?thesis by (simp add: packStrings_def)
  qed
qed

lemma readPackedStrings_iff: "readPackedStrings b = Inr ss \<longleftrightarrow> b = packStrings ss \<and> list_all shortBuffer ss"
  using readStrings_exact [of "newReader b" ss] readStrings_pack [of ss "newReader b"]
  by (auto simp: readPackedStrings_def)

section \<open>Texts\<close>

lemma of_char_byte: "of_char c < (256 :: nat)"
  by (simp add: of_char_def)

lemma textBytes_inj: "textBytes s = textBytes t \<longleftrightarrow> s = t"
proof -
  have "inj (\<lambda>c. word_of_nat (of_char c) :: 8 word)"
  proof (rule injI)
    fix c d assume "(word_of_nat (of_char c) :: 8 word) = word_of_nat (of_char d)"
    then have "unat (word_of_nat (of_char c) :: 8 word) = unat (word_of_nat (of_char d) :: 8 word)" by simp
    then have "of_char c = (of_char d :: nat)" using of_char_byte [of c] of_char_byte [of d]
      by (simp add: unat_of_nat)
    then show "c = d" by (simp only: of_char_eq_iff)
  qed
  then show ?thesis unfolding textBytes_def by (rule inj_map_eq_map)
qed

lemma textBytes_length [simp]: "length (textBytes s) = length s"
  by (simp add: textBytes_def)

text \<open>A text that is valid UTF-8, as every text without lone surrogates is.\<close>

definition wellFormed :: "string \<Rightarrow> bool" where
  "wellFormed s = (bufferText (textBytes s) = s)"

lemma decodeFrom_ascii: "list_all (\<lambda>b. b \<le> 0x7F) bs \<Longrightarrow> decodeFrom 0 lo hi p bs = bs"
  by (induction bs arbitrary: lo hi p) simp_all

lemma wellFormed_ascii:
  assumes "list_all (\<lambda>c. of_char c < (128 :: nat)) s"
  shows "wellFormed s"
proof -
  have small: "unat (word_of_nat (of_char c) :: 8 word) = of_char c" for c using of_char_byte [of c] by (simp add: unat_of_nat)
  have "list_all (\<lambda>b. b \<le> 0x7F) (textBytes s)"
    using assms by (auto simp: list_all_iff textBytes_def word_le_nat_alt small)
  then have "bufferText (textBytes s) = map (\<lambda>b. char_of (unat b)) (textBytes s)"
    by (simp add: bufferText_def decodeFrom_ascii)
  then show ?thesis by (simp add: wellFormed_def textBytes_def small o_def)
qed

text \<open>A text of ASCII characters is decoded from its own bytes alone.\<close>

lemma leadByte_high: "\<not> b \<le> 0x7F \<Longrightarrow> leadByte b = Some (n, lo, hi) \<Longrightarrow> n \<noteq> 0"
  by (auto simp: leadByte_def split: if_splits)

lemma decodeFrom_only_ascii:
  "list_all (\<lambda>b. b \<le> 0x7F) (decodeFrom n lo hi p bs) \<Longrightarrow> n = 0 \<or> (\<exists>b\<in>set p. \<not> b \<le> 0x7F) \<Longrightarrow>
     n = 0 \<and> decodeFrom n lo hi p bs = bs"
proof (induction n lo hi p bs rule: decodeFrom.induct)
  case (1 n lo hi p)
  then show ?case by (auto simp: REPLACEMENT_def split: if_splits)
next
  case (2 lo hi p b bs)
  show ?case
  proof (cases "b \<le> 0x7F")
    case True
    then show ?thesis using 2 by simp
  next
    case False
    show ?thesis
    proof (cases "leadByte b")
      case None
      then show ?thesis using False 2(4) by (simp add: REPLACEMENT_def)
    next
      case (Some l)
      obtain n lo' hi' where l: "l = (n, lo', hi')" by (cases l)
      have "n \<noteq> 0" using leadByte_high False Some l by blast
      then show ?thesis using 2(3) [OF False Some l [symmetric] refl] 2(4) Some l False by simp
    qed
  qed
next
  case prems: (3 n lo hi p b bs)
  obtain h where h: "h \<in> set p" "\<not> h \<le> 0x7F" using prems(5) by auto
  consider "lo \<le> b \<and> b \<le> hi" "n = 0" | "lo \<le> b \<and> b \<le> hi" "n \<noteq> 0" | "\<not> (lo \<le> b \<and> b \<le> hi)" by blast
  then have False
  proof cases
    case 1
    then have "list_all (\<lambda>b. b \<le> 0x7F) p" using prems(4) by simp
    then show ?thesis using h by (simp add: list_all_iff)
  next
    case 2
    then have "n = 0" using prems(2) [OF 2] prems(4) h by auto
    then show ?thesis using 2 by simp
  next
    case 3
    then have "list_all (\<lambda>b. b \<le> 0x7F) REPLACEMENT"
      using prems(4) by (simp only: decodeFrom.simps(3) if_not_P list_all_append simp_thms)
    then show ?thesis by (simp add: REPLACEMENT_def)
  qed
  then show ?case ..
qed

lemma unat_byte: "unat (b :: 8 word) < 256"
  using unsigned_less [of b, where ?'a = nat] by simp

lemma byte_char: "word_of_nat (of_char (char_of (unat b) :: char)) = (b :: 8 word)"
proof -
  have "unat b < 256" by (rule unat_byte)
  then show ?thesis by simp
qed

lemma textBytes_chars: "textBytes (map (\<lambda>b. char_of (unat b)) bs) = bs"
  unfolding textBytes_def by (simp only: map_map o_def byte_char map_ident)

lemma bufferText_ascii:
  assumes "list_all (\<lambda>c. of_char c < (128 :: nat)) s"
  shows "bufferText b = s \<longleftrightarrow> b = textBytes s"
proof
  assume t: "bufferText b = s"
  have small: "unat w mod 256 < (128 :: nat) \<longleftrightarrow> w \<le> (0x7F :: 8 word)" for w :: "8 word"
    using unat_byte [of w] by (simp add: word_le_nat_alt less_Suc_eq_le [symmetric])
  have "list_all (\<lambda>w. w \<le> 0x7F) (decodeFrom 0 0 0 [] b)"
    using assms by (simp add: t [symmetric] bufferText_def list_all_iff small)
  then have "decodeFrom 0 0 0 [] b = b" using decodeFrom_only_ascii by blast
  then show "b = textBytes s" by (simp only: t [symmetric] bufferText_def textBytes_chars)
next
  assume "b = textBytes s"
  then show "bufferText b = s" using wellFormed_ascii [OF assms] by (simp add: wellFormed_def)
qed

end
