(* ===== verification/SshCert.thy ===== *)
theory SshCert
  imports SshWire
begin

text \<open>
  Ed25519 keys and user certificates (\<^verbatim>\<open>packages/ssh-cert/src/keys.ts\<close>, \<^verbatim>\<open>cert.ts\<close>).  The
  cryptography of the runtime is a parameter: \<^verbatim>\<open>verify key data signature\<close>, and a signer with its
  public key and its signing function; so are \<^verbatim>\<open>Buffer\<close>'s base64 coding, the hash, and the random
  bytes drawn for the nonce and the serial.  Times are milliseconds.
\<close>

section \<open>Keys\<close>

definition ED25519_KEY_TYPE :: string where
  "ED25519_KEY_TYPE = ''ssh-ed25519''"

definition ED25519_RAW_KEY_LENGTH :: nat where
  "ED25519_RAW_KEY_LENGTH = 32"

definition ED25519_SIGNATURE_LENGTH :: nat where
  "ED25519_SIGNATURE_LENGTH = 64"

definition ED25519_SPKI_PREFIX :: buffer where
  "ED25519_SPKI_PREFIX = [0x30, 0x2a, 0x30, 0x05, 0x06, 0x03, 0x2b, 0x65, 0x70, 0x03, 0x21, 0x00]"

text \<open>A chain of writes on a fresh writer, ended by \<^verbatim>\<open>toBuffer\<close>.\<close>

definition writeAll :: "(buffer \<Rightarrow> buffer wire) list \<Rightarrow> buffer wire" where
  "writeAll ops = foldl try_then (Inr []) ops"

definition ed25519KeyBlob :: "buffer \<Rightarrow> buffer wire" where
  "ed25519KeyBlob raw =
     (if length raw \<noteq> ED25519_RAW_KEY_LENGTH then Inl KeyLength
      else writeAll [writeString (textBytes ED25519_KEY_TYPE), writeString raw])"

definition parseEd25519KeyBlob :: "buffer \<Rightarrow> buffer wire" where
  "parseEd25519KeyBlob blob =
     try_then (readString (newReader blob)) (\<lambda>(keyType, r1).
     try_then (ensure (bufferText keyType = ED25519_KEY_TYPE) UnsupportedKeyType) (\<lambda>_.
     try_then (readString r1) (\<lambda>(raw, r2).
     try_then (expectEnd r2) (\<lambda>_.
     try_then (ensure (length raw = ED25519_RAW_KEY_LENGTH) KeyLength) (\<lambda>_.
     Inr raw)))))"

text \<open>\<^verbatim>\<open>split(/\s+/)\<close>.\<close>

function splitSpaces :: "string \<Rightarrow> string list" where
  "splitSpaces s =
     (let piece = takeWhile (\<lambda>c. \<not> is_space c) s; after = dropWhile (\<lambda>c. \<not> is_space c) s in
      if after = [] then [piece] else piece # splitSpaces (dropWhile is_space after))"
  by pat_completeness auto
termination
proof (relation "measure length", goal_cases)
  case (2 s piece after)
  then have "is_space (hd after)" by (metis hd_dropWhile)
  then have "length (dropWhile is_space after) < length after"
    using 2(3) by (cases after) (auto simp: length_dropWhile_le less_Suc_eq_le)
  also have "length after \<le> length s" using 2(2) by (simp add: length_dropWhile_le)
  finally show ?case by simp
qed simp

declare splitSpaces.simps [simp del]

definition parseEd25519PublicKeyLine :: "(string \<Rightarrow> buffer) \<Rightarrow> string \<Rightarrow> buffer wire" where
  "parseEd25519PublicKeyLine fromBase64 line =
     (let parts = splitSpaces (js_trim line) in
      if length parts < 2 \<or> hd parts \<noteq> ED25519_KEY_TYPE then Inl MalformedLine
      else
        (let blob = fromBase64 (parts ! 1) in
         if length blob = 0 then Inl EmptyKey else parseEd25519KeyBlob blob))"

definition formatEd25519PublicKeyLine :: "(buffer \<Rightarrow> string) \<Rightarrow> buffer \<Rightarrow> string option \<Rightarrow> string wire" where
  "formatEd25519PublicKeyLine toBase64 raw comment =
     try_then (ed25519KeyBlob raw) (\<lambda>blob.
       (let base = ED25519_KEY_TYPE @ '' '' @ toBase64 blob in
        Inr (case comment of None \<Rightarrow> base | Some c \<Rightarrow> if c = [] then base else base @ '' '' @ c)))"

definition ed25519Fingerprint :: "(buffer \<Rightarrow> buffer) \<Rightarrow> (buffer \<Rightarrow> string) \<Rightarrow> buffer \<Rightarrow> string wire" where
  "ed25519Fingerprint sha256 toBase64 raw =
     try_then (ed25519KeyBlob raw) (\<lambda>blob.
       Inr (''SHA256:'' @ rev (dropWhile (\<lambda>c. c = CHR ''='') (rev (toBase64 (sha256 blob))))))"

definition spkiToEd25519Raw :: "buffer \<Rightarrow> buffer wire" where
  "spkiToEd25519Raw der =
     (if length der \<noteq> length ED25519_SPKI_PREFIX + ED25519_RAW_KEY_LENGTH \<or>
         take (length ED25519_SPKI_PREFIX) der \<noteq> ED25519_SPKI_PREFIX
      then Inl NotSpki else Inr (drop (length ED25519_SPKI_PREFIX) der))"

text \<open>\<^verbatim>\<open>createPublicKey\<close> reads this structure; \<^verbatim>\<open>verify\<close> below stands for \<^verbatim>\<open>crypto.verify\<close> with the key it gives.\<close>

definition publicKeyObjectFromRaw :: "buffer \<Rightarrow> buffer" where
  "publicKeyObjectFromRaw raw = ED25519_SPKI_PREFIX @ raw"

type_synonym verifier = "buffer \<Rightarrow> buffer \<Rightarrow> buffer \<Rightarrow> bool"

definition ed25519Verify :: "verifier \<Rightarrow> buffer \<Rightarrow> buffer \<Rightarrow> buffer \<Rightarrow> bool" where
  "ed25519Verify verify raw data signature =
     (if length signature \<noteq> ED25519_SIGNATURE_LENGTH then False else verify (publicKeyObjectFromRaw raw) data signature)"

record ed25519_signer =
  sg_publicKey :: buffer
  sg_sign :: "buffer \<Rightarrow> buffer"

text \<open>
  The in-process signer.  The runtime's key object gives its type, its exported public key and its
  signing function; \<^verbatim>\<open>createPrivateKey\<close> is a parameter that may refuse the text.
\<close>

record private_key =
  pk_asymmetricKeyType :: "string option"
  pk_spki :: buffer
  pk_sign :: "buffer \<Rightarrow> buffer"

definition ed25519SignerFromPrivateKeyPem :: "(string \<Rightarrow> private_key wire) \<Rightarrow> string \<Rightarrow> ed25519_signer wire" where
  "ed25519SignerFromPrivateKeyPem createPrivateKey pem =
     try_then (createPrivateKey pem) (\<lambda>privateKey.
     try_then (ensure (pk_asymmetricKeyType privateKey = Some ''ed25519'') UnsupportedKeyType) (\<lambda>_.
     try_then (spkiToEd25519Raw (pk_spki privateKey)) (\<lambda>publicKey.
     Inr \<lparr>sg_publicKey = publicKey, sg_sign = pk_sign privateKey\<rparr>)))"

section \<open>Certificates\<close>

definition ED25519_CERT_TYPE :: string where
  "ED25519_CERT_TYPE = ''ssh-ed25519-cert-v01@openssh.com''"

definition SSH_CERT_TYPE_USER :: int where
  "SSH_CERT_TYPE_USER = 1"

definition CERT_EXT_SANDBOX_ID :: string where
  "CERT_EXT_SANDBOX_ID = ''sandbox-id@onecli.sh''"

definition CERT_EXT_WORKSPACE_ID :: string where
  "CERT_EXT_WORKSPACE_ID = ''workspace-id@onecli.sh''"

definition CERT_EXT_USER_ID :: string where
  "CERT_EXT_USER_ID = ''user-id@onecli.sh''"

definition CERT_EXT_PERMIT_PTY :: string where
  "CERT_EXT_PERMIT_PTY = ''permit-pty''"

record ssh_certificate_field =
  cf_name :: string
  cf_data :: buffer

record ssh_certificate =
  cert_publicKey :: buffer
  cert_serial :: int
  cert_certType :: int
  cert_keyId :: string
  cert_principals :: "string list"
  cert_validAfter :: int
  cert_validBefore :: int
  cert_criticalOptions :: "ssh_certificate_field list"
  cert_extensions :: "ssh_certificate_field list"
  cert_signatureKey :: buffer
  cert_signature :: buffer
  cert_tbs :: buffer
  cert_raw :: buffer

definition packFields :: "ssh_certificate_field list \<Rightarrow> buffer wire" where
  "packFields fs = writeAll (concat (map (\<lambda>f. [writeString (textBytes (cf_name f)), writeString (cf_data f)]) fs))"

fun pairFields :: "buffer list \<Rightarrow> ssh_certificate_field list" where
  "pairFields (name # data # parts) = \<lparr>cf_name = bufferText name, cf_data = data\<rparr> # pairFields parts"
| "pairFields parts = []"

definition unpackFields :: "buffer \<Rightarrow> ssh_certificate_field list wire" where
  "unpackFields packed =
     try_then (readPackedStrings packed) (\<lambda>parts.
     try_then (ensure (length parts mod 2 = 0) OddPacking) (\<lambda>_. Inr (pairFields parts)))"

definition packedValue :: "string \<Rightarrow> buffer wire" where
  "packedValue value = writeAll [writeString (textBytes value)]"

definition unpackValue :: "buffer \<Rightarrow> string wire" where
  "unpackValue data =
     try_then (readString (newReader data)) (\<lambda>(value, r). try_then (expectEnd r) (\<lambda>_. Inr (bufferText value)))"

definition getExtensionValue :: "ssh_certificate \<Rightarrow> string \<Rightarrow> string option wire" where
  "getExtensionValue cert name =
     (case find (\<lambda>ext. cf_name ext = name) (cert_extensions cert) of
        None \<Rightarrow> Inr None
      | Some field \<Rightarrow> try_then (unpackValue (cf_data field)) (\<lambda>v. Inr (Some v)))"

record build_options =
  bo_userPublicKey :: buffer
  bo_keyId :: string
  bo_principal :: string
  bo_validAfter :: int
  bo_validBefore :: int
  bo_sandboxId :: string
  bo_workspaceId :: string
  bo_userId :: string
  bo_serial :: "int option"

record built_certificate =
  bc_blob :: buffer
  bc_line :: string
  bc_serial :: int

definition certExtensions :: "build_options \<Rightarrow> ssh_certificate_field list wire" where
  "certExtensions opts =
     try_then (packedValue (bo_sandboxId opts)) (\<lambda>sandbox.
     try_then (packedValue (bo_userId opts)) (\<lambda>user.
     try_then (packedValue (bo_workspaceId opts)) (\<lambda>workspace.
     Inr (sort_key cf_name
       [\<lparr>cf_name = CERT_EXT_PERMIT_PTY, cf_data = []\<rparr>, \<lparr>cf_name = CERT_EXT_SANDBOX_ID, cf_data = sandbox\<rparr>,
        \<lparr>cf_name = CERT_EXT_USER_ID, cf_data = user\<rparr>, \<lparr>cf_name = CERT_EXT_WORKSPACE_ID, cf_data = workspace\<rparr>]))))"

definition userKey :: "build_options \<Rightarrow> buffer wire" where
  "userKey opts =
     (if length (bo_userPublicKey opts) = 32 then Inr (bo_userPublicKey opts)
      else parseEd25519KeyBlob (bo_userPublicKey opts))"

text \<open>The serial: the one asked for, or eight random bytes shifted by one bit.\<close>

definition certSerial :: "build_options \<Rightarrow> buffer \<Rightarrow> int" where
  "certSerial opts random = (case bo_serial opts of Some s \<Rightarrow> s | None \<Rightarrow> beInt random div 2)"

definition writeResult :: "buffer wire \<Rightarrow> buffer \<Rightarrow> buffer wire" where
  "writeResult r w = try_then r (\<lambda>bytes. writeString bytes w)"

definition certTbs :: "build_options \<Rightarrow> buffer \<Rightarrow> buffer \<Rightarrow> buffer \<Rightarrow> buffer wire" where
  "certTbs opts random nonce caKey =
     (let validAfter = bo_validAfter opts div 1000; validBefore = bo_validBefore opts div 1000 in
      try_then (ensure (bo_principal opts \<noteq> []) NoPrincipal) (\<lambda>_.
      try_then (ensure (validAfter < validBefore) EmptyWindow) (\<lambda>_.
      try_then (certExtensions opts) (\<lambda>extensions.
      try_then (ed25519KeyBlob caKey) (\<lambda>caKeyBlob.
      writeAll
        [writeString (textBytes ED25519_CERT_TYPE), writeString nonce, writeResult (userKey opts),
         writeUint64 (certSerial opts random), writeUint32 SSH_CERT_TYPE_USER,
         writeString (textBytes (bo_keyId opts)),
         writeResult (writeAll [writeString (textBytes (bo_principal opts))]),
         writeUint64 validAfter, writeUint64 validBefore, writeResult (packFields []),
         writeResult (packFields extensions), writeString [], writeString caKeyBlob])))))"

definition buildUserCertificate ::
    "(buffer \<Rightarrow> string) \<Rightarrow> buffer \<Rightarrow> buffer \<Rightarrow> build_options \<Rightarrow> ed25519_signer \<Rightarrow> built_certificate wire" where
  "buildUserCertificate toBase64 random nonce opts signer =
     try_then (certTbs opts random nonce (sg_publicKey signer)) (\<lambda>tbs.
     (let rawSignature = sg_sign signer tbs in
      try_then (ensure (length rawSignature = ED25519_SIGNATURE_LENGTH) SignatureLength) (\<lambda>_.
      try_then (writeAll [writeString (textBytes ''ssh-ed25519''), writeString rawSignature]) (\<lambda>signatureBlob.
      try_then (writeAll [writeBytes tbs, writeString signatureBlob]) (\<lambda>blob.
      Inr \<lparr>bc_blob = blob, bc_line = ED25519_CERT_TYPE @ '' '' @ toBase64 blob,
           bc_serial = certSerial opts random\<rparr>)))))"

text \<open>The signature inside its blob.\<close>

definition readSignature :: "buffer \<Rightarrow> buffer wire" where
  "readSignature signatureBlob =
     try_then (readString (newReader signatureBlob)) (\<lambda>(sigAlgo, r1).
     try_then (ensure (bufferText sigAlgo = ''ssh-ed25519'') UnsupportedSignature) (\<lambda>_.
     try_then (readString r1) (\<lambda>(signature, r2).
     try_then (expectEnd r2) (\<lambda>_. Inr signature))))"

definition parseCertificateBlob :: "buffer \<Rightarrow> ssh_certificate wire" where
  "parseCertificateBlob blob =
     try_then (readString (newReader blob)) (\<lambda>(keyType, r1).
     try_then (ensure (bufferText keyType = ED25519_CERT_TYPE) UnsupportedCertificate) (\<lambda>_.
     try_then (readString r1) (\<lambda>(nonce, r2).
     try_then (readString r2) (\<lambda>(publicKey, r3).
     try_then (ensure (length publicKey = 32) KeyLength) (\<lambda>_.
     try_then (readUint64 r3) (\<lambda>(serial, r4).
     try_then (readUint32 r4) (\<lambda>(certType, r5).
     try_then (readString r5) (\<lambda>(keyId, r6).
     try_then (readString r6) (\<lambda>(packedPrincipals, r7).
     try_then (readPackedStrings packedPrincipals) (\<lambda>principals.
     try_then (readUint64 r7) (\<lambda>(validAfter, r8).
     try_then (readUint64 r8) (\<lambda>(validBefore, r9).
     try_then (readString r9) (\<lambda>(packedOptions, r10).
     try_then (unpackFields packedOptions) (\<lambda>criticalOptions.
     try_then (readString r10) (\<lambda>(packedExtensions, r11).
     try_then (unpackFields packedExtensions) (\<lambda>extensions.
     try_then (readString r11) (\<lambda>(reserved, r12).
     try_then (readString r12) (\<lambda>(signatureKey, r13).
     try_then (readString r13) (\<lambda>(signatureBlob, r14).
     try_then (expectEnd r14) (\<lambda>_.
     try_then (readSignature signatureBlob) (\<lambda>signature.
     Inr \<lparr>cert_publicKey = publicKey, cert_serial = serial, cert_certType = certType,
          cert_keyId = bufferText keyId, cert_principals = map bufferText principals,
          cert_validAfter = validAfter, cert_validBefore = validBefore,
          cert_criticalOptions = criticalOptions, cert_extensions = extensions,
          cert_signatureKey = signatureKey, cert_signature = signature,
          cert_tbs = take (rd_offset r13) blob, cert_raw = blob\<rparr>)))))))))))))))))))))"

definition parseCertificateLine :: "(string \<Rightarrow> buffer) \<Rightarrow> string \<Rightarrow> ssh_certificate wire" where
  "parseCertificateLine fromBase64 line =
     (let parts = splitSpaces (js_trim line) in
      if length parts < 2 \<or> hd parts \<noteq> ED25519_CERT_TYPE then Inl MalformedLine
      else parseCertificateBlob (fromBase64 (parts ! 1)))"

section \<open>Verification\<close>

text \<open>A malformed embedded key is an error of the reader, everything else a reason.\<close>

datatype certificate_reason =
    NotUserCert | WrongCa | BadSignature | Expired | NotYetValid | NoPrincipals | WrongPrincipal
  | UnknownCriticalOption | Unreadable ssh_error

record verify_options =
  vo_caPublicKey :: buffer
  vo_principal :: "string option"
  vo_now :: int
  vo_ignoreValidityWindow :: bool

definition checkWindow :: "ssh_certificate \<Rightarrow> verify_options \<Rightarrow> certificate_reason + unit" where
  "checkWindow cert opts =
     (if vo_ignoreValidityWindow opts then Inr ()
      else
        (let now = vo_now opts div 1000 in
         try_then (ensure (\<not> now < cert_validAfter cert) NotYetValid) (\<lambda>_.
         ensure (\<not> now \<ge> cert_validBefore cert) Expired)))"

definition assertValidUserCertificate :: "verifier \<Rightarrow> ssh_certificate \<Rightarrow> verify_options \<Rightarrow> certificate_reason + unit" where
  "assertValidUserCertificate verify cert opts =
     try_then (ensure (cert_certType cert = SSH_CERT_TYPE_USER) NotUserCert) (\<lambda>_.
     try_then (case parseEd25519KeyBlob (cert_signatureKey cert) of Inl e \<Rightarrow> Inl (Unreadable e) | Inr k \<Rightarrow> Inr k) (\<lambda>embeddedCa.
     try_then (ensure (embeddedCa = vo_caPublicKey opts) WrongCa) (\<lambda>_.
     try_then (ensure (ed25519Verify verify (vo_caPublicKey opts) (cert_tbs cert) (cert_signature cert)) BadSignature) (\<lambda>_.
     try_then (checkWindow cert opts) (\<lambda>_.
     try_then (ensure (length (cert_principals cert) \<noteq> 0) NoPrincipals) (\<lambda>_.
     try_then (ensure (\<not> length (cert_criticalOptions cert) > 0) UnknownCriticalOption) (\<lambda>_.
     ensure (case vo_principal opts of None \<Rightarrow> True | Some p \<Rightarrow> p \<in> set (cert_principals cert)) WrongPrincipal)))))))"

definition verifyPossession :: "verifier \<Rightarrow> ssh_certificate \<Rightarrow> buffer \<Rightarrow> buffer \<Rightarrow> bool" where
  "verifyPossession verify cert data signature =
     (if length signature \<noteq> ED25519_SIGNATURE_LENGTH then
        (case try_then (readString (newReader signature)) (\<lambda>(algo, r1).
              try_then (readString r1) (\<lambda>(inner, r2).
              try_then (expectEnd r2) (\<lambda>_. Inr (bufferText algo, inner)))) of
           Inl e \<Rightarrow> False
         | Inr (algo, inner) \<Rightarrow>
             if algo \<noteq> ''ssh-ed25519'' then False else ed25519Verify verify (cert_publicKey cert) data inner)
      else ed25519Verify verify (cert_publicKey cert) data signature)"

end
