(* ===== verification/SshGrant.thy ===== *)
theory SshGrant
  imports SshCert
begin

text \<open>
  Session grants (\<^verbatim>\<open>packages/ssh-cert/src/grant.ts\<close>): the capability the control plane signs when a
  session opens and the broker checks before it mints.  Everything the reader throws is
  caught and reported as malformed.
\<close>

definition GRANT_MAGIC :: string where
  "GRANT_MAGIC = ''onecli-ssh-grant-v1''"

record ssh_session_grant =
  sgr_sessionId :: string
  sgr_agentId :: string
  sgr_sandboxId :: string
  sgr_workspaceId :: string
  sgr_expiresAt :: int

definition grantTbs :: "ssh_session_grant \<Rightarrow> buffer wire" where
  "grantTbs grant =
     writeAll
       [writeString (textBytes GRANT_MAGIC), writeString (textBytes (sgr_sessionId grant)),
        writeString (textBytes (sgr_agentId grant)), writeString (textBytes (sgr_sandboxId grant)),
        writeString (textBytes (sgr_workspaceId grant)), writeUint64 (sgr_expiresAt grant)]"

definition signGrant :: "(buffer \<Rightarrow> string) \<Rightarrow> ssh_session_grant \<Rightarrow> ed25519_signer \<Rightarrow> string wire" where
  "signGrant toBase64 grant signer =
     try_then (grantTbs grant) (\<lambda>tbs.
     (let signature = sg_sign signer tbs in
      try_then (ensure (length signature = ED25519_SIGNATURE_LENGTH) SignatureLength) (\<lambda>_.
      try_then (writeAll [writeBytes tbs, writeString signature]) (\<lambda>blob. Inr (toBase64 blob)))))"

datatype grant_reason = Malformed | BadGrantSignature | GrantExpired

definition readGrant :: "buffer \<Rightarrow> (ssh_session_grant \<times> buffer \<times> buffer) wire" where
  "readGrant blob =
     try_then (readString (newReader blob)) (\<lambda>(magic, r1).
     try_then (ensure (bufferText magic = GRANT_MAGIC) WrongMagic) (\<lambda>_.
     try_then (readString r1) (\<lambda>(sessionId, r2).
     try_then (readString r2) (\<lambda>(agentId, r3).
     try_then (readString r3) (\<lambda>(sandboxId, r4).
     try_then (readString r4) (\<lambda>(workspaceId, r5).
     try_then (readUint64 r5) (\<lambda>(expiresAt, r6).
     try_then (readString r6) (\<lambda>(signature, r7).
     try_then (expectEnd r7) (\<lambda>_.
     Inr (\<lparr>sgr_sessionId = bufferText sessionId, sgr_agentId = bufferText agentId,
           sgr_sandboxId = bufferText sandboxId, sgr_workspaceId = bufferText workspaceId,
           sgr_expiresAt = expiresAt\<rparr>, take (rd_offset r6) blob, signature))))))))))"

definition verifyGrant ::
    "verifier \<Rightarrow> (string \<Rightarrow> buffer) \<Rightarrow> string \<Rightarrow> buffer \<Rightarrow> int \<Rightarrow> grant_reason + ssh_session_grant" where
  "verifyGrant verify fromBase64 encoded caPublicKey now =
     (case readGrant (fromBase64 encoded) of
        Inl e \<Rightarrow> Inl Malformed
      | Inr (grant, tbs, signature) \<Rightarrow>
          if \<not> ed25519Verify verify caPublicKey tbs signature then Inl BadGrantSignature
          else if now div 1000 \<ge> sgr_expiresAt grant then Inl GrantExpired
          else Inr grant)"


end
