(* ===== verification/SshSessions.thy ===== *)
theory SshSessions
  imports GrantsCompile SshGrant
begin

text \<open>
  The control plane's half of the SSH front door (\<^verbatim>\<open>packages/api/src/services/ssh-service.ts\<close>,
  \<^verbatim>\<open>ssh-key-service.ts\<close>, \<^verbatim>\<open>workspace-access-check.ts\<close>): certificates are minted, sessions open, beat and
  close, registered keys come and go.  A handler reads, awaits and writes; the model splits it there:
  the reads of a call at one instant leave a \<^verbatim>\<open>pending\<close> write, which may be resumed at any later
  point of the run, in any order, or never.  The agents, users, memberships and the injected access
  checker may change at any point.  Times are milliseconds.  Identifiers drawn for new rows never
  repeat.  The audit log holds what was handed to it; its write is best effort.
\<close>

section \<open>Tables\<close>

record ssh_agent_row =
  sa_id :: string
  sa_workspaceId :: string
  sa_kind :: string

record ssh_user_row =
  su_id :: string
  su_email :: string

record workspace_ref =
  wr_id :: string
  wr_organizationId :: string

record sandbox_row =
  sb_id :: string
  sb_agentId :: string
  sb_status :: string
  sb_wakeReason :: "string option"
  sb_lastActiveAt :: "int option"
  sb_lastEngagedAt :: "int option"

record user_ssh_key =
  uk_id :: string
  uk_userId :: string
  uk_name :: string
  uk_publicKey :: string
  uk_fingerprint :: string
  uk_createdAt :: int
  uk_lastUsedAt :: "int option"

record ssh_cert_mint =
  mi_userId :: string
  mi_agentId :: string
  mi_createdAt :: int

record ssh_session =
  ss_id :: string
  ss_sandboxId :: string
  ss_agentId :: string
  ss_workspaceId :: string
  ss_userId :: string
  ss_userEmail :: string
  ss_sourceIp :: string
  ss_certSerial :: int
  ss_status :: string
  ss_openedAt :: int
  ss_attachedAt :: "int option"
  ss_lastHeartbeatAt :: int
  ss_closedAt :: "int option"
  ss_closeReason :: "string option"

text \<open>The events of the audit log, with their metadata.\<close>

datatype ssh_audit =
    CertMinted (am_workspaceId: string) (am_userId: string) (am_userEmail: string) (am_agentId: string) (am_serial: int) (am_ttl: int) (am_sshKeyId: "string option")
  | SessionOpened (ao_workspaceId: string) (ao_userId: string) (ao_userEmail: string) (ao_agentId: string) (ao_sessionId: string) (ao_serial: int) (ao_sourceIp: string)
  | SessionClosed (ac_workspaceId: string) (ac_userId: string) (ac_userEmail: string) (ac_agentId: string) (ac_sessionId: string) (ac_reason: string) (ac_seconds: int)
  | KeyCreated (ak_userId: string) (ak_userEmail: string) (ak_organizationId: string) (ak_keyId: string) (ak_fingerprint: string) (ak_name: string)
  | KeyDeleted (ad_userId: string) (ad_userEmail: string) (ad_organizationId: string) (ad_keyId: string) (ad_fingerprint: string) (ad_name: string)

text \<open>The tables other parts of the system own, and the checker the host injects.\<close>

record access_world =
  aw_agents :: "ssh_agent_row list"
  aw_users :: "ssh_user_row list"
  aw_workspaces :: "workspace_ref list"
  aw_members :: "organization_member list"
  aw_checker :: "(string \<Rightarrow> workspace_ref \<Rightarrow> bool) option"

record cert_identity =
  ci_serial :: int
  ci_agentId :: string
  ci_sandboxId :: string
  ci_workspaceId :: string
  ci_userId :: string

record mint_intent =
  mn_workspaceId :: string
  mn_userId :: string
  mn_userEmail :: string
  mn_agentId :: string
  mn_sandboxId :: string
  mn_userKey :: buffer
  mn_fromKeyId :: "string option"

record ssh_key_actor =
  kx_userId :: string
  kx_userEmail :: string
  kx_organizationId :: string

text \<open>What a handler still has to write.\<close>

datatype ssh_pending =
    Minting mint_intent
  | Opening cert_identity string string
  | Renewing string int bool
  | Closing ssh_session string
  | PruningMints
  | Registering ssh_key_actor string buffer
  | Unregistering ssh_key_actor user_ssh_key

text \<open>
  The database, and what the authority has released: the last two fields are kept for the proofs, no
  operation reads them; neither does any read the identifiers that have been drawn.
\<close>

record ssh_db =
  sd_now :: int
  sd_world :: access_world
  sd_sandboxes :: "sandbox_row list"
  sd_keys :: "user_ssh_key list"
  sd_mints :: "ssh_cert_mint list"
  sd_sessions :: "ssh_session list"
  sd_audit :: "ssh_audit list"
  sd_pending :: "ssh_pending list"
  sd_ids :: "string list"
  sd_minted :: "(build_options \<times> buffer \<times> buffer) list"
  sd_granted :: "ssh_session_grant list"

text \<open>The settings, the signer, and the parts of the runtime that are parameters.\<close>

record ssh_setup =
  sp_host :: string
  sp_port :: int
  sp_signer :: "ed25519_signer option"
  sp_rbac :: bool
  sp_certTtlSeconds :: int
  sp_mintsPerHour :: int
  sp_maxSessionsPerAgent :: int
  sp_maxSessionSeconds :: int
  sp_idleTimeoutSeconds :: int
  sp_leaseSeconds :: int
  sp_toBase64 :: "buffer \<Rightarrow> string"
  sp_fromBase64 :: "string \<Rightarrow> buffer"
  sp_sha256 :: "buffer \<Rightarrow> buffer"
  sp_verify :: verifier

datatype ssh_refusal =
    SshUnavailable | AgentNotFound | NotHosted | NoSandbox | SshKeyNotFound | NotEd25519 | TooManyMints
  | CertificateRefused certificate_reason | CertificateMalformed | MissingIdentity
  | AgentGone | UserGone | AccessRevoked | TooManySessions | KeyLimitReached | KeyAlreadyRegistered
  | CodecThrew ssh_error | DatabaseThrew

text \<open>The code of the \<^verbatim>\<open>ServiceError\<close>; what is no such error surfaces as an internal one.\<close>

fun refusalCode :: "ssh_refusal \<Rightarrow> string" where
  "refusalCode SshUnavailable = ''NOT_FOUND''"
| "refusalCode AgentNotFound = ''NOT_FOUND''"
| "refusalCode NotHosted = ''UNPROCESSABLE''"
| "refusalCode NoSandbox = ''CONFLICT''"
| "refusalCode SshKeyNotFound = ''NOT_FOUND''"
| "refusalCode NotEd25519 = ''UNPROCESSABLE''"
| "refusalCode TooManyMints = ''RATE_LIMITED''"
| "refusalCode (CertificateRefused reason) = ''FORBIDDEN''"
| "refusalCode CertificateMalformed = ''FORBIDDEN''"
| "refusalCode MissingIdentity = ''FORBIDDEN''"
| "refusalCode AgentGone = ''NOT_FOUND''"
| "refusalCode UserGone = ''FORBIDDEN''"
| "refusalCode AccessRevoked = ''FORBIDDEN''"
| "refusalCode TooManySessions = ''CONFLICT''"
| "refusalCode KeyLimitReached = ''CONFLICT''"
| "refusalCode KeyAlreadyRegistered = ''CONFLICT''"
| "refusalCode (CodecThrew e) = ''INTERNAL''"
| "refusalCode DatabaseThrew = ''INTERNAL''"

section \<open>Shared pieces\<close>

definition sshAvailable :: "ssh_setup \<Rightarrow> bool" where
  "sshAvailable p = (sp_host p \<noteq> [] \<and> sp_signer p \<noteq> None)"

definition requireSigner :: "ssh_setup \<Rightarrow> ssh_refusal + ed25519_signer" where
  "requireSigner p =
     (case sp_signer p of None \<Rightarrow> Inl SshUnavailable | Some signer \<Rightarrow> if sp_host p = [] then Inl SshUnavailable else Inr signer)"

definition thrown :: "'a wire \<Rightarrow> ssh_refusal + 'a" where
  "thrown r = (case r of Inl e \<Rightarrow> Inl (CodecThrew e) | Inr x \<Rightarrow> Inr x)"

definition findAgent :: "string \<Rightarrow> string \<Rightarrow> ssh_db \<Rightarrow> ssh_agent_row option" where
  "findAgent agentId workspaceId s = find (\<lambda>a. sa_id a = agentId \<and> sa_workspaceId a = workspaceId) (aw_agents (sd_world s))"

definition sandboxOf :: "ssh_agent_row \<Rightarrow> ssh_db \<Rightarrow> sandbox_row option" where
  "sandboxOf agent s = find (\<lambda>b. sb_agentId b = sa_id agent) (sd_sandboxes s)"

definition canAccessWorkspaceAsUser :: "ssh_setup \<Rightarrow> ssh_db \<Rightarrow> string \<Rightarrow> workspace_ref \<Rightarrow> bool" where
  "canAccessWorkspaceAsUser p s userId workspace =
     (if \<not> sp_rbac p then True
      else (case aw_checker (sd_world s) of None \<Rightarrow> False | Some checker \<Rightarrow> checker userId workspace))"

definition userMayAccessWorkspace :: "ssh_setup \<Rightarrow> ssh_db \<Rightarrow> string \<Rightarrow> string \<Rightarrow> bool" where
  "userMayAccessWorkspace p s userId workspaceId =
     (case find (\<lambda>w. wr_id w = workspaceId) (aw_workspaces (sd_world s)) of
        None \<Rightarrow> False
      | Some workspace \<Rightarrow>
          (case find (\<lambda>m. om_userId m = userId \<and> om_organizationId m = wr_organizationId workspace \<and> om_status m \<noteq> ''suspended'')
              (aw_members (sd_world s)) of
             None \<Rightarrow> False
           | Some membership \<Rightarrow> canAccessWorkspaceAsUser p s userId workspace))"

definition wakeSandboxFor :: "string \<Rightarrow> string option \<Rightarrow> ssh_db \<Rightarrow> ssh_db" where
  "wakeSandboxFor agentId reason s =
     s\<lparr>sd_sandboxes := map (\<lambda>b. if sb_agentId b = agentId \<and> sb_status b \<in> {''stopped'', ''failed''}
        then b\<lparr>sb_status := ''unprovisioned'', sb_wakeReason := reason\<rparr> else b) (sd_sandboxes s)\<rparr>"

definition markSandboxEngaged :: "string \<Rightarrow> ssh_db \<Rightarrow> ssh_db" where
  "markSandboxEngaged sandboxId s =
     s\<lparr>sd_sandboxes := map (\<lambda>b. if sb_id b = sandboxId \<and> sb_status b = ''running''
        then b\<lparr>sb_lastActiveAt := Some (sd_now s), sb_lastEngagedAt := Some (sd_now s)\<rparr> else b) (sd_sandboxes s)\<rparr>"

definition recordAuditEvent :: "ssh_audit \<Rightarrow> ssh_db \<Rightarrow> ssh_db" where
  "recordAuditEvent e s = s\<lparr>sd_audit := sd_audit s @ [e]\<rparr>"

section \<open>Registered keys\<close>

definition MAX_SSH_KEYS_PER_USER :: nat where
  "MAX_SSH_KEYS_PER_USER = 25"

definition listSshKeys :: "string \<Rightarrow> ssh_db \<Rightarrow> user_ssh_key list" where
  "listSshKeys userId s = sort_key uk_createdAt (filter (\<lambda>k. uk_userId k = userId) (sd_keys s))"

definition createSshKey :: "ssh_setup \<Rightarrow> ssh_key_actor \<Rightarrow> string \<Rightarrow> string \<Rightarrow> ssh_db \<Rightarrow> ssh_refusal + ssh_pending" where
  "createSshKey p actor name publicKey s =
     (case parseEd25519PublicKeyLine (sp_fromBase64 p) publicKey of
        Inl e \<Rightarrow> Inl NotEd25519
      | Inr raw \<Rightarrow>
          if length (filter (\<lambda>k. uk_userId k = kx_userId actor) (sd_keys s)) \<ge> MAX_SSH_KEYS_PER_USER then Inl KeyLimitReached
          else Inr (Registering actor name raw))"

definition createKeyRow :: "ssh_setup \<Rightarrow> ssh_key_actor \<Rightarrow> string \<Rightarrow> buffer \<Rightarrow> string \<Rightarrow> ssh_db \<Rightarrow> ssh_db \<times> (ssh_refusal + user_ssh_key)" where
  "createKeyRow p actor name raw keyId s =
     (case try_then (ed25519Fingerprint (sp_sha256 p) (sp_toBase64 p) raw) (\<lambda>fingerprint.
           try_then (formatEd25519PublicKeyLine (sp_toBase64 p) raw None) (\<lambda>line. Inr (fingerprint, line))) of
        Inl e \<Rightarrow> (s, Inl (CodecThrew e))
      | Inr (fingerprint, line) \<Rightarrow>
          if list_ex (\<lambda>k. uk_userId k = kx_userId actor \<and> uk_fingerprint k = fingerprint) (sd_keys s) then (s, Inl KeyAlreadyRegistered)
          else if keyId \<in> set (sd_ids s) then (s, Inl DatabaseThrew)
          else
            (let row = \<lparr>uk_id = keyId, uk_userId = kx_userId actor, uk_name = name, uk_publicKey = line,
                   uk_fingerprint = fingerprint, uk_createdAt = sd_now s, uk_lastUsedAt = None\<rparr> in
             (recordAuditEvent (KeyCreated (kx_userId actor) (kx_userEmail actor) (kx_organizationId actor) keyId fingerprint name)
                (s\<lparr>sd_keys := sd_keys s @ [row], sd_ids := keyId # sd_ids s\<rparr>), Inr row)))"

definition deleteSshKey :: "ssh_key_actor \<Rightarrow> string \<Rightarrow> ssh_db \<Rightarrow> ssh_refusal + ssh_pending" where
  "deleteSshKey actor keyId s =
     (case find (\<lambda>k. uk_id k = keyId \<and> uk_userId k = kx_userId actor) (sd_keys s) of
        None \<Rightarrow> Inl SshKeyNotFound
      | Some k \<Rightarrow> Inr (Unregistering actor k))"

definition deleteKeyRow :: "ssh_key_actor \<Rightarrow> user_ssh_key \<Rightarrow> ssh_db \<Rightarrow> ssh_db \<times> (ssh_refusal + unit)" where
  "deleteKeyRow actor k s =
     (if \<not> list_ex (\<lambda>k'. uk_id k' = uk_id k \<and> uk_userId k' = kx_userId actor) (sd_keys s) then (s, Inl SshKeyNotFound)
      else
        (recordAuditEvent (KeyDeleted (kx_userId actor) (kx_userEmail actor) (kx_organizationId actor) (uk_id k) (uk_fingerprint k) (uk_name k))
           (s\<lparr>sd_keys := filter (\<lambda>k'. \<not> (uk_id k' = uk_id k \<and> uk_userId k' = kx_userId actor)) (sd_keys s)\<rparr>), Inr ()))"

definition resolveSshKeyForMint :: "string \<Rightarrow> string \<Rightarrow> ssh_db \<Rightarrow> ssh_refusal + user_ssh_key" where
  "resolveSshKeyForMint userId sshKeyId s =
     (case find (\<lambda>k. uk_id k = sshKeyId \<and> uk_userId k = userId) (sd_keys s) of None \<Rightarrow> Inl SshKeyNotFound | Some k \<Rightarrow> Inr k)"

definition touchSshKeyUsed :: "string \<Rightarrow> ssh_db \<Rightarrow> ssh_db" where
  "touchSshKeyUsed sshKeyId s =
     s\<lparr>sd_keys := map (\<lambda>k. if uk_id k = sshKeyId then k\<lparr>uk_lastUsedAt := Some (sd_now s)\<rparr> else k) (sd_keys s)\<rparr>"

section \<open>Minting\<close>

datatype key_source = PastedLine string | RegisteredKey string

definition mintKey :: "ssh_setup \<Rightarrow> string \<Rightarrow> key_source \<Rightarrow> ssh_db \<Rightarrow> ssh_refusal + buffer \<times> string option" where
  "mintKey p userId source s =
     (case source of
        RegisteredKey sshKeyId \<Rightarrow>
          try_then (resolveSshKeyForMint userId sshKeyId s) (\<lambda>registered.
          try_then (thrown (parseEd25519PublicKeyLine (sp_fromBase64 p) (uk_publicKey registered))) (\<lambda>raw.
          Inr (raw, Some (uk_id registered))))
      | PastedLine line \<Rightarrow>
          (case parseEd25519PublicKeyLine (sp_fromBase64 p) line of Inl e \<Rightarrow> Inl NotEd25519 | Inr raw \<Rightarrow> Inr (raw, None)))"

definition mintSshCertificate ::
    "ssh_setup \<Rightarrow> string \<Rightarrow> string \<Rightarrow> string \<Rightarrow> string \<Rightarrow> key_source \<Rightarrow> ssh_db \<Rightarrow> ssh_refusal + ssh_pending" where
  "mintSshCertificate p workspaceId userId userEmail agentId source s =
     try_then (requireSigner p) (\<lambda>signer.
     case findAgent agentId workspaceId s of
       None \<Rightarrow> Inl AgentNotFound
     | Some agent \<Rightarrow>
         if sa_kind agent \<noteq> ''hosted'' then Inl NotHosted
         else (case sandboxOf agent s of
             None \<Rightarrow> Inl NoSandbox
           | Some sandbox \<Rightarrow>
               try_then (mintKey p userId source s) (\<lambda>(userKey, mintedFromKeyId).
               if int (length (filter (\<lambda>m. mi_userId m = userId \<and> mi_agentId m = agentId \<and> mi_createdAt m > sd_now s - 3600000) (sd_mints s)))
                  \<ge> sp_mintsPerHour p then Inl TooManyMints
               else Inr (Minting \<lparr>mn_workspaceId = workspaceId, mn_userId = userId, mn_userEmail = userEmail, mn_agentId = agentId,
                      mn_sandboxId = sb_id sandbox, mn_userKey = userKey, mn_fromKeyId = mintedFromKeyId\<rparr>))))"

definition mintOptions :: "ssh_setup \<Rightarrow> int \<Rightarrow> mint_intent \<Rightarrow> build_options" where
  "mintOptions p now m =
     \<lparr>bo_userPublicKey = mn_userKey m,
      bo_keyId = json_stringify (JObj [(''u'', JStr (mn_userId m)), (''e'', JStr (mn_userEmail m)), (''a'', JStr (mn_agentId m)), (''w'', JStr (mn_workspaceId m))]),
      bo_principal = mn_agentId m, bo_validAfter = now - 60000, bo_validBefore = now + sp_certTtlSeconds p * 1000,
      bo_sandboxId = mn_sandboxId m, bo_workspaceId = mn_workspaceId m, bo_userId = mn_userId m, bo_serial = None\<rparr>"

record minted_certificate =
  mc_certificate :: string
  mc_host :: string
  mc_port :: int
  mc_user :: string
  mc_serial :: int
  mc_expiresAt :: int

definition mintIssue :: "ssh_setup \<Rightarrow> mint_intent \<Rightarrow> buffer \<Rightarrow> buffer \<Rightarrow> ssh_db \<Rightarrow> ssh_db \<times> (ssh_refusal + minted_certificate)" where
  "mintIssue p m random nonce s =
     (let s1 = s\<lparr>sd_mints := sd_mints s @ [\<lparr>mi_userId = mn_userId m, mi_agentId = mn_agentId m, mi_createdAt = sd_now s\<rparr>]\<rparr>;
          opts = mintOptions p (sd_now s) m in
      case try_then (requireSigner p) (\<lambda>signer. thrown (buildUserCertificate (sp_toBase64 p) random nonce opts signer)) of
        Inl e \<Rightarrow> (s1, Inl e)
      | Inr built \<Rightarrow>
          (let s2 = recordAuditEvent (CertMinted (mn_workspaceId m) (mn_userId m) (mn_userEmail m) (mn_agentId m) (bc_serial built)
                 (sp_certTtlSeconds p) (mn_fromKeyId m)) s1;
               s3 = (case mn_fromKeyId m of None \<Rightarrow> s2 | Some keyId \<Rightarrow> touchSshKeyUsed keyId s2);
               s4 = wakeSandboxFor (mn_agentId m) None s3 in
           (s4\<lparr>sd_minted := sd_minted s4 @ [(opts, random, nonce)]\<rparr>,
            Inr \<lparr>mc_certificate = bc_line built, mc_host = sp_host p, mc_port = sp_port p, mc_user = mn_agentId m,
                 mc_serial = bc_serial built, mc_expiresAt = bo_validBefore opts\<rparr>)))"

section \<open>Sessions\<close>

record ssh_session_policy =
  sy_maxSessionSeconds :: int
  sy_idleTimeoutSeconds :: int
  sy_heartbeatSeconds :: int

definition sessionPolicy :: "ssh_setup \<Rightarrow> ssh_session_policy" where
  "sessionPolicy p = \<lparr>sy_maxSessionSeconds = sp_maxSessionSeconds p, sy_idleTimeoutSeconds = sp_idleTimeoutSeconds p,
     sy_heartbeatSeconds = max 5 (sp_leaseSeconds p div 3)\<rparr>"

definition leaseWindowStart :: "ssh_setup \<Rightarrow> ssh_db \<Rightarrow> int" where
  "leaseWindowStart p s = sd_now s - sp_leaseSeconds p * 1000"

definition verifyPresentedCertificate :: "ssh_setup \<Rightarrow> int \<Rightarrow> string \<Rightarrow> ssh_refusal + cert_identity" where
  "verifyPresentedCertificate p now line =
     try_then (requireSigner p) (\<lambda>signer.
     case parseCertificateLine (sp_fromBase64 p) line of
       Inl e \<Rightarrow> Inl CertificateMalformed
     | Inr cert \<Rightarrow>
         (case assertValidUserCertificate (sp_verify p) cert
             \<lparr>vo_caPublicKey = sg_publicKey signer, vo_principal = None, vo_now = now, vo_ignoreValidityWindow = False\<rparr> of
            Inl (Unreadable e) \<Rightarrow> Inl CertificateMalformed
          | Inl reason \<Rightarrow> Inl (CertificateRefused reason)
          | Inr u \<Rightarrow>
              try_then (thrown (getExtensionValue cert CERT_EXT_SANDBOX_ID)) (\<lambda>sandboxId.
              try_then (thrown (getExtensionValue cert CERT_EXT_WORKSPACE_ID)) (\<lambda>workspaceId.
              try_then (thrown (getExtensionValue cert CERT_EXT_USER_ID)) (\<lambda>userId.
              (let agentId = (case cert_principals cert of [] \<Rightarrow> None | name # _ \<Rightarrow> Some name) in
               if \<not> truthy agentId \<or> \<not> truthy sandboxId \<or> \<not> truthy workspaceId \<or> \<not> truthy userId then Inl MissingIdentity
               else Inr \<lparr>ci_serial = cert_serial cert, ci_agentId = the agentId, ci_sandboxId = the sandboxId,
                      ci_workspaceId = the workspaceId, ci_userId = the userId\<rparr>))))))"

definition openSshSession :: "ssh_setup \<Rightarrow> string \<Rightarrow> string \<Rightarrow> ssh_db \<Rightarrow> ssh_refusal + ssh_pending" where
  "openSshSession p line sourceIp s =
     try_then (verifyPresentedCertificate p (sd_now s) line) (\<lambda>identity.
     case findAgent (ci_agentId identity) (ci_workspaceId identity) s of
       None \<Rightarrow> Inl AgentGone
     | Some agent \<Rightarrow>
         if sa_kind agent \<noteq> ''hosted'' \<or> map_option sb_id (sandboxOf agent s) \<noteq> Some (ci_sandboxId identity) then Inl AgentGone
         else (case find (\<lambda>u. su_id u = ci_userId identity) (aw_users (sd_world s)) of
             None \<Rightarrow> Inl UserGone
           | Some user \<Rightarrow>
               if \<not> userMayAccessWorkspace p s (ci_userId identity) (ci_workspaceId identity) then Inl AccessRevoked
               else Inr (Opening identity (su_email user) sourceIp)))"

record opened_ssh_session =
  os_sessionId :: string
  os_grant :: string
  os_policy :: ssh_session_policy

definition liveSessions :: "ssh_setup \<Rightarrow> string \<Rightarrow> ssh_db \<Rightarrow> ssh_session list" where
  "liveSessions p agentId s =
     filter (\<lambda>r. ss_agentId r = agentId \<and> ss_status r = ''open'' \<and> ss_lastHeartbeatAt r > leaseWindowStart p s) (sd_sessions s)"

definition openRow :: "ssh_setup \<Rightarrow> cert_identity \<Rightarrow> string \<Rightarrow> string \<Rightarrow> string \<Rightarrow> ssh_db \<Rightarrow> ssh_db \<times> (ssh_refusal + opened_ssh_session)" where
  "openRow p identity userEmail sourceIp sessionId s =
     (if int (length (liveSessions p (ci_agentId identity) s)) \<ge> sp_maxSessionsPerAgent p then (s, Inl TooManySessions)
      else if sessionId \<in> set (sd_ids s) \<or> ci_sandboxId identity \<notin> set (map sb_id (sd_sandboxes s)) then (s, Inl DatabaseThrew)
      else
        (let row = \<lparr>ss_id = sessionId, ss_sandboxId = ci_sandboxId identity, ss_agentId = ci_agentId identity,
               ss_workspaceId = ci_workspaceId identity, ss_userId = ci_userId identity, ss_userEmail = userEmail,
               ss_sourceIp = sourceIp, ss_certSerial = ci_serial identity, ss_status = ''open'', ss_openedAt = sd_now s,
               ss_attachedAt = None, ss_lastHeartbeatAt = sd_now s, ss_closedAt = None, ss_closeReason = None\<rparr>;
             s1 = recordAuditEvent (SessionOpened (ci_workspaceId identity) (ci_userId identity) userEmail (ci_agentId identity)
                 sessionId (ci_serial identity) sourceIp)
               (s\<lparr>sd_sessions := sd_sessions s @ [row], sd_ids := sessionId # sd_ids s\<rparr>);
             s2 = wakeSandboxFor (ci_agentId identity) None s1;
             grant = \<lparr>sgr_sessionId = sessionId, sgr_agentId = ci_agentId identity, sgr_sandboxId = ci_sandboxId identity,
               sgr_workspaceId = ci_workspaceId identity, sgr_expiresAt = sd_now s div 1000 + sp_maxSessionSeconds p\<rparr> in
         case try_then (requireSigner p) (\<lambda>signer. thrown (signGrant (sp_toBase64 p) grant signer)) of
           Inl e \<Rightarrow> (s2, Inl e)
         | Inr encoded \<Rightarrow> (s2\<lparr>sd_granted := sd_granted s2 @ [grant]\<rparr>,
             Inr \<lparr>os_sessionId = sessionId, os_grant = encoded, os_policy = sessionPolicy p\<rparr>)))"

text \<open>The access law a beat runs again.\<close>

definition revokedReason :: "ssh_setup \<Rightarrow> ssh_session \<Rightarrow> ssh_db \<Rightarrow> string option" where
  "revokedReason p r s =
     (if findAgent (ss_agentId r) (ss_workspaceId r) s = None then Some ''agent_deleted''
      else if \<not> userMayAccessWorkspace p s (ss_userId r) (ss_workspaceId r) then Some ''access_revoked''
      else None)"

datatype beat_answer = Revoked string | NotRevoked

definition findSession :: "string \<Rightarrow> ssh_db \<Rightarrow> ssh_session option" where
  "findSession sessionId s = find (\<lambda>r. ss_id r = sessionId) (sd_sessions s)"

text \<open>
  The beat of a session: what is left to write, and the answer.  The clock is read once for the
  age of the session and the new stamp, which the code reads one right after the other.
\<close>

definition heartbeatSshSession :: "ssh_setup \<Rightarrow> string \<Rightarrow> bool \<Rightarrow> ssh_db \<Rightarrow> ssh_pending list \<times> beat_answer" where
  "heartbeatSshSession p sessionId attached s =
     (case findSession sessionId s of
        None \<Rightarrow> ([], Revoked ''session_gone'')
      | Some session \<Rightarrow>
          if ss_status session \<noteq> ''open'' then ([], Revoked ''session_closed'')
          else (case revokedReason p session s of
              Some reason \<Rightarrow> ([Closing session reason], Revoked reason)
            | None \<Rightarrow>
                if sd_now s \<ge> ss_openedAt session + sp_maxSessionSeconds p * 1000
                then ([Closing session ''max_duration''], Revoked ''max_duration'')
                else ([Renewing sessionId (sd_now s) (attached \<and> ss_attachedAt session = None)], NotRevoked)))"

definition renewRow :: "string \<Rightarrow> int \<Rightarrow> bool \<Rightarrow> ssh_db \<Rightarrow> ssh_db" where
  "renewRow sessionId stamp attach s =
     s\<lparr>sd_sessions := map (\<lambda>r. if ss_id r = sessionId
        then r\<lparr>ss_lastHeartbeatAt := stamp, ss_attachedAt := if attach then Some stamp else ss_attachedAt r\<rparr> else r) (sd_sessions s)\<rparr>"

definition closeSshSessionRow :: "ssh_session \<Rightarrow> string \<Rightarrow> ssh_db \<Rightarrow> ssh_db \<times> bool" where
  "closeSshSessionRow session reason s =
     (if \<not> list_ex (\<lambda>r. ss_id r = ss_id session \<and> ss_status r = ''open'') (sd_sessions s) then (s, False)
      else
        (let s1 = s\<lparr>sd_sessions := map (\<lambda>r. if ss_id r = ss_id session \<and> ss_status r = ''open''
               then r\<lparr>ss_status := ''closed'', ss_closedAt := Some (sd_now s), ss_closeReason := Some reason\<rparr> else r) (sd_sessions s)\<rparr>;
             s2 = recordAuditEvent (SessionClosed (ss_workspaceId session) (ss_userId session) (ss_userEmail session) (ss_agentId session)
                 (ss_id session) reason (max 0 ((sd_now s - ss_openedAt session + 500) div 1000))) s1 in
         (if ss_attachedAt session \<noteq> None then markSandboxEngaged (ss_sandboxId session) s2 else s2, True)))"

definition closeSshSession :: "string \<Rightarrow> string \<Rightarrow> ssh_db \<Rightarrow> ssh_pending list" where
  "closeSshSession sessionId reason s = (case findSession sessionId s of None \<Rightarrow> [] | Some session \<Rightarrow> [Closing session reason])"

definition sweepSshSessions :: "ssh_setup \<Rightarrow> ssh_db \<Rightarrow> ssh_pending list" where
  "sweepSshSessions p s =
     map (\<lambda>session. Closing session ''lease_expired'')
       (take 100 (filter (\<lambda>r. ss_status r = ''open'' \<and> ss_lastHeartbeatAt r < leaseWindowStart p s) (sd_sessions s))) @ [PruningMints]"

definition pruneMints :: "ssh_db \<Rightarrow> ssh_db" where
  "pruneMints s = s\<lparr>sd_mints := filter (\<lambda>m. \<not> mi_createdAt m < sd_now s - 24 * 3600000) (sd_mints s)\<rparr>"

section \<open>Runs\<close>

fun resume :: "ssh_setup \<Rightarrow> ssh_pending \<Rightarrow> string \<Rightarrow> buffer \<Rightarrow> buffer \<Rightarrow> ssh_db \<Rightarrow> ssh_db" where
  "resume p (Minting m) newId random nonce s = fst (mintIssue p m random nonce s)"
| "resume p (Opening identity userEmail sourceIp) newId random nonce s = fst (openRow p identity userEmail sourceIp newId s)"
| "resume p (Renewing sessionId stamp attach) newId random nonce s = renewRow sessionId stamp attach s"
| "resume p (Closing session reason) newId random nonce s = fst (closeSshSessionRow session reason s)"
| "resume p PruningMints newId random nonce s = pruneMints s"
| "resume p (Registering actor name raw) newId random nonce s = fst (createKeyRow p actor name raw newId s)"
| "resume p (Unregistering actor k) newId random nonce s = fst (deleteKeyRow actor k s)"

datatype ssh_call =
    TimePasses nat
  | WorldChanges access_world "sandbox_row list"
  | MintCalled string string string string key_source
  | OpenCalled string string
  | BeatCalled string bool
  | CloseCalled string string
  | SweepCalled
  | RegisterCalled ssh_key_actor string string
  | UnregisterCalled ssh_key_actor string
  | Resumed nat string buffer buffer

definition awaiting :: "ssh_pending list \<Rightarrow> ssh_db \<Rightarrow> ssh_db" where
  "awaiting pending s = s\<lparr>sd_pending := sd_pending s @ pending\<rparr>"

definition awaitingIf :: "(ssh_refusal + ssh_pending) \<Rightarrow> ssh_db \<Rightarrow> ssh_db" where
  "awaitingIf r s = (case r of Inl e \<Rightarrow> s | Inr pending \<Rightarrow> awaiting [pending] s)"

text \<open>A sandbox that is deleted takes its sessions with it.\<close>

fun sshStep :: "ssh_setup \<Rightarrow> ssh_db \<Rightarrow> ssh_call \<Rightarrow> ssh_db" where
  "sshStep p s (TimePasses ms) = s\<lparr>sd_now := sd_now s + int ms\<rparr>"
| "sshStep p s (WorldChanges world sandboxes) =
     s\<lparr>sd_world := world, sd_sandboxes := sandboxes,
       sd_sessions := filter (\<lambda>r. ss_sandboxId r \<in> set (map sb_id sandboxes)) (sd_sessions s)\<rparr>"
| "sshStep p s (MintCalled workspaceId userId userEmail agentId source) =
     awaitingIf (mintSshCertificate p workspaceId userId userEmail agentId source s) s"
| "sshStep p s (OpenCalled line sourceIp) = awaitingIf (openSshSession p line sourceIp s) s"
| "sshStep p s (BeatCalled sessionId attached) = awaiting (fst (heartbeatSshSession p sessionId attached s)) s"
| "sshStep p s (CloseCalled sessionId reason) = awaiting (closeSshSession sessionId reason s) s"
| "sshStep p s SweepCalled = awaiting (sweepSshSessions p s) s"
| "sshStep p s (RegisterCalled actor name publicKey) = awaitingIf (createSshKey p actor name publicKey s) s"
| "sshStep p s (UnregisterCalled actor keyId) = awaitingIf (deleteSshKey actor keyId s) s"
| "sshStep p s (Resumed k newId random nonce) =
     (if k \<ge> length (sd_pending s) then s
      else resume p (sd_pending s ! k) newId random nonce (s\<lparr>sd_pending := take k (sd_pending s) @ drop (Suc k) (sd_pending s)\<rparr>))"

definition emptySshDb :: ssh_db where
  "emptySshDb = \<lparr>sd_now = 0, sd_world = \<lparr>aw_agents = [], aw_users = [], aw_workspaces = [], aw_members = [], aw_checker = None\<rparr>,
     sd_sandboxes = [], sd_keys = [], sd_mints = [], sd_sessions = [], sd_audit = [], sd_pending = [], sd_ids = [],
     sd_minted = [], sd_granted = []\<rparr>"

definition sshRun :: "ssh_setup \<Rightarrow> ssh_call list \<Rightarrow> ssh_db" where
  "sshRun p calls = foldl (sshStep p) emptySshDb calls"

end
