(* ===== verification/SshSessionFacts.thy ===== *)
theory SshSessionFacts
  imports SshSessions
begin

text \<open>
  What every reachable state of the session tables satisfies: identifiers are unique, every row was
  audited when it opened, an open row has no closing event and a closed one exactly its own, and
  no lease was stamped outside the life of its session.
\<close>

section \<open>Session events of the audit log\<close>

definition openings :: "ssh_audit list \<Rightarrow> string \<Rightarrow> ssh_audit list" where
  "openings audit sessionId = filter (\<lambda>e. case e of SessionOpened w u em a i n ip \<Rightarrow> i = sessionId | _ \<Rightarrow> False) audit"

definition closings :: "ssh_audit list \<Rightarrow> string \<Rightarrow> ssh_audit list" where
  "closings audit sessionId = filter (\<lambda>e. case e of SessionClosed w u em a i reason sec \<Rightarrow> i = sessionId | _ \<Rightarrow> False) audit"

definition sessionEvent :: "ssh_audit \<Rightarrow> bool" where
  "sessionEvent e = (case e of SessionOpened w u em a i n ip \<Rightarrow> True | SessionClosed w u em a i reason sec \<Rightarrow> True | _ \<Rightarrow> False)"

lemma session_events_append [simp]:
  "openings (xs @ ys) i = openings xs i @ openings ys i" "closings (xs @ ys) i = closings xs i @ closings ys i"
  by (simp_all add: openings_def closings_def)

lemma session_events_one [simp]:
  "openings [] i = []" "closings [] i = []"
  "closings [SessionOpened w u em a i' n ip] i = []" "openings [SessionClosed w u em a i' reason sec] i = []"
  "openings [SessionOpened w u em a i' n ip] i = (if i' = i then [SessionOpened w u em a i' n ip] else [])"
  "closings [SessionClosed w u em a i' reason sec] i = (if i' = i then [SessionClosed w u em a i' reason sec] else [])"
  by (simp_all add: openings_def closings_def)

lemma no_session_events: "list_all (\<lambda>e. \<not> sessionEvent e) es \<Longrightarrow> openings es i = [] \<and> closings es i = []"
  by (induction es) (auto simp: openings_def closings_def sessionEvent_def split: ssh_audit.splits)

section \<open>The invariant\<close>

definition openedEvent :: "ssh_session \<Rightarrow> ssh_audit" where
  "openedEvent r = SessionOpened (ss_workspaceId r) (ss_userId r) (ss_userEmail r) (ss_agentId r) (ss_id r) (ss_certSerial r) (ss_sourceIp r)"

definition closedEvent :: "ssh_session \<Rightarrow> string \<Rightarrow> int \<Rightarrow> ssh_audit" where
  "closedEvent r reason t =
     SessionClosed (ss_workspaceId r) (ss_userId r) (ss_userEmail r) (ss_agentId r) (ss_id r) reason (max 0 ((t - ss_openedAt r + 500) div 1000))"

definition sameSession :: "ssh_session \<Rightarrow> ssh_session \<Rightarrow> bool" where
  "sameSession r r' \<longleftrightarrow> ss_id r = ss_id r' \<and> ss_workspaceId r = ss_workspaceId r' \<and> ss_userId r = ss_userId r' \<and>
     ss_userEmail r = ss_userEmail r' \<and> ss_agentId r = ss_agentId r' \<and> ss_openedAt r = ss_openedAt r'"

definition stampOk :: "ssh_setup \<Rightarrow> int \<Rightarrow> ssh_session \<Rightarrow> int \<Rightarrow> bool" where
  "stampOk p now r stamp \<longleftrightarrow> ss_openedAt r \<le> stamp \<and> stamp \<le> now \<and> stamp < ss_openedAt r + sp_maxSessionSeconds p * 1000"

definition lifeOk :: "ssh_audit list \<Rightarrow> ssh_session \<Rightarrow> bool" where
  "lifeOk audit r \<longleftrightarrow> openings audit (ss_id r) = [openedEvent r] \<and>
     (ss_status r = ''open'' \<and> ss_closedAt r = None \<and> ss_closeReason r = None \<and> closings audit (ss_id r) = [] \<or>
      ss_status r = ''closed'' \<and> (\<exists>t reason. ss_closedAt r = Some t \<and> ss_closeReason r = Some reason \<and>
        closings audit (ss_id r) = [closedEvent r reason t]))"

fun pendingOk :: "ssh_setup \<Rightarrow> ssh_db \<Rightarrow> ssh_pending \<Rightarrow> bool" where
  "pendingOk p s (Closing r0 reason) \<longleftrightarrow> ss_id r0 \<in> set (sd_ids s) \<and>
     list_all (\<lambda>r. ss_id r = ss_id r0 \<longrightarrow> sameSession r r0) (sd_sessions s)"
| "pendingOk p s (Renewing sessionId stamp attach) \<longleftrightarrow> sessionId \<in> set (sd_ids s) \<and>
     list_all (\<lambda>r. ss_id r = sessionId \<longrightarrow> stampOk p (sd_now s) r stamp) (sd_sessions s)"
| "pendingOk p s pending \<longleftrightarrow> True"

definition eventsOk :: "ssh_db \<Rightarrow> bool" where
  "eventsOk s \<longleftrightarrow> (\<forall>i. length (openings (sd_audit s) i) \<le> 1 \<and> length (closings (sd_audit s) i) \<le> 1 \<and>
     (i \<notin> set (sd_ids s) \<longrightarrow> openings (sd_audit s) i = [] \<and> closings (sd_audit s) i = []))"

definition sessionsOk :: "ssh_setup \<Rightarrow> ssh_db \<Rightarrow> bool" where
  "sessionsOk p s \<longleftrightarrow> distinct (map ss_id (sd_sessions s)) \<and> ss_id ` set (sd_sessions s) \<subseteq> set (sd_ids s) \<and> eventsOk s \<and>
     (\<forall>r\<in>set (sd_sessions s). stampOk p (sd_now s) r (ss_lastHeartbeatAt r) \<and> lifeOk (sd_audit s) r) \<and>
     (\<forall>a\<in>set (sd_pending s). pendingOk p s a)"

lemma row_unique:
  assumes "sessionsOk p s" and "r \<in> set (sd_sessions s)" and "r' \<in> set (sd_sessions s)" and "ss_id r = ss_id r'"
  shows "r = r'"
  using assms by (auto simp: sessionsOk_def distinct_map inj_on_def)

lemma stampOk_later: "stampOk p now r stamp \<Longrightarrow> now \<le> later \<Longrightarrow> stampOk p later r stamp"
  by (simp add: stampOk_def)

text \<open>A step that leaves the sessions alone, drops some, draws an identifier or lets time pass.\<close>

definition quiet :: "ssh_db \<Rightarrow> ssh_db \<Rightarrow> bool" where
  "quiet s s' \<longleftrightarrow> (\<exists>Q. sd_sessions s' = filter Q (sd_sessions s)) \<and> set (sd_ids s) \<subseteq> set (sd_ids s') \<and> sd_now s \<le> sd_now s' \<and>
     (\<exists>es. sd_audit s' = sd_audit s @ es \<and> list_all (\<lambda>e. \<not> sessionEvent e) es)"

lemma quiet_refl: "quiet s s"
  by (auto simp: quiet_def intro: exI [of _ "\<lambda>_. True"])

lemma quiet_trans: "quiet s s' \<Longrightarrow> quiet s' s'' \<Longrightarrow> quiet s s''"
  by (auto simp: quiet_def)

lemma quiet_pending: "quiet s s' \<Longrightarrow> pendingOk p s a \<Longrightarrow> pendingOk p s' a"
  by (cases a) (auto simp: quiet_def list_all_iff stampOk_later)

lemma quiet_ok:
  assumes "sessionsOk p s" and "quiet s s'" and "\<forall>a\<in>set (sd_pending s'). a \<in> set (sd_pending s) \<or> pendingOk p s a"
  shows "sessionsOk p s'"
proof -
  obtain Q es where q: "sd_sessions s' = filter Q (sd_sessions s)" "sd_audit s' = sd_audit s @ es"
    "list_all (\<lambda>e. \<not> sessionEvent e) es" "set (sd_ids s) \<subseteq> set (sd_ids s')" "sd_now s \<le> sd_now s'"
    using assms(2) by (auto simp: quiet_def)
  note same = no_session_events [OF q(3)]
  have "distinct (map ss_id (sd_sessions s'))" using assms(1) q(1) by (simp add: sessionsOk_def distinct_map_filter)
  moreover have "eventsOk s'" using assms(1) q(2,4) same by (auto simp: sessionsOk_def eventsOk_def)
  moreover have "stampOk p (sd_now s') r (ss_lastHeartbeatAt r) \<and> lifeOk (sd_audit s') r" if "r \<in> set (sd_sessions s')" for r
    using assms(1) that q(1,2,5) same stampOk_later by (auto simp: sessionsOk_def lifeOk_def)
  moreover have "pendingOk p s' a" if "a \<in> set (sd_pending s')" for a
    using assms that quiet_pending [OF assms(2)] by (auto simp: sessionsOk_def)
  ultimately show ?thesis using assms(1) q(1,4) by (auto simp: sessionsOk_def)
qed

section \<open>Quiet operations\<close>

lemma wake_fields [simp]:
  "sd_now (wakeSandboxFor a w s) = sd_now s" "sd_sessions (wakeSandboxFor a w s) = sd_sessions s" "sd_audit (wakeSandboxFor a w s) = sd_audit s"
  "sd_ids (wakeSandboxFor a w s) = sd_ids s" "sd_pending (wakeSandboxFor a w s) = sd_pending s" "sd_world (wakeSandboxFor a w s) = sd_world s"
  "sd_minted (wakeSandboxFor a w s) = sd_minted s" "sd_granted (wakeSandboxFor a w s) = sd_granted s"
  by (simp_all add: wakeSandboxFor_def)

lemma engaged_fields [simp]:
  "sd_now (markSandboxEngaged b s) = sd_now s" "sd_sessions (markSandboxEngaged b s) = sd_sessions s" "sd_audit (markSandboxEngaged b s) = sd_audit s"
  "sd_ids (markSandboxEngaged b s) = sd_ids s" "sd_pending (markSandboxEngaged b s) = sd_pending s" "sd_world (markSandboxEngaged b s) = sd_world s"
  "sd_minted (markSandboxEngaged b s) = sd_minted s" "sd_granted (markSandboxEngaged b s) = sd_granted s"
  by (simp_all add: markSandboxEngaged_def)

lemma audit_fields [simp]:
  "sd_now (recordAuditEvent e s) = sd_now s" "sd_sessions (recordAuditEvent e s) = sd_sessions s" "sd_audit (recordAuditEvent e s) = sd_audit s @ [e]"
  "sd_ids (recordAuditEvent e s) = sd_ids s" "sd_pending (recordAuditEvent e s) = sd_pending s" "sd_world (recordAuditEvent e s) = sd_world s"
  "sd_minted (recordAuditEvent e s) = sd_minted s" "sd_granted (recordAuditEvent e s) = sd_granted s" "sd_sandboxes (recordAuditEvent e s) = sd_sandboxes s"
  by (simp_all add: recordAuditEvent_def)

lemma touch_fields [simp]:
  "sd_now (touchSshKeyUsed k s) = sd_now s" "sd_sessions (touchSshKeyUsed k s) = sd_sessions s" "sd_audit (touchSshKeyUsed k s) = sd_audit s"
  "sd_ids (touchSshKeyUsed k s) = sd_ids s" "sd_pending (touchSshKeyUsed k s) = sd_pending s" "sd_world (touchSshKeyUsed k s) = sd_world s"
  "sd_minted (touchSshKeyUsed k s) = sd_minted s" "sd_granted (touchSshKeyUsed k s) = sd_granted s"
  by (simp_all add: touchSshKeyUsed_def)

lemma same_audit: "sd_sessions s' = sd_sessions s \<Longrightarrow> set (sd_ids s) \<subseteq> set (sd_ids s') \<Longrightarrow> sd_now s' = sd_now s \<Longrightarrow>
    sd_audit s' = sd_audit s \<or> (\<exists>e. sd_audit s' = sd_audit s @ [e] \<and> \<not> sessionEvent e) \<Longrightarrow> quiet s s'"
  by (auto simp: quiet_def intro: exI [of _ "\<lambda>_. True"])

lemma mintIssue_quiet: "quiet s (fst (mintIssue p m random nonce s)) \<and> sd_pending (fst (mintIssue p m random nonce s)) = sd_pending s"
  by (rule conjI [OF same_audit]) (auto simp: mintIssue_def Let_def sessionEvent_def split: sum.split option.split)

lemma createKeyRow_quiet:
  "quiet s (fst (createKeyRow p actor name raw keyId s)) \<and> sd_pending (fst (createKeyRow p actor name raw keyId s)) = sd_pending s"
  by (rule conjI [OF same_audit]) (auto simp: createKeyRow_def Let_def sessionEvent_def split: sum.split)

lemma deleteKeyRow_quiet:
  "quiet s (fst (deleteKeyRow actor k s)) \<and> sd_pending (fst (deleteKeyRow actor k s)) = sd_pending s"
  by (rule conjI [OF same_audit]) (auto simp: deleteKeyRow_def sessionEvent_def)

lemma pruneMints_quiet: "quiet s (pruneMints s) \<and> sd_pending (pruneMints s) = sd_pending s"
  by (rule conjI [OF same_audit]) (simp_all add: pruneMints_def)

section \<open>Operations on sessions\<close>

text \<open>The outcomes of an open: refused, or a row with its event.\<close>

definition openedRow :: "cert_identity \<Rightarrow> string \<Rightarrow> string \<Rightarrow> string \<Rightarrow> int \<Rightarrow> ssh_session" where
  "openedRow identity userEmail sourceIp sessionId now =
     \<lparr>ss_id = sessionId, ss_sandboxId = ci_sandboxId identity, ss_agentId = ci_agentId identity,
      ss_workspaceId = ci_workspaceId identity, ss_userId = ci_userId identity, ss_userEmail = userEmail,
      ss_sourceIp = sourceIp, ss_certSerial = ci_serial identity, ss_status = ''open'', ss_openedAt = now,
      ss_attachedAt = None, ss_lastHeartbeatAt = now, ss_closedAt = None, ss_closeReason = None\<rparr>"

lemma openRow_cases:
  obtains (refused) "fst (openRow p identity userEmail sourceIp sessionId s) = s"
  | (opened) row where "row = openedRow identity userEmail sourceIp sessionId (sd_now s)"
      "sd_sessions (fst (openRow p identity userEmail sourceIp sessionId s)) = sd_sessions s @ [row]"
      "sd_audit (fst (openRow p identity userEmail sourceIp sessionId s)) = sd_audit s @ [openedEvent row]"
      "sd_ids (fst (openRow p identity userEmail sourceIp sessionId s)) = sessionId # sd_ids s"
      "sd_now (fst (openRow p identity userEmail sourceIp sessionId s)) = sd_now s"
      "sd_pending (fst (openRow p identity userEmail sourceIp sessionId s)) = sd_pending s"
      "sd_world (fst (openRow p identity userEmail sourceIp sessionId s)) = sd_world s"
      "sessionId \<notin> set (sd_ids s)"
proof (cases "int (length (liveSessions p (ci_agentId identity) s)) \<ge> sp_maxSessionsPerAgent p \<or>
    sessionId \<in> set (sd_ids s) \<or> ci_sandboxId identity \<notin> set (map sb_id (sd_sandboxes s))")
  case True
  then show thesis by (intro refused) (auto simp: openRow_def)
next
  case False
  then show thesis
    by (intro opened [OF refl]) (simp_all add: openRow_def Let_def openedRow_def openedEvent_def split: sum.split)
qed

lemma openRow_ok:
  assumes "sessionsOk p s" and "0 < sp_maxSessionSeconds p"
  shows "sessionsOk p (fst (openRow p identity userEmail sourceIp sessionId s))"
proof (rule openRow_cases [of p identity userEmail sourceIp sessionId s])
  fix row
  let ?s = "fst (openRow p identity userEmail sourceIp sessionId s)"
  assume o: "row = openedRow identity userEmail sourceIp sessionId (sd_now s)" "sd_sessions ?s = sd_sessions s @ [row]"
    "sd_audit ?s = sd_audit s @ [openedEvent row]" "sd_ids ?s = sessionId # sd_ids s" "sd_now ?s = sd_now s"
    "sd_pending ?s = sd_pending s" "sessionId \<notin> set (sd_ids s)"
  have row: "ss_id row = sessionId" "ss_status row = ''open''" "ss_closedAt row = None" "ss_closeReason row = None"
    "ss_openedAt row = sd_now s" "ss_lastHeartbeatAt row = sd_now s"
    by (simp_all add: o(1) openedRow_def)
  have fresh: "openings (sd_audit s) sessionId = [] \<and> closings (sd_audit s) sessionId = []" "sessionId \<notin> ss_id ` set (sd_sessions s)"
    using assms(1) o(7) by (auto simp: sessionsOk_def eventsOk_def)
  have ev: "openings [openedEvent row] i = (if i = sessionId then [openedEvent row] else [])" "closings [openedEvent row] i = []" for i
    using row(1) by (auto simp: openedEvent_def)
  have "distinct (map ss_id (sd_sessions ?s))" using assms(1) fresh(2) row(1) o(2) by (simp add: sessionsOk_def)
  moreover have "eventsOk ?s" using assms(1) fresh(1) o(3,4) ev by (auto simp: sessionsOk_def eventsOk_def)
  moreover have "stampOk p (sd_now ?s) r (ss_lastHeartbeatAt r) \<and> lifeOk (sd_audit ?s) r" if "r \<in> set (sd_sessions ?s)" for r
    using assms that fresh row o(2,3,5) ev by (auto simp: sessionsOk_def lifeOk_def stampOk_def)
  moreover have "pendingOk p ?s a" if "a \<in> set (sd_pending ?s)" for a
    using assms(1) that o(2,4,5,6,7) row(1) by (cases a) (auto simp: sessionsOk_def)
  ultimately show ?thesis using assms(1) o(2,4) row(1) by (auto simp: sessionsOk_def)
qed (use assms in simp)

text \<open>An operation that rewrites rows and keeps what identifies them.\<close>

lemma sameSession_stamp: "sameSession r r' \<Longrightarrow> stampOk p now r stamp = stampOk p now r' stamp"
  by (simp add: sameSession_def stampOk_def)

lemma sameSession_trans: "sameSession r r' \<Longrightarrow> sameSession r r'' = sameSession r' r''"
  by (auto simp: sameSession_def)

lemma rewrite_ok:
  assumes "sessionsOk p s" and "sd_sessions s' = map g (sd_sessions s)" and g: "\<And>r. sameSession (g r) r"
    and "sd_ids s' = sd_ids s" and "sd_now s' = sd_now s" and "sd_pending s' = sd_pending s" and "eventsOk s'"
    and rows: "\<And>r. r \<in> set (sd_sessions s) \<Longrightarrow> stampOk p (sd_now s) r (ss_lastHeartbeatAt (g r)) \<and> lifeOk (sd_audit s') (g r)"
  shows "sessionsOk p s'"
proof -
  have ids: "ss_id (g r) = ss_id r" for r using g [of r] by (simp add: sameSession_def)
  have "pendingOk p s' a = pendingOk p s a" for a
    using assms(2,4,5) sameSession_trans [OF g] sameSession_stamp [OF g] ids by (cases a) (simp_all add: list_all_iff)
  moreover have "ss_id \<circ> g = ss_id" using ids by (simp add: fun_eq_iff)
  moreover have "ss_id ` set (sd_sessions s') = ss_id ` set (sd_sessions s)" using assms(2) ids by (auto simp: image_iff)
  ultimately show ?thesis
    using assms(1,2,4-7) rows sameSession_stamp [OF g] by (simp add: sessionsOk_def)
qed

definition renewedRow :: "string \<Rightarrow> int \<Rightarrow> bool \<Rightarrow> ssh_session \<Rightarrow> ssh_session" where
  "renewedRow sessionId stamp attach r = (if ss_id r = sessionId
     then r\<lparr>ss_lastHeartbeatAt := stamp, ss_attachedAt := if attach then Some stamp else ss_attachedAt r\<rparr> else r)"

lemma renewRow_fields [simp]:
  "sd_sessions (renewRow i stamp attach s) = map (renewedRow i stamp attach) (sd_sessions s)"
  "sd_audit (renewRow i stamp attach s) = sd_audit s" "sd_ids (renewRow i stamp attach s) = sd_ids s"
  "sd_now (renewRow i stamp attach s) = sd_now s" "sd_pending (renewRow i stamp attach s) = sd_pending s"
  "sd_world (renewRow i stamp attach s) = sd_world s" "sd_minted (renewRow i stamp attach s) = sd_minted s"
  "sd_granted (renewRow i stamp attach s) = sd_granted s"
  by (simp_all add: renewRow_def renewedRow_def fun_eq_iff)

lemma renewRow_ok:
  assumes "sessionsOk p s" and "pendingOk p s (Renewing sessionId stamp attach)"
  shows "sessionsOk p (renewRow sessionId stamp attach s)"
proof (rule rewrite_ok [OF assms(1)])
  fix r assume r: "r \<in> set (sd_sessions s)"
  have "lifeOk audit (renewedRow sessionId stamp attach r) = lifeOk audit r" for audit
    by (auto simp: renewedRow_def lifeOk_def openedEvent_def closedEvent_def)
  moreover have "stampOk p (sd_now s) r (ss_lastHeartbeatAt (renewedRow sessionId stamp attach r))"
    using assms r by (simp add: sessionsOk_def renewedRow_def list_all_iff)
  ultimately show "stampOk p (sd_now s) r (ss_lastHeartbeatAt (renewedRow sessionId stamp attach r)) \<and>
      lifeOk (sd_audit (renewRow sessionId stamp attach s)) (renewedRow sessionId stamp attach r)"
    using assms(1) r by (simp add: sessionsOk_def)
qed (use assms(1) in \<open>simp_all add: renewedRow_def sameSession_def sessionsOk_def eventsOk_def\<close>)

definition closedRow :: "string \<Rightarrow> string \<Rightarrow> int \<Rightarrow> ssh_session \<Rightarrow> ssh_session" where
  "closedRow sessionId reason now r = (if ss_id r = sessionId \<and> ss_status r = ''open''
     then r\<lparr>ss_status := ''closed'', ss_closedAt := Some now, ss_closeReason := Some reason\<rparr> else r)"

lemma closeRow_cases:
  obtains (closed_before) "fst (closeSshSessionRow session reason s) = s"
      "list_all (\<lambda>r. ss_id r = ss_id session \<longrightarrow> ss_status r \<noteq> ''open'') (sd_sessions s)"
  | (closes) r where "r \<in> set (sd_sessions s)" "ss_id r = ss_id session" "ss_status r = ''open''"
      "sd_sessions (fst (closeSshSessionRow session reason s)) = map (closedRow (ss_id session) reason (sd_now s)) (sd_sessions s)"
      "sd_audit (fst (closeSshSessionRow session reason s)) = sd_audit s @ [closedEvent session reason (sd_now s)]"
      "sd_ids (fst (closeSshSessionRow session reason s)) = sd_ids s"
      "sd_now (fst (closeSshSessionRow session reason s)) = sd_now s"
      "sd_pending (fst (closeSshSessionRow session reason s)) = sd_pending s"
      "sd_world (fst (closeSshSessionRow session reason s)) = sd_world s"
      "sd_minted (fst (closeSshSessionRow session reason s)) = sd_minted s"
      "sd_granted (fst (closeSshSessionRow session reason s)) = sd_granted s"
proof (cases "list_ex (\<lambda>r. ss_id r = ss_id session \<and> ss_status r = ''open'') (sd_sessions s)")
  case False
  then show thesis by (intro closed_before) (auto simp: closeSshSessionRow_def list_all_iff list_ex_iff)
next
  case True
  then obtain r where "r \<in> set (sd_sessions s)" "ss_id r = ss_id session" "ss_status r = ''open''" by (auto simp: list_ex_iff)
  then show thesis
    by (rule closes) (use True in \<open>simp_all add: closeSshSessionRow_def Let_def closedRow_def closedEvent_def fun_eq_iff\<close>)
qed

lemma closeRow_ok:
  assumes "sessionsOk p s" and "pendingOk p s (Closing session reason)"
  shows "sessionsOk p (fst (closeSshSessionRow session reason s))"
proof (rule closeRow_cases [of session reason s])
  fix r0
  let ?s = "fst (closeSshSessionRow session reason s)"
  let ?e = "closedEvent session reason (sd_now s)"
  assume c: "r0 \<in> set (sd_sessions s)" "ss_id r0 = ss_id session" "ss_status r0 = ''open''"
    "sd_sessions ?s = map (closedRow (ss_id session) reason (sd_now s)) (sd_sessions s)" "sd_audit ?s = sd_audit s @ [?e]"
    "sd_ids ?s = sd_ids s" "sd_now ?s = sd_now s" "sd_pending ?s = sd_pending s"
  have ev: "closings [?e] i = (if i = ss_id session then [?e] else [])" "openings [?e] i = []" for i
    by (auto simp: closedEvent_def)
  have none: "closings (sd_audit s) (ss_id session) = []" using assms(1) c(1-3) by (auto simp: sessionsOk_def lifeOk_def)
  have uniq: "r = r0" if "r \<in> set (sd_sessions s)" "ss_id r = ss_id session" for r
    using row_unique [OF assms(1) that(1) c(1)] that(2) c(2) by simp
  show "sessionsOk p ?s"
  proof (rule rewrite_ok [OF assms(1) c(4) _ c(6,7,8)])
    show "eventsOk ?s" using assms c(5,6) ev none by (auto simp: sessionsOk_def eventsOk_def)
  next
    fix r assume r: "r \<in> set (sd_sessions s)"
    have same: "sameSession r session" if "ss_id r = ss_id session" using assms(2) r that by (simp add: list_all_iff)
    have "closedEvent (closedRow i reason t r) = closedEvent r" "openedEvent (closedRow i reason t r) = openedEvent r" for i t
      by (simp_all add: closedRow_def closedEvent_def openedEvent_def fun_eq_iff)
    moreover have "closedEvent r = closedEvent session" if "ss_id r = ss_id session"
      using same [OF that] by (simp add: sameSession_def closedEvent_def fun_eq_iff)
    ultimately have "lifeOk (sd_audit ?s) (closedRow (ss_id session) reason (sd_now s) r)"
      using assms(1) r c(3,5) none ev uniq [OF r] by (auto simp: sessionsOk_def lifeOk_def closedRow_def)
    then show "stampOk p (sd_now s) r (ss_lastHeartbeatAt (closedRow (ss_id session) reason (sd_now s) r)) \<and>
        lifeOk (sd_audit ?s) (closedRow (ss_id session) reason (sd_now s) r)"
      using assms(1) r by (simp add: sessionsOk_def closedRow_def)
  qed (simp add: closedRow_def sameSession_def)
qed (use assms in simp)

section \<open>Reads\<close>

lemma findSession_Some: "findSession i s = Some r \<Longrightarrow> r \<in> set (sd_sessions s) \<and> ss_id r = i"
  by (auto simp: findSession_def find_Some_iff)

lemma row_closing_ok:
  assumes "sessionsOk p s" and "r \<in> set (sd_sessions s)"
  shows "pendingOk p s (Closing r reason)"
proof -
  have "r' = r" if "r' \<in> set (sd_sessions s)" "ss_id r' = ss_id r" for r'
    using row_unique [OF assms(1) that(1) assms(2) that(2)] .
  then show ?thesis using assms by (auto simp: sessionsOk_def list_all_iff sameSession_def)
qed

lemma beat_pending_ok:
  assumes "sessionsOk p s" and "a \<in> set (fst (heartbeatSshSession p i attached s))"
  shows "pendingOk p s a"
proof -
  obtain r where r: "findSession i s = Some r" using assms(2) by (auto simp: heartbeatSshSession_def split: option.splits)
  have row: "r \<in> set (sd_sessions s)" "ss_id r = i" using findSession_Some [OF r] by simp_all
  have uniq: "r' = r" if "r' \<in> set (sd_sessions s)" "ss_id r' = i" for r'
    using row_unique [OF assms(1) that(1) row(1)] that(2) row(2) by simp
  have "(\<exists>reason. a = Closing r reason) \<or>
      a = Renewing i (sd_now s) (attached \<and> ss_attachedAt r = None) \<and> sd_now s < ss_openedAt r + sp_maxSessionSeconds p * 1000"
    using assms(2) r by (auto simp: heartbeatSshSession_def split: option.splits if_splits)
  moreover have "ss_openedAt r \<le> sd_now s" and "i \<in> set (sd_ids s)" using assms(1) row by (auto simp: sessionsOk_def stampOk_def)
  ultimately show ?thesis
    using row_closing_ok [OF assms(1) row(1)] uniq by (auto simp: list_all_iff stampOk_def simp del: pendingOk.simps(1))
qed

lemma close_pending_ok: "sessionsOk p s \<Longrightarrow> a \<in> set (closeSshSession i reason s) \<Longrightarrow> pendingOk p s a"
  using findSession_Some [of i s] row_closing_ok [of p s]
  by (auto simp: closeSshSession_def simp del: pendingOk.simps split: option.splits)

lemma sweep_pending_ok: "sessionsOk p s \<Longrightarrow> a \<in> set (sweepSshSessions p s) \<Longrightarrow> pendingOk p s a"
  by (auto simp: sweepSshSessions_def simp del: pendingOk.simps(1) dest!: in_set_takeD intro: row_closing_ok)

section \<open>Steps\<close>

lemma awaiting_ok:
  assumes "sessionsOk p s" and "\<And>a. a \<in> set pending \<Longrightarrow> pendingOk p s a"
  shows "sessionsOk p (awaiting pending s)"
  using assms by (intro quiet_ok [OF assms(1)]) (auto simp: awaiting_def quiet_def intro: exI [of _ "\<lambda>_. True"])

lemma called_pendings:
  "openSshSession p line ip s = Inr a \<Longrightarrow> \<exists>identity em. a = Opening identity em ip"
  "mintSshCertificate p w u em ag source s = Inr a \<Longrightarrow> \<exists>m. a = Minting m"
  "createSshKey p actor name line s = Inr a \<Longrightarrow> \<exists>raw. a = Registering actor name raw"
  "deleteSshKey actor i s = Inr a \<Longrightarrow> \<exists>k. a = Unregistering actor k"
  by (auto simp: openSshSession_def mintSshCertificate_def createSshKey_def deleteSshKey_def try_then_def
      split: sum.splits option.splits if_splits)

lemma awaitingIf_ok:
  assumes "sessionsOk p s" and "\<And>a. r = Inr a \<Longrightarrow> pendingOk p s a"
  shows "sessionsOk p (awaitingIf r s)"
  using assms by (auto simp: awaitingIf_def intro: awaiting_ok split: sum.split)

lemma resume_ok:
  assumes "sessionsOk p s" and "pendingOk p s a" and "0 < sp_maxSessionSeconds p"
  shows "sessionsOk p (resume p a newId random nonce s)"
proof (cases a)
  case (Opening identity em ip)
  then show ?thesis using openRow_ok [OF assms(1,3)] by simp
next
  case (Renewing i stamp attach)
  then show ?thesis using renewRow_ok assms by (simp del: pendingOk.simps)
next
  case (Closing r reason)
  then show ?thesis using closeRow_ok assms by (simp del: pendingOk.simps)
next
  case (Minting m)
  then show ?thesis using quiet_ok [OF assms(1)] mintIssue_quiet [of s p m random nonce] by simp
next
  case (Registering actor name raw)
  then show ?thesis using quiet_ok [OF assms(1)] createKeyRow_quiet [of s p actor name raw newId] by simp
next
  case (Unregistering actor k)
  then show ?thesis using quiet_ok [OF assms(1)] deleteKeyRow_quiet [of s actor k] by simp
qed (use quiet_ok [OF assms(1)] pruneMints_quiet [of s] in simp)

lemma step_ok:
  assumes "sessionsOk p s" and "0 < sp_maxSessionSeconds p"
  shows "sessionsOk p (sshStep p s call)"
proof (cases call)
  case (Resumed k newId random nonce)
  show ?thesis
  proof (cases "k < length (sd_pending s)")
    case True
    let ?s = "s\<lparr>sd_pending := take k (sd_pending s) @ drop (Suc k) (sd_pending s)\<rparr>"
    have "quiet s ?s" by (auto simp: quiet_def intro: exI [of _ "\<lambda>_. True"])
    moreover have "pendingOk p s (sd_pending s ! k)" using assms(1) True by (auto simp: sessionsOk_def)
    moreover have "\<forall>a\<in>set (sd_pending ?s). a \<in> set (sd_pending s) \<or> pendingOk p s a"
      using set_take_subset [of k] set_drop_subset [of "Suc k"] by fastforce
    ultimately show ?thesis
      using resume_ok [OF quiet_ok [OF assms(1)] quiet_pending assms(2)] True Resumed by simp
  qed (use assms Resumed in simp)
next
  case (TimePasses ms)
  have "quiet s (sshStep p s call)" using TimePasses by (auto simp: quiet_def intro: exI [of _ "\<lambda>_. True"])
  then show ?thesis using quiet_ok [OF assms(1)] TimePasses by simp
next
  case (WorldChanges world sandboxes)
  have "quiet s (sshStep p s call)" using WorldChanges by (auto simp: quiet_def)
  then show ?thesis using quiet_ok [OF assms(1)] WorldChanges by simp
next
  case (BeatCalled i attached)
  then show ?thesis using awaiting_ok [OF assms(1)] beat_pending_ok [OF assms(1)] by simp
next
  case (CloseCalled i reason)
  then show ?thesis using awaiting_ok [OF assms(1)] close_pending_ok [OF assms(1)] by simp
next
  case SweepCalled
  then show ?thesis using awaiting_ok [OF assms(1)] sweep_pending_ok [OF assms(1)] by simp
next
  case (MintCalled w u em a source)
  then show ?thesis by simp (rule awaitingIf_ok [OF assms(1)], drule called_pendings, auto)
next
  case (OpenCalled line ip)
  then show ?thesis by simp (rule awaitingIf_ok [OF assms(1)], drule called_pendings, auto)
next
  case (RegisterCalled actor name line)
  then show ?thesis by simp (rule awaitingIf_ok [OF assms(1)], drule called_pendings, auto)
next
  case (UnregisterCalled actor i)
  then show ?thesis by simp (rule awaitingIf_ok [OF assms(1)], drule called_pendings, auto)
qed

lemma run_sessionsOk:
  assumes "0 < sp_maxSessionSeconds p"
  shows "sessionsOk p (sshRun p calls)"
proof (induction calls rule: rev_induct)
  case Nil
  show ?case by (simp add: sshRun_def emptySshDb_def sessionsOk_def eventsOk_def)
next
  case (snoc call calls)
  then show ?case using step_ok [OF _ assms] by (simp add: sshRun_def)
qed

end
