(* ===== verification/SshCodec.thy ===== *)
theory SshCodec
  imports SshGrant
begin

text \<open>
  What the readers and writers of certificates and grants do as a whole: each parser succeeds
  exactly on the bytes of a layout, the layouts are prefix-free, and what is minted has the
  layout of its options.
\<close>

section \<open>Writing\<close>

text \<open>A chain of writes succeeds exactly when each part fits, with the parts in order.\<close>

lemma writeAll_Inr:
  "writeAll [] = Inr b \<longleftrightarrow> b = []"
  "foldl try_then (Inr w) [] = Inr b \<longleftrightarrow> b = w"
  "foldl try_then (Inr w) (f # ops) = Inr b \<longleftrightarrow> (\<exists>v. f w = Inr v \<and> foldl try_then (Inr v) ops = Inr b)"
proof -
  have stuck: "foldl try_then (Inl e) ops = Inl e" for e ops by (induction ops) auto
  show "foldl try_then (Inr w) (f # ops) = Inr b \<longleftrightarrow> (\<exists>v. f w = Inr v \<and> foldl try_then (Inr v) ops = Inr b)"
    by (cases "f w") (auto simp: stuck)
qed (auto simp: writeAll_def)

lemma write_Inr:
  "writeString x w = Inr v \<longleftrightarrow> shortBuffer x \<and> v = w @ putString x"
  "writeUint32 n w = Inr v \<longleftrightarrow> 0 \<le> n \<and> n \<le> 0xffffffff \<and> v = w @ beBytes 4 n"
  "writeUint64 n w = Inr v \<longleftrightarrow> 0 \<le> n \<and> n \<le> 0xffffffffffffffff \<and> v = w @ beBytes 8 n"
  "writeBytes x w = Inr v \<longleftrightarrow> v = w @ x"
  "writeResult r w = Inr v \<longleftrightarrow> (\<exists>x. r = Inr x \<and> shortBuffer x \<and> v = w @ putString x)"
  by (auto simp: write_simps writeBytes_def writeResult_def try_then_Inr)

lemmas writing = writeAll_def writeAll_Inr(2,3) write_Inr try_then_Inr ensure_Inr

text \<open>The grant's signed bytes.\<close>

definition grantBytes :: "ssh_session_grant \<Rightarrow> buffer" where
  "grantBytes grant =
     putString (textBytes GRANT_MAGIC) @ putString (textBytes (sgr_sessionId grant)) @
     putString (textBytes (sgr_agentId grant)) @ putString (textBytes (sgr_sandboxId grant)) @
     putString (textBytes (sgr_workspaceId grant)) @ beBytes 8 (sgr_expiresAt grant)"

definition grantFits :: "ssh_session_grant \<Rightarrow> bool" where
  "grantFits grant =
     (list_all (\<lambda>t. shortBuffer (textBytes t))
        [sgr_sessionId grant, sgr_agentId grant, sgr_sandboxId grant, sgr_workspaceId grant] \<and>
      0 \<le> sgr_expiresAt grant \<and> sgr_expiresAt grant \<le> 0xffffffffffffffff)"

definition grantTexts :: "ssh_session_grant \<Rightarrow> bool" where
  "grantTexts grant =
     list_all wellFormed [sgr_sessionId grant, sgr_agentId grant, sgr_sandboxId grant, sgr_workspaceId grant]"

lemma short_constants: "shortBuffer (textBytes GRANT_MAGIC)" "shortBuffer (textBytes ED25519_KEY_TYPE)"
  "shortBuffer (textBytes ED25519_CERT_TYPE)"
  by (simp_all add: shortBuffer_def GRANT_MAGIC_def ED25519_KEY_TYPE_def ED25519_CERT_TYPE_def)

lemma grantTbs_Inr: "grantTbs grant = Inr tbs \<longleftrightarrow> grantFits grant \<and> tbs = grantBytes grant"
  by (auto simp: grantTbs_def writing grantFits_def grantBytes_def short_constants)

lemma check_then:
  "try_then (ensure ok e) f = Inr y \<longleftrightarrow> ok \<and> f () = Inr y"
  "try_then (expectEnd (cursor pre post)) g = Inr y \<longleftrightarrow> post = [] \<and> g () = Inr y"
  by (auto simp: ensure_def expectEnd_def remaining_rest)

lemmas read_back = newReader_cursor str.get_cursor str.get_last u32.get_cursor u64.get_cursor u64.get_last
  expectEnd_cursor ensure_def

lemmas reading = newReader_cursor str.get_then u32.get_then u64.get_then check_then

lemma readGrant_Inr:
  "readGrant blob = Inr (grant, tbs, signature) \<longleftrightarrow>
     (\<exists>g1 g2 g3 g4 e. tbs = putString (textBytes GRANT_MAGIC) @ putString g1 @ putString g2 @ putString g3 @ putString g4 @ beBytes 8 e \<and>
        blob = tbs @ putString signature \<and> list_all shortBuffer [g1, g2, g3, g4, signature] \<and>
        0 \<le> e \<and> e \<le> 0xffffffffffffffff \<and>
        grant = \<lparr>sgr_sessionId = bufferText g1, sgr_agentId = bufferText g2, sgr_sandboxId = bufferText g3,
          sgr_workspaceId = bufferText g4, sgr_expiresAt = e\<rparr>)"
proof -
  have magic: "bufferText b = GRANT_MAGIC \<longleftrightarrow> b = textBytes GRANT_MAGIC" for b
    by (rule bufferText_ascii) (simp add: GRANT_MAGIC_def)
  show ?thesis (is "_ \<longleftrightarrow> ?rhs")
  proof
    assume "readGrant blob = Inr (grant, tbs, signature)"
    then show ?rhs by (auto simp: readGrant_def reading magic) blast
  next
    assume ?rhs
    then show "readGrant blob = Inr (grant, tbs, signature)"
      by (auto simp: readGrant_def read_back magic short_constants)
  qed
qed

text \<open>A key verifies only messages from \<^term>\<open>msgs\<close>.\<close>

definition signs_only :: "verifier \<Rightarrow> buffer \<Rightarrow> buffer set \<Rightarrow> bool" where
  "signs_only verify key msgs \<longleftrightarrow>
     (\<forall>m s. ed25519Verify verify key m s \<longrightarrow> m \<in> msgs)"

lemma grant_fields_unique:
  assumes "grantFits g" and "list_all shortBuffer [s1, s2, s3, s4]" and "0 \<le> e" and "e \<le> 0xffffffffffffffff"
    and "putString (textBytes GRANT_MAGIC) @ putString s1 @ putString s2 @ putString s3 @ putString s4 @ beBytes 8 e = grantBytes g"
  shows "s1 = textBytes (sgr_sessionId g) \<and> s2 = textBytes (sgr_agentId g) \<and> s3 = textBytes (sgr_sandboxId g) \<and>
         s4 = textBytes (sgr_workspaceId g) \<and> e = sgr_expiresAt g"
proof -
  have tail: "beBytes 8 e = beBytes 8 (sgr_expiresAt g) \<Longrightarrow> e = sgr_expiresAt g"
    using u64.put_unique [of e "sgr_expiresAt g" "[]" "[]"] assms(1,3,4) by (simp add: grantFits_def)
  show ?thesis
    using assms tail by (auto simp: grantBytes_def grantFits_def dest!: str.put_unique [rotated 2])
qed


section \<open>The layout of a certificate\<close>

record cert_layout =
  cl_nonce :: buffer
  cl_key :: buffer
  cl_serial :: int
  cl_type :: int
  cl_keyId :: buffer
  cl_principals :: "buffer list"
  cl_after :: int
  cl_before :: int
  cl_options :: "buffer list"
  cl_extensions :: "buffer list"
  cl_reserved :: buffer
  cl_caKey :: buffer

definition layoutBytes :: "cert_layout \<Rightarrow> buffer" where
  "layoutBytes c =
     putString (textBytes ED25519_CERT_TYPE) @ putString (cl_nonce c) @ putString (cl_key c) @
     beBytes 8 (cl_serial c) @ beBytes 4 (cl_type c) @ putString (cl_keyId c) @
     putString (packStrings (cl_principals c)) @ beBytes 8 (cl_after c) @ beBytes 8 (cl_before c) @
     putString (packStrings (cl_options c)) @ putString (packStrings (cl_extensions c)) @
     putString (cl_reserved c) @ putString (cl_caKey c)"

definition layoutFits :: "cert_layout \<Rightarrow> bool" where
  "layoutFits c \<longleftrightarrow>
     list_all shortBuffer ([cl_nonce c, cl_keyId c, cl_reserved c, cl_caKey c] @
       map packStrings [cl_principals c, cl_options c, cl_extensions c] @
       cl_principals c @ cl_options c @ cl_extensions c) \<and>
     length (cl_key c) = 32 \<and> even (length (cl_options c)) \<and> even (length (cl_extensions c)) \<and>
     list_all (\<lambda>n. 0 \<le> n \<and> n \<le> 0xffffffffffffffff) [cl_serial c, cl_after c, cl_before c] \<and>
     0 \<le> cl_type c \<and> cl_type c \<le> 0xffffffff"

definition signatureBytes :: "buffer \<Rightarrow> buffer" where
  "signatureBytes sig = putString (textBytes ''ssh-ed25519'') @ putString sig"

definition layoutCert :: "cert_layout \<Rightarrow> buffer \<Rightarrow> ssh_certificate" where
  "layoutCert c sig =
     \<lparr>cert_publicKey = cl_key c, cert_serial = cl_serial c, cert_certType = cl_type c,
      cert_keyId = bufferText (cl_keyId c), cert_principals = map bufferText (cl_principals c),
      cert_validAfter = cl_after c, cert_validBefore = cl_before c,
      cert_criticalOptions = pairFields (cl_options c), cert_extensions = pairFields (cl_extensions c),
      cert_signatureKey = cl_caKey c, cert_signature = sig, cert_tbs = layoutBytes c,
      cert_raw = layoutBytes c @ putString (signatureBytes sig)\<rparr>"

lemma key_type_text:
  "bufferText b = ED25519_CERT_TYPE \<longleftrightarrow> b = textBytes ED25519_CERT_TYPE"
  "bufferText b = ED25519_KEY_TYPE \<longleftrightarrow> b = textBytes ED25519_KEY_TYPE"
  "bufferText b = ''ssh-ed25519'' \<longleftrightarrow> b = textBytes ''ssh-ed25519''"
  "bufferText b = GRANT_MAGIC \<longleftrightarrow> b = textBytes GRANT_MAGIC"
  by (rule bufferText_ascii; simp add: ED25519_CERT_TYPE_def ED25519_KEY_TYPE_def GRANT_MAGIC_def)+

lemma readSignature_Inr: "readSignature b = Inr sig \<longleftrightarrow> shortBuffer sig \<and> b = signatureBytes sig"
proof
  assume "readSignature b = Inr sig"
  then show "shortBuffer sig \<and> b = signatureBytes sig"
    by (auto simp: readSignature_def reading key_type_text signatureBytes_def)
next
  assume "shortBuffer sig \<and> b = signatureBytes sig"
  then show "readSignature b = Inr sig"
    by (auto simp: readSignature_def signatureBytes_def read_back key_type_text shortBuffer_def)
qed

lemma unpackFields_Inr:
  "unpackFields b = Inr fs \<longleftrightarrow>
     (\<exists>parts. b = packStrings parts \<and> list_all shortBuffer parts \<and> even (length parts) \<and> fs = pairFields parts)"
  by (auto simp: unpackFields_def try_then_Inr ensure_Inr readPackedStrings_iff even_iff_mod_2_eq_zero)

lemma short_key: "length k = 32 \<Longrightarrow> shortBuffer k"
  by (simp add: shortBuffer_def)

lemma parse_layout:
  assumes "layoutFits c" and "shortBuffer sig" and "shortBuffer (signatureBytes sig)"
  shows "parseCertificateBlob (layoutBytes c @ putString (signatureBytes sig)) = Inr (layoutCert c sig)"
proof -
  have parts: "readPackedStrings (packStrings (cl_principals c)) = Inr (cl_principals c)"
    "unpackFields (packStrings (cl_options c)) = Inr (pairFields (cl_options c))"
    "unpackFields (packStrings (cl_extensions c)) = Inr (pairFields (cl_extensions c))"
    "readSignature (signatureBytes sig) = Inr sig"
    using assms(1,2) by (auto simp: readPackedStrings_iff unpackFields_Inr readSignature_Inr layoutFits_def)
  show ?thesis
    using assms short_key [of "cl_key c"] unfolding parseCertificateBlob_def layoutBytes_def layoutFits_def
    by (simp add: read_back parts key_type_text short_constants layoutCert_def layoutBytes_def)
qed

lemma unpack_then:
  "try_then (readPackedStrings b) f = Inr y \<longleftrightarrow> (\<exists>ss. b = packStrings ss \<and> list_all shortBuffer ss \<and> f ss = Inr y)"
  "try_then (unpackFields b) g = Inr y \<longleftrightarrow>
     (\<exists>ss. b = packStrings ss \<and> list_all shortBuffer ss \<and> even (length ss) \<and> g (pairFields ss) = Inr y)"
  "try_then (readSignature b) h = Inr y \<longleftrightarrow> (\<exists>sig. b = signatureBytes sig \<and> shortBuffer sig \<and> h sig = Inr y)"
  by (auto simp: try_then_Inr readPackedStrings_iff unpackFields_Inr readSignature_Inr)

lemma layoutI:
  assumes "cert = \<lparr>cert_publicKey = k, cert_serial = s, cert_certType = t, cert_keyId = bufferText i,
      cert_principals = map bufferText p, cert_validAfter = a, cert_validBefore = b,
      cert_criticalOptions = pairFields os, cert_extensions = pairFields es,
      cert_signatureKey = ca, cert_signature = sig, cert_tbs = tbs, cert_raw = raw\<rparr>"
    and "raw = putString (textBytes ED25519_CERT_TYPE) @ putString n @ putString k @ beBytes 8 s @ beBytes 4 t @
      putString i @ putString (packStrings p) @ beBytes 8 a @ beBytes 8 b @ putString (packStrings os) @
      putString (packStrings es) @ putString r @ putString ca @ putString (signatureBytes sig)"
    and "raw = tbs @ putString (signatureBytes sig)"
    and "shortBuffer (signatureBytes sig)"
    and "list_all shortBuffer ([n, i, r, ca] @ map packStrings [p, os, es])" and "list_all (list_all shortBuffer) [p, os, es]"
    and "length k = 32" and "even (length os) \<and> even (length es)"
    and "list_all (\<lambda>n. 0 \<le> n \<and> n \<le> 0xffffffffffffffff) [s, a, b]" and "0 \<le> t \<and> t \<le> 0xffffffff"
  shows "\<exists>sig c. layoutFits c \<and> cert = layoutCert c sig \<and> shortBuffer (signatureBytes sig)"
  using assms
  by (intro exI [of _ sig] exI [of _ "\<lparr>cl_nonce = n, cl_key = k, cl_serial = s, cl_type = t, cl_keyId = i, cl_principals = p,
       cl_after = a, cl_before = b, cl_options = os, cl_extensions = es, cl_reserved = r, cl_caKey = ca\<rparr>"])
    (simp add: layoutFits_def layoutCert_def layoutBytes_def)

lemma layout_parse:
  assumes "parseCertificateBlob blob = Inr cert"
  shows "\<exists>c sig. layoutFits c \<and> cert = layoutCert c sig \<and> blob = cert_raw cert \<and> shortBuffer (signatureBytes sig)"
proof -
  have raw: "cert_raw cert = blob"
    using assms by (auto simp: parseCertificateBlob_def reading unpack_then)
  have "\<exists>sig c. layoutFits c \<and> cert = layoutCert c sig \<and> shortBuffer (signatureBytes sig)"
    using assms unfolding parseCertificateBlob_def
    apply (simp only: reading unpack_then key_type_text prod.case)
    apply (elim exE conjE)
    apply hypsubst
    apply (simp only: append_assoc append_Nil append_Nil2 sum.inject)
    apply (rule layoutI)
    apply (erule sym)
    apply (rule refl)
    apply simp_all
    done
  then show ?thesis using raw by blast
qed

definition keyBytes :: "buffer \<Rightarrow> buffer" where
  "keyBytes raw = putString (textBytes ED25519_KEY_TYPE) @ putString raw"

lemma ed25519KeyBlob_Inr: "ed25519KeyBlob raw = Inr blob \<longleftrightarrow> length raw = 32 \<and> blob = keyBytes raw"
  by (auto simp: ed25519KeyBlob_def ED25519_RAW_KEY_LENGTH_def writing keyBytes_def short_constants short_key)

lemma parseEd25519KeyBlob_Inr: "parseEd25519KeyBlob blob = Inr raw \<longleftrightarrow> length raw = 32 \<and> blob = keyBytes raw"
proof
  assume "parseEd25519KeyBlob blob = Inr raw"
  then show "length raw = 32 \<and> blob = keyBytes raw"
    by (auto simp: parseEd25519KeyBlob_def reading key_type_text keyBytes_def ED25519_RAW_KEY_LENGTH_def)
next
  assume "length raw = 32 \<and> blob = keyBytes raw"
  then show "parseEd25519KeyBlob blob = Inr raw"
    by (auto simp: parseEd25519KeyBlob_def read_back key_type_text keyBytes_def ED25519_RAW_KEY_LENGTH_def
        short_constants short_key)
qed

text \<open>The raw key and the structure handed to the runtime carry the same bytes, both ways.\<close>

lemma spki_round_trip: "spkiToEd25519Raw der = Inr raw \<longleftrightarrow> length raw = 32 \<and> der = publicKeyObjectFromRaw raw"
proof
  let ?n = "length ED25519_SPKI_PREFIX"
  assume "spkiToEd25519Raw der = Inr raw"
  then have d: "take ?n der = ED25519_SPKI_PREFIX" "raw = drop ?n der" "length der = ?n + 32"
    by (auto simp: spkiToEd25519Raw_def ED25519_RAW_KEY_LENGTH_def split: if_splits)
  have "der = take ?n der @ drop ?n der" by simp
  then show "length raw = 32 \<and> der = publicKeyObjectFromRaw raw"
    unfolding publicKeyObjectFromRaw_def d(1) using d(2,3) by simp
next
  assume "length raw = 32 \<and> der = publicKeyObjectFromRaw raw"
  then show "spkiToEd25519Raw der = Inr raw"
    by (simp add: spkiToEd25519Raw_def publicKeyObjectFromRaw_def ED25519_RAW_KEY_LENGTH_def)
qed

lemma pem_signer:
  assumes "ed25519SignerFromPrivateKeyPem createPrivateKey pem = Inr signer"
  shows "\<exists>key. createPrivateKey pem = Inr key \<and> length (sg_publicKey signer) = 32 \<and>
           publicKeyObjectFromRaw (sg_publicKey signer) = pk_spki key \<and> sg_sign signer = pk_sign key"
  using assms by (auto simp: ed25519SignerFromPrivateKeyPem_def try_then_Inr spki_round_trip)

lemma userKey_length: "userKey opts = Inr k \<Longrightarrow> length k = 32"
  by (auto simp: userKey_def parseEd25519KeyBlob_Inr split: if_splits)

section \<open>The layout of a minted certificate\<close>

definition mintedLayout :: "build_options \<Rightarrow> buffer \<Rightarrow> buffer \<Rightarrow> buffer \<Rightarrow> buffer \<Rightarrow> cert_layout" where
  "mintedLayout opts random nonce ca k =
     \<lparr>cl_nonce = nonce, cl_key = k, cl_serial = certSerial opts random, cl_type = SSH_CERT_TYPE_USER,
      cl_keyId = textBytes (bo_keyId opts), cl_principals = [textBytes (bo_principal opts)],
      cl_after = bo_validAfter opts div 1000, cl_before = bo_validBefore opts div 1000, cl_options = [],
      cl_extensions =
        [textBytes CERT_EXT_PERMIT_PTY, [],
         textBytes CERT_EXT_SANDBOX_ID, putString (textBytes (bo_sandboxId opts)),
         textBytes CERT_EXT_USER_ID, putString (textBytes (bo_userId opts)),
         textBytes CERT_EXT_WORKSPACE_ID, putString (textBytes (bo_workspaceId opts))],
      cl_reserved = [], cl_caKey = keyBytes ca\<rparr>"

lemma packedValue_Inr: "packedValue v = Inr b \<longleftrightarrow> shortBuffer (textBytes v) \<and> b = putString (textBytes v)"
  by (auto simp: packedValue_def writing)

lemma extension_names:
  "CERT_EXT_PERMIT_PTY < CERT_EXT_SANDBOX_ID" "CERT_EXT_SANDBOX_ID < CERT_EXT_USER_ID"
  "CERT_EXT_USER_ID < CERT_EXT_WORKSPACE_ID"
  by code_simp+

lemma certExtensions_Inr:
  "certExtensions opts = Inr es \<longleftrightarrow>
     list_all (\<lambda>t. shortBuffer (textBytes t)) [bo_sandboxId opts, bo_userId opts, bo_workspaceId opts] \<and>
     es = [\<lparr>cf_name = CERT_EXT_PERMIT_PTY, cf_data = []\<rparr>,
           \<lparr>cf_name = CERT_EXT_SANDBOX_ID, cf_data = putString (textBytes (bo_sandboxId opts))\<rparr>,
           \<lparr>cf_name = CERT_EXT_USER_ID, cf_data = putString (textBytes (bo_userId opts))\<rparr>,
           \<lparr>cf_name = CERT_EXT_WORKSPACE_ID, cf_data = putString (textBytes (bo_workspaceId opts))\<rparr>]"
proof -
  have "sorted (map cf_name [\<lparr>cf_name = CERT_EXT_PERMIT_PTY, cf_data = a\<rparr>, \<lparr>cf_name = CERT_EXT_SANDBOX_ID, cf_data = b\<rparr>,
      \<lparr>cf_name = CERT_EXT_USER_ID, cf_data = c\<rparr>, \<lparr>cf_name = CERT_EXT_WORKSPACE_ID, cf_data = d\<rparr>])" for a b c d
    unfolding sorted2_simps list.map ssh_certificate_field.simps using extension_names [THEN less_imp_le] by simp
  note sorted = this [THEN sort_key_id_if_sorted]
  show ?thesis unfolding certExtensions_def sorted by (auto simp: packedValue_Inr try_then_Inr)
qed

lemma certTbs_minted:
  assumes "certTbs opts random nonce ca = Inr tbs"
  shows "\<exists>k. userKey opts = Inr k \<and> layoutFits (mintedLayout opts random nonce ca k) \<and>
           tbs = layoutBytes (mintedLayout opts random nonce ca k)"
  and "length ca = 32 \<and> bo_principal opts \<noteq> [] \<and> bo_validAfter opts div 1000 < bo_validBefore opts div 1000"
proof -
  have c: "length (keyBytes ca) = 51" if "length ca = 32"
    using that by (simp add: keyBytes_def putString_def ED25519_KEY_TYPE_def)
  show "\<exists>k. userKey opts = Inr k \<and> layoutFits (mintedLayout opts random nonce ca k) \<and>
           tbs = layoutBytes (mintedLayout opts random nonce ca k)"
    using assms
    by (auto simp: certTbs_def Let_def writing certExtensions_Inr ed25519KeyBlob_Inr packFields_def
        layoutFits_def layoutBytes_def mintedLayout_def packStrings_def SSH_CERT_TYPE_USER_def userKey_length)
  show "length ca = 32 \<and> bo_principal opts \<noteq> [] \<and> bo_validAfter opts div 1000 < bo_validBefore opts div 1000"
    using assms by (auto simp: certTbs_def Let_def try_then_Inr ensure_Inr ed25519KeyBlob_Inr)
qed

lemma packStrings_inj:
  "list_all shortBuffer ss \<Longrightarrow> list_all shortBuffer ts \<Longrightarrow> packStrings ss = packStrings ts \<Longrightarrow> ss = ts"
  using readPackedStrings_iff [of "packStrings ss" ss] readPackedStrings_iff [of "packStrings ss" ts] by simp


lemma layoutBytes_prefix:
  assumes "layoutFits c" and "layoutFits d" and "layoutBytes c @ xs = layoutBytes d @ ys"
  shows "c = d \<and> xs = ys"
proof -
  have "shortBuffer (cl_key c)" "shortBuffer (cl_key d)" using assms(1,2) short_key by (auto simp: layoutFits_def)
  then show ?thesis
    using assms
    by (auto simp: layoutFits_def layoutBytes_def intro!: cert_layout.equality
        dest!: str.put_unique [rotated 2] u32.put_unique [rotated 2] u64.put_unique [rotated 2] dest: packStrings_inj)
qed

section \<open>Minted certificates\<close>

definition certTexts :: "build_options \<Rightarrow> bool" where
  "certTexts opts =
     list_all wellFormed [bo_keyId opts, bo_principal opts, bo_sandboxId opts, bo_userId opts, bo_workspaceId opts]"

text \<open>What a certificate says of its holder is what the options asked for.\<close>

definition certStates :: "ssh_certificate \<Rightarrow> build_options \<Rightarrow> bool" where
  "certStates cert opts \<longleftrightarrow>
     userKey opts = Inr (cert_publicKey cert) \<and> cert_certType cert = SSH_CERT_TYPE_USER \<and>
     cert_keyId cert = bo_keyId opts \<and> cert_principals cert = [bo_principal opts] \<and>
     cert_validAfter cert = bo_validAfter opts div 1000 \<and> cert_validBefore cert = bo_validBefore opts div 1000 \<and>
     cert_criticalOptions cert = [] \<and>
     getExtensionValue cert CERT_EXT_SANDBOX_ID = Inr (Some (bo_sandboxId opts)) \<and>
     getExtensionValue cert CERT_EXT_USER_ID = Inr (Some (bo_userId opts)) \<and>
     getExtensionValue cert CERT_EXT_WORKSPACE_ID = Inr (Some (bo_workspaceId opts)) \<and>
     getExtensionValue cert CERT_EXT_PERMIT_PTY \<noteq> Inr None"

lemma unpackValue_put: "shortBuffer (textBytes v) \<Longrightarrow> wellFormed v \<Longrightarrow> unpackValue (putString (textBytes v)) = Inr v"
  by (simp add: unpackValue_def read_back wellFormed_def)

lemma extension_texts:
  "bufferText (textBytes CERT_EXT_PERMIT_PTY) = CERT_EXT_PERMIT_PTY"
  "bufferText (textBytes CERT_EXT_SANDBOX_ID) = CERT_EXT_SANDBOX_ID"
  "bufferText (textBytes CERT_EXT_USER_ID) = CERT_EXT_USER_ID"
  "bufferText (textBytes CERT_EXT_WORKSPACE_ID) = CERT_EXT_WORKSPACE_ID"
  by (simp_all add: bufferText_ascii CERT_EXT_PERMIT_PTY_def CERT_EXT_SANDBOX_ID_def CERT_EXT_USER_ID_def
      CERT_EXT_WORKSPACE_ID_def)

lemma short_inside: "shortBuffer (putString b) \<Longrightarrow> shortBuffer b"
  by (simp add: shortBuffer_def putString_def)

lemma unpackValue_empty: "unpackValue [] = Inl TruncatedLength"
  by (simp add: unpackValue_def readString_def newReader_def remaining_def)

lemma minted_states:
  assumes "userKey opts = Inr k" and "layoutFits (mintedLayout opts random nonce ca k)" and "certTexts opts"
  shows "certStates (layoutCert (mintedLayout opts random nonce ca k) sig) opts"
proof -
  have "shortBuffer (textBytes (bo_sandboxId opts))" "shortBuffer (textBytes (bo_userId opts))"
    "shortBuffer (textBytes (bo_workspaceId opts))"
    using assms(2) short_inside by (auto simp: layoutFits_def mintedLayout_def)
  moreover note extension_names [THEN less_imp_neq] extension_names [THEN less_imp_neq, symmetric]
    less_trans [OF extension_names(1,2), THEN less_imp_neq] less_trans [OF extension_names(2,3), THEN less_imp_neq]
    less_trans [OF extension_names(1) less_trans [OF extension_names(2,3)], THEN less_imp_neq]
  ultimately show ?thesis
    using assms(1,3)
    by (simp add: certStates_def layoutCert_def mintedLayout_def getExtensionValue_def extension_texts
        unpackValue_put unpackValue_empty certTexts_def) (simp add: wellFormed_def)
qed

lemma build_minted:
  assumes "buildUserCertificate toBase64 random nonce opts signer = Inr built"
  shows "\<exists>k. userKey opts = Inr k \<and> layoutFits (mintedLayout opts random nonce (sg_publicKey signer) k) \<and>
           length (sg_sign signer (layoutBytes (mintedLayout opts random nonce (sg_publicKey signer) k))) = 64 \<and>
           bc_blob built = cert_raw (layoutCert (mintedLayout opts random nonce (sg_publicKey signer) k)
             (sg_sign signer (layoutBytes (mintedLayout opts random nonce (sg_publicKey signer) k)))) \<and>
           bc_line built = ED25519_CERT_TYPE @ '' '' @ toBase64 (bc_blob built) \<and>
           certTbs opts random nonce (sg_publicKey signer) =
             Inr (layoutBytes (mintedLayout opts random nonce (sg_publicKey signer) k)) \<and>
           bc_serial built = certSerial opts random"
proof -
  obtain tbs where tbs: "certTbs opts random nonce (sg_publicKey signer) = Inr tbs"
    using assms by (auto simp: buildUserCertificate_def try_then_Inr)
  then obtain k where k: "userKey opts = Inr k" "layoutFits (mintedLayout opts random nonce (sg_publicKey signer) k)"
    "tbs = layoutBytes (mintedLayout opts random nonce (sg_publicKey signer) k)"
    using certTbs_minted(1) by blast
  then show ?thesis
    using assms tbs
    by (auto simp: buildUserCertificate_def Let_def writing ED25519_SIGNATURE_LENGTH_def layoutCert_def signatureBytes_def)
qed

lemma short_signature: "length sig = 64 \<Longrightarrow> shortBuffer sig \<and> shortBuffer (signatureBytes sig)"
  by (simp add: shortBuffer_def signatureBytes_def putString_def)

lemma build_parses:
  assumes "buildUserCertificate toBase64 random nonce opts signer = Inr built" and "certTexts opts"
  shows "\<exists>cert. parseCertificateBlob (bc_blob built) = Inr cert \<and> certStates cert opts \<and>
           cert_serial cert = bc_serial built \<and> cert_raw cert = bc_blob built \<and> length (cert_signature cert) = 64 \<and>
           cert_signatureKey cert = keyBytes (sg_publicKey signer) \<and> cert_signature cert = sg_sign signer (cert_tbs cert) \<and>
           certTbs opts random nonce (sg_publicKey signer) = Inr (cert_tbs cert)"
proof -
  obtain c where c: "layoutFits c" "length (sg_sign signer (layoutBytes c)) = 64"
    "certStates (layoutCert c (sg_sign signer (layoutBytes c))) opts"
    "bc_blob built = cert_raw (layoutCert c (sg_sign signer (layoutBytes c)))"
    "certTbs opts random nonce (sg_publicKey signer) = Inr (layoutBytes c)"
    "bc_serial built = cl_serial c" "cl_caKey c = keyBytes (sg_publicKey signer)"
    using build_minted [OF assms(1)] minted_states [OF _ _ assms(2)] by (fastforce simp: mintedLayout_def)
  have "parseCertificateBlob (bc_blob built) = Inr (layoutCert c (sg_sign signer (layoutBytes c)))"
    using parse_layout [OF c(1)] short_signature [OF c(2)] c(4) by (simp add: layoutCert_def)
  then show ?thesis using c by (intro exI [of _ "layoutCert c (sg_sign signer (layoutBytes c))"]) (simp add: layoutCert_def)
qed

lemma certTbs_succeeds:
  assumes "userKey opts = Inr k" and "layoutFits (mintedLayout opts random nonce ca k)" and "length ca = 32"
    and "bo_principal opts \<noteq> []" and "bo_validAfter opts div 1000 < bo_validBefore opts div 1000"
  shows "certTbs opts random nonce ca = Inr (layoutBytes (mintedLayout opts random nonce ca k))"
proof -
  have "shortBuffer (textBytes (bo_sandboxId opts))" "shortBuffer (textBytes (bo_userId opts))"
    "shortBuffer (textBytes (bo_workspaceId opts))" "shortBuffer k"
    using assms(2) short_inside short_key by (auto simp: layoutFits_def mintedLayout_def)
  then show ?thesis
    using assms
    by (simp add: certTbs_def writing certExtensions_Inr ed25519KeyBlob_Inr packFields_def)
       (simp add: layoutFits_def layoutBytes_def mintedLayout_def packStrings_def SSH_CERT_TYPE_USER_def
         short_constants)
qed

lemma build_succeeds:
  assumes "certTbs opts random nonce (sg_publicKey signer) = Inr tbs" and "length (sg_sign signer tbs) = 64"
  shows "\<exists>built. buildUserCertificate toBase64 random nonce opts signer = Inr built"
  using assms short_signature [OF assms(2)]
  by (auto simp: buildUserCertificate_def writing ED25519_SIGNATURE_LENGTH_def signatureBytes_def shortBuffer_def)


end
