(* ===== verification/SshTheorems.thy ===== *)
theory SshTheorems
  imports SshCodec
begin

text \<open>
  What the SSH certificates and grants promise: what is minted parses back and is accepted, what is
  accepted was minted, nothing signed for one purpose serves the other, and nothing is read
  past the end of a buffer.
\<close>

section \<open>Lemmas\<close>

lemma splitSpaces_two:
  assumes "list_all (\<lambda>c. \<not> is_space c) (a @ b)" and "a \<noteq> []" and "b \<noteq> []"
  shows "splitSpaces (js_trim (a @ '' '' @ b)) = [a, b]"
proof -
  have space: "is_space CHR '' ''" by (simp add: is_space_def)
  have a: "\<forall>c\<in>set a. \<not> is_space c" and b: "\<forall>c\<in>set b. \<not> is_space c" using assms(1) by (simp_all add: list_all_iff)
  have "dropWhile is_space (a @ '' '' @ b) = a @ '' '' @ b" using a assms(2) by (cases a) auto
  moreover have "dropWhile is_space (rev b @ '' '' @ rev a) = rev b @ '' '' @ rev a"
    using b assms(3) by (cases b rule: rev_cases) auto
  ultimately have trim: "js_trim (a @ '' '' @ b) = a @ '' '' @ b" by (simp add: js_trim_def)
  have one: "splitSpaces b = [b]" using b by (subst splitSpaces.simps) (simp add: Let_def)
  have "dropWhile is_space b = b" using b assms(3) by (cases b) auto
  then have "splitSpaces (a @ '' '' @ b) = [a, b]"
    using a space one by (subst splitSpaces.simps) (simp add: Let_def takeWhile_append2 dropWhile_append2)
  then show ?thesis by (simp only: trim)
qed

lemma mintedTbs_iff:
  assumes "layoutFits c" and "certTbs opts random nonce ca = Inr (layoutBytes c)"
  shows "\<exists>k. userKey opts = Inr k \<and> c = mintedLayout opts random nonce ca k"
  using certTbs_minted(1) [OF assms(2)] layoutBytes_prefix [of c _ "[]" "[]"] assms(1) by auto

lemma built_line:
  assumes "buildUserCertificate toBase64 random nonce opts signer = Inr built" and "certTexts opts"
    and "\<And>b. fromBase64 (toBase64 b) = b" and "\<And>b. list_all (\<lambda>c. \<not> is_space c) (toBase64 b)"
    and "\<And>b. b \<noteq> [] \<Longrightarrow> toBase64 b \<noteq> []"
  shows "parseCertificateLine fromBase64 (bc_line built) = parseCertificateBlob (bc_blob built)"
proof -
  obtain cert where c: "parseCertificateBlob (bc_blob built) = Inr cert" using build_parses [OF assms(1,2)] by blast
  have "bc_blob built \<noteq> []" using c by (auto simp: parseCertificateBlob_def newReader_def readString_def remaining_def)
  moreover have "bc_line built = ED25519_CERT_TYPE @ '' '' @ toBase64 (bc_blob built)" using build_minted [OF assms(1)] by blast
  moreover have "list_all (\<lambda>c. \<not> is_space c) ED25519_CERT_TYPE" "ED25519_CERT_TYPE \<noteq> []"
    by (simp_all add: ED25519_CERT_TYPE_def is_space_def)
  ultimately have "splitSpaces (js_trim (bc_line built)) = [ED25519_CERT_TYPE, toBase64 (bc_blob built)]"
    using splitSpaces_two assms(4,5) by simp
  then show ?thesis using assms(3) by (simp add: parseCertificateLine_def)
qed

text \<open>No signed text is both a certificate and a grant.\<close>

lemma layout_not_grant: "layoutBytes c \<noteq> putString (textBytes GRANT_MAGIC) @ post"
proof
  assume "layoutBytes c = putString (textBytes GRANT_MAGIC) @ post"
  then have "textBytes ED25519_CERT_TYPE = textBytes GRANT_MAGIC"
    using str.put_unique short_constants(1,3) unfolding layoutBytes_def by blast
  then show False by (simp add: textBytes_inj ED25519_CERT_TYPE_def GRANT_MAGIC_def)
qed

text \<open>The messages the authority signed: certificates for some options, and grants.\<close>

definition issued :: "(build_options \<times> buffer \<times> buffer) set \<Rightarrow> ssh_session_grant set \<Rightarrow> buffer \<Rightarrow> buffer set" where
  "issued minted grants ca =
     {tbs. (\<exists>(opts, random, nonce)\<in>minted. certTbs opts random nonce ca = Inr tbs) \<or> (\<exists>g\<in>grants. grantTbs g = Inr tbs)}"

lemma grant_verifies:
  assumes "signGrant toBase64 g signer = Inr encoded" and "grantTexts g"
    and "\<And>b. fromBase64 (toBase64 b) = b"
    and "verify (publicKeyObjectFromRaw (sg_publicKey signer)) (grantBytes g) (sg_sign signer (grantBytes g))"
  shows "verifyGrant verify fromBase64 encoded (sg_publicKey signer) now =
           (if now div 1000 \<ge> sgr_expiresAt g then Inl GrantExpired else Inr g)"
proof -
  define sig where "sig = sg_sign signer (grantBytes g)"
  have s: "grantFits g" "length sig = 64" "encoded = toBase64 (grantBytes g @ putString sig)"
    using assms(1) by (auto simp: signGrant_def Let_def writing grantTbs_Inr sig_def ED25519_SIGNATURE_LENGTH_def)
  have "readGrant (fromBase64 encoded) = Inr (g, grantBytes g, sig)"
    using s assms(2,3) unfolding readGrant_Inr
    by (intro exI [of _ "textBytes (sgr_sessionId g)"] exI [of _ "textBytes (sgr_agentId g)"]
          exI [of _ "textBytes (sgr_sandboxId g)"] exI [of _ "textBytes (sgr_workspaceId g)"] exI [of _ "sgr_expiresAt g"])
      (simp add: grantBytes_def grantFits_def grantTexts_def wellFormed_def shortBuffer_def)
  then show ?thesis
    using assms(4) s(2) by (simp add: verifyGrant_def ed25519Verify_def sig_def ED25519_SIGNATURE_LENGTH_def)
qed

lemma minted_verdict:
  assumes "buildUserCertificate toBase64 random nonce opts signer = Inr built" and "certTexts opts"
    and "\<And>tbs. certTbs opts random nonce (sg_publicKey signer) = Inr tbs \<Longrightarrow>
      verify (publicKeyObjectFromRaw (sg_publicKey signer)) tbs (sg_sign signer tbs)"
    and "vo_caPublicKey vo = sg_publicKey signer"
  shows "\<exists>cert. parseCertificateBlob (bc_blob built) = Inr cert \<and>
           assertValidUserCertificate verify cert vo =
             (if \<not> vo_ignoreValidityWindow vo \<and> vo_now vo div 1000 < bo_validAfter opts div 1000 then Inl NotYetValid
              else if \<not> vo_ignoreValidityWindow vo \<and> vo_now vo div 1000 \<ge> bo_validBefore opts div 1000 then Inl Expired
              else if vo_principal vo \<noteq> None \<and> vo_principal vo \<noteq> Some (bo_principal opts) then Inl WrongPrincipal
              else Inr ())"
proof -
  obtain cert where c: "parseCertificateBlob (bc_blob built) = Inr cert" "certStates cert opts"
    "length (cert_signature cert) = 64" "cert_signatureKey cert = keyBytes (sg_publicKey signer)"
    "cert_signature cert = sg_sign signer (cert_tbs cert)"
    "certTbs opts random nonce (sg_publicKey signer) = Inr (cert_tbs cert)"
    using build_parses [OF assms(1,2)] by blast
  have "length (sg_publicKey signer) = 32"
    using assms(1) certTbs_minted(2) by (fastforce simp: buildUserCertificate_def try_then_Inr)
  then have "parseEd25519KeyBlob (cert_signatureKey cert) = Inr (sg_publicKey signer)"
    by (simp add: parseEd25519KeyBlob_Inr c(4))
  moreover have "ed25519Verify verify (vo_caPublicKey vo) (cert_tbs cert) (cert_signature cert)"
    using assms(3) [OF c(6)] assms(4) c(3,5) by (simp add: ed25519Verify_def ED25519_SIGNATURE_LENGTH_def)
  ultimately show ?thesis
    using c(1,2) assms(4)
    by (intro exI [of _ cert]) (auto simp: assertValidUserCertificate_def certStates_def checkWindow_def ensure_def Let_def
        split: option.splits)
qed

lemma accepted_minted:
  assumes "parseCertificateBlob blob = Inr cert" and "assertValidUserCertificate verify cert vo = Inr ()"
    and "signs_only verify (vo_caPublicKey vo) (issued minted grants (vo_caPublicKey vo))"
    and "\<forall>(opts, random, nonce)\<in>minted. certTexts opts"
  shows "\<exists>(opts, random, nonce)\<in>minted. certStates cert opts \<and>
           (vo_ignoreValidityWindow vo \<or>
            bo_validAfter opts div 1000 \<le> vo_now vo div 1000 \<and> vo_now vo div 1000 < bo_validBefore opts div 1000) \<and>
           (vo_principal vo = None \<or> vo_principal vo = Some (bo_principal opts))"
proof -
  obtain c sig where c: "layoutFits c" "cert = layoutCert c sig" using layout_parse [OF assms(1)] by blast
  have tbs: "cert_tbs cert = layoutBytes c" "cert_signature cert = sig" by (simp_all add: c(2) layoutCert_def)
  have v: "ed25519Verify verify (vo_caPublicKey vo) (layoutBytes c) sig" "checkWindow cert vo = Inr ()"
    "case vo_principal vo of None \<Rightarrow> True | Some p \<Rightarrow> p \<in> set (cert_principals cert)"
    using assms(2) unfolding assertValidUserCertificate_def by (auto simp: try_then_Inr ensure_Inr tbs)
  have "layoutBytes c \<in> issued minted grants (vo_caPublicKey vo)"
    using assms(3) v(1) by (auto simp: signs_only_def)
  moreover have "grantTbs g \<noteq> Inr (layoutBytes c)" for g
    by (auto simp: grantTbs_Inr grantBytes_def layout_not_grant)
  ultimately obtain opts random nonce where o: "(opts, random, nonce) \<in> minted"
    "certTbs opts random nonce (vo_caPublicKey vo) = Inr (layoutBytes c)"
    by (auto simp: issued_def)
  obtain k where k: "userKey opts = Inr k" "c = mintedLayout opts random nonce (vo_caPublicKey vo) k"
    using mintedTbs_iff [OF c(1) o(2)] by blast
  have s: "certStates cert opts" using minted_states [OF k(1)] c k(2) o(1) assms(4) by auto
  then show ?thesis
    using o(1) v(2,3) unfolding certStates_def
    by (intro bexI [OF _ o(1)]) (auto simp: certStates_def s checkWindow_def Let_def try_then_Inr ensure_Inr split: if_splits option.splits)
qed

lemma accepted_issued:
  assumes "verifyGrant verify fromBase64 encoded ca now = Inr grant"
    and "signs_only verify ca (issued minted grants ca)" and "\<forall>g\<in>grants. grantTexts g"
  shows "grant \<in> grants \<and> now div 1000 < sgr_expiresAt grant"
proof -
  obtain tbs sig where r: "readGrant (fromBase64 encoded) = Inr (grant, tbs, sig)" "ed25519Verify verify ca tbs sig"
    "now div 1000 < sgr_expiresAt grant"
    using assms(1) by (auto simp: verifyGrant_def split: sum.splits if_splits prod.splits)
  obtain g1 g2 g3 g4 e where p: "tbs = putString (textBytes GRANT_MAGIC) @ putString g1 @ putString g2 @ putString g3 @ putString g4 @ beBytes 8 e"
    "list_all shortBuffer [g1, g2, g3, g4]" "0 \<le> e" "e \<le> 0xffffffffffffffff"
    "grant = \<lparr>sgr_sessionId = bufferText g1, sgr_agentId = bufferText g2, sgr_sandboxId = bufferText g3,
       sgr_workspaceId = bufferText g4, sgr_expiresAt = e\<rparr>"
    using r(1) unfolding readGrant_Inr by auto
  have "tbs \<in> issued minted grants ca" using assms(2) r(2) by (auto simp: signs_only_def)
  moreover have "certTbs opts random nonce ca \<noteq> Inr tbs" for opts random nonce
    using certTbs_minted(1) layout_not_grant p(1) by metis
  ultimately obtain g where g: "g \<in> grants" "grantFits g" "tbs = grantBytes g"
    by (auto simp: issued_def grantTbs_Inr)
  have "grant = g"
    using grant_fields_unique [OF g(2) p(2-4)] p(1,5) g assms(3)
    by (auto simp: grantTexts_def wellFormed_def)
  then show ?thesis using g(1) r(3) by simp
qed

lemma possession_cases:
  "verifyPossession verify cert data signature \<longleftrightarrow>
     (\<exists>raw. length raw = 64 \<and> verify (publicKeyObjectFromRaw (cert_publicKey cert)) data raw \<and>
        (signature = raw \<or> signature = signatureBytes raw))"
proof (cases "length signature = 64")
  case True
  have "signature \<noteq> signatureBytes raw" if "length raw = 64" for raw
    using True that by (auto simp: signatureBytes_def putString_def)
  then show ?thesis using True by (auto simp: verifyPossession_def ed25519Verify_def ED25519_SIGNATURE_LENGTH_def)
next
  case False
  let ?read = "try_then (readString (newReader signature)) (\<lambda>(algo, r1). try_then (readString r1) (\<lambda>(inner, r2).
    try_then (expectEnd r2) (\<lambda>_. Inr (bufferText algo, inner))))"
  have inner: "?read = Inr (algo, raw) \<Longrightarrow>
      \<exists>a. signature = putString a @ putString raw \<and> bufferText a = algo" for algo raw
    by (auto simp: reading)
  have wrapped: "?read = Inr (''ssh-ed25519'', raw)" if "signature = signatureBytes raw" "length raw = 64" for raw
    using that short_signature [OF that(2)] key_type_text(3)
    by (simp add: read_back signatureBytes_def shortBuffer_def)
  show ?thesis (is "_ \<longleftrightarrow> ?rhs")
  proof
    assume "verifyPossession verify cert data signature"
    then obtain raw where "?read = Inr (''ssh-ed25519'', raw)" "ed25519Verify verify (cert_publicKey cert) data raw"
      using False by (auto simp: verifyPossession_def ED25519_SIGNATURE_LENGTH_def split: sum.splits if_splits)
    moreover then have "signature = signatureBytes raw" using inner key_type_text(3) by (metis signatureBytes_def)
    ultimately show ?rhs
      by (auto simp: ed25519Verify_def ED25519_SIGNATURE_LENGTH_def signatureBytes_def split: if_splits)
  next
    assume ?rhs
    then show "verifyPossession verify cert data signature"
      using False wrapped by (auto simp: verifyPossession_def ed25519Verify_def ED25519_SIGNATURE_LENGTH_def)
  qed
qed

section \<open>Example\<close>

definition exampleEncode :: "buffer \<Rightarrow> string" where
  "exampleEncode b = concat (map (\<lambda>w. [char_of (65 + unat w div 16), char_of (65 + unat w mod 16)]) b)"

fun exampleDecode :: "string \<Rightarrow> buffer" where
  "exampleDecode (h # l # s) = word_of_nat ((of_char h - 65) * 16 + (of_char l - 65)) # exampleDecode s"
| "exampleDecode s = []"

lemma example_byte: "word_of_nat (unat (w :: 8 word) div 16 * 16 + unat w mod 16) = w"
  by (simp only: div_mult_mod_eq word_of_nat_eq_iff) simp

lemma example_decodes: "exampleDecode (exampleEncode b) = b"
proof (induction b)
  case (Cons w b)
  have "unat w div 16 < 16" using unat_byte [of w] by simp
  then have c: "of_char (char_of (65 + unat w div 16) :: char) = 65 + unat w div 16" 
     "of_char (char_of (65 + unat w mod 16) :: char) = 65 + unat w mod 16" by (simp_all)
  then show ?case using Cons example_byte [of w] by (simp add: exampleEncode_def)
qed (simp add: exampleEncode_def)

lemma example_spaceless: "list_all (\<lambda>c. \<not> is_space c) (exampleEncode b)"
proof (induction b)
  case (Cons w b)
  have "unat w div 16 < 16" using unat_byte [of w] by simp
  then show ?case using Cons by (simp add: exampleEncode_def is_space_def)
qed (simp add: exampleEncode_def)

definition exampleOptions :: build_options where
  "exampleOptions = \<lparr>bo_userPublicKey = replicate 32 7, bo_keyId = ''k'', bo_principal = ''agent'',
     bo_validAfter = 1000000, bo_validBefore = 1900500, bo_sandboxId = ''box'', bo_workspaceId = ''ws'',
     bo_userId = ''user'', bo_serial = Some 5\<rparr>"

definition exampleSigner :: ed25519_signer where
  "exampleSigner = \<lparr>sg_publicKey = replicate 32 9, sg_sign = (\<lambda>m. replicate 64 (last m))\<rparr>"

lemmas example_defs = exampleOptions_def exampleSigner_def CERT_EXT_PERMIT_PTY_def CERT_EXT_SANDBOX_ID_def
  CERT_EXT_USER_ID_def CERT_EXT_WORKSPACE_ID_def ED25519_KEY_TYPE_def

lemma example_tbs:
  "\<exists>k. userKey exampleOptions = Inr k \<and> certTbs exampleOptions [] (replicate 32 3) (replicate 32 9) =
     Inr (layoutBytes (mintedLayout exampleOptions [] (replicate 32 3) (replicate 32 9) k))"
proof -
  have k: "userKey exampleOptions = Inr (replicate 32 7)" by (simp add: userKey_def exampleOptions_def)
  have "layoutFits (mintedLayout exampleOptions [] (replicate 32 3) (replicate 32 9) (replicate 32 7))"
    by (simp add: layoutFits_def mintedLayout_def shortBuffer_def packStrings_def putString_def keyBytes_def example_defs
        SSH_CERT_TYPE_USER_def certSerial_def)
  then show ?thesis using certTbs_succeeds [OF k] k by (auto simp: exampleOptions_def)
qed

lemma example_builds: "\<exists>built. buildUserCertificate exampleEncode [] (replicate 32 3) exampleOptions exampleSigner = Inr built"
  using example_tbs build_succeeds [of exampleOptions "[]" "replicate 32 3" exampleSigner] by (auto simp: exampleSigner_def)

lemma example_texts: "certTexts exampleOptions"
  by (simp add: certTexts_def exampleOptions_def wellFormed_ascii)

definition exampleGrant :: ssh_session_grant where
  "exampleGrant = \<lparr>sgr_sessionId = ''s'', sgr_agentId = ''agent'', sgr_sandboxId = ''box'', sgr_workspaceId = ''ws'', sgr_expiresAt = 100\<rparr>"

lemma example_fits: "grantFits exampleGrant"
  by (simp add: grantFits_def exampleGrant_def shortBuffer_def)

lemma example_grant_texts: "grantTexts exampleGrant"
  by (simp add: grantTexts_def exampleGrant_def wellFormed_ascii)

lemma example_signs: "\<exists>encoded. signGrant exampleEncode exampleGrant exampleSigner = Inr encoded"
  using grantTbs_Inr [of exampleGrant "grantBytes exampleGrant"] example_fits
  by (simp add: signGrant_def writing exampleSigner_def ED25519_SIGNATURE_LENGTH_def shortBuffer_def)

text \<open>No certificate continues another one.\<close>

lemma parse_no_suffix:
  assumes "parseCertificateBlob blob = Inr cert" and "parseCertificateBlob (blob @ post) = Inr cert'"
  shows "post = []"
proof -
  obtain c sig where c: "layoutFits c" "blob = layoutBytes c @ putString (signatureBytes sig)" "shortBuffer (signatureBytes sig)"
    using layout_parse [OF assms(1)] by (auto simp: layoutCert_def)
  obtain d sig' where d: "layoutFits d" "blob @ post = layoutBytes d @ putString (signatureBytes sig')" "shortBuffer (signatureBytes sig')"
    using layout_parse [OF assms(2)] by (auto simp: layoutCert_def)
  have "putString (signatureBytes sig) @ post = putString (signatureBytes sig') @ []"
    using layoutBytes_prefix [OF c(1) d(1)] c(2) d(2) by auto
  then show ?thesis using str.put_unique [OF c(3) d(3)] by blast
qed

section \<open>Claims\<close>

text \<open>
  C11: a certificate that is minted parses back, from its blob and from the line the user saves, to a
  certificate that states the user key, the principal, the validity window and the sandbox, user
  and workspace of the options, with the serial returned and no critical options.  The
  runtime's base64 coding is assumed to decode what it encodes and to contain no space.
\<close>

theorem certificate_roundtrip:
  assumes "buildUserCertificate toBase64 random nonce opts signer = Inr built" and "certTexts opts"
    and "\<And>b. fromBase64 (toBase64 b) = b" and "\<And>b. list_all (\<lambda>c. \<not> is_space c) (toBase64 b)"
    and "\<And>b. b \<noteq> [] \<Longrightarrow> toBase64 b \<noteq> []"
  shows "\<exists>cert. parseCertificateBlob (bc_blob built) = Inr cert \<and> parseCertificateLine fromBase64 (bc_line built) = Inr cert \<and>
           certStates cert opts \<and> cert_serial cert = bc_serial built \<and> cert_raw cert = bc_blob built"
proof -
  obtain cert where c: "parseCertificateBlob (bc_blob built) = Inr cert" "certStates cert opts"
    "cert_serial cert = bc_serial built" "cert_raw cert = bc_blob built"
    using build_parses [OF assms(1,2)] by blast
  then show ?thesis using built_line [OF assms] by auto
qed

theorem certificate_roundtrip_witness:
  "\<exists>built cert. buildUserCertificate exampleEncode [] (replicate 32 3) exampleOptions exampleSigner = Inr built \<and>
     parseCertificateBlob (bc_blob built) = Inr cert \<and> parseCertificateLine exampleDecode (bc_line built) = Inr cert \<and>
     certStates cert exampleOptions"
proof -
  obtain built where b: "buildUserCertificate exampleEncode [] (replicate 32 3) exampleOptions exampleSigner = Inr built"
    using example_builds by blast
  have "\<And>b. b \<noteq> [] \<Longrightarrow> exampleEncode b \<noteq> []" by (simp add: exampleEncode_def)
  then show ?thesis using certificate_roundtrip [OF b example_texts example_decodes example_spaceless] b by blast
qed

text \<open>
  C25: the verifier's verdict on a certificate that was minted by the authority it trusts: before the
  window it is not yet valid, from the end of the window on it has expired, a principal other
  than the one it was minted for is refused, and everything else is accepted.  The signature
  scheme is assumed to verify what the signer signs.
\<close>

theorem minted_certificate_verdict:
  assumes "buildUserCertificate toBase64 random nonce opts signer = Inr built" and "certTexts opts"
    and "\<And>m. verify (publicKeyObjectFromRaw (sg_publicKey signer)) m (sg_sign signer m)"
    and "vo_caPublicKey vo = sg_publicKey signer"
  shows "\<exists>cert. parseCertificateBlob (bc_blob built) = Inr cert \<and>
           assertValidUserCertificate verify cert vo =
             (if \<not> vo_ignoreValidityWindow vo \<and> vo_now vo div 1000 < bo_validAfter opts div 1000 then Inl NotYetValid
              else if \<not> vo_ignoreValidityWindow vo \<and> vo_now vo div 1000 \<ge> bo_validBefore opts div 1000 then Inl Expired
              else if vo_principal vo \<noteq> None \<and> vo_principal vo \<noteq> Some (bo_principal opts) then Inl WrongPrincipal
              else Inr ())"
  using minted_verdict [OF assms(1,2) _ assms(4), of verify] assms(3) by blast

theorem minted_certificate_verdict_witness:
  "\<exists>built cert. buildUserCertificate exampleEncode [] (replicate 32 3) exampleOptions exampleSigner = Inr built \<and>
     parseCertificateBlob (bc_blob built) = Inr cert \<and>
     assertValidUserCertificate (\<lambda>k m s. s = replicate 64 (last m)) cert
       \<lparr>vo_caPublicKey = replicate 32 9, vo_principal = Some ''agent'', vo_now = 1000000, vo_ignoreValidityWindow = False\<rparr> = Inr ()"
proof -
  obtain built where b: "buildUserCertificate exampleEncode [] (replicate 32 3) exampleOptions exampleSigner = Inr built"
    using example_builds by blast
  show ?thesis
    using minted_certificate_verdict [OF b example_texts, of "\<lambda>k m s. s = replicate 64 (last m)"
        "\<lparr>vo_caPublicKey = replicate 32 9, vo_principal = Some ''agent'', vo_now = 1000000, vo_ignoreValidityWindow = False\<rparr>"] b
    by (simp add: exampleSigner_def exampleOptions_def)
qed

text \<open>
  C9: no certificate is accepted that was not minted.  If every message that verifies under the
  authority's key is one it signed, a certificate for some options or a grant, then a blob that
  parses and passes the verifier states what one of those minted certificates was minted for,
  with the same user key, principal, window and sandbox; the instant lies inside that window
  unless the caller waives it, and the principal asked for is the one minted.  In particular no
  signed grant passes as a certificate.
\<close>

theorem accepted_certificate_was_minted:
  assumes "parseCertificateBlob blob = Inr cert" and "assertValidUserCertificate verify cert vo = Inr ()"
    and "signs_only verify (vo_caPublicKey vo) (issued minted grants (vo_caPublicKey vo))"
    and "\<forall>(opts, random, nonce)\<in>minted. certTexts opts"
  shows "\<exists>(opts, random, nonce)\<in>minted. certStates cert opts \<and>
           (vo_ignoreValidityWindow vo \<or>
            bo_validAfter opts div 1000 \<le> vo_now vo div 1000 \<and> vo_now vo div 1000 < bo_validBefore opts div 1000) \<and>
           (vo_principal vo = None \<or> vo_principal vo = Some (bo_principal opts))"
  by (rule accepted_minted [OF assms])

theorem accepted_certificate_was_minted_witness:
  "\<exists>blob cert. parseCertificateBlob blob = Inr cert \<and> certStates cert exampleOptions"
proof -
  define verify where "verify = (\<lambda>(k :: buffer) m (s :: buffer). certTbs exampleOptions [] (replicate 32 3) (replicate 32 9) = Inr m)"
  define vo where "vo = \<lparr>vo_caPublicKey = replicate 32 9, vo_principal = Some ''agent'', vo_now = 1000000, vo_ignoreValidityWindow = False\<rparr>"
  obtain built where b: "buildUserCertificate exampleEncode [] (replicate 32 3) exampleOptions exampleSigner = Inr built"
    using example_builds by blast
  have anchor: "vo_caPublicKey vo = sg_publicKey exampleSigner" by (simp add: vo_def exampleSigner_def)
  obtain cert where c: "parseCertificateBlob (bc_blob built) = Inr cert" "assertValidUserCertificate verify cert vo = Inr ()"
    using minted_verdict [OF b example_texts _ anchor, of verify] by (auto simp: verify_def vo_def exampleSigner_def exampleOptions_def)
  have "signs_only verify (vo_caPublicKey vo) (issued {(exampleOptions, [], replicate 32 3)} {} (vo_caPublicKey vo))"
    by (auto simp: signs_only_def ed25519Verify_def verify_def issued_def vo_def split: if_splits)
  then show ?thesis using accepted_certificate_was_minted [OF c] example_texts c(1) by blast
qed

text \<open>
  What the control plane signs is what the broker reads.  A signed grant, decoded again, verifies
  under the signer's key and gives the same session, agent, sandbox, workspace and expiry until
  that instant, and from then on is refused as expired.
\<close>

theorem grant_roundtrip:
  assumes "signGrant toBase64 g signer = Inr encoded" and "grantTexts g"
    and "\<And>b. fromBase64 (toBase64 b) = b"
    and "\<And>m. verify (publicKeyObjectFromRaw (sg_publicKey signer)) m (sg_sign signer m)"
  shows "verifyGrant verify fromBase64 encoded (sg_publicKey signer) now =
           (if now div 1000 \<ge> sgr_expiresAt g then Inl GrantExpired else Inr g)"
  using grant_verifies [OF assms(1-3), of verify now] assms(4) by blast

theorem grant_roundtrip_witness:
  "\<exists>encoded. signGrant exampleEncode exampleGrant exampleSigner = Inr encoded \<and>
     verifyGrant (\<lambda>k m s. s = replicate 64 (last m)) exampleDecode encoded (replicate 32 9) 99999 = Inr exampleGrant \<and>
     verifyGrant (\<lambda>k m s. s = replicate 64 (last m)) exampleDecode encoded (replicate 32 9) 100000 = Inl GrantExpired"
proof -
  obtain encoded where e: "signGrant exampleEncode exampleGrant exampleSigner = Inr encoded"
    using example_signs by blast
  show ?thesis
    using e grant_roundtrip [OF e example_grant_texts example_decodes, of "\<lambda>k m s. s = replicate 64 (last m)"]
    by (simp add: exampleSigner_def) (simp add: exampleGrant_def)
qed

text \<open>
  C10: no grant is accepted that was not issued.  Under the same assumption on the authority's key, a
  grant the broker accepts is one the control plane signed, for that very session, agent,
  sandbox and workspace, and has not expired.  In particular no user certificate passes as a
  grant, although the same key signs both.
\<close>

theorem accepted_grant_was_issued:
  assumes "verifyGrant verify fromBase64 encoded ca now = Inr grant"
    and "signs_only verify ca (issued minted grants ca)" and "\<forall>g\<in>grants. grantTexts g"
  shows "grant \<in> grants \<and> now div 1000 < sgr_expiresAt grant"
  by (rule accepted_issued [OF assms])

theorem accepted_grant_was_issued_witness:
  "\<exists>encoded. verifyGrant (\<lambda>k m s. Inr m = grantTbs exampleGrant) exampleDecode encoded (replicate 32 9) 99999 = Inr exampleGrant \<and>
     99999 div 1000 < sgr_expiresAt exampleGrant"
proof -
  obtain encoded where e: "signGrant exampleEncode exampleGrant exampleSigner = Inr encoded"
    using example_signs by blast
  have v: "verifyGrant (\<lambda>k m s. Inr m = grantTbs exampleGrant) exampleDecode encoded (replicate 32 9) 99999 = Inr exampleGrant"
    using grant_verifies [OF e example_grant_texts example_decodes, of "\<lambda>k m s. Inr m = grantTbs exampleGrant" 99999] example_fits
    by (simp add: exampleSigner_def grantTbs_Inr [THEN iffD2]) (simp add: exampleGrant_def)
  have "signs_only (\<lambda>k m s. Inr m = grantTbs exampleGrant) (replicate 32 9) (issued {} {exampleGrant} (replicate 32 9))"
    by (auto simp: signs_only_def ed25519Verify_def issued_def split: if_splits)
  then show ?thesis using accepted_grant_was_issued [OF v, of "{}" "{exampleGrant}"] example_grant_texts v by blast
qed

text \<open>
  Truncation and trailing bytes are refused.  A blob that parses as a certificate is no longer one
  when anything is appended to it, nor when it is cut anywhere: the parser reads no partial
  field and leaves nothing unread.
\<close>

theorem certificate_prefix_free:
  assumes "parseCertificateBlob blob = Inr cert"
  shows "(post \<noteq> [] \<longrightarrow> (\<exists>e. parseCertificateBlob (blob @ post) = Inl e)) \<and>
         (n < length blob \<longrightarrow> (\<exists>e. parseCertificateBlob (take n blob) = Inl e))"
proof (intro conjI impI)
  assume "post \<noteq> []"
  then show "\<exists>e. parseCertificateBlob (blob @ post) = Inl e"
    using parse_no_suffix [OF assms] by (cases "parseCertificateBlob (blob @ post)") auto
next
  assume n: "n < length blob"
  show "\<exists>e. parseCertificateBlob (take n blob) = Inl e"
  proof (cases "parseCertificateBlob (take n blob)")
    case (Inr c)
    then have "drop n blob = []" using parse_no_suffix [of "take n blob" c "drop n blob"] assms by simp
    then show ?thesis using n by simp
  qed simp
qed

theorem certificate_prefix_free_witness:
  "\<exists>blob cert. parseCertificateBlob blob = Inr cert \<and> (\<exists>e. parseCertificateBlob (blob @ [0]) = Inl e) \<and>
     (\<exists>e. parseCertificateBlob (take 3 blob) = Inl e)"
proof -
  obtain built where b: "buildUserCertificate exampleEncode [] (replicate 32 3) exampleOptions exampleSigner = Inr built"
    using example_builds by blast
  obtain cert where c: "parseCertificateBlob (bc_blob built) = Inr cert" using build_parses [OF b example_texts] by blast
  have "3 < length (bc_blob built)"
    using c by (rule contrapos_pp) (auto simp: parseCertificateBlob_def readString_def newReader_def remaining_def)
  then show ?thesis using certificate_prefix_free [OF c, of "[0]" 3] c by blast
qed

text \<open>
  The possession check accepts exactly the two forms a client may send, the raw signature of 64
  bytes or that signature wrapped as the SSH string \<^verbatim>\<open>ssh-ed25519\<close> followed by it, and only
  when it verifies under the certificate's own user key.
\<close>

theorem possession_forms:
  "verifyPossession verify cert data signature \<longleftrightarrow>
     (\<exists>raw. length raw = 64 \<and> verify (publicKeyObjectFromRaw (cert_publicKey cert)) data raw \<and>
        (signature = raw \<or> signature = signatureBytes raw))"
  by (rule possession_cases)

end
