(* ===== verification/SshTerminator.thy ===== *)
theory SshTerminator
  imports SshTheorems
begin

text \<open>
  The SSH front door's use of certificates and grants: the public key authentication
  (\<^verbatim>\<open>apps/ssh-terminator/src/auth.ts\<close>) and the docker resolver
  (\<^verbatim>\<open>backend/docker/resolver.ts\<close>), which re-verifies both artifacts before it names a container.
  The docker daemon is a parameter: the answer to a label query, or its failure.
\<close>

section \<open>Authentication\<close>

record auth_key =
  ak_algo :: string
  ak_data :: buffer

record auth_context =
  ax_method :: string
  ax_username :: string
  ax_key :: "auth_key option"
  ax_signature :: "buffer option"
  ax_blob :: "buffer option"

datatype auth_outcome =
    CheckPassed
  | Authenticated ssh_certificate string
  | Rejected bool

text \<open>The outcome with the call made on the context: accepted, or rejected with the methods left.\<close>

datatype auth_call = Accept | Reject "string list"

definition verifyAtDoor :: "verifier \<Rightarrow> buffer \<Rightarrow> int \<Rightarrow> string \<Rightarrow> buffer \<Rightarrow> ssh_certificate option" where
  "verifyAtDoor verify caPublicKey now username key =
     (case parseCertificateBlob key of
        Inl e \<Rightarrow> None
      | Inr certificate \<Rightarrow>
          (case assertValidUserCertificate verify certificate
              \<lparr>vo_caPublicKey = caPublicKey, vo_principal = Some username, vo_now = now, vo_ignoreValidityWindow = False\<rparr> of
             Inl e \<Rightarrow> None
           | Inr u \<Rightarrow> Some certificate))"

definition authenticate :: "verifier \<Rightarrow> buffer \<Rightarrow> int \<Rightarrow> auth_context \<Rightarrow> auth_outcome \<times> auth_call" where
  "authenticate verify caPublicKey now ctx =
     (if ax_method ctx \<noteq> ''publickey'' then (Rejected False, Reject [''publickey''])
      else case ax_key ctx of
        None \<Rightarrow> (Rejected True, Reject [''publickey''])
      | Some key \<Rightarrow>
          if ak_algo key \<noteq> ED25519_CERT_TYPE then (Rejected True, Reject [''publickey''])
          else case verifyAtDoor verify caPublicKey now (ax_username ctx) (ak_data key) of
            None \<Rightarrow> (Rejected True, Reject [''publickey''])
          | Some certificate \<Rightarrow>
              (case (ax_signature ctx, ax_blob ctx) of
                 (Some signature, Some blob) \<Rightarrow>
                   if \<not> verifyPossession verify certificate blob signature then (Rejected True, Reject [''publickey''])
                   else (Authenticated certificate (ax_username ctx), Accept)
               | _ \<Rightarrow> (CheckPassed, Accept)))"

definition certificateLineOf :: "(buffer \<Rightarrow> string) \<Rightarrow> ssh_certificate \<Rightarrow> string" where
  "certificateLineOf toBase64 certificate = ED25519_CERT_TYPE @ '' '' @ toBase64 (cert_raw certificate)"

section \<open>Resolver\<close>

datatype resolver_error =
    RefusedGrant grant_reason
  | RefusedId string
  | RefusedCertificate certificate_reason
  | RefusedMalformedCertificate
  | IdentityMismatch
  | AmbiguousContainer
  | DaemonUnreachable
  | ThrownByReader ssh_error

definition LABEL_MANAGED :: string where
  "LABEL_MANAGED = ''sh.onecli.managed=1''"

definition LABEL_SANDBOX :: string where
  "LABEL_SANDBOX = ''sh.onecli.sandbox-id''"

definition TARGET_REUSE_MS :: int where
  "TARGET_REUSE_MS = 60000"

definition idShape :: "string \<Rightarrow> bool" where
  "idShape s =
     (1 \<le> length s \<and> length s \<le> 64 \<and>
      list_all (\<lambda>c. CHR ''A'' \<le> c \<and> c \<le> CHR ''Z'' \<or> CHR ''a'' \<le> c \<and> c \<le> CHR ''z'' \<or> CHR ''0'' \<le> c \<and> c \<le> CHR ''9'' \<or>
                    c = CHR ''_'' \<or> c = CHR ''-'') s)"

text \<open>The first field of a grant that is not a valid id.\<close>

definition badField :: "ssh_session_grant \<Rightarrow> string option" where
  "badField grant =
     map_option fst (find (\<lambda>(field, v). \<not> idShape v)
       [(''sessionId'', sgr_sessionId grant), (''agentId'', sgr_agentId grant),
        (''sandboxId'', sgr_sandboxId grant), (''workspaceId'', sgr_workspaceId grant)])"

definition readCertificate :: "verifier \<Rightarrow> (string \<Rightarrow> buffer) \<Rightarrow> buffer \<Rightarrow> string \<Rightarrow> int \<Rightarrow> string \<Rightarrow> resolver_error + ssh_certificate" where
  "readCertificate verify fromBase64 caPublicKey agentId now line =
     (case parseCertificateLine fromBase64 line of
        Inl e \<Rightarrow> Inl RefusedMalformedCertificate
      | Inr cert \<Rightarrow>
          (case assertValidUserCertificate verify cert
              \<lparr>vo_caPublicKey = caPublicKey, vo_principal = Some agentId, vo_now = now, vo_ignoreValidityWindow = True\<rparr> of
             Inl (Unreadable e) \<Rightarrow> Inl RefusedMalformedCertificate
           | Inl reason \<Rightarrow> Inl (RefusedCertificate reason)
           | Inr u \<Rightarrow> Inr cert))"

text \<open>The cross-check; a malformed extension throws, and the checks stop at the first that differs.\<close>

definition sameSubject :: "ssh_certificate \<Rightarrow> ssh_session_grant \<Rightarrow> resolver_error + unit" where
  "sameSubject cert grant =
     (case getExtensionValue cert CERT_EXT_SANDBOX_ID of
        Inl e \<Rightarrow> Inl (ThrownByReader e)
      | Inr sandbox \<Rightarrow>
          if sandbox \<noteq> Some (sgr_sandboxId grant) then Inl IdentityMismatch
          else case getExtensionValue cert CERT_EXT_WORKSPACE_ID of
            Inl e \<Rightarrow> Inl (ThrownByReader e)
          | Inr workspace \<Rightarrow>
              if workspace \<noteq> Some (sgr_workspaceId grant) then Inl IdentityMismatch
              else ensure (cert_principals cert \<noteq> [] \<and> hd (cert_principals cert) = sgr_agentId grant) IdentityMismatch)"

definition verifyArtifacts ::
    "verifier \<Rightarrow> (string \<Rightarrow> buffer) \<Rightarrow> buffer \<Rightarrow> int \<Rightarrow> string \<Rightarrow> string \<Rightarrow>
     resolver_error + (ssh_session_grant \<times> ssh_certificate)" where
  "verifyArtifacts verify fromBase64 caPublicKey now certificate encodedGrant =
     (case verifyGrant verify fromBase64 encodedGrant caPublicKey now of
        Inl reason \<Rightarrow> Inl (RefusedGrant reason)
      | Inr grant \<Rightarrow>
          (case badField grant of
             Some field \<Rightarrow> Inl (RefusedId field)
           | None \<Rightarrow>
               try_then (readCertificate verify fromBase64 caPublicKey (sgr_agentId grant) now certificate) (\<lambda>cert.
               try_then (sameSubject cert grant) (\<lambda>_. Inr (grant, cert)))))"

datatype resolver_answer = Waking | Ready string int

definition resolverOpen ::
    "verifier \<Rightarrow> (string \<Rightarrow> buffer) \<Rightarrow> (string list \<Rightarrow> string list option) \<Rightarrow> buffer \<Rightarrow> int \<Rightarrow> string \<Rightarrow> string \<Rightarrow>
     resolver_error + resolver_answer" where
  "resolverOpen verify fromBase64 listContainers caPublicKey now certificate encodedGrant =
     try_then (verifyArtifacts verify fromBase64 caPublicKey now certificate encodedGrant) (\<lambda>(grant, cert).
       case listContainers [LABEL_MANAGED, LABEL_SANDBOX @ ''='' @ sgr_sandboxId grant] of
         None \<Rightarrow> Inl DaemonUnreachable
       | Some containers \<Rightarrow>
           if length containers = 0 then Inr Waking
           else if length containers > 1 then Inl AmbiguousContainer
           else Inr (Ready (hd containers) (now + TARGET_REUSE_MS)))"

end
