(* ===== verification/FrontDoorTheorems.thy ===== *)
theory FrontDoorTheorems
  imports SshTerminator
begin

text \<open>
  What the front door rests on the signed artifacts: who it lets in, and which container it names.
\<close>

section \<open>Lemmas\<close>

lemma verifyAtDoor_Some:
  "verifyAtDoor verify ca now name key = Some cert \<longleftrightarrow>
     parseCertificateBlob key = Inr cert \<and>
     assertValidUserCertificate verify cert
       \<lparr>vo_caPublicKey = ca, vo_principal = Some name, vo_now = now, vo_ignoreValidityWindow = False\<rparr> = Inr ()"
  by (auto simp: verifyAtDoor_def split: sum.splits)

lemma authenticate_Authenticated:
  assumes "authenticate verify ca now ctx = (Authenticated cert name, call)"
  shows "\<exists>data blob sig. verifyAtDoor verify ca now name data = Some cert \<and> ax_blob ctx = Some blob \<and>
           ax_signature ctx = Some sig \<and> verifyPossession verify cert blob sig \<and>
           name = ax_username ctx \<and> call = Accept"
proof -
  obtain key where k: "ax_key ctx = Some key"
    using assms by (cases "ax_key ctx") (simp_all add: authenticate_def split: if_splits)
  obtain c where c: "verifyAtDoor verify ca now (ax_username ctx) (ak_data key) = Some c"
    using assms k by (cases "verifyAtDoor verify ca now (ax_username ctx) (ak_data key)") (simp_all add: authenticate_def split: if_splits)
  show ?thesis
  proof (cases "ax_signature ctx")
    case None
    then show ?thesis using assms k c by (simp add: authenticate_def split: if_splits)
  next
    case (Some sig)
    then show ?thesis
      using assms k c by (cases "ax_blob ctx") (auto simp: authenticate_def split: if_splits)
  qed
qed

lemma readCertificate_Inr:
  "readCertificate verify fromBase64 ca agent now line = Inr cert \<longleftrightarrow>
     parseCertificateLine fromBase64 line = Inr cert \<and>
     assertValidUserCertificate verify cert
       \<lparr>vo_caPublicKey = ca, vo_principal = Some agent, vo_now = now, vo_ignoreValidityWindow = True\<rparr> = Inr ()"
  by (auto simp: readCertificate_def split: sum.splits certificate_reason.splits)

lemma line_blob: "parseCertificateLine fromBase64 line = Inr cert \<Longrightarrow> \<exists>blob. parseCertificateBlob blob = Inr cert"
  by (auto simp: parseCertificateLine_def Let_def split: if_splits)

lemma sameSubject_Inr:
  "sameSubject cert grant = Inr u \<longleftrightarrow>
     getExtensionValue cert CERT_EXT_SANDBOX_ID = Inr (Some (sgr_sandboxId grant)) \<and>
     getExtensionValue cert CERT_EXT_WORKSPACE_ID = Inr (Some (sgr_workspaceId grant)) \<and>
     cert_principals cert \<noteq> [] \<and> hd (cert_principals cert) = sgr_agentId grant"
  by (auto simp: sameSubject_def ensure_def split: sum.splits if_splits)

lemma verifyArtifacts_Inr:
  "verifyArtifacts verify fromBase64 ca now line encoded = Inr (grant, cert) \<longleftrightarrow>
     verifyGrant verify fromBase64 encoded ca now = Inr grant \<and> badField grant = None \<and>
     readCertificate verify fromBase64 ca (sgr_agentId grant) now line = Inr cert \<and> sameSubject cert grant = Inr ()"
  by (auto simp: verifyArtifacts_def try_then_Inr split: sum.splits option.splits)

lemma badField_None:
  "badField grant = None \<longleftrightarrow> idShape (sgr_sessionId grant) \<and> idShape (sgr_agentId grant) \<and>
     idShape (sgr_sandboxId grant) \<and> idShape (sgr_workspaceId grant)"
  by (auto simp: badField_def)

lemma resolverOpen_Ready:
  assumes "resolverOpen verify fromBase64 listContainers ca now line encoded = Inr (Ready container expires)"
  shows "\<exists>grant cert. verifyArtifacts verify fromBase64 ca now line encoded = Inr (grant, cert) \<and>
           listContainers [LABEL_MANAGED, LABEL_SANDBOX @ ''='' @ sgr_sandboxId grant] = Some [container] \<and>
           expires = now + TARGET_REUSE_MS"
proof (cases "verifyArtifacts verify fromBase64 ca now line encoded")
  case (Inr a)
  obtain grant cert where a: "a = (grant, cert)" by (cases a)
  obtain found where f: "listContainers [LABEL_MANAGED, LABEL_SANDBOX @ ''='' @ sgr_sandboxId grant] = Some found"
    using assms Inr a
    by (cases "listContainers [LABEL_MANAGED, LABEL_SANDBOX @ ''='' @ sgr_sandboxId grant]") (simp_all add: resolverOpen_def try_then_def)
  have "\<not> length found > 1" "length found \<noteq> 0"
    using assms Inr a f by (auto simp: resolverOpen_def try_then_def split: if_splits)
  then have one: "found = [hd found]" "length found = 1" by (cases found; simp)+
  then show ?thesis using assms Inr a f one by (auto simp: resolverOpen_def try_then_def)
qed (use assms in \<open>simp add: resolverOpen_def try_then_def\<close>)

section \<open>Example\<close>

text \<open>An authority that signed one certificate and one grant, and a user key that verifies anything.\<close>

definition exampleVerify :: verifier where
  "exampleVerify k m s =
     (k \<noteq> publicKeyObjectFromRaw (replicate 32 9) \<or>
      certTbs exampleOptions [] (replicate 32 3) (replicate 32 9) = Inr m \<or> grantTbs exampleGrant = Inr m)"

lemma example_signs_only:
  "signs_only exampleVerify (replicate 32 9) (issued {(exampleOptions, [], replicate 32 3)} {exampleGrant} (replicate 32 9))"
  by (auto simp: signs_only_def ed25519Verify_def exampleVerify_def issued_def split: if_splits)

lemma example_minted_accepted:
  obtains built cert where
    "buildUserCertificate exampleEncode [] (replicate 32 3) exampleOptions exampleSigner = Inr built"
    "parseCertificateBlob (bc_blob built) = Inr cert" "certStates cert exampleOptions"
    "assertValidUserCertificate exampleVerify cert \<lparr>vo_caPublicKey = replicate 32 9, vo_principal = Some ''agent'',
       vo_now = 1000000, vo_ignoreValidityWindow = False\<rparr> = Inr ()"
    "assertValidUserCertificate exampleVerify cert \<lparr>vo_caPublicKey = replicate 32 9, vo_principal = Some ''agent'',
       vo_now = 99999, vo_ignoreValidityWindow = True\<rparr> = Inr ()"
proof -
  obtain built where b: "buildUserCertificate exampleEncode [] (replicate 32 3) exampleOptions exampleSigner = Inr built"
    using example_builds by blast
  obtain cert where c: "parseCertificateBlob (bc_blob built) = Inr cert" "certStates cert exampleOptions"
    using build_parses [OF b example_texts] by blast
  have v: "exampleVerify (publicKeyObjectFromRaw (sg_publicKey exampleSigner)) tbs (sg_sign exampleSigner tbs)"
    if "certTbs exampleOptions [] (replicate 32 3) (sg_publicKey exampleSigner) = Inr tbs" for tbs
    using that by (simp add: exampleVerify_def exampleSigner_def)
  have ca: "vo_caPublicKey \<lparr>vo_caPublicKey = replicate 32 9, vo_principal = Some ''agent'', vo_now = now,
      vo_ignoreValidityWindow = window\<rparr> = sg_publicKey exampleSigner" for now window
    by (simp add: exampleSigner_def)
  have verdict: "assertValidUserCertificate exampleVerify cert \<lparr>vo_caPublicKey = replicate 32 9,
      vo_principal = Some ''agent'', vo_now = now, vo_ignoreValidityWindow = window\<rparr> =
      (if \<not> window \<and> now div 1000 < 1000 then Inl NotYetValid
       else if \<not> window \<and> now div 1000 \<ge> 1900 then Inl Expired else Inr ())" for now window
    using minted_verdict [where verify = exampleVerify, OF b example_texts _ ca [of now window]] v c(1)
    by (simp add: exampleOptions_def)
  show thesis by (rule that [OF b c]) (simp_all add: verdict)
qed

section \<open>Claims\<close>

text \<open>
  C26: whoever is let in holds a certificate that was minted for the agent named, and its private key.  If
  the authority's key verifies only what it signed, an authenticated user presented a
  certificate that states what one of the minted ones was minted for, inside its window and for
  exactly the user name of the session, and signed the exchange with the key certified in it.
\<close>

theorem authenticated_user_was_certified:
  assumes "authenticate verify ca now ctx = (Authenticated cert name, call)"
    and "signs_only verify ca (issued minted grants ca)" and "\<forall>(opts, random, nonce)\<in>minted. certTexts opts"
  shows "name = ax_username ctx \<and> call = Accept \<and>
         (\<exists>(opts, random, nonce)\<in>minted. certStates cert opts \<and> bo_principal opts = name \<and>
            bo_validAfter opts div 1000 \<le> now div 1000 \<and> now div 1000 < bo_validBefore opts div 1000) \<and>
         (\<exists>blob raw. ax_blob ctx = Some blob \<and> length raw = 64 \<and>
            ax_signature ctx \<in> {Some raw, Some (signatureBytes raw)} \<and>
            verify (publicKeyObjectFromRaw (cert_publicKey cert)) blob raw)"
proof -
  obtain data blob sig where a: "verifyAtDoor verify ca now name data = Some cert"
    "ax_blob ctx = Some blob" "ax_signature ctx = Some sig" "verifyPossession verify cert blob sig"
    "name = ax_username ctx" "call = Accept"
    using authenticate_Authenticated [OF assms(1)] by blast
  note v = a(1) [unfolded verifyAtDoor_Some]
  have "\<exists>(opts, random, nonce)\<in>minted. certStates cert opts \<and> bo_principal opts = name \<and>
      bo_validAfter opts div 1000 \<le> now div 1000 \<and> now div 1000 < bo_validBefore opts div 1000"
    using accepted_minted [OF v [THEN conjunct1] v [THEN conjunct2], of minted grants] assms(2,3) by auto
  then show ?thesis using a possession_cases [of verify cert blob sig] by auto
qed

theorem authenticated_user_was_certified_witness:
  "\<exists>ctx cert. authenticate exampleVerify (replicate 32 9) 1000000 ctx = (Authenticated cert ''agent'', Accept) \<and>
     certStates cert exampleOptions"
proof -
  obtain built cert where m: "buildUserCertificate exampleEncode [] (replicate 32 3) exampleOptions exampleSigner = Inr built"
    "parseCertificateBlob (bc_blob built) = Inr cert" "certStates cert exampleOptions"
    "assertValidUserCertificate exampleVerify cert \<lparr>vo_caPublicKey = replicate 32 9, vo_principal = Some ''agent'',
       vo_now = 1000000, vo_ignoreValidityWindow = False\<rparr> = Inr ()"
    "assertValidUserCertificate exampleVerify cert \<lparr>vo_caPublicKey = replicate 32 9, vo_principal = Some ''agent'',
       vo_now = 99999, vo_ignoreValidityWindow = True\<rparr> = Inr ()"
    by (rule example_minted_accepted)
  note b = m(2,3,4)
  define ctx where "ctx = \<lparr>ax_method = ''publickey'', ax_username = ''agent'',
    ax_key = Some \<lparr>ak_algo = ED25519_CERT_TYPE, ak_data = bc_blob built\<rparr>, ax_signature = Some (replicate 64 1), ax_blob = Some []\<rparr>"
  have "userKey exampleOptions = Inr (cert_publicKey cert)" using b(2) by (simp add: certStates_def)
  then have "cert_publicKey cert \<noteq> replicate 32 9" by (auto simp: userKey_def exampleOptions_def)
  then have "verifyPossession exampleVerify cert [] (replicate 64 1)"
    by (simp add: verifyPossession_def ed25519Verify_def ED25519_SIGNATURE_LENGTH_def exampleVerify_def publicKeyObjectFromRaw_def)
  then have a: "authenticate exampleVerify (replicate 32 9) 1000000 ctx = (Authenticated cert ''agent'', Accept)"
    using b(1,3) by (simp add: authenticate_def ctx_def verifyAtDoor_def)
  show ?thesis using authenticated_user_was_certified [OF a example_signs_only] example_texts a by auto
qed

text \<open>
  The container named is the one of the session that was blessed.  When the resolver answers with a
  container, the grant was issued and has not expired, its ids are well-shaped, the certificate
  was minted for the grant's agent in its workspace and sandbox, and the daemon listed exactly
  that one running container under the label of the grant's sandbox.
\<close>

theorem resolved_container_was_granted:
  assumes "resolverOpen verify fromBase64 listContainers ca now line encoded = Inr (Ready container expires)"
    and "signs_only verify ca (issued minted grants ca)" and "\<forall>(opts, random, nonce)\<in>minted. certTexts opts"
    and "\<forall>g\<in>grants. grantTexts g"
  shows "\<exists>grant\<in>grants. now div 1000 < sgr_expiresAt grant \<and>
           list_all idShape [sgr_sessionId grant, sgr_agentId grant, sgr_sandboxId grant, sgr_workspaceId grant] \<and>
           listContainers [LABEL_MANAGED, LABEL_SANDBOX @ ''='' @ sgr_sandboxId grant] = Some [container] \<and>
           (\<exists>(opts, random, nonce)\<in>minted. bo_principal opts = sgr_agentId grant \<and>
              bo_sandboxId opts = sgr_sandboxId grant \<and> bo_workspaceId opts = sgr_workspaceId grant)"
proof -
  obtain grant cert where g: "verifyArtifacts verify fromBase64 ca now line encoded = Inr (grant, cert)"
    "listContainers [LABEL_MANAGED, LABEL_SANDBOX @ ''='' @ sgr_sandboxId grant] = Some [container]"
    using resolverOpen_Ready [OF assms(1)] by blast
  note v = g(1) [unfolded verifyArtifacts_Inr readCertificate_Inr badField_None sameSubject_Inr]
  have grant: "grant \<in> grants \<and> now div 1000 < sgr_expiresAt grant"
    using v assms(2,4) by (intro accepted_issued [of verify fromBase64 encoded ca]) auto
  obtain blob where blob: "parseCertificateBlob blob = Inr cert" using v line_blob by blast
  have cert: "assertValidUserCertificate verify cert
      \<lparr>vo_caPublicKey = ca, vo_principal = Some (sgr_agentId grant), vo_now = now, vo_ignoreValidityWindow = True\<rparr> = Inr ()"
    using v by blast
  obtain opts random nonce where o: "(opts, random, nonce) \<in> minted" "certStates cert opts"
    using accepted_minted [OF blob cert, of minted grants] assms(2,3) by auto
  have "bo_principal opts = sgr_agentId grant \<and> bo_sandboxId opts = sgr_sandboxId grant \<and>
      bo_workspaceId opts = sgr_workspaceId grant"
    using v o(2) by (simp add: certStates_def)
  moreover have "list_all idShape [sgr_sessionId grant, sgr_agentId grant, sgr_sandboxId grant, sgr_workspaceId grant]"
    using v by simp
  ultimately show ?thesis using grant g(2) o(1) by blast
qed

theorem resolved_container_was_granted_witness:
  "\<exists>line encoded. resolverOpen exampleVerify exampleDecode (\<lambda>labels. Some [''c1'']) (replicate 32 9) 99999 line encoded =
     Inr (Ready ''c1'' 159999) \<and> 99999 div 1000 < sgr_expiresAt exampleGrant"
proof -
  obtain built cert where m: "buildUserCertificate exampleEncode [] (replicate 32 3) exampleOptions exampleSigner = Inr built"
    "parseCertificateBlob (bc_blob built) = Inr cert" "certStates cert exampleOptions"
    "assertValidUserCertificate exampleVerify cert \<lparr>vo_caPublicKey = replicate 32 9, vo_principal = Some ''agent'',
       vo_now = 1000000, vo_ignoreValidityWindow = False\<rparr> = Inr ()"
    "assertValidUserCertificate exampleVerify cert \<lparr>vo_caPublicKey = replicate 32 9, vo_principal = Some ''agent'',
       vo_now = 99999, vo_ignoreValidityWindow = True\<rparr> = Inr ()"
    by (rule example_minted_accepted)
  note b = m(1,2,3,5)
  obtain encoded where e: "signGrant exampleEncode exampleGrant exampleSigner = Inr encoded" using example_signs by blast
  have line: "parseCertificateLine exampleDecode (bc_line built) = Inr cert"
    using built_line [OF b(1) example_texts example_decodes example_spaceless] b(2) by (simp add: exampleEncode_def)
  have "verifyGrant exampleVerify exampleDecode encoded (replicate 32 9) 99999 = Inr exampleGrant"
    using grant_verifies [OF e example_grant_texts example_decodes, of exampleVerify 99999] example_fits
    by (simp add: exampleSigner_def exampleVerify_def grantTbs_Inr) (simp add: exampleGrant_def)
  then have "verifyArtifacts exampleVerify exampleDecode (replicate 32 9) 99999 (bc_line built) encoded = Inr (exampleGrant, cert)"
    using b(3,4) line
    by (simp add: verifyArtifacts_Inr badField_None readCertificate_Inr sameSubject_Inr certStates_def)
      (simp add: exampleGrant_def exampleOptions_def idShape_def)
  then have r: "resolverOpen exampleVerify exampleDecode (\<lambda>labels. Some [''c1'']) (replicate 32 9) 99999 (bc_line built) encoded =
      Inr (Ready ''c1'' 159999)"
    by (simp add: resolverOpen_def TARGET_REUSE_MS_def)
  then show ?thesis
    using resolved_container_was_granted [OF r example_signs_only] example_texts example_grant_texts by auto
qed

end
