(* ===== verification/SshSessionRuns.thy ===== *)
theory SshSessionRuns
  imports SshSessionFacts FrontDoorTheorems
begin

text \<open>How rows, leases and what was certified develop over the runs of the session tables.\<close>

section \<open>Rows over time\<close>

definition sameClosing :: "ssh_session \<Rightarrow> ssh_session \<Rightarrow> bool" where
  "sameClosing r r' \<longleftrightarrow> ss_status r' = ss_status r \<and> ss_closedAt r' = ss_closedAt r \<and> ss_closeReason r' = ss_closeReason r"

text \<open>Where a row of the next state comes from.\<close>

definition descends :: "ssh_db \<Rightarrow> ssh_session \<Rightarrow> bool" where
  "descends s r' \<longleftrightarrow> (\<exists>r\<in>set (sd_sessions s). sameSession r' r \<and> (ss_status r \<noteq> ''open'' \<longrightarrow> sameClosing r r') \<and>
     (ss_lastHeartbeatAt r' = ss_lastHeartbeatAt r \<or>
      (\<exists>attach. Renewing (ss_id r) (ss_lastHeartbeatAt r') attach \<in> set (sd_pending s))))"

lemma descends_refl: "r \<in> set (sd_sessions s) \<Longrightarrow> descends s r"
  by (auto simp: descends_def sameSession_def sameClosing_def)

lemma quiet_rows: "quiet s s' \<Longrightarrow> r' \<in> set (sd_sessions s') \<Longrightarrow> descends s r'"
  by (auto simp: quiet_def intro: descends_refl)

lemma renewed_descends:
  "r' \<in> set (map (renewedRow i stamp attach) (sd_sessions s)) \<Longrightarrow> Renewing i stamp attach \<in> set (sd_pending s) \<Longrightarrow> descends s r'"
  by (auto simp: descends_def renewedRow_def sameSession_def sameClosing_def)

lemma closed_descends: "r' \<in> set (map (closedRow i reason now) (sd_sessions s)) \<Longrightarrow> descends s r'"
  by (auto simp: descends_def closedRow_def sameSession_def sameClosing_def)

lemma resume_rows:
  assumes "a \<in> set (sd_pending s)" and "sd_sessions s1 = sd_sessions s" and "sd_ids s1 = sd_ids s"
    and "r' \<in> set (sd_sessions (resume p a newId random nonce s1))"
  shows "ss_id r' \<notin> set (sd_ids s) \<or> descends s r'"
proof (cases a)
  case (Opening identity em ip)
  show ?thesis
    by (rule openRow_cases [of p identity em ip newId s1])
      (use assms Opening descends_refl in \<open>auto simp: openedRow_def\<close>)
next
  case (Renewing i stamp attach)
  then show ?thesis using assms renewed_descends [of r' i stamp attach s] by simp
next
  case (Closing r reason)
  show ?thesis
    by (rule closeRow_cases [of r reason s1])
      (use assms Closing descends_refl closed_descends [of r' "ss_id r" reason "sd_now s1" s] in auto)
next
  case (Minting m)
  then show ?thesis using assms quiet_rows [of s1 _ r'] mintIssue_quiet [of s1 p m random nonce] by (auto simp: quiet_def intro: descends_refl)
next
  case (Registering actor name raw)
  then show ?thesis using assms createKeyRow_quiet [of s1 p actor name raw newId] by (auto simp: quiet_def intro: descends_refl)
next
  case (Unregistering actor k)
  then show ?thesis using assms deleteKeyRow_quiet [of s1 actor k] by (auto simp: quiet_def intro: descends_refl)
qed (use assms in \<open>auto simp: pruneMints_def intro: descends_refl\<close>)

lemma step_rows:
  assumes "r' \<in> set (sd_sessions (sshStep p s call))"
  shows "ss_id r' \<notin> set (sd_ids s) \<or> descends s r'"
proof (cases call)
  case (Resumed k newId random nonce)
  show ?thesis
  proof (cases "k < length (sd_pending s)")
    case True
    then show ?thesis using assms Resumed resume_rows [of "sd_pending s ! k" s _ r'] by fastforce
  qed (use assms Resumed descends_refl in simp)
qed (use assms in \<open>auto simp: awaiting_def awaitingIf_def intro: descends_refl split: sum.splits\<close>)

lemma step_ids: "set (sd_ids s) \<subseteq> set (sd_ids (sshStep p s call))"
proof (cases call)
  case (Resumed k newId random nonce)
  have "set (sd_ids s1) \<subseteq> set (sd_ids (resume p a newId random nonce s1))" for s1 a
    using mintIssue_quiet [of s1 p _ random nonce] createKeyRow_quiet [of s1 p _ _ _ newId] deleteKeyRow_quiet [of s1]
    by (cases a) (auto simp: quiet_def pruneMints_def openRow_def closeSshSessionRow_def Let_def split: sum.splits)
  then show ?thesis using Resumed by (cases "k < length (sd_pending s)") fastforce+
qed (auto simp: awaiting_def awaitingIf_def split: sum.splits)

lemma closed_stays:
  assumes "sessionsOk p s" and "0 < sp_maxSessionSeconds p" and "r \<in> set (sd_sessions s)" and "ss_status r \<noteq> ''open''"
    and "r' \<in> set (sd_sessions (foldl (sshStep p) s later))" and "ss_id r' = ss_id r"
  shows "sameClosing r r'"
proof -
  have "sessionsOk p (foldl (sshStep p) s later) \<and> set (sd_ids s) \<subseteq> set (sd_ids (foldl (sshStep p) s later)) \<and>
      (\<forall>r'\<in>set (sd_sessions (foldl (sshStep p) s later)). ss_id r' = ss_id r \<longrightarrow> sameClosing r r')"
  proof (induction later rule: rev_induct)
    case Nil
    then show ?case using assms(1,3) row_unique [OF assms(1)] by (auto simp: sameClosing_def)
  next
    case (snoc call later)
    let ?s = "foldl (sshStep p) s later"
    have "ss_id r \<in> set (sd_ids s)" using assms(1,3) by (auto simp: sessionsOk_def)
    then have "sameClosing r r'" if "r' \<in> set (sd_sessions (sshStep p ?s call))" "ss_id r' = ss_id r" for r'
      using step_rows [OF that(1)] that(2) snoc assms(4) by (fastforce simp: descends_def sameSession_def sameClosing_def)
    then show ?case using step_ok [OF _ assms(2)] step_ids [of ?s p call] snoc by auto
  qed
  then show ?thesis using assms(5,6) by blast
qed

section \<open>Revocation\<close>

text \<open>Whether the access law holds for a user and an agent; it depends on the world alone.\<close>

definition entitled :: "ssh_setup \<Rightarrow> string \<Rightarrow> string \<Rightarrow> string \<Rightarrow> access_world \<Rightarrow> bool" where
  "entitled p userId workspaceId agentId world =
     (findAgent agentId workspaceId (emptySshDb\<lparr>sd_world := world\<rparr>) \<noteq> None \<and>
      userMayAccessWorkspace p (emptySshDb\<lparr>sd_world := world\<rparr>) userId workspaceId)"

lemma revoked_iff:
  "revokedReason p r s = None \<longleftrightarrow> entitled p (ss_userId r) (ss_workspaceId r) (ss_agentId r) (sd_world s)"
  by (simp add: revokedReason_def entitled_def findAgent_def userMayAccessWorkspace_def canAccessWorkspaceAsUser_def split: option.split)

definition deniesStill :: "ssh_setup \<Rightarrow> string \<Rightarrow> string \<Rightarrow> string \<Rightarrow> ssh_call \<Rightarrow> bool" where
  "deniesStill p userId workspaceId agentId call =
     (case call of WorldChanges world sandboxes \<Rightarrow> \<not> entitled p userId workspaceId agentId world | _ \<Rightarrow> True)"

definition subject :: "string \<Rightarrow> string \<Rightarrow> string \<Rightarrow> ssh_session \<Rightarrow> bool" where
  "subject userId workspaceId agentId r \<longleftrightarrow> ss_userId r = userId \<and> ss_workspaceId r = workspaceId \<and> ss_agentId r = agentId"

text \<open>What holds from the revocation on: no lease of an older session is or will be stamped later.\<close>

definition frozen :: "string list \<Rightarrow> int \<Rightarrow> (ssh_session \<Rightarrow> bool) \<Rightarrow> ssh_db \<Rightarrow> bool" where
  "frozen ids t P s \<longleftrightarrow> set ids \<subseteq> set (sd_ids s) \<and>
     (\<forall>r\<in>set (sd_sessions s). ss_id r \<in> set ids \<and> P r \<longrightarrow> ss_lastHeartbeatAt r \<le> t \<and>
        (\<forall>stamp attach. Renewing (ss_id r) stamp attach \<in> set (sd_pending s) \<longrightarrow> stamp \<le> t))"

lemma resume_world: "sd_world (resume p a newId random nonce s) = sd_world s"
  by (cases a) (auto simp: mintIssue_def openRow_def createKeyRow_def deleteKeyRow_def pruneMints_def closeSshSessionRow_def Let_def
      split: sum.split option.split)

lemma step_world: "sd_world (sshStep p s call) = (case call of WorldChanges world sandboxes \<Rightarrow> world | _ \<Rightarrow> sd_world s)"
  by (cases call) (simp_all add: awaiting_def awaitingIf_def resume_world split: sum.split)

lemma resume_pending: "sd_pending (resume p a newId random nonce s) = sd_pending s"
  by (cases a) (auto simp: mintIssue_def openRow_def createKeyRow_def deleteKeyRow_def pruneMints_def closeSshSessionRow_def Let_def
      split: sum.split option.split)

text \<open>Who adds a renewal: a beat of a session the law allows.\<close>

lemma step_renewals:
  assumes "Renewing i stamp attach \<in> set (sd_pending (sshStep p s call))"
  shows "Renewing i stamp attach \<in> set (sd_pending s) \<or> (\<exists>r. findSession i s = Some r \<and> revokedReason p r s = None)"
proof (cases call)
  case (BeatCalled j attached)
  then show ?thesis
    using assms by (auto simp: awaiting_def heartbeatSshSession_def split: option.splits if_splits)
next
  case (Resumed k newId random nonce)
  then show ?thesis
    using assms set_take_subset [of k "sd_pending s"] set_drop_subset [of "Suc k" "sd_pending s"]
    by (auto simp: resume_pending split: if_splits)
qed (use assms called_pendings in \<open>auto simp: awaiting_def awaitingIf_def closeSshSession_def sweepSshSessions_def
  split: sum.splits option.splits dest!: called_pendings\<close>)

lemma frozen_step:
  assumes "frozen ids t (subject u w a) s" and "sessionsOk p s" and "\<not> entitled p u w a (sd_world s)"
  shows "frozen ids t (subject u w a) (sshStep p s call)"
proof -
  have "ss_lastHeartbeatAt r' \<le> t \<and> (\<forall>stamp attach. Renewing (ss_id r') stamp attach \<in> set (sd_pending (sshStep p s call)) \<longrightarrow> stamp \<le> t)"
    if r': "r' \<in> set (sd_sessions (sshStep p s call))" "ss_id r' \<in> set ids" "subject u w a r'" for r'
  proof -
    obtain r where r: "r \<in> set (sd_sessions s)" "sameSession r' r" "ss_lastHeartbeatAt r' = ss_lastHeartbeatAt r \<or>
        (\<exists>attach. Renewing (ss_id r) (ss_lastHeartbeatAt r') attach \<in> set (sd_pending s))"
      using step_rows [OF r'(1)] assms(1) r'(2) by (auto simp: descends_def frozen_def)
    have old: "ss_id r \<in> set ids" "subject u w a r" "ss_id r' = ss_id r" using r(2) r'(2,3) by (auto simp: sameSession_def subject_def)
    have "revokedReason p r0 s \<noteq> None" if "findSession (ss_id r) s = Some r0" for r0
      using findSession_Some [OF that] row_unique [OF assms(2) _ r(1), of r0] assms(3) old(2) by (auto simp: revoked_iff subject_def)
    then have "Renewing (ss_id r) stamp attach \<in> set (sd_pending s)"
      if "Renewing (ss_id r') stamp attach \<in> set (sd_pending (sshStep p s call))" for stamp attach
      using step_renewals [OF that] old(3) by auto
    moreover have "ss_lastHeartbeatAt r \<le> t" "\<And>stamp attach. Renewing (ss_id r) stamp attach \<in> set (sd_pending s) \<Longrightarrow> stamp \<le> t"
      using assms(1) r(1) old(1,2) by (auto simp: frozen_def)
    ultimately show ?thesis using r(3) by auto
  qed
  then show ?thesis using assms(1) step_ids [of s p call] by (auto simp: frozen_def)
qed

lemma frozen_run:
  assumes "sessionsOk p s" and "0 < sp_maxSessionSeconds p" and "\<not> entitled p u w a (sd_world s)"
    and "list_all (deniesStill p u w a) later"
  shows "frozen (sd_ids s) (sd_now s) (subject u w a) (foldl (sshStep p) s later)"
proof -
  have "frozen (sd_ids s) (sd_now s) (subject u w a) (foldl (sshStep p) s later) \<and> sessionsOk p (foldl (sshStep p) s later) \<and>
      \<not> entitled p u w a (sd_world (foldl (sshStep p) s later))"
    using assms(4)
  proof (induction later rule: rev_induct)
    case Nil
    have "stamp \<le> sd_now s" if "Renewing (ss_id r) stamp attach \<in> set (sd_pending s)" "r \<in> set (sd_sessions s)" for r stamp attach
      using assms(1) that by (fastforce simp: sessionsOk_def list_all_iff stampOk_def)
    then show ?case using assms(1,3) by (auto simp: frozen_def sessionsOk_def stampOk_def)
  next
    case (snoc call later)
    then have "\<not> entitled p u w a (sd_world (sshStep p (foldl (sshStep p) s later) call))"
      by (auto simp: step_world deniesStill_def split: ssh_call.splits)
    then show ?case using snoc frozen_step step_ok [OF _ assms(2)] by simp
  qed
  then show ?thesis by simp
qed

section \<open>What was certified\<close>

text \<open>A certificate the authority's key verifies stands for this user, agent, sandbox and workspace.\<close>

definition certifiedFor :: "ssh_setup \<Rightarrow> cert_identity \<Rightarrow> bool" where
  "certifiedFor p identity \<longleftrightarrow> (\<exists>signer blob cert now names. sp_signer p = Some signer \<and> parseCertificateBlob blob = Inr cert \<and>
     assertValidUserCertificate (sp_verify p) cert
       \<lparr>vo_caPublicKey = sg_publicKey signer, vo_principal = None, vo_now = now, vo_ignoreValidityWindow = False\<rparr> = Inr () \<and>
     cert_principals cert = ci_agentId identity # names \<and>
     getExtensionValue cert CERT_EXT_SANDBOX_ID = Inr (Some (ci_sandboxId identity)) \<and>
     getExtensionValue cert CERT_EXT_WORKSPACE_ID = Inr (Some (ci_workspaceId identity)) \<and>
     getExtensionValue cert CERT_EXT_USER_ID = Inr (Some (ci_userId identity)))"

lemma presented_certified:
  assumes "verifyPresentedCertificate p now line = Inr identity"
  shows "certifiedFor p identity"
proof -
  obtain signer where signer: "sp_signer p = Some signer" "requireSigner p = Inr signer"
    using assms by (auto simp: verifyPresentedCertificate_def requireSigner_def try_then_def split: option.splits if_splits)
  obtain cert where cert: "parseCertificateLine (sp_fromBase64 p) line = Inr cert"
    using assms signer by (auto simp: verifyPresentedCertificate_def try_then_def split: sum.splits)
  let ?v = "assertValidUserCertificate (sp_verify p) cert
      \<lparr>vo_caPublicKey = sg_publicKey signer, vo_principal = None, vo_now = now, vo_ignoreValidityWindow = False\<rparr>"
  have valid: "?v = Inr ()"
    using assms signer cert by (cases ?v) (auto simp: verifyPresentedCertificate_def try_then_def split: certificate_reason.splits)
  have fields: "\<exists>names sandboxId workspaceId userId.
      getExtensionValue cert CERT_EXT_SANDBOX_ID = Inr (Some sandboxId) \<and> getExtensionValue cert CERT_EXT_WORKSPACE_ID = Inr (Some workspaceId) \<and>
      getExtensionValue cert CERT_EXT_USER_ID = Inr (Some userId) \<and> cert_principals cert = ci_agentId identity # names \<and>
      ci_sandboxId identity = sandboxId \<and> ci_workspaceId identity = workspaceId \<and> ci_userId identity = userId"
    using assms signer cert valid
    by (auto simp: verifyPresentedCertificate_def try_then_def thrown_def Let_def SimRule.truthy_def split: sum.splits list.splits option.splits if_splits)
  obtain blob where "parseCertificateBlob blob = Inr cert" using line_blob [OF cert] by blast
  then show ?thesis using signer(1) valid fields by (auto simp: certifiedFor_def)
qed

definition grantAudited :: "ssh_setup \<Rightarrow> ssh_audit list \<Rightarrow> ssh_session_grant \<Rightarrow> bool" where
  "grantAudited p audit g \<longleftrightarrow> (\<exists>identity em ip. certifiedFor p identity \<and>
     sgr_agentId g = ci_agentId identity \<and> sgr_sandboxId g = ci_sandboxId identity \<and> sgr_workspaceId g = ci_workspaceId identity \<and>
     SessionOpened (ci_workspaceId identity) (ci_userId identity) em (ci_agentId identity) (sgr_sessionId g) (ci_serial identity) ip \<in> set audit)"

definition mintAudited :: "ssh_audit list \<Rightarrow> build_options \<times> buffer \<times> buffer \<Rightarrow> bool" where
  "mintAudited audit m \<longleftrightarrow> (\<exists>em n ttl k.
     CertMinted (bo_workspaceId (fst m)) (bo_userId (fst m)) em (bo_principal (fst m)) n ttl k \<in> set audit)"

definition authOk :: "ssh_setup \<Rightarrow> ssh_db \<Rightarrow> bool" where
  "authOk p s \<longleftrightarrow>
     (\<forall>identity em ip. Opening identity em ip \<in> set (sd_pending s) \<longrightarrow> certifiedFor p identity) \<and>
     (\<forall>g\<in>set (sd_granted s). grantAudited p (sd_audit s) g) \<and> (\<forall>m\<in>set (sd_minted s). mintAudited (sd_audit s) m)"

lemma audited_mono:
  "set audit \<subseteq> set audit' \<Longrightarrow> grantAudited p audit g \<Longrightarrow> grantAudited p audit' g"
  "set audit \<subseteq> set audit' \<Longrightarrow> mintAudited audit m \<Longrightarrow> mintAudited audit' m"
  unfolding grantAudited_def mintAudited_def by (blast, blast)

lemma authOk_mono:
  assumes "authOk p s" and "set (sd_audit s) \<subseteq> set (sd_audit s')"
    and "\<And>g. g \<in> set (sd_granted s') \<Longrightarrow> g \<in> set (sd_granted s) \<or> grantAudited p (sd_audit s') g"
    and "\<And>m. m \<in> set (sd_minted s') \<Longrightarrow> m \<in> set (sd_minted s) \<or> mintAudited (sd_audit s') m"
    and "\<And>identity em ip. Opening identity em ip \<in> set (sd_pending s') \<Longrightarrow> certifiedFor p identity"
  shows "authOk p s'"
  using assms audited_mono [OF assms(2)] unfolding authOk_def by blast

text \<open>An operation that releases nothing only adds to the audit log.\<close>

lemma authOk_releases_nothing:
  assumes "authOk p s" and "set (sd_audit s) \<subseteq> set (sd_audit s')" and "sd_granted s' = sd_granted s" and "sd_minted s' = sd_minted s"
    and "\<And>identity em ip. Opening identity em ip \<in> set (sd_pending s') \<Longrightarrow>
      Opening identity em ip \<in> set (sd_pending s) \<or> certifiedFor p identity"
  shows "authOk p s'"
proof (rule authOk_mono [OF assms(1,2)])
  fix identity em ip
  assume "Opening identity em ip \<in> set (sd_pending s')"
  then show "certifiedFor p identity" using assms(1,5) unfolding authOk_def by blast
qed (use assms(3,4) in simp_all)

lemma mintIssue_auth:
  assumes "authOk p s"
  shows "authOk p (fst (mintIssue p m random nonce s))"
proof -
  let ?s = "fst (mintIssue p m random nonce s)"
  have "sd_granted ?s = sd_granted s \<and> sd_pending ?s = sd_pending s \<and> set (sd_audit s) \<subseteq> set (sd_audit ?s) \<and>
      (sd_minted ?s = sd_minted s \<or> sd_minted ?s = sd_minted s @ [(mintOptions p (sd_now s) m, random, nonce)] \<and>
        (\<exists>n ttl k. CertMinted (mn_workspaceId m) (mn_userId m) (mn_userEmail m) (mn_agentId m) n ttl k \<in> set (sd_audit ?s)))"
    by (auto simp: mintIssue_def Let_def split: sum.split option.split)
  then show ?thesis
    using assms by (intro authOk_mono [OF assms]) (auto simp: authOk_def mintAudited_def mintOptions_def)
qed

lemma openRow_auth:
  assumes "authOk p s" and "certifiedFor p identity"
  shows "authOk p (fst (openRow p identity em ip newId s))"
proof -
  let ?s = "fst (openRow p identity em ip newId s)"
  let ?g = "\<lparr>sgr_sessionId = newId, sgr_agentId = ci_agentId identity, sgr_sandboxId = ci_sandboxId identity,
    sgr_workspaceId = ci_workspaceId identity, sgr_expiresAt = sd_now s div 1000 + sp_maxSessionSeconds p\<rparr>"
  have "sd_minted ?s = sd_minted s \<and> sd_pending ?s = sd_pending s \<and> set (sd_audit s) \<subseteq> set (sd_audit ?s) \<and>
      (sd_granted ?s = sd_granted s \<or> sd_granted ?s = sd_granted s @ [?g] \<and>
        SessionOpened (ci_workspaceId identity) (ci_userId identity) em (ci_agentId identity) newId (ci_serial identity) ip \<in> set (sd_audit ?s))"
    by (auto simp: openRow_def Let_def split: sum.split)
  then show ?thesis
    using assms by (intro authOk_mono [OF assms(1)]) (auto simp: authOk_def grantAudited_def)
qed

lemma step_auth:
  assumes "authOk p s"
  shows "authOk p (sshStep p s call)"
proof (cases call)
  case (OpenCalled line ip)
  then show ?thesis
    using assms presented_certified called_pendings(1) [of p line ip s]
    by (intro authOk_releases_nothing [OF assms]) (auto simp: awaiting_def awaitingIf_def openSshSession_def try_then_def
        split: sum.splits option.splits if_splits)
next
  case (Resumed k newId random nonce)
  show ?thesis
  proof (cases "k < length (sd_pending s)")
    case True
    let ?s = "s\<lparr>sd_pending := take k (sd_pending s) @ drop (Suc k) (sd_pending s)\<rparr>"
    have s: "authOk p ?s"
      using assms set_take_subset [of k "sd_pending s"] set_drop_subset [of "Suc k" "sd_pending s"]
      by (intro authOk_releases_nothing [OF assms]) auto
    have "authOk p (resume p a newId random nonce ?s)" if "a \<in> set (sd_pending s)" for a
    proof (cases a)
      case (Opening identity em ip)
      then have "certifiedFor p identity" using assms that unfolding authOk_def by blast
      then show ?thesis using openRow_auth [OF s] Opening by simp
    qed (use mintIssue_auth [OF s] s in \<open>auto simp: createKeyRow_def deleteKeyRow_def pruneMints_def closeSshSessionRow_def Let_def
        intro!: authOk_releases_nothing [OF s] split: sum.split\<close>)
    then show ?thesis using True Resumed by simp
  qed (use assms Resumed in simp)
qed (use assms in \<open>auto simp: awaiting_def awaitingIf_def intro!: authOk_releases_nothing [OF assms] split: sum.splits
    dest!: called_pendings, auto simp: heartbeatSshSession_def closeSshSession_def sweepSshSessions_def split: option.splits if_splits\<close>)

lemma run_auth: "authOk p (sshRun p calls)"
proof (induction calls rule: rev_induct)
  case Nil
  show ?case by (simp add: sshRun_def emptySshDb_def authOk_def)
next
  case (snoc call calls)
  then show ?case using step_auth by (simp add: sshRun_def)
qed

end
