(* ===== verification/SshSessionTheorems.thy ===== *)
theory SshSessionTheorems
  imports SshSessionRuns
begin

text \<open>What the sessions of the SSH front door promise over every run of the control plane.\<close>

section \<open>An example run\<close>

definition doorOptions :: build_options where
  "doorOptions = \<lparr>bo_userPublicKey = replicate 32 7,
     bo_keyId = json_stringify (JObj [(''u'', JStr ''user''), (''e'', JStr ''e''), (''a'', JStr ''agent''), (''w'', JStr ''ws'')]),
     bo_principal = ''agent'', bo_validAfter = 940000, bo_validBefore = 1600000, bo_sandboxId = ''box'', bo_workspaceId = ''ws'',
     bo_userId = ''user'', bo_serial = None\<rparr>"

definition doorGrant :: ssh_session_grant where
  "doorGrant = \<lparr>sgr_sessionId = ''s'', sgr_agentId = ''agent'', sgr_sandboxId = ''box'', sgr_workspaceId = ''ws'', sgr_expiresAt = 1100\<rparr>"

definition doorVerify :: verifier where
  "doorVerify k m sig =
     (k \<noteq> publicKeyObjectFromRaw (replicate 32 9) \<or>
      certTbs doorOptions [] (replicate 32 3) (replicate 32 9) = Inr m \<or> grantTbs doorGrant = Inr m)"

definition doorDecode :: "string \<Rightarrow> buffer" where
  "doorDecode t = (if t = ''k'' then keyBytes (replicate 32 7) else exampleDecode t)"

definition doorSetup :: ssh_setup where
  "doorSetup = \<lparr>sp_host = ''h'', sp_port = 22, sp_signer = Some exampleSigner, sp_rbac = False, sp_certTtlSeconds = 600,
     sp_mintsPerHour = 30, sp_maxSessionsPerAgent = 8, sp_maxSessionSeconds = 100, sp_idleTimeoutSeconds = 30, sp_leaseSeconds = 90,
     sp_toBase64 = exampleEncode, sp_fromBase64 = doorDecode, sp_sha256 = (\<lambda>b. b), sp_verify = doorVerify\<rparr>"

lemma door_simps [simp]:
  "sp_host doorSetup = ''h''" "sp_port doorSetup = 22" "sp_signer doorSetup = Some exampleSigner" "\<not> sp_rbac doorSetup"
  "sp_certTtlSeconds doorSetup = 600" "sp_mintsPerHour doorSetup = 30" "sp_maxSessionsPerAgent doorSetup = 8"
  "sp_maxSessionSeconds doorSetup = 100" "sp_leaseSeconds doorSetup = 90" "sp_toBase64 doorSetup = exampleEncode"
  "sp_fromBase64 doorSetup = doorDecode" "sp_verify doorSetup = doorVerify" "requireSigner doorSetup = Inr exampleSigner"
  by (simp_all add: doorSetup_def requireSigner_def)

definition doorWorld :: access_world where
  "doorWorld = \<lparr>aw_agents = [\<lparr>sa_id = ''agent'', sa_workspaceId = ''ws'', sa_kind = ''hosted''\<rparr>], aw_users = [\<lparr>su_id = ''user'', su_email = ''e''\<rparr>],
     aw_workspaces = [\<lparr>wr_id = ''ws'', wr_organizationId = ''org''\<rparr>],
     aw_members = [\<lparr>om_organizationId = ''org'', om_userId = ''user'', om_status = ''active''\<rparr>], aw_checker = None\<rparr>"

definition doorBox :: "string \<Rightarrow> string option \<Rightarrow> sandbox_row" where
  "doorBox status reason = \<lparr>sb_id = ''box'', sb_agentId = ''agent'', sb_status = status, sb_wakeReason = reason, sb_lastActiveAt = None, sb_lastEngagedAt = None\<rparr>"

definition doorIntent :: mint_intent where
  "doorIntent = \<lparr>mn_workspaceId = ''ws'', mn_userId = ''user'', mn_userEmail = ''e'', mn_agentId = ''agent'', mn_sandboxId = ''box'',
     mn_userKey = replicate 32 7, mn_fromKeyId = None\<rparr>"

definition doorMint :: "ssh_call list" where
  "doorMint = [TimePasses 1000000, WorldChanges doorWorld [doorBox ''stopped'' None],
     MintCalled ''ws'' ''user'' ''e'' ''agent'' (PastedLine ''ssh-ed25519 k''), Resumed 0 [] [] (replicate 32 3)]"

definition doorOpen :: "string \<Rightarrow> ssh_call list" where
  "doorOpen line = [OpenCalled line ''ip'', Resumed 0 ''s'' [] []]"

lemma door_decodes: "doorDecode (exampleEncode b) = b"
proof -
  have "length (exampleEncode b) = 2 * length b" by (induction b) (simp_all add: exampleEncode_def)
  then have "exampleEncode b \<noteq> ''k''" by auto
  then show ?thesis by (simp add: doorDecode_def example_decodes)
qed

lemma door_line: "parseEd25519PublicKeyLine doorDecode ''ssh-ed25519 k'' = Inr (replicate 32 7)"
proof -
  have "splitSpaces (js_trim ''ssh-ed25519 k'') = [''ssh-ed25519'', ''k'']"
    using splitSpaces_two [of "''ssh-ed25519''" "''k''"] by (simp add: is_space_def)
  moreover have "keyBytes (replicate 32 7) \<noteq> []" by (simp add: keyBytes_def putString_def)
  ultimately show ?thesis
    by (simp add: parseEd25519PublicKeyLine_def doorDecode_def ED25519_KEY_TYPE_def parseEd25519KeyBlob_Inr)
qed

lemma door_keyId: "bo_keyId doorOptions = ''{\"u\":\"user\",\"e\":\"e\",\"a\":\"agent\",\"w\":\"ws\"}''"
  by code_simp

lemma door_texts: "certTexts doorOptions" "grantTexts doorGrant"
  by (simp_all add: certTexts_def grantTexts_def door_keyId wellFormed_ascii) (simp_all add: doorOptions_def doorGrant_def wellFormed_ascii)

lemma door_builds: "\<exists>built. buildUserCertificate exampleEncode [] (replicate 32 3) doorOptions exampleSigner = Inr built"
proof -
  have k: "userKey doorOptions = Inr (replicate 32 7)" by (simp add: userKey_def doorOptions_def)
  have "layoutFits (mintedLayout doorOptions [] (replicate 32 3) (replicate 32 9) (replicate 32 7))"
    unfolding layoutFits_def mintedLayout_def door_keyId
    by (simp add: shortBuffer_def packStrings_def putString_def keyBytes_def doorOptions_def CERT_EXT_PERMIT_PTY_def CERT_EXT_SANDBOX_ID_def
        CERT_EXT_USER_ID_def CERT_EXT_WORKSPACE_ID_def ED25519_KEY_TYPE_def SSH_CERT_TYPE_USER_def certSerial_def)
  then have "certTbs doorOptions [] (replicate 32 3) (replicate 32 9) =
      Inr (layoutBytes (mintedLayout doorOptions [] (replicate 32 3) (replicate 32 9) (replicate 32 7)))"
    using certTbs_succeeds [OF k] by (simp add: doorOptions_def)
  then show ?thesis using build_succeeds [of doorOptions "[]" "replicate 32 3" exampleSigner] by (simp add: exampleSigner_def)
qed

lemma door_signs_only:
  "signs_only doorVerify (replicate 32 9) (issued {(doorOptions, [], replicate 32 3)} {doorGrant} (replicate 32 9))"
  by (auto simp: signs_only_def ed25519Verify_def doorVerify_def issued_def split: if_splits)

definition doorIdentity :: cert_identity where
  "doorIdentity = \<lparr>ci_serial = 0, ci_agentId = ''agent'', ci_sandboxId = ''box'', ci_workspaceId = ''ws'', ci_userId = ''user''\<rparr>"

definition doorMinted :: ssh_db where
  "doorMinted = emptySshDb\<lparr>sd_now := 1000000, sd_world := doorWorld, sd_sandboxes := [doorBox ''unprovisioned'' None],
     sd_mints := [\<lparr>mi_userId = ''user'', mi_agentId = ''agent'', mi_createdAt = 1000000\<rparr>],
     sd_audit := [CertMinted ''ws'' ''user'' ''e'' ''agent'' 0 600 None], sd_minted := [(doorOptions, [], replicate 32 3)]\<rparr>"

definition doorRow :: ssh_session where
  "doorRow = openedRow doorIdentity ''e'' ''ip'' ''s'' 1000000"

definition doorOpened :: ssh_db where
  "doorOpened = doorMinted\<lparr>sd_sessions := [doorRow], sd_ids := [''s''],
     sd_audit := [CertMinted ''ws'' ''user'' ''e'' ''agent'' 0 600 None, openedEvent doorRow], sd_granted := [doorGrant]\<rparr>"

lemma door_serial:
  "buildUserCertificate exampleEncode [] (replicate 32 3) doorOptions exampleSigner = Inr built \<Longrightarrow> bc_serial built = 0"
proof -
  assume "buildUserCertificate exampleEncode [] (replicate 32 3) doorOptions exampleSigner = Inr built"
  then have "bc_serial built = certSerial doorOptions []" using build_minted by blast
  then show ?thesis by (simp add: certSerial_def doorOptions_def)
qed

lemma door_mints:
  assumes "buildUserCertificate exampleEncode [] (replicate 32 3) doorOptions exampleSigner = Inr built"
  shows "sshRun doorSetup doorMint = doorMinted"
proof -
  let ?s = "emptySshDb\<lparr>sd_now := 1000000, sd_world := doorWorld, sd_sandboxes := [doorBox ''stopped'' None]\<rparr>"
  have "mintSshCertificate doorSetup ''ws'' ''user'' ''e'' ''agent'' (PastedLine ''ssh-ed25519 k'') ?s = Inr (Minting doorIntent)"
    by (simp add: mintSshCertificate_def try_then_def findAgent_def sandboxOf_def mintKey_def door_line doorWorld_def doorBox_def
        doorIntent_def emptySshDb_def)
  moreover have "mintOptions doorSetup 1000000 doorIntent = doorOptions"
    by (simp add: mintOptions_def doorIntent_def doorOptions_def)
  moreover have "bc_serial built = 0" using door_serial [OF assms] .
  ultimately show ?thesis
    using assms
    by (simp add: sshRun_def doorMint_def emptySshDb_def awaitingIf_def awaiting_def mintIssue_def try_then_def thrown_def Let_def
        recordAuditEvent_def wakeSandboxFor_def doorIntent_def doorBox_def doorMinted_def doorWorld_def)
qed

lemma door_example:
  obtains built cert encoded where
    "buildUserCertificate exampleEncode [] (replicate 32 3) doorOptions exampleSigner = Inr built"
    "parseCertificateLine doorDecode (bc_line built) = Inr cert" "certStates cert doorOptions"
    "assertValidUserCertificate doorVerify cert \<lparr>vo_caPublicKey = replicate 32 9, vo_principal = None,
       vo_now = 1000000, vo_ignoreValidityWindow = False\<rparr> = Inr ()"
    "assertValidUserCertificate doorVerify cert \<lparr>vo_caPublicKey = replicate 32 9, vo_principal = Some ''agent'',
       vo_now = 1000000, vo_ignoreValidityWindow = True\<rparr> = Inr ()"
    "cert_serial cert = 0" "signGrant exampleEncode doorGrant exampleSigner = Inr encoded"
    "verifyGrant doorVerify doorDecode encoded (replicate 32 9) 1000000 = Inr doorGrant"
proof -
  obtain built where b: "buildUserCertificate exampleEncode [] (replicate 32 3) doorOptions exampleSigner = Inr built"
    using door_builds by blast
  obtain cert where c: "parseCertificateBlob (bc_blob built) = Inr cert" "certStates cert doorOptions" "cert_serial cert = bc_serial built"
    using build_parses [OF b door_texts(1)] by blast
  have line: "parseCertificateLine doorDecode (bc_line built) = Inr cert"
    using built_line [OF b door_texts(1) door_decodes example_spaceless] c(1) by (simp add: exampleEncode_def)
  have v: "doorVerify (publicKeyObjectFromRaw (sg_publicKey exampleSigner)) tbs (sg_sign exampleSigner tbs)"
    if "certTbs doorOptions [] (replicate 32 3) (sg_publicKey exampleSigner) = Inr tbs" for tbs
    using that by (simp add: doorVerify_def exampleSigner_def)
  have verdict: "assertValidUserCertificate doorVerify cert vo = Inr ()"
    if "vo_caPublicKey vo = replicate 32 9" "vo_now vo = 1000000" "vo_principal vo \<in> {None, Some ''agent''}" for vo
    using minted_verdict [where verify = doorVerify and vo = vo, OF b door_texts(1)] v c(1) that
    by (auto simp: exampleSigner_def doorOptions_def)
  have fits: "grantFits doorGrant" by (simp add: grantFits_def doorGrant_def shortBuffer_def)
  obtain encoded where e: "signGrant exampleEncode doorGrant exampleSigner = Inr encoded"
    using grantTbs_Inr [of doorGrant "grantBytes doorGrant"] fits
    by (simp add: signGrant_def writing exampleSigner_def ED25519_SIGNATURE_LENGTH_def shortBuffer_def)
  have g: "verifyGrant doorVerify doorDecode encoded (replicate 32 9) 1000000 = Inr doorGrant"
    using grant_verifies [OF e door_texts(2) door_decodes, of doorVerify 1000000] fits
    by (simp add: exampleSigner_def doorVerify_def grantTbs_Inr) (simp add: doorGrant_def)
  have "cert_serial cert = 0" using door_serial [OF b] c(3) by simp
  then show thesis by (intro that [OF b line c(2) _ _ _ e g]) (simp_all add: verdict)
qed

lemma door_opens:
  assumes "buildUserCertificate exampleEncode [] (replicate 32 3) doorOptions exampleSigner = Inr built"
    and "parseCertificateLine doorDecode (bc_line built) = Inr cert" and "certStates cert doorOptions"
    and "assertValidUserCertificate doorVerify cert \<lparr>vo_caPublicKey = replicate 32 9, vo_principal = None,
       vo_now = 1000000, vo_ignoreValidityWindow = False\<rparr> = Inr ()"
    and "cert_serial cert = 0" and "signGrant exampleEncode doorGrant exampleSigner = Inr encoded"
  shows "sshRun doorSetup (doorMint @ doorOpen (bc_line built)) = doorOpened"
proof -
  have v: "verifyPresentedCertificate doorSetup 1000000 (bc_line built) = Inr doorIdentity"
    using assms(2-5) by (simp add: verifyPresentedCertificate_def try_then_def thrown_def certStates_def SimRule.truthy_def doorOptions_def
        doorIdentity_def exampleSigner_def)
  have o: "openSshSession doorSetup (bc_line built) ''ip'' doorMinted = Inr (Opening doorIdentity ''e'' ''ip'')"
    by (simp add: openSshSession_def try_then_def v doorMinted_def)
      (simp add: findAgent_def sandboxOf_def userMayAccessWorkspace_def canAccessWorkspaceAsUser_def doorIdentity_def doorWorld_def doorBox_def)
  have g: "\<lparr>sgr_sessionId = ''s'', sgr_agentId = ''agent'', sgr_sandboxId = ''box'', sgr_workspaceId = ''ws'', sgr_expiresAt = 1100\<rparr> = doorGrant"
    by (simp add: doorGrant_def)
  have "sshRun doorSetup (doorMint @ doorOpen (bc_line built)) = foldl (sshStep doorSetup) doorMinted (doorOpen (bc_line built))"
    using door_mints [OF assms(1)] by (simp add: sshRun_def)
  also have "\<dots> = fst (openRow doorSetup doorIdentity ''e'' ''ip'' ''s'' doorMinted)"
    using o by (simp add: doorOpen_def awaitingIf_def awaiting_def) (simp add: doorMinted_def emptySshDb_def)
  also have "\<dots> = doorOpened"
    using assms(6) g
    by (simp add: openRow_def liveSessions_def doorMinted_def emptySshDb_def doorIdentity_def doorBox_def Let_def recordAuditEvent_def
        wakeSandboxFor_def try_then_def thrown_def doorOpened_def doorRow_def openedRow_def openedEvent_def)
  finally show ?thesis .
qed

section \<open>Claims\<close>

text \<open>
  C12: a container is named only for a session that was opened for a user who had been given a
  certificate.  When the resolver answers with a container after any run of the control plane, whatever
  was asked and in whatever order it was written, the grant was released for a session that was audited
  when it opened, its user had a certificate minted for the same agent, workspace and sandbox, also
  audited, and the container is the only one the daemon lists for that sandbox, provided the
  authority's key verifies only what was released.\<close>

theorem resolved_session_was_opened:
  assumes "resolverOpen (sp_verify p) fromBase64 listContainers (sg_publicKey signer) now line encoded = Inr (Ready container expires)"
    and "sp_signer p = Some signer"
    and "signs_only (sp_verify p) (sg_publicKey signer)
      (issued (set (sd_minted (sshRun p calls))) (set (sd_granted (sshRun p calls))) (sg_publicKey signer))"
    and "list_all (\<lambda>m. certTexts (fst m)) (sd_minted (sshRun p calls))" and "list_all grantTexts (sd_granted (sshRun p calls))"
  shows "\<exists>grant\<in>set (sd_granted (sshRun p calls)). \<exists>(opts, random, nonce)\<in>set (sd_minted (sshRun p calls)).
    now div 1000 < sgr_expiresAt grant \<and>
    listContainers [LABEL_MANAGED, LABEL_SANDBOX @ ''='' @ sgr_sandboxId grant] = Some [container] \<and>
    bo_principal opts = sgr_agentId grant \<and> bo_sandboxId opts = sgr_sandboxId grant \<and> bo_workspaceId opts = sgr_workspaceId grant \<and>
    (\<exists>em serial ip. SessionOpened (sgr_workspaceId grant) (bo_userId opts) em (sgr_agentId grant) (sgr_sessionId grant) serial ip
       \<in> set (sd_audit (sshRun p calls))) \<and>
    (\<exists>em serial ttl key. CertMinted (sgr_workspaceId grant) (bo_userId opts) em (sgr_agentId grant) serial ttl key
       \<in> set (sd_audit (sshRun p calls)))"
proof -
  let ?s = "sshRun p calls"
  obtain grant cert where g: "verifyArtifacts (sp_verify p) fromBase64 (sg_publicKey signer) now line encoded = Inr (grant, cert)"
    "listContainers [LABEL_MANAGED, LABEL_SANDBOX @ ''='' @ sgr_sandboxId grant] = Some [container]"
    using resolverOpen_Ready [OF assms(1)] by blast
  have grant: "grant \<in> set (sd_granted ?s) \<and> now div 1000 < sgr_expiresAt grant"
    using g(1) assms(3,5) by (intro accepted_issued [of _ fromBase64 encoded]) (auto simp: verifyArtifacts_Inr list_all_iff)
  obtain identity em ip where i: "certifiedFor p identity" "sgr_agentId grant = ci_agentId identity"
    "sgr_sandboxId grant = ci_sandboxId identity" "sgr_workspaceId grant = ci_workspaceId identity"
    "SessionOpened (ci_workspaceId identity) (ci_userId identity) em (ci_agentId identity) (sgr_sessionId grant) (ci_serial identity) ip \<in> set (sd_audit ?s)"
    using run_auth [of p calls] grant unfolding authOk_def grantAudited_def by blast
  obtain blob c at names where c: "parseCertificateBlob blob = Inr c" "assertValidUserCertificate (sp_verify p) c
      \<lparr>vo_caPublicKey = sg_publicKey signer, vo_principal = None, vo_now = at, vo_ignoreValidityWindow = False\<rparr> = Inr ()"
    "cert_principals c = ci_agentId identity # names" "getExtensionValue c CERT_EXT_SANDBOX_ID = Inr (Some (ci_sandboxId identity))"
    "getExtensionValue c CERT_EXT_WORKSPACE_ID = Inr (Some (ci_workspaceId identity))"
    "getExtensionValue c CERT_EXT_USER_ID = Inr (Some (ci_userId identity))"
    using i(1) assms(2) by (auto simp: certifiedFor_def)
  have "\<forall>(opts, random, nonce)\<in>set (sd_minted ?s). certTexts opts" using assms(4) by (auto simp: list_all_iff)
  from accepted_minted [OF c(1,2) _ this, of "set (sd_granted ?s)"]
  obtain opts random nonce where o: "(opts, random, nonce) \<in> set (sd_minted ?s)" "certStates c opts" using assms(3) by auto
  have same: "bo_principal opts = ci_agentId identity" "bo_sandboxId opts = ci_sandboxId identity"
    "bo_workspaceId opts = ci_workspaceId identity" "bo_userId opts = ci_userId identity"
    using o(2) c(3-6) by (simp_all add: certStates_def)
  have "mintAudited (sd_audit ?s) (opts, random, nonce)" using run_auth [of p calls] o(1) unfolding authOk_def by blast
  then show ?thesis
    using grant g(2) i same by (intro bexI [OF _ grant [THEN conjunct1]] bexI [OF _ o(1)]) (auto simp: mintAudited_def)
qed

lemma resolved_session_was_opened_witness:
  "\<exists>calls line encoded. sshRun doorSetup calls = doorOpened \<and>
     resolverOpen doorVerify doorDecode (\<lambda>labels. Some [''c1'']) (replicate 32 9) 1000000 line encoded = Inr (Ready ''c1'' 1060000) \<and>
     SessionOpened ''ws'' ''user'' ''e'' ''agent'' ''s'' 0 ''ip'' \<in> set (sd_audit doorOpened)"
proof -
  obtain built cert encoded where b: "buildUserCertificate exampleEncode [] (replicate 32 3) doorOptions exampleSigner = Inr built"
    "parseCertificateLine doorDecode (bc_line built) = Inr cert" "certStates cert doorOptions"
    "assertValidUserCertificate doorVerify cert \<lparr>vo_caPublicKey = replicate 32 9, vo_principal = None,
       vo_now = 1000000, vo_ignoreValidityWindow = False\<rparr> = Inr ()"
    "assertValidUserCertificate doorVerify cert \<lparr>vo_caPublicKey = replicate 32 9, vo_principal = Some ''agent'',
       vo_now = 1000000, vo_ignoreValidityWindow = True\<rparr> = Inr ()"
    "cert_serial cert = 0" "signGrant exampleEncode doorGrant exampleSigner = Inr encoded"
    "verifyGrant doorVerify doorDecode encoded (replicate 32 9) 1000000 = Inr doorGrant"
    by (rule door_example)
  define calls where "calls = doorMint @ doorOpen (bc_line built)"
  have run: "sshRun doorSetup calls = doorOpened" unfolding calls_def by (rule door_opens [OF b(1-4,6,7)])
  have "verifyArtifacts doorVerify doorDecode (replicate 32 9) 1000000 (bc_line built) encoded = Inr (doorGrant, cert)"
    using b(2,3,5,8) by (simp add: verifyArtifacts_Inr badField_None readCertificate_Inr sameSubject_Inr certStates_def)
      (simp add: doorGrant_def doorOptions_def idShape_def)
  then have r: "resolverOpen doorVerify doorDecode (\<lambda>labels. Some [''c1'']) (replicate 32 9) 1000000 (bc_line built) encoded =
      Inr (Ready ''c1'' 1060000)"
    by (simp add: resolverOpen_def TARGET_REUSE_MS_def)
  have ca: "sg_publicKey exampleSigner = replicate 32 9" by (simp add: exampleSigner_def)
  have "\<exists>grant\<in>set (sd_granted doorOpened). \<exists>(opts, random, nonce)\<in>set (sd_minted doorOpened).
      \<exists>em serial ip. SessionOpened (sgr_workspaceId grant) (bo_userId opts) em (sgr_agentId grant) (sgr_sessionId grant) serial ip
        \<in> set (sd_audit doorOpened)"
    using resolved_session_was_opened [of doorSetup doorDecode "\<lambda>labels. Some [''c1'']" exampleSigner 1000000 "bc_line built" encoded
        "''c1''" 1060000 calls] r run door_signs_only door_texts ca
    by (simp add: doorOpened_def doorMinted_def)
  then have "SessionOpened ''ws'' ''user'' ''e'' ''agent'' ''s'' 0 ''ip'' \<in> set (sd_audit doorOpened)"
    by (auto simp: doorOpened_def doorMinted_def doorGrant_def doorOptions_def openedEvent_def doorRow_def openedRow_def doorIdentity_def)
  then show ?thesis using run r by blast
qed

text \<open>
  C13: a session closes once.  After any run, however the beats, the closes and the sweeps of a session
  interleave, the audit log has one opening event of each session in the table, an open one has no closing
  event and a closed one exactly its own, with the reason and the duration of its row; no session ever has
  two of either, and a closed row keeps its state, time and reason in every later state.\<close>

theorem session_closes_once:
  assumes "0 < sp_maxSessionSeconds p"
  shows "list_all (lifeOk (sd_audit (sshRun p calls))) (sd_sessions (sshRun p calls)) \<and>
    length (openings (sd_audit (sshRun p calls)) i) \<le> 1 \<and> length (closings (sd_audit (sshRun p calls)) i) \<le> 1 \<and>
    list_all (\<lambda>r. ss_status r \<noteq> ''open'' \<longrightarrow> list_all (\<lambda>r'. ss_id r' = ss_id r \<longrightarrow> sameClosing r r') (sd_sessions (sshRun p (calls @ later))))
      (sd_sessions (sshRun p calls))"
proof -
  have ok: "sessionsOk p (sshRun p calls)" by (rule run_sessionsOk [OF assms])
  have "sshRun p (calls @ later) = foldl (sshStep p) (sshRun p calls) later" by (simp add: sshRun_def)
  then show ?thesis using ok closed_stays [OF ok assms] by (auto simp: sessionsOk_def eventsOk_def list_all_iff)
qed

lemma session_closes_once_witness:
  "\<exists>calls. map ss_status (sd_sessions (sshRun doorSetup calls)) = [''closed''] \<and>
     length (closings (sd_audit (sshRun doorSetup calls)) ''s'') = 1"
proof -
  obtain built cert encoded where b: "buildUserCertificate exampleEncode [] (replicate 32 3) doorOptions exampleSigner = Inr built"
    "parseCertificateLine doorDecode (bc_line built) = Inr cert" "certStates cert doorOptions"
    "assertValidUserCertificate doorVerify cert \<lparr>vo_caPublicKey = replicate 32 9, vo_principal = None,
       vo_now = 1000000, vo_ignoreValidityWindow = False\<rparr> = Inr ()"
    "cert_serial cert = 0" "signGrant exampleEncode doorGrant exampleSigner = Inr encoded"
    by (rule door_example)
  define calls where "calls = (doorMint @ doorOpen (bc_line built)) @ [CloseCalled ''s'' ''bye'', CloseCalled ''s'' ''again'', Resumed 1 [] [] [], Resumed 0 [] [] []]"
  have run: "sshRun doorSetup calls = foldl (sshStep doorSetup) doorOpened
      [CloseCalled ''s'' ''bye'', CloseCalled ''s'' ''again'', Resumed 1 [] [] [], Resumed 0 [] [] []]"
    using door_opens [OF b] by (simp add: calls_def sshRun_def)
  have status: "map ss_status (sd_sessions (sshRun doorSetup calls)) = [''closed'']" and ids: "map ss_id (sd_sessions (sshRun doorSetup calls)) = [''s'']"
    unfolding run by (simp_all add: doorOpened_def doorMinted_def emptySshDb_def awaiting_def closeSshSession_def findSession_def doorRow_def
        openedRow_def closeSshSessionRow_def recordAuditEvent_def Let_def)
  then obtain r where r: "sd_sessions (sshRun doorSetup calls) = [r]" "ss_status r = ''closed''" "ss_id r = ''s''" by auto
  then have "lifeOk (sd_audit (sshRun doorSetup calls)) r" using session_closes_once [of doorSetup calls "''s''" "[]"] by simp
  then have "length (closings (sd_audit (sshRun doorSetup calls)) ''s'') = 1" using r by (auto simp: lifeOk_def)
  then show ?thesis using status by (intro exI [of _ calls]) simp
qed

text \<open>
  C35: no session lives past its time.  After any run every lease in the table was stamped between the
  opening of its session and the longest time a session may last, so a session that counts as live is
  younger than that time and one lease, whoever keeps beating for it.\<close>

theorem session_lease_bounded:
  assumes "0 < sp_maxSessionSeconds p"
  shows "list_all (\<lambda>r. ss_openedAt r \<le> ss_lastHeartbeatAt r \<and> ss_lastHeartbeatAt r < ss_openedAt r + sp_maxSessionSeconds p * 1000)
      (sd_sessions (sshRun p calls)) \<and>
    list_all (\<lambda>r. sd_now (sshRun p calls) < ss_openedAt r + (sp_maxSessionSeconds p + sp_leaseSeconds p) * 1000)
      (liveSessions p agentId (sshRun p calls))"
proof -
  have "\<forall>r\<in>set (sd_sessions (sshRun p calls)). stampOk p (sd_now (sshRun p calls)) r (ss_lastHeartbeatAt r)"
    using run_sessionsOk [OF assms, of calls] by (simp add: sessionsOk_def)
  then show ?thesis by (fastforce simp: list_all_iff stampOk_def liveSessions_def leaseWindowStart_def)
qed

lemma session_lease_bounded_witness:
  "\<exists>calls. map ss_id (liveSessions doorSetup ''agent'' (sshRun doorSetup calls)) = [''s''] \<and>
     list_all (\<lambda>r. sd_now (sshRun doorSetup calls) < ss_openedAt r + 190000) (liveSessions doorSetup ''agent'' (sshRun doorSetup calls))"
proof -
  obtain calls where run: "sshRun doorSetup calls = doorOpened" using door_opens door_example by metis
  have "map ss_id (liveSessions doorSetup ''agent'' doorOpened) = [''s'']"
    by (simp add: liveSessions_def leaseWindowStart_def doorOpened_def doorMinted_def emptySshDb_def doorRow_def openedRow_def doorIdentity_def)
  then show ?thesis using session_lease_bounded [of doorSetup calls "''agent''"] run by (intro exI [of _ calls]) simp
qed



section \<open>A cap that is not hard\<close>

text \<open>
  With a cap of one: a session whose lease lapsed, and which the sweep has not closed, does not count
  when another opens; its next beat renews it, and the agent has two live sessions.
\<close>

lemma openRow_opens:
  assumes "int (length (liveSessions p (ci_agentId identity) s)) < sp_maxSessionsPerAgent p" and "sessionId \<notin> set (sd_ids s)"
    and "ci_sandboxId identity \<in> set (map sb_id (sd_sandboxes s))"
  shows "sd_sessions (fst (openRow p identity em ip sessionId s)) = sd_sessions s @ [openedRow identity em ip sessionId (sd_now s)] \<and>
    sd_now (fst (openRow p identity em ip sessionId s)) = sd_now s \<and> sd_pending (fst (openRow p identity em ip sessionId s)) = sd_pending s \<and>
    sd_world (fst (openRow p identity em ip sessionId s)) = sd_world s"
  using assms by (simp add: openRow_def Let_def openedRow_def split: sum.split)

lemma lapsed_session_exceeds_cap:
  "length (liveSessions (doorSetup\<lparr>sp_maxSessionsPerAgent := 1\<rparr>) ''agent''
     (foldl (sshStep (doorSetup\<lparr>sp_maxSessionsPerAgent := 1\<rparr>)) (doorOpened\<lparr>sd_pending := [Opening doorIdentity ''e'' ''ip'']\<rparr>)
       [TimePasses 91000, Resumed 0 ''s2'' [] [], BeatCalled ''s'' False, Resumed 0 [] [] []])) = 2"
proof -
  let ?p = "doorSetup\<lparr>sp_maxSessionsPerAgent := 1\<rparr>"
  let ?row = "\<lambda>i now stamp. (openedRow doorIdentity ''e'' ''ip'' i now)\<lparr>ss_lastHeartbeatAt := stamp\<rparr>"
  let ?s0 = "doorOpened\<lparr>sd_now := 1091000\<rparr>"
  let ?s1 = "fst (openRow ?p doorIdentity ''e'' ''ip'' ''s2'' ?s0)"
  have "liveSessions ?p ''agent'' ?s0 = []"
    by (simp add: liveSessions_def leaseWindowStart_def doorOpened_def doorRow_def openedRow_def)
  then have s1: "sd_sessions ?s1 = [doorRow, openedRow doorIdentity ''e'' ''ip'' ''s2'' 1091000] \<and> sd_now ?s1 = 1091000 \<and> sd_pending ?s1 = [] \<and>
      sd_world ?s1 = doorWorld"
    using openRow_opens [of ?p doorIdentity ?s0 "''s2''" "''e''" "''ip''"]
    by (simp add: doorIdentity_def) (simp add: doorOpened_def doorMinted_def emptySshDb_def doorBox_def)
  have "foldl (sshStep ?p) (doorOpened\<lparr>sd_pending := [Opening doorIdentity ''e'' ''ip'']\<rparr>) [TimePasses 91000, Resumed 0 ''s2'' [] []] = ?s1"
    by (simp add: doorOpened_def doorMinted_def emptySshDb_def)
  moreover have "heartbeatSshSession ?p ''s'' False ?s1 = ([Renewing ''s'' 1091000 False], NotRevoked)"
    using s1 by (simp add: heartbeatSshSession_def findSession_def doorRow_def openedRow_def doorIdentity_def revokedReason_def findAgent_def
        userMayAccessWorkspace_def canAccessWorkspaceAsUser_def doorWorld_def)
  ultimately show ?thesis
    using s1 by (simp add: awaiting_def liveSessions_def leaseWindowStart_def renewedRow_def doorRow_def openedRow_def doorIdentity_def)
qed

end
