(* ===== verification/JsMap.thy ===== *)
theory JsMap
  imports JsPrelude
begin

text \<open>
  The \<^verbatim>\<open>Map\<close> of the language where the order of its keys matters: a list of pairs in the order the keys were
  first set, with the lemmas the components share.
\<close>

text \<open>\<^verbatim>\<open>Map.set\<close>: a key that is present keeps its place.\<close>

fun mapSet :: "'k \<Rightarrow> 'v \<Rightarrow> ('k \<times> 'v) list \<Rightarrow> ('k \<times> 'v) list" where
  "mapSet k v [] = [(k, v)]"
| "mapSet k v ((k', v') # m) = (if k' = k then (k, v) # m else (k', v') # mapSet k v m)"

text \<open>\<^verbatim>\<open>Map.delete\<close>.\<close>

abbreviation mapDelete :: "'k \<Rightarrow> ('k \<times> 'v) list \<Rightarrow> ('k \<times> 'v) list" where
  "mapDelete k m \<equiv> filter (\<lambda>(k', _). k' \<noteq> k) m"

lemma map_of_mapSet: "map_of (mapSet k v m) = (map_of m)(k \<mapsto> v)"
  by (induction m) auto

lemma map_of_without: "map_of (mapDelete t m) = (map_of m)(t := None)"
  by (induction m) auto

lemma mapSet_twice: "mapSet k v' (mapSet k v m) = mapSet k v' m"
  by (induction m) auto

lemma set_mapSet: "set (mapSet k v m) \<subseteq> insert (k, v) (set m)"
  by (induction m) (auto split: if_splits)

lemma mapSet_keys: "map fst (mapSet k v m) = (if k \<in> set (map fst m) then map fst m else map fst m @ [k])"
  by (induction k v m rule: mapSet.induct) simp_all

lemma distinct_mapSet: "distinct (map fst m) \<Longrightarrow> distinct (map fst (mapSet k v m))"
  by (simp only: mapSet_keys) auto

lemma filter_mapSet: "mapDelete k (mapSet k v m) = mapDelete k m"
  by (induction k v m rule: mapSet.induct) simp_all

text \<open>The entries of a map rewritten, and some of them dropped.\<close>

lemma map_of_filtered:
  assumes "distinct (map fst m)"
  shows "map_of (filter (\<lambda>(k, v). Q v) (map (\<lambda>(k, v). (k, f v)) m)) k =
    (case map_of m k of None \<Rightarrow> None | Some v \<Rightarrow> if Q (f v) then Some (f v) else None)"
  using assms by (induction m) (auto split: option.splits simp: map_of_eq_None_iff rev_image_eqI)

end
