(* ===== verification/SshLimits.thy ===== *)
theory SshLimits
  imports Complex_Main JsMap
begin

text \<open>
  The limits of the public SSH listener (\<^verbatim>\<open>apps/ssh-terminator/src/limits.ts\<close>): a ceiling on live connections,
  one per address, and a token bucket per address on attempts.  The tokens are exact fractions
  here.  A connection that was admitted holds a handle, the position in the list of admissions,
  and releases it once.
\<close>

section \<open>Limits\<close>

record limit_options =
  lo_maxSessions :: int
  lo_maxSessionsPerIp :: int
  lo_preauthPerIpPerMinute :: int

record ip_state =
  ip_live :: int
  ip_tokens :: rat
  ip_refilledAt :: int

record connection_limits =
  cl_byIp :: "(string \<times> ip_state) list"
  cl_liveTotal :: int
  cl_handles :: "(string \<times> bool) list"

definition emptyLimits :: connection_limits where
  "emptyLimits = \<lparr>cl_byIp = [], cl_liveTotal = 0, cl_handles = []\<rparr>"

definition capacity :: "limit_options \<Rightarrow> rat" where
  "capacity opts = of_int (lo_preauthPerIpPerMinute opts)"

definition perMs :: "limit_options \<Rightarrow> rat" where
  "perMs opts = capacity opts / 60000"

definition refill :: "limit_options \<Rightarrow> int \<Rightarrow> ip_state \<Rightarrow> ip_state" where
  "refill opts now state =
     state\<lparr>ip_tokens := min (capacity opts) (ip_tokens state + of_int (now - ip_refilledAt state) * perMs opts),
           ip_refilledAt := now\<rparr>"

definition prune :: "limit_options \<Rightarrow> int \<Rightarrow> connection_limits \<Rightarrow> connection_limits" where
  "prune opts now s =
     s\<lparr>cl_byIp := filter (\<lambda>(ip, state). \<not> (ip_live state = 0 \<and> ip_tokens state \<ge> capacity opts))
         (map (\<lambda>(ip, state). (ip, refill opts now state)) (cl_byIp s))\<rparr>"

text \<open>One attempt: the new state, and whether it was admitted; its handle is then the last one.\<close>

definition admit :: "limit_options \<Rightarrow> int \<Rightarrow> string \<Rightarrow> connection_limits \<Rightarrow> connection_limits \<times> bool" where
  "admit opts now ip s =
     (if cl_liveTotal s \<ge> lo_maxSessions opts then (s, False)
      else
        (let s1 = (if length (cl_byIp s) > 4096 then prune opts now s else s);
             state = (case map_of (cl_byIp s1) ip of
                 Some st \<Rightarrow> st
               | None \<Rightarrow> \<lparr>ip_live = 0, ip_tokens = capacity opts, ip_refilledAt = now\<rparr>);
             state1 = refill opts now state;
             s2 = s1\<lparr>cl_byIp := mapSet ip state1 (cl_byIp s1)\<rparr> in
         if ip_live state1 \<ge> lo_maxSessionsPerIp opts then (s2, False)
         else if ip_tokens state1 < 1 then (s2, False)
         else (s2\<lparr>cl_byIp := mapSet ip (state1\<lparr>ip_tokens := ip_tokens state1 - 1, ip_live := ip_live state1 + 1\<rparr>) (cl_byIp s2),
                  cl_liveTotal := cl_liveTotal s2 + 1, cl_handles := cl_handles s2 @ [(ip, False)]\<rparr>, True)))"

text \<open>Calling a handle: the second call does nothing.\<close>

definition releaseHandle :: "nat \<Rightarrow> connection_limits \<Rightarrow> connection_limits" where
  "releaseHandle k s =
     (if k \<ge> length (cl_handles s) \<or> snd (cl_handles s ! k) then s
      else
        (let ip = fst (cl_handles s ! k); s1 = s\<lparr>cl_handles := (cl_handles s)[k := (ip, True)], cl_liveTotal := cl_liveTotal s - 1\<rparr> in
         case map_of (cl_byIp s1) ip of
           None \<Rightarrow> s1
         | Some current \<Rightarrow> s1\<lparr>cl_byIp := mapSet ip (current\<lparr>ip_live := ip_live current - 1\<rparr>) (cl_byIp s1)\<rparr>))"

datatype limit_call = Attempt int string | Release nat

fun limitCall :: "limit_options \<Rightarrow> connection_limits \<Rightarrow> limit_call \<Rightarrow> connection_limits" where
  "limitCall opts s (Attempt now ip) = fst (admit opts now ip s)"
| "limitCall opts s (Release k) = releaseHandle k s"

definition limited :: "limit_options \<Rightarrow> limit_call list \<Rightarrow> connection_limits" where
  "limited opts calls = foldl (limitCall opts) emptyLimits calls"

section \<open>Live connections\<close>

definition openHandles :: "connection_limits \<Rightarrow> string \<Rightarrow> nat" where
  "openHandles s ip = length (filter (\<lambda>h. fst h = ip \<and> \<not> snd h) (cl_handles s))"

definition liveOf :: "connection_limits \<Rightarrow> string \<Rightarrow> int" where
  "liveOf s ip = (case map_of (cl_byIp s) ip of None \<Rightarrow> 0 | Some state \<Rightarrow> ip_live state)"

text \<open>The counters are the handles that are open.\<close>

definition limitsOk :: "limit_options \<Rightarrow> connection_limits \<Rightarrow> bool" where
  "limitsOk opts s \<longleftrightarrow>
     distinct (map fst (cl_byIp s)) \<and>
     (\<forall>ip. liveOf s ip = int (openHandles s ip)) \<and>
     (\<forall>ip. int (openHandles s ip) \<le> max 0 (lo_maxSessionsPerIp opts)) \<and>
     cl_liveTotal s = int (length (filter (\<lambda>h. \<not> snd h) (cl_handles s))) \<and>
     cl_liveTotal s \<le> max 0 (lo_maxSessions opts)"

lemma refill_live [simp]: "ip_live (refill opts now state) = ip_live state" "ip_refilledAt (refill opts now state) = now"
  by (simp_all add: refill_def)

lemma map_of_prune:
  assumes "distinct (map fst (cl_byIp s))"
  shows "map_of (cl_byIp (prune opts now s)) ip =
    (case map_of (cl_byIp s) ip of
       None \<Rightarrow> None
     | Some state \<Rightarrow>
         if ip_live state = 0 \<and> ip_tokens (refill opts now state) \<ge> capacity opts then None else Some (refill opts now state))"
  using map_of_filtered [OF assms, of "\<lambda>state. \<not> (ip_live state = 0 \<and> ip_tokens state \<ge> capacity opts)" "refill opts now" ip]
  by (auto simp: prune_def split: option.splits)

lemma prune_live: "distinct (map fst (cl_byIp s)) \<Longrightarrow> liveOf (prune opts now s) ip = liveOf s ip"
  by (simp add: liveOf_def map_of_prune split: option.splits)

lemma prune_distinct: "distinct (map fst (cl_byIp s)) \<Longrightarrow> distinct (map fst (cl_byIp (prune opts now s)))"
  by (simp add: prune_def o_def case_prod_unfold distinct_map_filter)

lemma prune_fields [simp]: "cl_liveTotal (prune opts now s) = cl_liveTotal s" "cl_handles (prune opts now s) = cl_handles s"
  by (simp_all add: prune_def)

text \<open>The state of an address after the pruning, new when there is none, and refilled.\<close>

definition settled :: "limit_options \<Rightarrow> int \<Rightarrow> connection_limits \<Rightarrow> connection_limits" where
  "settled opts now s = (if length (cl_byIp s) > 4096 then prune opts now s else s)"

definition stateFor :: "limit_options \<Rightarrow> int \<Rightarrow> string \<Rightarrow> connection_limits \<Rightarrow> ip_state" where
  "stateFor opts now ip s = refill opts now
     (case map_of (cl_byIp s) ip of Some st \<Rightarrow> st | None \<Rightarrow> \<lparr>ip_live = 0, ip_tokens = capacity opts, ip_refilledAt = now\<rparr>)"

lemma settled_fields [simp]: "cl_liveTotal (settled opts now s) = cl_liveTotal s" "cl_handles (settled opts now s) = cl_handles s"
  by (simp_all add: settled_def)

lemma settled_live: "distinct (map fst (cl_byIp s)) \<Longrightarrow> liveOf (settled opts now s) ip = liveOf s ip"
  by (simp add: settled_def prune_live)

lemma settled_distinct: "distinct (map fst (cl_byIp s)) \<Longrightarrow> distinct (map fst (cl_byIp (settled opts now s)))"
  by (simp add: settled_def prune_distinct)

lemma stateFor_live: "ip_live (stateFor opts now ip s) = liveOf s ip"
  by (simp add: stateFor_def liveOf_def split: option.splits)

text \<open>The three outcomes of an attempt.\<close>

lemma admit_cases:
  obtains (full) "admit opts now ip s = (s, False)" "cl_liveTotal s \<ge> lo_maxSessions opts"
  | (refused) "admit opts now ip s =
      ((settled opts now s)\<lparr>cl_byIp := mapSet ip (stateFor opts now ip (settled opts now s)) (cl_byIp (settled opts now s))\<rparr>, False)"
  | (admitted) state where "state = stateFor opts now ip (settled opts now s)"
      "admit opts now ip s =
        ((settled opts now s)\<lparr>cl_byIp := mapSet ip (state\<lparr>ip_tokens := ip_tokens state - 1, ip_live := ip_live state + 1\<rparr>) (cl_byIp (settled opts now s)),
           cl_liveTotal := cl_liveTotal s + 1, cl_handles := cl_handles s @ [(ip, False)]\<rparr>, True)"
      "cl_liveTotal s < lo_maxSessions opts" "ip_live state < lo_maxSessionsPerIp opts" "ip_tokens state \<ge> 1"
proof -
  have shape: "admit opts now ip s =
      (if cl_liveTotal s \<ge> lo_maxSessions opts then (s, False)
       else (let state = stateFor opts now ip (settled opts now s);
                 s2 = (settled opts now s)\<lparr>cl_byIp := mapSet ip state (cl_byIp (settled opts now s))\<rparr> in
         if ip_live state \<ge> lo_maxSessionsPerIp opts then (s2, False)
         else if ip_tokens state < 1 then (s2, False)
         else (s2\<lparr>cl_byIp := mapSet ip (state\<lparr>ip_tokens := ip_tokens state - 1, ip_live := ip_live state + 1\<rparr>) (cl_byIp s2),
                  cl_liveTotal := cl_liveTotal s2 + 1, cl_handles := cl_handles s2 @ [(ip, False)]\<rparr>, True)))"
    by (simp only: admit_def stateFor_def settled_def Let_def)
  show thesis
    by (cases "cl_liveTotal s \<ge> lo_maxSessions opts"; cases "ip_live (stateFor opts now ip (settled opts now s)) \<ge> lo_maxSessionsPerIp opts";
        cases "ip_tokens (stateFor opts now ip (settled opts now s)) < 1")
      (use shape in \<open>simp_all add: Let_def mapSet_twice full refused admitted [OF refl]\<close>)
qed

lemma admit_ok:
  assumes "limitsOk opts s"
  shows "limitsOk opts (fst (admit opts now ip s))"
proof -
  let ?s1 = "settled opts now s"
  have d: "distinct (map fst (cl_byIp ?s1))" and l: "liveOf ?s1 ip' = liveOf s ip'" for ip'
    using assms by (simp_all add: limitsOk_def settled_live settled_distinct)
  show ?thesis
  proof (rule admit_cases [of opts now ip s])
    assume "admit opts now ip s = (?s1\<lparr>cl_byIp := mapSet ip (stateFor opts now ip ?s1) (cl_byIp ?s1)\<rparr>, False)"
    moreover have "liveOf (?s1\<lparr>cl_byIp := mapSet ip (stateFor opts now ip ?s1) (cl_byIp ?s1)\<rparr>) ip' = liveOf s ip'" for ip'
      using l stateFor_live [of opts now ip ?s1] by (auto simp: liveOf_def map_of_mapSet)
    ultimately show ?thesis using assms d by (simp add: limitsOk_def distinct_mapSet openHandles_def)
  next
    fix state
    let ?s2 = "?s1\<lparr>cl_byIp := mapSet ip (state\<lparr>ip_tokens := ip_tokens state - 1, ip_live := ip_live state + 1\<rparr>) (cl_byIp ?s1),
           cl_liveTotal := cl_liveTotal s + 1, cl_handles := cl_handles s @ [(ip, False)]\<rparr>"
    assume a: "state = stateFor opts now ip ?s1" "admit opts now ip s = (?s2, True)"
      "cl_liveTotal s < lo_maxSessions opts" "ip_live state < lo_maxSessionsPerIp opts"
    have "liveOf ?s2 ip' = liveOf s ip' + (if ip' = ip then 1 else 0)" for ip'
      using l [of ip'] stateFor_live [of opts now ip ?s1] a(1) l [of ip] by (auto simp: liveOf_def map_of_mapSet)
    moreover have "openHandles ?s2 ip' = openHandles s ip' + (if ip' = ip then 1 else 0)" for ip'
      by (simp add: openHandles_def)
    moreover have "ip_live state = liveOf s ip" using a(1) l by (simp add: stateFor_live)
    ultimately show ?thesis using assms a(2-4) d by (auto simp: limitsOk_def distinct_mapSet)
  qed (use assms in simp)
qed

lemma filter_update:
  assumes "k < length xs" and "P (xs ! k)" and "\<not> P y"
  shows "length (filter P xs) = Suc (length (filter P (xs[k := y])))"
  by (subst (1) id_take_nth_drop [OF assms(1)], subst upd_conv_take_nth_drop [OF assms(1)]) (simp add: assms(2,3))

lemma filter_update_same:
  assumes "k < length xs" and "P (xs ! k) = P y"
  shows "length (filter P (xs[k := y])) = length (filter P xs)"
  by (subst (2) id_take_nth_drop [OF assms(1)], subst upd_conv_take_nth_drop [OF assms(1)]) (simp add: assms(2))

lemma release_ok:
  assumes "limitsOk opts s"
  shows "limitsOk opts (releaseHandle k s)"
proof (cases "k \<ge> length (cl_handles s) \<or> snd (cl_handles s ! k)")
  case True
  then show ?thesis using assms by (simp add: releaseHandle_def)
next
  case False
  define ip where "ip = fst (cl_handles s ! k)"
  have h: "k < length (cl_handles s)" "cl_handles s ! k = (ip, False)"
    using False by (simp_all add: ip_def prod_eq_iff)
  have total: "length (filter (\<lambda>h. \<not> snd h) (cl_handles s)) = Suc (length (filter (\<lambda>h. \<not> snd h) ((cl_handles s)[k := (ip, True)])))"
    using h by (intro filter_update) simp_all
  have opened: "openHandles s ip = Suc (length (filter (\<lambda>h. fst h = ip \<and> \<not> snd h) ((cl_handles s)[k := (ip, True)])))"
    unfolding openHandles_def using h by (intro filter_update) simp_all
  have others: "length (filter (\<lambda>h. fst h = ip' \<and> \<not> snd h) ((cl_handles s)[k := (ip, True)])) = openHandles s ip'" if "ip' \<noteq> ip" for ip'
    unfolding openHandles_def using h that by (intro filter_update_same) auto
  have live: "liveOf s ip = int (openHandles s ip)" using assms by (simp add: limitsOk_def)
  then obtain state where st: "map_of (cl_byIp s) ip = Some state"
    using opened by (cases "map_of (cl_byIp s) ip") (auto simp: liveOf_def)
  define s' where "s' = s\<lparr>cl_handles := (cl_handles s)[k := (ip, True)], cl_liveTotal := cl_liveTotal s - 1,
    cl_byIp := mapSet ip (state\<lparr>ip_live := ip_live state - 1\<rparr>) (cl_byIp s)\<rparr>"
  have shape: "releaseHandle k s = s'" using False st by (simp add: releaseHandle_def Let_def s'_def flip: ip_def)
  have l: "liveOf s' ip' = liveOf s ip' - (if ip' = ip then 1 else 0)" for ip'
    using st by (auto simp: liveOf_def s'_def map_of_mapSet)
  have o': "int (openHandles s' ip') = int (openHandles s ip') - (if ip' = ip then 1 else 0)" for ip'
    using opened others [of ip'] by (auto simp: openHandles_def s'_def)
  have "int (openHandles s ip') \<le> max 0 (lo_maxSessionsPerIp opts)" for ip' using assms by (simp add: limitsOk_def)
  then have "int (openHandles s' ip') \<le> max 0 (lo_maxSessionsPerIp opts)" for ip' using o' [of ip'] by (smt (verit))
  moreover have "liveOf s' ip' = int (openHandles s' ip')" for ip' using assms l [of ip'] o' [of ip'] by (simp add: limitsOk_def)
  moreover have "distinct (map fst (cl_byIp s'))" using assms by (simp add: limitsOk_def s'_def distinct_mapSet)
  moreover have "cl_liveTotal s' = int (length (filter (\<lambda>h. \<not> snd h) (cl_handles s')))" "cl_liveTotal s' \<le> max 0 (lo_maxSessions opts)"
    using assms total by (simp_all add: limitsOk_def s'_def)
  ultimately show ?thesis by (simp add: shape limitsOk_def)
qed

lemma limited_ok: "limitsOk opts (limited opts calls)"
proof (induction calls rule: rev_induct)
  case Nil
  show ?case by (simp add: limited_def emptyLimits_def limitsOk_def liveOf_def openHandles_def)
next
  case (snoc call calls)
  then show ?case by (cases call) (simp_all add: limited_def admit_ok release_ok)
qed

section \<open>Rate\<close>

text \<open>The tokens of an address at an instant: what a refill then would give.\<close>

definition tokensAt :: "limit_options \<Rightarrow> connection_limits \<Rightarrow> string \<Rightarrow> int \<Rightarrow> rat" where
  "tokensAt opts s ip now =
     (case map_of (cl_byIp s) ip of
        None \<Rightarrow> capacity opts
      | Some state \<Rightarrow> ip_tokens (refill opts now state))"

definition clocked :: "limit_options \<Rightarrow> int \<Rightarrow> connection_limits \<Rightarrow> bool" where
  "clocked opts now s \<longleftrightarrow> distinct (map fst (cl_byIp s)) \<and>
     (\<forall>(ip, state)\<in>set (cl_byIp s). 0 \<le> ip_tokens state \<and> ip_refilledAt state \<le> now)"

lemma perMs_nonneg: "0 \<le> lo_preauthPerIpPerMinute opts \<Longrightarrow> 0 \<le> capacity opts \<and> 0 \<le> perMs opts"
  by (simp add: perMs_def capacity_def)

lemma refill_tokens:
  "ip_tokens (refill opts now state) = min (capacity opts) (ip_tokens state + of_int (now - ip_refilledAt state) * perMs opts)"
  by (simp add: refill_def)

lemma earned_split:
  "of_int (later - start) * perMs opts = of_int (now - start) * perMs opts + of_int (later - now) * perMs opts"
  by (simp flip: distrib_right of_int_add)

lemma refill_twice:
  assumes "0 \<le> perMs opts" and "now \<le> later"
  shows "ip_tokens (refill opts later (refill opts now state)) = ip_tokens (refill opts later state)"
proof -
  have gain: "0 \<le> of_int (later - now) * perMs opts" using assms by simp
  have "ip_refilledAt (refill opts now state) = now" by (simp add: refill_def)
  then show ?thesis
    using gain unfolding refill_tokens [of opts later] refill_tokens [of opts now] earned_split [of later "ip_refilledAt state" opts now]
    by (simp only: min_def) (auto simp del: of_int_diff)
qed

lemma tokens_earn:
  assumes "0 \<le> perMs opts" and "now \<le> later"
  shows "tokensAt opts s ip later \<le> tokensAt opts s ip now + of_int (later - now) * perMs opts"
proof (cases "map_of (cl_byIp s) ip")
  case None
  then show ?thesis using assms by (simp add: tokensAt_def)
next
  case (Some state)
  have gain: "0 \<le> of_int (later - now) * perMs opts" using assms by simp
  show ?thesis
    using Some gain by (simp only: tokensAt_def option.case refill_tokens earned_split [of later "ip_refilledAt state" opts now])
qed

lemma refill_sane:
  assumes "0 \<le> lo_preauthPerIpPerMinute opts" and "0 \<le> ip_tokens state" and "ip_refilledAt state \<le> now"
  shows "0 \<le> ip_tokens (refill opts now state)"
  using perMs_nonneg [OF assms(1)] assms(2,3) by (simp add: refill_tokens)

lemma tokens_nonneg:
  assumes "clocked opts now s" and "0 \<le> lo_preauthPerIpPerMinute opts"
  shows "0 \<le> tokensAt opts s ip now"
  using assms perMs_nonneg [OF assms(2)]
  by (auto simp: tokensAt_def clocked_def split: option.splits dest!: map_of_SomeD intro!: refill_sane)

lemma settled_tokens:
  assumes "distinct (map fst (cl_byIp s))" and "0 \<le> lo_preauthPerIpPerMinute opts"
  shows "tokensAt opts (settled opts now s) ip now = tokensAt opts s ip now"
proof (cases "length (cl_byIp s) > 4096")
  case True
  have "ip_tokens (refill opts now state) \<le> capacity opts" for state by (simp add: refill_tokens)
  then show ?thesis
    using True assms perMs_nonneg [OF assms(2)] refill_twice [of opts now now]
    by (auto simp: settled_def tokensAt_def map_of_prune[OF assms(1)] intro: antisym split: option.split)
qed (simp add: settled_def)

lemma settled_clocked:
  assumes "clocked opts now s" and "0 \<le> lo_preauthPerIpPerMinute opts"
  shows "clocked opts now (settled opts now s)"
proof -
  have "0 \<le> ip_tokens st \<and> ip_refilledAt st \<le> now" if "(ip, st) \<in> set (cl_byIp (prune opts now s))" for ip st
    using that assms refill_sane [OF assms(2)] by (auto simp: prune_def clocked_def)
  then show ?thesis using assms(1) by (auto simp: settled_def clocked_def prune_distinct)
qed

lemma stateFor_tokens:
  assumes "0 \<le> lo_preauthPerIpPerMinute opts"
  shows "ip_tokens (stateFor opts now ip s) = tokensAt opts s ip now" "ip_refilledAt (stateFor opts now ip s) = now"
  using perMs_nonneg [OF assms] by (simp_all add: stateFor_def tokensAt_def refill_def split: option.splits)

text \<open>An attempt costs the address that is admitted one token, and no other anything.\<close>

lemma clocked_set:
  assumes "clocked opts now s" and "0 \<le> ip_tokens state" and "ip_refilledAt state \<le> now"
  shows "clocked opts now (s\<lparr>cl_byIp := mapSet ip state (cl_byIp s)\<rparr>)"
  using assms set_mapSet [of ip state "cl_byIp s"] by (auto simp: clocked_def distinct_mapSet)

lemma admit_tokens:
  assumes "clocked opts now s" and "0 \<le> lo_preauthPerIpPerMinute opts"
  shows "clocked opts now (fst (admit opts now ip s)) \<and>
         tokensAt opts (fst (admit opts now ip s)) ip' now =
           tokensAt opts s ip' now - (if snd (admit opts now ip s) \<and> ip' = ip then 1 else 0)"
proof -
  let ?s1 = "settled opts now s"
  have d: "distinct (map fst (cl_byIp s))" and c: "clocked opts now ?s1"
    using assms settled_clocked [OF assms] by (simp_all add: clocked_def)
  note t = settled_tokens [OF d assms(2)] stateFor_tokens [OF assms(2)]
  have nn: "0 \<le> tokensAt opts s ip now" using tokens_nonneg [OF assms] .
  have cap: "tokensAt opts s ip now \<le> capacity opts" by (simp add: tokensAt_def refill_tokens split: option.split)
  show ?thesis
  proof (rule admit_cases [of opts now ip s])
    assume "admit opts now ip s = (?s1\<lparr>cl_byIp := mapSet ip (stateFor opts now ip ?s1) (cl_byIp ?s1)\<rparr>, False)"
    then show ?thesis
      using clocked_set [OF c, of "stateFor opts now ip ?s1" ip] nn cap t
      by (simp add: tokensAt_def [of _ "_\<lparr>cl_byIp := _\<rparr>"] map_of_mapSet refill_tokens) (simp add: tokensAt_def)
  next
    fix state :: ip_state
    let ?new = "state\<lparr>ip_tokens := ip_tokens state - 1, ip_live := ip_live state + 1\<rparr>"
    assume a: "state = stateFor opts now ip ?s1" "ip_tokens state \<ge> 1"
      "admit opts now ip s = (?s1\<lparr>cl_byIp := mapSet ip ?new (cl_byIp ?s1),
           cl_liveTotal := cl_liveTotal s + 1, cl_handles := cl_handles s @ [(ip, False)]\<rparr>, True)"
    have "clocked opts now (?s1\<lparr>cl_byIp := mapSet ip ?new (cl_byIp ?s1)\<rparr>)"
      using a t by (intro clocked_set [OF c]) simp_all
    moreover have "tokensAt opts (?s1\<lparr>cl_byIp := mapSet ip ?new (cl_byIp ?s1)\<rparr>) ip' now =
        tokensAt opts s ip' now - (if ip' = ip then 1 else 0)"
      using a t cap t(1) [where ip = ip'] by (auto simp: tokensAt_def [of _ "_\<lparr>cl_byIp := _\<rparr>"] map_of_mapSet refill_tokens min_def) (simp_all add: tokensAt_def)
    ultimately show ?thesis using a(3) by (simp add: clocked_def tokensAt_def)
  qed (use assms(1) in simp)
qed

lemma clocked_later: "clocked opts now s \<Longrightarrow> now \<le> later \<Longrightarrow> clocked opts later s"
  by (fastforce simp: clocked_def)

lemma release_tokens:
  assumes "clocked opts now s"
  shows "clocked opts now (releaseHandle k s) \<and> tokensAt opts (releaseHandle k s) ip later = tokensAt opts s ip later"
proof (cases "k \<ge> length (cl_handles s) \<or> snd (cl_handles s ! k)")
  case True
  then show ?thesis using assms by (simp add: releaseHandle_def)
next
  case False
  show ?thesis
  proof (cases "map_of (cl_byIp s) (fst (cl_handles s ! k))")
    case None
    then show ?thesis using False assms by (simp add: releaseHandle_def Let_def clocked_def tokensAt_def)
  next
    case (Some state)
    let ?s' = "s\<lparr>cl_handles := (cl_handles s)[k := (fst (cl_handles s ! k), True)], cl_liveTotal := cl_liveTotal s - 1\<rparr>"
    have "clocked opts now ?s'" using assms by (simp add: clocked_def)
    moreover have "0 \<le> ip_tokens state \<and> ip_refilledAt state \<le> now"
      using map_of_SomeD [OF Some] assms by (auto simp: clocked_def)
    ultimately show ?thesis
      using False Some clocked_set [of opts now ?s' "state\<lparr>ip_live := ip_live state - 1\<rparr>" "fst (cl_handles s ! k)"]
      by (simp add: releaseHandle_def Let_def tokensAt_def map_of_mapSet refill_tokens)
  qed
qed

text \<open>The instants of the attempts of a run, and the attempts of an address that are admitted in it.\<close>

fun attemptTimes :: "limit_call list \<Rightarrow> int list" where
  "attemptTimes [] = []"
| "attemptTimes (Attempt now ip # calls) = now # attemptTimes calls"
| "attemptTimes (Release k # calls) = attemptTimes calls"

fun admissions :: "limit_options \<Rightarrow> connection_limits \<Rightarrow> limit_call list \<Rightarrow> string \<Rightarrow> nat" where
  "admissions opts s [] ip = 0"
| "admissions opts s (Attempt now ip' # calls) ip =
     (if snd (admit opts now ip' s) \<and> ip = ip' then 1 else 0) + admissions opts (limitCall opts s (Attempt now ip')) calls ip"
| "admissions opts s (Release k # calls) ip = admissions opts (limitCall opts s (Release k)) calls ip"

lemma attemptTimes_append [simp]: "attemptTimes (xs @ ys) = attemptTimes xs @ attemptTimes ys"
  by (induction xs rule: attemptTimes.induct) simp_all

lemma admissions_earned:
  assumes "clocked opts now s" and "0 \<le> lo_preauthPerIpPerMinute opts" and "sorted (now # attemptTimes calls)"
  shows "of_nat (admissions opts s calls ip) \<le>
    tokensAt opts s ip now + of_int (last (now # attemptTimes calls) - now) * perMs opts"
  using assms
proof (induction opts s calls ip arbitrary: now rule: admissions.induct)
  case (1 opts s ip)
  then show ?case using tokens_nonneg by simp
next
  case (2 opts s t ip' calls ip)
  have le: "now \<le> t" and rate: "0 \<le> perMs opts" using 2 perMs_nonneg by simp_all
  have c: "clocked opts t s" using clocked_later [OF 2(2) le] .
  note after = admit_tokens [OF c 2(3), of ip' ip]
  define rest earned gained where "rest = admissions opts (limitCall opts s (Attempt t ip')) calls ip"
    and "earned = of_int (last (t # attemptTimes calls) - t) * perMs opts" and "gained = of_int (t - now) * perMs opts"
  have "of_nat rest \<le> tokensAt opts (fst (admit opts t ip' s)) ip t + earned"
    unfolding rest_def earned_def using "2.IH" [of t] after 2(3,4) by simp
  moreover have "tokensAt opts s ip t \<le> tokensAt opts s ip now + gained"
    unfolding gained_def using tokens_earn [OF rate le] .
  moreover have "of_int (last (now # attemptTimes (Attempt t ip' # calls)) - now) * perMs opts = gained + earned"
    using earned_split [of "last (t # attemptTimes calls)" now opts t] by (simp add: gained_def earned_def)
  moreover have "admissions opts s (Attempt t ip' # calls) ip = (if snd (admit opts t ip' s) \<and> ip = ip' then 1 else 0) + rest"
    by (simp add: rest_def)
  ultimately show ?case
    using after by (cases "snd (admit opts t ip' s) \<and> ip = ip'") (simp_all only: of_nat_add, auto)
next
  case (3 opts s k calls ip)
  then show ?case using release_tokens [OF 3(2)] by simp
qed

lemma limited_clocked:
  assumes "0 \<le> lo_preauthPerIpPerMinute opts" and "sorted (attemptTimes calls @ [now])"
  shows "clocked opts now (limited opts calls)"
  using assms(2)
proof (induction calls arbitrary: now rule: rev_induct)
  case Nil
  show ?case by (simp add: limited_def emptyLimits_def clocked_def)
next
  case (snoc call calls)
  show ?case
  proof (cases call)
    case (Attempt t ip)
    have "clocked opts t (limited opts calls)" using snoc Attempt by (simp add: sorted_append)
    then show ?thesis
      using admit_tokens [OF _ assms(1), of t "limited opts calls" ip] snoc(2) Attempt
        clocked_later [of opts t "limited opts (calls @ [call])" now]
      by (simp add: limited_def sorted_append)
  next
    case (Release k)
    then show ?thesis using snoc release_tokens by (simp add: limited_def)
  qed
qed

section \<open>Claims\<close>

text \<open>
  C36: the listener never holds more connections than its ceiling, nor an address more than its
  own: after any attempts and releases, in any order and with handles released twice, the total is the
  number of admitted connections whose handle is still to be released and is at most the ceiling, the
  counter of an address is the number of its own, and no more than its ceiling.\<close>

theorem connections_within_caps:
  "cl_liveTotal (limited opts calls) = int (length (filter (\<lambda>h. \<not> snd h) (cl_handles (limited opts calls)))) \<and>
   cl_liveTotal (limited opts calls) \<le> max 0 (lo_maxSessions opts) \<and>
   liveOf (limited opts calls) ip = int (openHandles (limited opts calls) ip) \<and>
   liveOf (limited opts calls) ip \<le> max 0 (lo_maxSessionsPerIp opts)"
  using limited_ok [of opts calls] by (simp add: limitsOk_def)

text \<open>
  C37: attempts are limited by the rate: after any run, and whatever the listener has pruned, the
  attempts of one address that are admitted between two instants are at most a full bucket and
  what the rate earns in the time between them.\<close>

theorem attempts_rate_limited:
  assumes "0 \<le> lo_preauthPerIpPerMinute opts"
    and "sorted (attemptTimes (before @ calls))"
    and "attemptTimes calls \<noteq> []"
  shows "of_nat (admissions opts (limited opts before) calls ip) \<le>
    capacity opts + of_int (last (attemptTimes calls) - hd (attemptTimes calls)) * perMs opts"
proof -
  obtain t ts where t: "attemptTimes calls = t # ts" using assms(3) by (cases "attemptTimes calls") simp_all
  have c: "clocked opts t (limited opts before)"
    using limited_clocked [OF assms(1), of before t] assms(2) t by (simp add: sorted_append)
  have "sorted (t # attemptTimes calls)" using assms(2) t by (simp add: sorted_append)
  from admissions_earned [OF c assms(1) this, of ip]
  have "of_nat (admissions opts (limited opts before) calls ip) \<le>
      tokensAt opts (limited opts before) ip t + of_int (last (attemptTimes calls) - t) * perMs opts" using t by simp
  moreover have "tokensAt opts (limited opts before) ip t \<le> capacity opts"
    by (simp add: tokensAt_def refill_tokens split: option.split)
  ultimately show ?thesis using t by simp
qed

lemma attempts_rate_limited_witness:
  "of_nat (admissions \<lparr>lo_maxSessions = 9, lo_maxSessionsPerIp = 5, lo_preauthPerIpPerMinute = 2\<rparr>
      (limited \<lparr>lo_maxSessions = 9, lo_maxSessionsPerIp = 5, lo_preauthPerIpPerMinute = 2\<rparr> [])
      [Attempt 0 ''a'', Attempt 10 ''a'', Attempt 20 ''a'', Release 0, Attempt 30000 ''a''] ''a'') \<le>
    (capacity \<lparr>lo_maxSessions = 9, lo_maxSessionsPerIp = 5, lo_preauthPerIpPerMinute = 2\<rparr> +
     of_int (30000 - 0) * perMs \<lparr>lo_maxSessions = 9, lo_maxSessionsPerIp = 5, lo_preauthPerIpPerMinute = 2\<rparr>) \<and>
   admissions \<lparr>lo_maxSessions = 9, lo_maxSessionsPerIp = 5, lo_preauthPerIpPerMinute = 2\<rparr>
      (limited \<lparr>lo_maxSessions = 9, lo_maxSessionsPerIp = 5, lo_preauthPerIpPerMinute = 2\<rparr> [])
      [Attempt 0 ''a'', Attempt 10 ''a'', Attempt 20 ''a'', Release 0, Attempt 30000 ''a''] ''a'' = 3"
  using attempts_rate_limited [of "\<lparr>lo_maxSessions = 9, lo_maxSessionsPerIp = 5, lo_preauthPerIpPerMinute = 2\<rparr>" "[]"
      "[Attempt 0 ''a'', Attempt 10 ''a'', Attempt 20 ''a'', Release 0, Attempt 30000 ''a'']" "''a''"]
  by (simp add: limited_def emptyLimits_def admit_def releaseHandle_def refill_def capacity_def perMs_def Let_def)

end
