(* ===== verification/DockerDemux.thy ===== *)
theory DockerDemux
  imports SshWire
begin

text \<open>
  The demultiplexer of the daemon's stream (\<^verbatim>\<open>apps/ssh-terminator/src/backend/docker/demux.ts\<close>): frames of an
  eight byte header and a payload, fed in chunks of any size.  What a sink answers to a
  write is a parameter over everything written so far.
\<close>

section \<open>Frames\<close>

definition HEADER_SIZE :: nat where
  "HEADER_SIZE = 8"

definition STDOUT :: "8 word" where
  "STDOUT = 1"

definition STDERR :: "8 word" where
  "STDERR = 2"

datatype demux_sink = Stdout | Stderr

datatype demux_effect = Written demux_sink buffer | Backpressure demux_sink

record demux_state =
  dm_buffered :: buffer
  dm_effects :: "demux_effect list"

definition createDockerStreamDemuxer :: demux_state where
  "createDockerStreamDemuxer = \<lparr>dm_buffered = [], dm_effects = []\<rparr>"

definition payloadLength :: "buffer \<Rightarrow> nat" where
  "payloadLength buffered = nat (beInt (take 4 (drop 4 buffered)))"

definition sinkOf :: "8 word \<Rightarrow> demux_sink option" where
  "sinkOf streamType = (if streamType = STDOUT then Some Stdout else if streamType = STDERR then Some Stderr else None)"

text \<open>Writing a payload to its sink, which may answer that it is full.\<close>

definition deliver :: "(demux_effect list \<Rightarrow> bool) \<Rightarrow> 8 word \<Rightarrow> buffer \<Rightarrow> demux_effect list \<Rightarrow> demux_effect list" where
  "deliver accepts streamType payload effects =
     (if length payload = 0 then effects
      else (case sinkOf streamType of
          None \<Rightarrow> effects
        | Some sink \<Rightarrow>
            if \<not> accepts (effects @ [Written sink payload]) then effects @ [Written sink payload, Backpressure sink]
            else effects @ [Written sink payload]))"

function drainFrames :: "(demux_effect list \<Rightarrow> bool) \<Rightarrow> demux_state \<Rightarrow> demux_state" where
  "drainFrames accepts s =
     (let buffered = dm_buffered s in
      if length buffered < HEADER_SIZE then s
      else if length buffered < HEADER_SIZE + payloadLength buffered then s
      else
        (let payload = take (payloadLength buffered) (drop HEADER_SIZE buffered) in
         drainFrames accepts
           \<lparr>dm_buffered = drop (HEADER_SIZE + payloadLength buffered) buffered,
            dm_effects = deliver accepts (hd buffered) payload (dm_effects s)\<rparr>))"
  by pat_completeness auto

termination by (relation "measure (\<lambda>(accepts, s). length (dm_buffered s))") (auto simp: HEADER_SIZE_def)

declare drainFrames.simps [simp del]

definition demuxWrite :: "(demux_effect list \<Rightarrow> bool) \<Rightarrow> demux_state \<Rightarrow> buffer \<Rightarrow> demux_state" where
  "demuxWrite accepts s chunk =
     drainFrames accepts (s\<lparr>dm_buffered := if length (dm_buffered s) = 0 then chunk else dm_buffered s @ chunk\<rparr>)"

definition demuxAll :: "(demux_effect list \<Rightarrow> bool) \<Rightarrow> buffer list \<Rightarrow> demux_state" where
  "demuxAll accepts chunks = foldl (demuxWrite accepts) createDockerStreamDemuxer chunks"

section \<open>Chunks\<close>

lemma drain_stops:
  "length (dm_buffered s) < 8 \<or> length (dm_buffered s) < 8 + payloadLength (dm_buffered s) \<Longrightarrow> drainFrames accepts s = s"
  by (subst drainFrames.simps) (auto simp: HEADER_SIZE_def Let_def)

lemma drain_step:
  "\<not> length b < 8 \<Longrightarrow> \<not> length b < 8 + payloadLength b \<Longrightarrow>
   drainFrames accepts \<lparr>dm_buffered = b, dm_effects = out\<rparr> =
     drainFrames accepts \<lparr>dm_buffered = drop (8 + payloadLength b) b,
       dm_effects = deliver accepts (hd b) (take (payloadLength b) (drop 8 b)) out\<rparr>"
  by (subst drainFrames.simps) (simp add: HEADER_SIZE_def Let_def)

lemma payloadLength_append: "8 \<le> length b \<Longrightarrow> payloadLength (b @ c) = payloadLength b"
  by (simp add: payloadLength_def)

text \<open>More bytes after the frames that are complete change nothing of these.\<close>

lemma drain_append:
  "drainFrames accepts (s\<lparr>dm_buffered := dm_buffered s @ chunk\<rparr>) =
   drainFrames accepts ((drainFrames accepts s)\<lparr>dm_buffered := dm_buffered (drainFrames accepts s) @ chunk\<rparr>)"
proof (induction accepts s rule: drainFrames.induct)
  case (1 accepts s)
  let ?b = "dm_buffered s"
  show ?case
  proof (cases "length ?b < 8 \<or> length ?b < 8 + payloadLength ?b")
    case True
    then show ?thesis by (simp only: drain_stops)
  next
    case False
    define s' where "s' = \<lparr>dm_buffered = drop (8 + payloadLength ?b) ?b,
      dm_effects = deliver accepts (hd ?b) (take (payloadLength ?b) (drop 8 ?b)) (dm_effects s)\<rparr>"
    have IH: "drainFrames accepts (s'\<lparr>dm_buffered := dm_buffered s' @ chunk\<rparr>) =
        drainFrames accepts ((drainFrames accepts s')\<lparr>dm_buffered := dm_buffered (drainFrames accepts s') @ chunk\<rparr>)"
      unfolding s'_def using False 1 [OF refl _ _ refl] by (simp add: HEADER_SIZE_def)
    have "drainFrames accepts s = drainFrames accepts s'"
      using False drain_step [of ?b accepts "dm_effects s"] by (cases s) (simp add: s'_def)
    moreover have "drainFrames accepts (s\<lparr>dm_buffered := ?b @ chunk\<rparr>) = drainFrames accepts (s'\<lparr>dm_buffered := dm_buffered s' @ chunk\<rparr>)"
    proof -
      have "?b \<noteq> []" using False by auto
      then show ?thesis
        using False drain_step [of "?b @ chunk" accepts "dm_effects s"] payloadLength_append [of ?b chunk]
        by (cases s) (simp add: s'_def)
    qed
    ultimately show ?thesis using IH by simp
  qed
qed

lemma demuxWrite_appends: "demuxWrite accepts s chunk = drainFrames accepts (s\<lparr>dm_buffered := dm_buffered s @ chunk\<rparr>)"
  by (simp add: demuxWrite_def)

lemma write_twice: "demuxWrite accepts (demuxWrite accepts s b) c = demuxWrite accepts s (b @ c)"
  using drain_append [of accepts "s\<lparr>dm_buffered := dm_buffered s @ b\<rparr>" c] by (simp add: demuxWrite_appends)

lemma demuxAll_concat: "demuxAll accepts chunks = demuxWrite accepts createDockerStreamDemuxer (concat chunks)"
proof (induction chunks rule: rev_induct)
  case Nil
  show ?case by (simp add: demuxAll_def demuxWrite_def drain_stops createDockerStreamDemuxer_def)
next
  case (snoc chunk chunks)
  then show ?case by (simp add: demuxAll_def write_twice)
qed

section \<open>Whole frames\<close>

text \<open>A frame as the daemon documents it: the stream, three bytes that are ignored, the length, the payload.\<close>

definition frameBytes :: "8 word \<times> buffer \<times> buffer \<Rightarrow> buffer" where
  "frameBytes = (\<lambda>(streamType, reserved, payload). streamType # reserved @ beBytes 4 (int (length payload)) @ payload)"

definition frameFits :: "8 word \<times> buffer \<times> buffer \<Rightarrow> bool" where
  "frameFits = (\<lambda>(streamType, reserved, payload). length reserved = 3 \<and> length payload < 256 ^ 4)"

definition frameWrites :: "8 word \<times> buffer \<times> buffer \<Rightarrow> (demux_sink \<times> buffer) list" where
  "frameWrites = (\<lambda>(streamType, reserved, payload).
     if payload = [] then [] else (case sinkOf streamType of None \<Rightarrow> [] | Some sink \<Rightarrow> [(sink, payload)]))"

fun writesOf :: "demux_effect list \<Rightarrow> (demux_sink \<times> buffer) list" where
  "writesOf [] = []"
| "writesOf (Written sink payload # effects) = (sink, payload) # writesOf effects"
| "writesOf (Backpressure sink # effects) = writesOf effects"

lemma writesOf_append [simp]: "writesOf (xs @ ys) = writesOf xs @ writesOf ys"
  by (induction xs rule: writesOf.induct) simp_all

lemma deliver_writes: "writesOf (deliver accepts t payload out) = writesOf out @ frameWrites (t, reserved, payload)"
  by (simp add: deliver_def frameWrites_def split: option.split)

lemma payloadLength_frame:
  assumes "frameFits (t, reserved, payload)"
  shows "payloadLength (frameBytes (t, reserved, payload) @ tail) = length payload"
proof -
  have "drop 4 (frameBytes (t, reserved, payload) @ tail) = beBytes 4 (int (length payload)) @ payload @ tail"
    using assms by (auto simp: frameBytes_def frameFits_def drop_Cons')
  moreover have "int (length payload) < 256 ^ 4" using assms by (simp add: frameFits_def)
  ultimately show ?thesis by (simp add: payloadLength_def beInt_beBytes)
qed

lemma drain_frames:
  assumes "list_all frameFits frames" and "length tail < 8 \<or> length tail < 8 + payloadLength tail"
  shows "dm_buffered (drainFrames accepts \<lparr>dm_buffered = concat (map frameBytes frames) @ tail, dm_effects = out\<rparr>) = tail \<and>
    writesOf (dm_effects (drainFrames accepts \<lparr>dm_buffered = concat (map frameBytes frames) @ tail, dm_effects = out\<rparr>)) =
      writesOf out @ concat (map frameWrites frames)"
  using assms(1)
proof (induction frames arbitrary: out)
  case Nil
  then show ?case using assms(2) by (simp add: drain_stops)
next
  case (Cons frame frames)
  obtain t reserved payload where f: "frame = (t, reserved, payload)" by (cases frame) auto
  let ?rest = "concat (map frameBytes frames) @ tail"
  let ?b = "frameBytes frame @ ?rest"
  have n: "payloadLength ?b = length payload" using Cons(2) f payloadLength_frame by simp
  have len: "length (frameBytes frame) = 8 + length payload" "length reserved = 3"
    using Cons(2) f by (simp_all add: frameBytes_def frameFits_def)
  have "drop (8 + length payload) ?b = ?rest" using len by simp
  moreover have "take (length payload) (drop 8 ?b) = payload" and "hd ?b = t"
    using len f by (simp_all add: frameBytes_def drop_Cons')
  ultimately have "drainFrames accepts \<lparr>dm_buffered = ?b, dm_effects = out\<rparr> =
      drainFrames accepts \<lparr>dm_buffered = ?rest, dm_effects = deliver accepts t payload out\<rparr>"
    using drain_step [of ?b accepts out] n len by simp
  then show ?case
    using Cons deliver_writes [of accepts t payload out reserved] f by simp
qed

section \<open>Claims\<close>

text \<open>
  C38: the boundaries of the chunks do not matter: fed in any chunks, empty ones included, the
  demultiplexer writes, reports and keeps exactly what it does when all bytes come at once, whatever the
  sinks answer.\<close>

theorem demux_ignores_boundaries: "demuxAll accepts chunks = demuxAll accepts [concat chunks]"
  using demuxAll_concat [of accepts chunks] demuxAll_concat [of accepts "[concat chunks]"] by simp

text \<open>
  C39: no byte is lost or sent to the other sink: when the chunks carry whole frames and the start of
  another, the sinks get the payloads of the frames of their type, in order, empty payloads and
  unknown types are dropped, and only the unfinished frame is kept.\<close>

theorem demux_round_trip:
  assumes "concat chunks = concat (map frameBytes frames) @ tail" and "list_all frameFits frames"
    and "length tail < HEADER_SIZE \<or> length tail < HEADER_SIZE + payloadLength tail"
  shows "writesOf (dm_effects (demuxAll accepts chunks)) = concat (map frameWrites frames) \<and>
         dm_buffered (demuxAll accepts chunks) = tail"
  using drain_frames [OF assms(2), of tail accepts "[]"] assms(1,3)
  by (simp add: demuxAll_concat demuxWrite_appends createDockerStreamDemuxer_def HEADER_SIZE_def)

lemma demux_round_trip_witness:
  "writesOf (dm_effects (demuxAll (\<lambda>effects. length effects < 2)
      [[1, 0, 0], [0, 0, 0, 0, 2, 65], [66, 2, 0, 0, 0, 0, 0, 0, 1, 67, 1]])) = [(Stdout, [65, 66]), (Stderr, [67])] \<and>
   dm_buffered (demuxAll (\<lambda>effects. length effects < 2)
      [[1, 0, 0], [0, 0, 0, 0, 2, 65], [66, 2, 0, 0, 0, 0, 0, 0, 1, 67, 1]]) = [1]"
proof -
  have chunks: "concat [[1, 0, 0], [0, 0, 0, 0, 2, 65], [66, 2, 0, 0, 0, 0, 0, 0, 1, 67, 1]] =
      concat (map frameBytes [(1, [0, 0, 0], [65, 66]), (2, [0, 0, 0], [67])]) @ [1]"
    by code_simp
  have fits: "list_all frameFits [(1, [0, 0, 0], [65, 66]), (2, [0, 0, 0], [67])]" by (simp add: frameFits_def)
  have "concat (map frameWrites [(1, [0, 0, 0], [65, 66]), (2, [0, 0, 0], [67])]) = [(Stdout, [65, 66]), (Stderr, [67])]"
    by code_simp
  then show ?thesis
    using demux_round_trip [OF chunks fits, of "\<lambda>effects. length effects < 2"] by (simp add: HEADER_SIZE_def)
qed

end
