(* ===== verification/TurnEvents.thy ===== *)
theory TurnEvents
  imports JsMap "HOL-Library.Word"
begin

text \<open>
  The runner's turn event collector (\<^verbatim>\<open>apps/runner/src/turn-events.ts\<close>) over the agent event
  vocabulary (\<^verbatim>\<open>packages/agent-protocol/src/events.ts\<close>).  A text is a list of UTF-16 code units,
  as its length and its slices are in the code; \<^verbatim>\<open>JSON.stringify\<close> is written out, since the
  batches are split by the length of what it gives.
\<close>

section \<open>Texts\<close>

type_synonym text16 = "16 word list"

definition lit :: "string \<Rightarrow> text16" where
  "lit s = map (\<lambda>c. word_of_nat (of_char c)) s"

fun decimal :: "nat \<Rightarrow> text16" where
  "decimal n = (if n < 10 then [word_of_nat (48 + n)] else decimal (n div 10) @ [word_of_nat (48 + n mod 10)])"

declare decimal.simps [simp del]

definition decimalInt :: "int \<Rightarrow> text16" where
  "decimalInt i = (if i < 0 then lit ''-'' @ decimal (nat (- i)) else decimal (nat i))"

definition hexUnit :: "nat \<Rightarrow> 16 word" where
  "hexUnit n = word_of_nat (if n < 10 then 48 + n else 87 + n)"

definition unicodeEscape :: "16 word \<Rightarrow> text16" where
  "unicodeEscape u =
     [0x5C, 0x75] @ map (\<lambda>k. hexUnit (unat u div 16 ^ k mod 16)) [3, 2, 1, 0]"

text \<open>The units of a quoted string; a surrogate without its partner is escaped.\<close>

definition quoteUnit :: "16 word \<Rightarrow> text16" where
  "quoteUnit u =
     (if u = 0x22 then [0x5C, u] else if u = 0x5C then [0x5C, u]
      else if u = 8 then [0x5C, 0x62] else if u = 9 then [0x5C, 0x74] else if u = 10 then [0x5C, 0x6E]
      else if u = 12 then [0x5C, 0x66] else if u = 13 then [0x5C, 0x72]
      else if u < 0x20 then unicodeEscape u
      else if 0xD800 \<le> u \<and> u \<le> 0xDFFF then unicodeEscape u
      else [u])"

fun quoteUnits :: "text16 \<Rightarrow> text16" where
  "quoteUnits (u # v # us) =
     (if 0xD800 \<le> u \<and> u \<le> 0xDBFF \<and> 0xDC00 \<le> v \<and> v \<le> 0xDFFF then u # v # quoteUnits us
      else quoteUnit u @ quoteUnits (v # us))"
| "quoteUnits [u] = quoteUnit u"
| "quoteUnits [] = []"

definition quoted :: "text16 \<Rightarrow> text16" where
  "quoted us = [0x22] @ quoteUnits us @ [0x22]"

section \<open>Events\<close>

record turn_usage =
  us_inputTokens :: int
  us_outputTokens :: int
  us_cacheReadInputTokens :: "int option"
  us_cacheCreationInputTokens :: "int option"
  us_promptTokens :: "int option"

datatype notice_level = InfoLevel | WarnLevel

datatype agent_event =
    TurnStarted
  | TextDelta text16
  | TextWhole text16
  | ThinkingDelta text16
  | ToolStarted (ev_callId: text16) (ev_name: text16)
  | ToolFinished (ev_callId: text16) (ev_name: text16) (ev_input: "text16 option") (ev_output: text16)
      (ev_isError: "bool option") (ev_exitCode: "int option")
  | ApprovalPending text16
  | NoticeEvent notice_level text16
  | MessageJoined text16
  | MessageSentNow bool "text16 option"
  | TurnDone "turn_usage option"
  | ErrorEvent text16 "text16 option"

definition isTerminalEvent :: "agent_event \<Rightarrow> bool" where
  "isTerminalEvent event = (case event of TurnDone _ \<Rightarrow> True | ErrorEvent _ _ \<Rightarrow> True | _ \<Rightarrow> False)"

text \<open>\<^verbatim>\<open>JSON.stringify\<close> of an event: its members in order, the absent ones left out.\<close>

datatype wire_value = WText text16 | WNumber int | WBool bool | WObject "(string \<times> wire_value) list"

definition commaJoin :: "text16 list \<Rightarrow> text16" where
  "commaJoin ts = (case ts of [] \<Rightarrow> [] | t # rest \<Rightarrow> t @ concat (map (\<lambda>u. lit '','' @ u) rest))"

fun stringify :: "wire_value \<Rightarrow> text16" where
  "stringify (WText t) = quoted t"
| "stringify (WNumber i) = decimalInt i"
| "stringify (WBool b) = (if b then lit ''true'' else lit ''false'')"
| "stringify (WObject ms) = lit ''{'' @ commaJoin (map (\<lambda>(k, v). quoted (lit k) @ lit '':'' @ stringify v) ms) @ lit ''}''"

definition optMember :: "string \<Rightarrow> ('a \<Rightarrow> wire_value) \<Rightarrow> 'a option \<Rightarrow> (string \<times> wire_value) list" where
  "optMember k f v = (case v of None \<Rightarrow> [] | Some x \<Rightarrow> [(k, f x)])"

definition usageValue :: "turn_usage \<Rightarrow> wire_value" where
  "usageValue u =
     WObject ([(''inputTokens'', WNumber (us_inputTokens u)), (''outputTokens'', WNumber (us_outputTokens u))] @
       optMember ''cacheReadInputTokens'' WNumber (us_cacheReadInputTokens u) @
       optMember ''cacheCreationInputTokens'' WNumber (us_cacheCreationInputTokens u) @
       optMember ''promptTokens'' WNumber (us_promptTokens u))"

definition eventMembers :: "string \<Rightarrow> (string \<times> wire_value) list \<Rightarrow> wire_value" where
  "eventMembers ty ms = WObject ((''type'', WText (lit ty)) # ms)"

definition eventValue :: "agent_event \<Rightarrow> wire_value" where
  "eventValue event = (case event of
       TurnStarted \<Rightarrow> eventMembers ''turn.started'' []
     | TextDelta t \<Rightarrow> eventMembers ''text.delta'' [(''text'', WText t)]
     | TextWhole t \<Rightarrow> eventMembers ''text'' [(''text'', WText t)]
     | ThinkingDelta t \<Rightarrow> eventMembers ''thinking.delta'' [(''text'', WText t)]
     | ToolStarted callId name \<Rightarrow> eventMembers ''tool.started'' [(''callId'', WText callId), (''name'', WText name)]
     | ToolFinished callId name input out isError exitCode \<Rightarrow>
         eventMembers ''tool.finished'' ([(''callId'', WText callId), (''name'', WText name)] @
           optMember ''input'' WText input @ [(''output'', WText out)] @
           optMember ''isError'' WBool isError @ optMember ''exitCode'' WNumber exitCode)
     | ApprovalPending t \<Rightarrow> eventMembers ''approval.pending'' [(''description'', WText t)]
     | NoticeEvent l t \<Rightarrow>
         eventMembers ''notice'' [(''level'', WText (lit (case l of InfoLevel \<Rightarrow> ''info'' | WarnLevel \<Rightarrow> ''warn''))), (''text'', WText t)]
     | MessageJoined t \<Rightarrow> eventMembers ''message.joined'' [(''followUpId'', WText t)]
     | MessageSentNow moved tool \<Rightarrow> eventMembers ''message.sent_now'' ([(''moved'', WBool moved)] @ optMember ''toolName'' WText tool)
     | TurnDone usage \<Rightarrow> eventMembers ''turn.done'' (optMember ''usage'' usageValue usage)
     | ErrorEvent t code \<Rightarrow> eventMembers ''error'' ([(''message'', WText t)] @ optMember ''code'' WText code))"

section \<open>Batches\<close>

definition MAX_EVENTS_PER_POST :: nat where
  "MAX_EVENTS_PER_POST = 100"

definition MAX_EVENT_TEXT_CHARS :: nat where
  "MAX_EVENT_TEXT_CHARS = 16000"

definition MAX_BATCH_CHARS :: nat where
  "MAX_BATCH_CHARS = 256000"

definition isTextual :: "agent_event \<Rightarrow> bool" where
  "isTextual event = (case event of TextDelta _ \<Rightarrow> True | ThinkingDelta _ \<Rightarrow> True | _ \<Rightarrow> False)"

text \<open>The merge of two textual events of one type, the first one's fields with both texts.\<close>

definition mergedText :: "agent_event \<Rightarrow> agent_event \<Rightarrow> agent_event option" where
  "mergedText previous event = (case (previous, event) of
       (TextDelta a, TextDelta b) \<Rightarrow> Some (TextDelta (a @ b))
     | (ThinkingDelta a, ThinkingDelta b) \<Rightarrow> Some (ThinkingDelta (a @ b))
     | _ \<Rightarrow> None)"

definition coalesceStep :: "agent_event list \<Rightarrow> agent_event \<Rightarrow> agent_event list" where
  "coalesceStep out event =
     (case (if out = [] then None else mergedText (last out) event) of
        Some m \<Rightarrow> out[length out - 1 := m]
      | None \<Rightarrow> out @ [event])"

definition coalesce :: "agent_event list \<Rightarrow> agent_event list" where
  "coalesce events = foldl coalesceStep [] events"

text \<open>The slices of \<^verbatim>\<open>chunk\<close>; with a size of 0 the loop does not end.\<close>

partial_function (option) chunkFrom :: "nat \<Rightarrow> 'a list \<Rightarrow> nat \<Rightarrow> 'a list list option" where
  "chunkFrom step items i =
     (if i < length items then
        Option.bind (chunkFrom step items (i + step)) (\<lambda>rest. Some (take step (drop i items) # rest))
      else Some [])"

definition chunk :: "'a list \<Rightarrow> nat \<Rightarrow> 'a list list option" where
  "chunk items step = chunkFrom step items 0"

definition clean :: "text16 \<Rightarrow> text16" where
  "clean value =
     (let withoutNul = filter (\<lambda>u. u \<noteq> 0) value in
      if length withoutNul \<le> MAX_EVENT_TEXT_CHARS then withoutNul
      else take MAX_EVENT_TEXT_CHARS withoutNul @ [10, 0x2026] @ lit '' [truncated '' @
        decimal (length withoutNul - MAX_EVENT_TEXT_CHARS) @ lit '' characters]'')"

definition clamp :: "agent_event \<Rightarrow> agent_event" where
  "clamp event = (case event of
       TextDelta t \<Rightarrow> TextDelta (clean t)
     | ThinkingDelta t \<Rightarrow> ThinkingDelta (clean t)
     | TextWhole t \<Rightarrow> TextWhole (clean t)
     | ToolStarted callId name \<Rightarrow> ToolStarted (clean callId) (clean name)
     | ToolFinished callId name input out isError exitCode \<Rightarrow>
         ToolFinished (clean callId) (clean name) (map_option clean input) (clean out) isError exitCode
     | ApprovalPending t \<Rightarrow> ApprovalPending (clean t)
     | NoticeEvent l t \<Rightarrow> NoticeEvent l (clean t)
     | ErrorEvent t code \<Rightarrow> ErrorEvent (clean t) (map_option (\<lambda>c. if c = [] then c else clean c) code)
     | MessageJoined t \<Rightarrow> MessageJoined (clean t)
     | MessageSentNow moved tool \<Rightarrow> MessageSentNow moved (map_option clean tool)
     | TurnStarted \<Rightarrow> event
     | TurnDone usage \<Rightarrow> event)"

definition eventCost :: "agent_event \<Rightarrow> nat" where
  "eventCost event = length (stringify (eventValue event)) + 1"

record size_split =
  sp_batches :: "agent_event list list"
  sp_current :: "agent_event list"
  sp_size :: nat

definition splitStep :: "nat \<Rightarrow> size_split \<Rightarrow> agent_event \<Rightarrow> size_split" where
  "splitStep maxChars s event =
     (let cost = eventCost event;
          s1 = (if sp_current s \<noteq> [] \<and> maxChars < sp_size s + cost
                then \<lparr>sp_batches = sp_batches s @ [sp_current s], sp_current = [], sp_size = 0\<rparr> else s) in
      s1\<lparr>sp_current := sp_current s1 @ [event], sp_size := sp_size s1 + cost\<rparr>)"

definition chunkBySize :: "agent_event list \<Rightarrow> nat \<Rightarrow> agent_event list list" where
  "chunkBySize events maxChars =
     (let s = foldl (splitStep maxChars) \<lparr>sp_batches = [], sp_current = [], sp_size = 0\<rparr> events in
      if sp_current s = [] then sp_batches s else sp_batches s @ [sp_current s])"

section \<open>Collector\<close>

record turn_buffer =
  tb_sandboxId :: string
  tb_conversationId :: string
  tb_events :: "agent_event list"
  tb_timer :: bool

record turn_events_post =
  tp_sandboxId :: string
  tp_conversationId :: string
  tp_turnId :: string
  tp_events :: "agent_event list"

text \<open>The \<^verbatim>\<open>Map\<close> of buffers in insertion order, and what was handed to \<^verbatim>\<open>post\<close>.\<close>

record turn_collector =
  co_buffers :: "(string \<times> turn_buffer) list"
  co_posted :: "turn_events_post list"

definition emptyCollector :: turn_collector where
  "emptyCollector = \<lparr>co_buffers = [], co_posted = []\<rparr>"

definition preparedBatches :: "agent_event list \<Rightarrow> agent_event list list" where
  "preparedBatches events =
     concat (map (\<lambda>byCount. chunkBySize byCount MAX_BATCH_CHARS)
       (the (chunk (map clamp (coalesce events)) MAX_EVENTS_PER_POST)))"

definition flush :: "string \<Rightarrow> turn_collector \<Rightarrow> turn_collector" where
  "flush turnId c =
     (case map_of (co_buffers c) turnId of
        None \<Rightarrow> c
      | Some buffered \<Rightarrow>
          (let c1 = c\<lparr>co_buffers := filter (\<lambda>(k, _). k \<noteq> turnId) (co_buffers c)\<rparr> in
           if tb_events buffered = [] then c1
           else c1\<lparr>co_posted := co_posted c1 @
             map (\<lambda>batch. \<lparr>tp_sandboxId = tb_sandboxId buffered, tp_conversationId = tb_conversationId buffered,
                           tp_turnId = turnId, tp_events = batch\<rparr>) (preparedBatches (tb_events buffered))\<rparr>))"

definition flushConversation :: "string \<Rightarrow> string \<Rightarrow> turn_collector \<Rightarrow> turn_collector" where
  "flushConversation conversationId except c =
     foldl (\<lambda>c' (turnId, buffered).
         if turnId \<noteq> except \<and> tb_conversationId buffered = conversationId then flush turnId c' else c')
       c (co_buffers c)"

definition addEvent :: "string \<Rightarrow> string \<Rightarrow> string \<Rightarrow> agent_event \<Rightarrow> turn_collector \<Rightarrow> turn_collector" where
  "addEvent sandboxId conversationId turnId event c =
     (let buffered = (case map_of (co_buffers c) turnId of
            Some b \<Rightarrow> b
          | None \<Rightarrow> \<lparr>tb_sandboxId = sandboxId, tb_conversationId = conversationId, tb_events = [], tb_timer = False\<rparr>);
          b1 = buffered\<lparr>tb_events := tb_events buffered @ [event]\<rparr>;
          c1 = c\<lparr>co_buffers := mapSet turnId b1 (co_buffers c)\<rparr> in
      if isTerminalEvent event then flush turnId (flushConversation conversationId turnId c1)
      else if \<not> tb_timer b1 then c1\<lparr>co_buffers := mapSet turnId (b1\<lparr>tb_timer := True\<rparr>) (co_buffers c1)\<rparr>
      else c1)"

definition flushAll :: "turn_collector \<Rightarrow> turn_collector" where
  "flushAll c = foldl (\<lambda>c' turnId. flush turnId c') c (map fst (co_buffers c))"

text \<open>A timer that fires flushes its turn; it is armed exactly for a turn whose buffer says so.\<close>

definition timerFires :: "string \<Rightarrow> turn_collector \<Rightarrow> turn_collector" where
  "timerFires turnId c =
     (case map_of (co_buffers c) turnId of Some b \<Rightarrow> if tb_timer b then flush turnId c else c | None \<Rightarrow> c)"

datatype collector_call =
    Add string string string agent_event
  | Flush string
  | FlushAll
  | TimerFires string

fun collectorCall :: "turn_collector \<Rightarrow> collector_call \<Rightarrow> turn_collector" where
  "collectorCall c (Add sandboxId conversationId turnId event) = addEvent sandboxId conversationId turnId event c"
| "collectorCall c (Flush turnId) = flush turnId c"
| "collectorCall c FlushAll = flushAll c"
| "collectorCall c (TimerFires turnId) = timerFires turnId c"

definition collected :: "collector_call list \<Rightarrow> turn_collector" where
  "collected calls = foldl collectorCall emptyCollector calls"

end
