(* ===== verification/TurnFacts.thy ===== *)
theory TurnFacts
  imports TurnEvents
begin

section \<open>Slices\<close>

lemma chunkFrom_some:
  assumes "0 < step"
  shows "\<exists>cs. chunkFrom step items i = Some cs \<and> concat cs = drop i items \<and> (\<forall>c\<in>set cs. c \<noteq> [] \<and> length c \<le> step)"
proof (induction "length items - i" arbitrary: i rule: less_induct)
  case less
  show ?case
  proof (cases "i < length items")
    case True
    then have "length items - (i + step) < length items - i" using assms by arith
    then obtain cs where "chunkFrom step items (i + step) = Some cs" "concat cs = drop (i + step) items"
      "\<forall>c\<in>set cs. c \<noteq> [] \<and> length c \<le> step"
      using less [of "i + step"] by auto
    then show ?thesis using True assms
      by (subst chunkFrom.simps) (auto simp: add.commute [of i] drop_drop [symmetric] simp del: drop_drop)
  next
    case False
    then show ?thesis by (subst chunkFrom.simps) simp
  qed
qed

lemma chunkFrom_diverges: "i < length items \<Longrightarrow> chunkFrom 0 items i = None"
proof -
  have stuck: "s = 0 \<longrightarrow> \<not> j < length xs" if "chunkFrom s xs j = Some y" for s and xs :: "'a list" and j y
    using that by (rule chunkFrom.raw_induct [where P = "\<lambda>s xs j y. s = 0 \<longrightarrow> \<not> j < length xs", rotated])
      (fastforce simp: bind_eq_Some_conv split: if_splits)
  assume "i < length items"
  then show ?thesis using stuck [of 0 items i] by (cases "chunkFrom 0 items i") auto
qed

lemma chunk_some:
  assumes "0 < step"
  shows "concat (the (chunk items step)) = items" and "\<forall>c\<in>set (the (chunk items step)). c \<noteq> [] \<and> length c \<le> step"
    and "chunk items step \<noteq> None"
  using chunkFrom_some [OF assms, of items 0] by (auto simp: chunk_def)

section \<open>Merging\<close>

datatype stream_item = StreamUnit bool "16 word" | StreamEvent agent_event

text \<open>What a reader sees: text unit by unit, everything else whole.\<close>

fun streamOf :: "agent_event \<Rightarrow> stream_item list" where
  "streamOf (TextDelta t) = map (StreamUnit False) t"
| "streamOf (ThinkingDelta t) = map (StreamUnit True) t"
| "streamOf e = [StreamEvent e]"

lemma mergedText_Some:
  "mergedText p e = Some m \<longleftrightarrow>
     (\<exists>a b. p = TextDelta a \<and> e = TextDelta b \<and> m = TextDelta (a @ b) \<or>
            p = ThinkingDelta a \<and> e = ThinkingDelta b \<and> m = ThinkingDelta (a @ b))"
  by (auto simp: mergedText_def split: agent_event.splits)

lemma mergedText_stream: "mergedText p e = Some m \<Longrightarrow> streamOf m = streamOf p @ streamOf e"
  by (auto simp: mergedText_Some)

lemma coalesceStep_cases:
  "out = [] \<Longrightarrow> coalesceStep out e = [e]"
  "mergedText l e = None \<Longrightarrow> coalesceStep (pre @ [l]) e = pre @ [l, e]"
  "mergedText l e = Some m \<Longrightarrow> coalesceStep (pre @ [l]) e = pre @ [m]"
  by (simp_all add: coalesceStep_def)

lemma coalesce_snoc: "coalesce (es @ [e]) = coalesceStep (coalesce es) e"
  by (simp add: coalesce_def)

lemma coalesceStep_shape:
  obtains "coalesceStep out e = out @ [e]" "out = [] \<or> mergedText (last out) e = None"
  | pre l m where "out = pre @ [l]" "mergedText l e = Some m" "coalesceStep out e = pre @ [m]"
proof (cases out rule: rev_cases)
  case Nil
  then show thesis using that(1) by (simp add: coalesceStep_def)
next
  case (snoc pre l)
  then show thesis
    using that by (cases "mergedText l e") (auto simp: coalesceStep_cases)
qed

lemma coalesce_stream: "concat (map streamOf (coalesce es)) = concat (map streamOf es)"
proof (induction es rule: rev_induct)
  case (snoc e es)
  show ?case
    by (rule coalesceStep_shape [of "coalesce es" e]) (use snoc in \<open>auto simp: coalesce_snoc mergedText_stream\<close>)
qed (simp add: coalesce_def)

definition unmergeable :: "agent_event \<Rightarrow> agent_event \<Rightarrow> bool" where
  "unmergeable a b \<longleftrightarrow> mergedText a b = None"

lemma mergedText_left: "mergedText l e = Some m \<Longrightarrow> unmergeable p m = unmergeable p l"
  by (auto simp: unmergeable_def mergedText_def split: agent_event.splits)

lemma coalesce_successive: "successively unmergeable (coalesce es)"
proof (induction es rule: rev_induct)
  case (snoc e es)
  show ?case
    by (rule coalesceStep_shape [of "coalesce es" e])
      (use snoc mergedText_left in \<open>auto simp: coalesce_snoc successively_append_iff unmergeable_def\<close>)
qed (simp add: coalesce_def)

lemma coalesce_fixed: "successively unmergeable es \<Longrightarrow> coalesce es = es"
proof (induction es rule: rev_induct)
  case (snoc e es)
  then have "coalesce es = es" "es = [] \<or> mergedText (last es) e = None"
    by (auto simp: successively_append_iff unmergeable_def)
  then have "coalesce (es @ [e]) = coalesceStep es e" by (simp only: coalesce_snoc)
  then show ?case using \<open>es = [] \<or> mergedText (last es) e = None\<close>
    by (cases es rule: rev_cases) (auto simp: coalesceStep_cases)
qed (simp add: coalesce_def)

section \<open>Size\<close>

definition costs :: "agent_event list \<Rightarrow> nat" where
  "costs es = sum_list (map eventCost es)"

lemma costs_simps [simp]: "costs [] = 0" "costs (e # es) = eventCost e + costs es" "costs (es @ fs) = costs es + costs fs"
  by (simp_all add: costs_def)

definition fitting :: "nat \<Rightarrow> agent_event list \<Rightarrow> bool" where
  "fitting m b \<longleftrightarrow> costs b \<le> m \<or> length b = 1"

definition splitOk :: "nat \<Rightarrow> agent_event list \<Rightarrow> size_split \<Rightarrow> bool" where
  "splitOk m es s \<longleftrightarrow>
     sp_size s = costs (sp_current s) \<and> (\<forall>b\<in>set (sp_batches s). b \<noteq> [] \<and> fitting m b) \<and>
     (sp_current s = [] \<or> fitting m (sp_current s)) \<and> concat (sp_batches s) @ sp_current s = es"

lemma splitStep_ok: "splitOk m es s \<Longrightarrow> splitOk m (es @ [e]) (splitStep m s e)"
  by (auto simp: splitOk_def splitStep_def Let_def fitting_def)

lemma chunkBySize_fold:
  "splitOk m es (foldl (splitStep m) \<lparr>sp_batches = [], sp_current = [], sp_size = 0\<rparr> es)"
proof (induction es rule: rev_induct)
  case Nil
  show ?case by (simp add: splitOk_def)
next
  case (snoc e es)
  show ?case unfolding foldl_append foldl.simps by (rule splitStep_ok [OF snoc])
qed

lemma chunkBySize_batches:
  "concat (chunkBySize es m) = es \<and> (\<forall>b\<in>set (chunkBySize es m). b \<noteq> [] \<and> fitting m b)"
proof -
  have ok: "splitOk m es s \<Longrightarrow> concat (if sp_current s = [] then sp_batches s else sp_batches s @ [sp_current s]) = es \<and>
      (\<forall>b\<in>set (if sp_current s = [] then sp_batches s else sp_batches s @ [sp_current s]). b \<noteq> [] \<and> fitting m b)" for s
    by (auto simp: splitOk_def)
  show ?thesis unfolding chunkBySize_def Let_def by (rule ok [OF chunkBySize_fold])
qed

lemma preparedBatches_concat: "concat (preparedBatches es) = map clamp (coalesce es)"
proof -
  have "concat (concat (map (\<lambda>g. chunkBySize g m) gs)) = concat gs" for gs m
    by (induction gs) (simp_all add: chunkBySize_batches)
  then show ?thesis by (simp add: preparedBatches_def chunk_some(1) MAX_EVENTS_PER_POST_def)
qed

lemma preparedBatches_each:
  assumes "b \<in> set (preparedBatches es)"
  shows "b \<noteq> []" and "length b \<le> MAX_EVENTS_PER_POST" and "fitting MAX_BATCH_CHARS b"
proof -
  obtain g where g: "g \<in> set (the (chunk (map clamp (coalesce es)) MAX_EVENTS_PER_POST))"
    "b \<in> set (chunkBySize g MAX_BATCH_CHARS)"
    using assms by (auto simp: preparedBatches_def)
  show "b \<noteq> []" "fitting MAX_BATCH_CHARS b" using chunkBySize_batches g(2) by blast+
  have "length b \<le> length (concat (chunkBySize g MAX_BATCH_CHARS))"
    using g(2) by (simp add: length_concat member_le_sum_list)
  also have "\<dots> \<le> MAX_EVENTS_PER_POST"
    using chunk_some(2) [of MAX_EVENTS_PER_POST "map clamp (coalesce es)"] g(1)
    by (auto simp: chunkBySize_batches MAX_EVENTS_PER_POST_def)
  finally show "length b \<le> MAX_EVENTS_PER_POST" .
qed

lemma preparedBatches_Nil: "preparedBatches [] = []"
  using preparedBatches_concat [of "[]"] preparedBatches_each(1) [of "[]" "[]"]
  by (cases "preparedBatches []") (auto simp: coalesce_def dest!: preparedBatches_each(1))

end
