(* ===== verification/TurnDelivery.thy ===== *)
theory TurnDelivery
  imports TurnFacts
begin

text \<open>
  What the collector delivers over any sequence of calls: per turn, the posted batches are those of
  consecutive runs of the events added, in order, and nothing is lost.
\<close>

section \<open>Per turn\<close>

definition pending :: "string \<Rightarrow> turn_collector \<Rightarrow> agent_event list" where
  "pending t c = (case map_of (co_buffers c) t of None \<Rightarrow> [] | Some b \<Rightarrow> tb_events b)"

definition batchesOf :: "string \<Rightarrow> turn_collector \<Rightarrow> agent_event list list" where
  "batchesOf t c = map tp_events (filter (\<lambda>p. tp_turnId p = t) (co_posted c))"

definition addedOf :: "string \<Rightarrow> collector_call list \<Rightarrow> agent_event list" where
  "addedOf t calls =
     concat (map (\<lambda>call. case call of Add s v u e \<Rightarrow> if u = t then [e] else [] | _ \<Rightarrow> []) calls)"

definition delivered :: "string \<Rightarrow> agent_event list \<Rightarrow> turn_collector \<Rightarrow> bool" where
  "delivered t es c \<longleftrightarrow>
     (\<exists>runs. concat runs @ pending t c = es \<and> batchesOf t c = concat (map preparedBatches runs))"

lemma flush_pending: "pending u (flush t c) = (if u = t then [] else pending u c)"
  by (auto simp: flush_def pending_def Let_def map_of_without split: option.splits)

lemma flush_batches: "batchesOf u (flush t c) = batchesOf u c @ (if u = t then preparedBatches (pending t c) else [])"
  by (auto simp: flush_def pending_def batchesOf_def Let_def preparedBatches_Nil filter_map o_def split: option.splits)

lemma flush_delivered: "delivered u es c \<Longrightarrow> delivered u es (flush t c)"
proof -
  assume "delivered u es c"
  then obtain runs where "concat runs @ pending u c = es" "batchesOf u c = concat (map preparedBatches runs)"
    by (auto simp: delivered_def)
  then show ?thesis
    unfolding delivered_def flush_pending flush_batches
    by (intro exI [of _ "if u = t then runs @ [pending t c] else runs"]) auto
qed

text \<open>Whatever every single flush keeps, the operations that flush several turns keep.\<close>

lemma flushConversation_keeps:
  assumes "\<And>t c. P c \<Longrightarrow> P (flush t c)" and "P c"
  shows "P (flushConversation v t c)"
proof -
  have "P c' \<Longrightarrow> P (foldl (\<lambda>c' (u, b). if u \<noteq> t \<and> tb_conversationId b = v then flush u c' else c') c' bs)" for c' bs
    by (induction bs arbitrary: c') (auto simp: assms(1))
  then show ?thesis using assms(2) by (simp add: flushConversation_def)
qed

lemma flushAll_keeps:
  assumes "\<And>t c. P c \<Longrightarrow> P (flush t c)" and "P c"
  shows "P (flushAll c)"
proof -
  have "P c' \<Longrightarrow> P (foldl (\<lambda>c' t. flush t c') c' ts)" for c' ts
    by (induction ts arbitrary: c') (auto simp: assms(1))
  then show ?thesis using assms(2) by (simp add: flushAll_def)
qed

text \<open>Adding an event: the buffer with the event, then flushes.\<close>

definition bufferedEvent :: "string \<Rightarrow> string \<Rightarrow> string \<Rightarrow> agent_event \<Rightarrow> bool \<Rightarrow> turn_collector \<Rightarrow> turn_collector" where
  "bufferedEvent s v t e armed c =
     c\<lparr>co_buffers := mapSet t
        ((case map_of (co_buffers c) t of
            Some b \<Rightarrow> b
          | None \<Rightarrow> \<lparr>tb_sandboxId = s, tb_conversationId = v, tb_events = [], tb_timer = False\<rparr>)
         \<lparr>tb_events := pending t c @ [e], tb_timer := armed\<rparr>) (co_buffers c)\<rparr>"

lemma addEvent_shape:
  obtains armed where
    "addEvent s v t e c =
       (if isTerminalEvent e then flush t (flushConversation v t (bufferedEvent s v t e armed c))
        else bufferedEvent s v t e armed c)"
proof (cases "map_of (co_buffers c) t")
  case None
  then show thesis
    by (intro that [of "\<not> isTerminalEvent e"])
      (auto simp: addEvent_def bufferedEvent_def pending_def Let_def mapSet_twice)
next
  case (Some b)
  then show thesis
    by (intro that [of "tb_timer b \<or> \<not> isTerminalEvent e"])
      (cases b; auto simp: addEvent_def bufferedEvent_def pending_def Let_def mapSet_twice)
qed

lemma bufferedEvent_pending: "pending u (bufferedEvent s v t e armed c) = pending u c @ (if u = t then [e] else [])"
  by (auto simp: pending_def bufferedEvent_def map_of_mapSet)

lemma bufferedEvent_batches: "batchesOf u (bufferedEvent s v t e armed c) = batchesOf u c"
  by (simp add: batchesOf_def bufferedEvent_def)

lemma bufferedEvent_delivered:
  "delivered u es c \<Longrightarrow> delivered u (es @ (if u = t then [e] else [])) (bufferedEvent s v t e armed c)"
  unfolding delivered_def bufferedEvent_pending bufferedEvent_batches by (metis append.assoc)

lemma addEvent_delivered:
  assumes "delivered u es c"
  shows "delivered u (es @ (if u = t then [e] else [])) (addEvent s v t e c)"
proof -
  obtain armed where a: "addEvent s v t e c =
      (if isTerminalEvent e then flush t (flushConversation v t (bufferedEvent s v t e armed c))
       else bufferedEvent s v t e armed c)"
    by (rule addEvent_shape)
  have b: "delivered u (es @ (if u = t then [e] else [])) (bufferedEvent s v t e armed c)"
    by (rule bufferedEvent_delivered [OF assms])
  have "delivered u (es @ (if u = t then [e] else [])) (flush t (flushConversation v t (bufferedEvent s v t e armed c)))"
    by (rule flush_delivered, rule flushConversation_keeps [OF flush_delivered b])
  then show ?thesis unfolding a using b by presburger
qed

lemma addedOf_simps [simp]:
  "addedOf u (calls @ [Add s v t e]) = addedOf u calls @ (if u = t then [e] else [])"
  "addedOf u (calls @ [Flush t]) = addedOf u calls" "addedOf u (calls @ [FlushAll]) = addedOf u calls"
  "addedOf u (calls @ [TimerFires t]) = addedOf u calls" "addedOf u [] = []"
  by (simp_all add: addedOf_def)

lemma collected_delivered: "delivered u (addedOf u calls) (collected calls)"
proof (induction calls rule: rev_induct)
  case Nil
  show ?case by (auto simp: delivered_def collected_def emptyCollector_def pending_def batchesOf_def
        intro: exI [of _ "[]"])
next
  case (snoc call calls)
  have step: "collected (calls @ [k]) = collectorCall (collected calls) k" for k by (simp add: collected_def)
  show ?case
  proof (cases call)
    case (Add s v t e)
    then show ?thesis using addEvent_delivered [OF snoc, of t e s v] by (simp add: step)
  next
    case (Flush t)
    then show ?thesis using flush_delivered [OF snoc] by (simp add: step)
  next
    case FlushAll
    then show ?thesis using flushAll_keeps [of "delivered u (addedOf u calls)", OF flush_delivered snoc]
      by (simp add: step)
  next
    case (TimerFires t)
    then show ?thesis using flush_delivered [OF snoc] snoc
      by (auto simp: step timerFires_def split: option.splits)
  qed
qed

text \<open>A flush only removes buffers, and all of those of its turn.\<close>

lemma flush_buffers: "co_buffers (flush t c) = filter (\<lambda>(k, _). k \<noteq> t) (co_buffers c)"
proof (cases "map_of (co_buffers c) t")
  case None
  then have "\<forall>kb\<in>set (co_buffers c). fst kb \<noteq> t" by (auto simp: map_of_eq_None_iff)
  then show ?thesis using None by (simp add: flush_def case_prod_unfold filter_True)
qed (simp add: flush_def Let_def)

lemma flushAll_empty: "co_buffers (flushAll c) = []"
proof -
  have "co_buffers (foldl (\<lambda>c' t. flush t c') c' ts) = filter (\<lambda>kb. fst kb \<notin> set ts) (co_buffers c')" for c' ts
    by (induction ts arbitrary: c') (auto simp: flush_buffers case_prod_unfold intro!: filter_cong)
  then show ?thesis by (simp add: flushAll_def filter_empty_conv)
qed

lemma flushConversation_buffers:
  assumes "(k, b) \<in> set (co_buffers (flushConversation v t c))"
  shows "(k, b) \<in> set (co_buffers c) \<and> (k = t \<or> tb_conversationId b \<noteq> v)"
proof -
  let ?f = "\<lambda>c' (u, b). if u \<noteq> t \<and> tb_conversationId b = v then flush u c' else c'"
  have "(k, b) \<in> set (co_buffers (foldl ?f c' bs)) \<Longrightarrow>
      (k, b) \<in> set (co_buffers c') \<and> (k = t \<or> (\<forall>b'. (k, b') \<in> set bs \<longrightarrow> tb_conversationId b' \<noteq> v))" for c' bs
  proof (induction bs arbitrary: c')
    case (Cons ub bs)
    obtain u b0 where ub: "ub = (u, b0)" by (cases ub)
    have ih: "(k, b) \<in> set (co_buffers (?f c' ub))" "k = t \<or> (\<forall>b'. (k, b') \<in> set bs \<longrightarrow> tb_conversationId b' \<noteq> v)"
      using Cons.IH [of "?f c' ub"] Cons.prems by simp_all
    show ?case
    proof (cases "u \<noteq> t \<and> tb_conversationId b0 = v")
      case True
      then have "(k, b) \<in> set (co_buffers c') \<and> k \<noteq> u" using ih(1) by (simp add: ub flush_buffers)
      then show ?thesis using ih(2) True by (auto simp: ub)
    next
      case False
      then show ?thesis using ih by (auto simp: ub)
    qed
  qed simp
  then show ?thesis using assms unfolding flushConversation_def by blast
qed

end
