(* ===== verification/TurnSize.thy ===== *)
theory TurnSize
  imports TurnDelivery
begin

text \<open>How long an event can be once its texts are bounded.\<close>

lemma length_lit [simp]: "length (lit s) = length s"
  by (simp add: lit_def)

lemma length_decimal: "n < 10 ^ k \<Longrightarrow> 0 < k \<Longrightarrow> length (decimal n) \<le> k"
proof (induction k arbitrary: n)
  case (Suc k)
  show ?case
  proof (cases "n < 10")
    case True
    then show ?thesis by (subst decimal.simps) simp
  next
    case False
    then have "0 < k" using Suc.prems(1) by (cases k) auto
    moreover have "n div 10 < 10 ^ k" using Suc.prems(1) by (simp add: div_less_iff_less_mult mult.commute)
    ultimately have "length (decimal (n div 10)) \<le> k" using Suc.IH by blast
    then show ?thesis using False by (subst decimal.simps) simp
  qed
qed simp

definition safeNumber :: "int \<Rightarrow> bool" where
  "safeNumber i \<longleftrightarrow> \<bar>i\<bar> \<le> 2 ^ 53"

lemma length_decimalInt: "safeNumber i \<Longrightarrow> length (decimalInt i) \<le> 17"
  using length_decimal [of "nat (- i)" 16] length_decimal [of "nat i" 16]
  by (auto simp: decimalInt_def safeNumber_def nat_less_iff abs_le_iff)

lemma length_quoteUnit: "length (quoteUnit u) \<le> 6"
  by (simp add: quoteUnit_def unicodeEscape_def)

lemma length_quoted: "length (quoted us) \<le> 6 * length us + 2"
proof -
  have "length (quoteUnits us) \<le> 6 * length us"
  proof (induction us rule: quoteUnits.induct)
    case (1 u v us)
    then show ?case using length_quoteUnit [of u] by auto
  next
    case (2 u)
    then show ?case using length_quoteUnit [of u] by simp
  qed simp
  then show ?thesis by (simp add: quoted_def)
qed

lemma length_commaJoin: "ts \<noteq> [] \<Longrightarrow> Suc (length (commaJoin ts)) = sum_list (map length ts) + length ts"
proof -
  have "length (concat (map (\<lambda>u. lit '','' @ u) us)) = sum_list (map length us) + length us" for us
    by (induction us) auto
  then show "ts \<noteq> [] \<Longrightarrow> ?thesis" by (cases ts) (auto simp: commaJoin_def)
qed

lemma length_clean:
  assumes "length t < 10 ^ 16"
  shows "length (clean t) \<le> 16042"
proof -
  have "length (filter (\<lambda>u. u \<noteq> 0) t) - MAX_EVENT_TEXT_CHARS < 10 ^ 16"
    using assms length_filter_le [of "\<lambda>u. u \<noteq> 0" t] by linarith
  from length_decimal [OF this] show ?thesis by (simp add: clean_def Let_def MAX_EVENT_TEXT_CHARS_def)
qed

text \<open>No NUL is left for the database to refuse.\<close>

lemma decimal_no_nul: "0 \<notin> set (decimal n)"
proof (induction n rule: decimal.induct)
  case (1 n)
  have digit: "(word_of_nat (48 + d) :: 16 word) \<noteq> 0" if "d < 10" for d
  proof -
    have "unat (word_of_nat (48 + d) :: 16 word) = 48 + d" using that by (simp only: unat_of_nat) simp
    then show ?thesis by (metis add_is_0 numeral_neq_zero unat_0)
  qed
  show ?case
    using 1 digit [of n] digit [of "n mod 10"] by (subst decimal.simps) (auto simp del: of_nat_add)
qed

lemma clean_no_nul: "0 \<notin> set (clean t)"
proof -
  have "0 \<notin> set (lit s)" if "list_all (\<lambda>c. of_char c \<noteq> (0 :: nat)) s" for s
  proof
    assume "0 \<in> set (lit s)"
    then obtain c where c: "c \<in> set s" "(word_of_nat (of_char c) :: 16 word) = 0" by (auto simp: lit_def)
    have "unat (word_of_nat (of_char c) :: 16 word) = of_char c"
      using less_trans [OF of_char_less_256, of 65536 c] by (simp add: unat_of_nat)
    then show False using c that by (auto simp: list_all_iff)
  qed
  from this [of "'' [truncated ''"] this [of "'' characters]''"]
  show ?thesis using decimal_no_nul by (auto simp: clean_def Let_def dest!: in_set_takeD split: if_splits)
qed

text \<open>The texts and the numbers an event carries.\<close>

definition eventTexts :: "agent_event \<Rightarrow> text16 list" where
  "eventTexts e = (case e of
       TextDelta t \<Rightarrow> [t] | TextWhole t \<Rightarrow> [t] | ThinkingDelta t \<Rightarrow> [t] | ToolStarted i n \<Rightarrow> [i, n]
     | ToolFinished i n input out er ex \<Rightarrow> [i, n] @ (case input of None \<Rightarrow> [] | Some t \<Rightarrow> [t]) @ [out]
     | ApprovalPending t \<Rightarrow> [t] | NoticeEvent l t \<Rightarrow> [t] | MessageJoined t \<Rightarrow> [t]
     | MessageSentNow m tool \<Rightarrow> (case tool of None \<Rightarrow> [] | Some t \<Rightarrow> [t])
     | ErrorEvent t code \<Rightarrow> t # (case code of None \<Rightarrow> [] | Some c \<Rightarrow> [c])
     | TurnStarted \<Rightarrow> [] | TurnDone u \<Rightarrow> [])"

definition eventUnits :: "agent_event \<Rightarrow> nat" where
  "eventUnits e = sum_list (map length (eventTexts e))"

definition eventNumbers :: "agent_event \<Rightarrow> int list" where
  "eventNumbers e = (case e of
       ToolFinished i n input out er ex \<Rightarrow> (case ex of None \<Rightarrow> [] | Some k \<Rightarrow> [k])
     | TurnDone (Some u) \<Rightarrow> [us_inputTokens u, us_outputTokens u] @
         concat (map (\<lambda>k. case k of None \<Rightarrow> [] | Some k \<Rightarrow> [k])
           [us_cacheReadInputTokens u, us_cacheCreationInputTokens u, us_promptTokens u])
     | _ \<Rightarrow> [])"

lemma length_object:
  "length (stringify (WObject ms)) \<le> sum_list (map (\<lambda>(k, v). 6 * length k + length (stringify v) + 4) ms) + 2"
proof -
  have member: "length (quoted (lit k) @ lit '':'' @ stringify v) \<le> 6 * length k + length (stringify v) + 3" for k v
    using length_quoted [of "lit k"] by simp
  have "sum_list (map (length \<circ> (\<lambda>(k, v). quoted (lit k) @ lit '':'' @ stringify v)) ms) + length ms \<le>
      sum_list (map (\<lambda>(k, v). 6 * length k + length (stringify v) + 4) ms)"
  proof (induction ms)
    case (Cons m ms)
    then show ?case using member [of "fst m" "snd m"] by (simp add: case_prod_unfold)
  qed simp
  then show ?thesis
    using length_commaJoin [of "map (\<lambda>(k, v). quoted (lit k) @ lit '':'' @ stringify v) ms"]
    by (cases "ms = []") (auto simp: commaJoin_def)
qed

lemma length_optMember:
  "sum_list (map g (optMember k f v)) = (case v of None \<Rightarrow> 0 | Some x \<Rightarrow> g (k, f x))"
  by (simp add: optMember_def split: option.splits)

lemmas object_bound = order_trans [OF length_object]

lemma length_usage:
  assumes "list_all safeNumber (eventNumbers (TurnDone (Some u)))"
  shows "length (stringify (usageValue u)) \<le> 1000"
  unfolding usageValue_def
  by (rule object_bound)
    (use assms in \<open>auto simp: length_optMember eventNumbers_def dest!: length_decimalInt split: option.splits\<close>)

lemma length_cleaned:
  assumes "length t < 10 ^ 16"
  shows "length (quoted (clean t)) \<le> 96254"
  using length_quoted [of "clean t"] length_clean [OF assms] by linarith

definition boundedEvent :: "agent_event \<Rightarrow> bool" where
  "boundedEvent e \<longleftrightarrow> eventUnits e < 10 ^ 16 \<and> list_all safeNumber (eventNumbers e)"

lemma length_event:
  "length (stringify (eventMembers ty ms)) \<le>
     6 * length ty + 40 + sum_list (map (\<lambda>(k, v). 6 * length k + length (stringify v) + 4) ms)"
  unfolding eventMembers_def by (rule object_bound) (use length_quoted [of "lit ty"] in simp)

lemmas event_bound = order_trans [OF length_event]

lemma clamped_length:
  assumes "boundedEvent e"
  shows "length (stringify (eventValue (clamp e))) \<le> 400000"
proof -
  have u: "eventUnits e < 10 ^ 16" and n: "list_all safeNumber (eventNumbers e)" using assms by (simp_all add: boundedEvent_def)
  have "length (quoted (clean t)) \<le> 96254" if "t \<in> set (eventTexts e)" for t
    using member_le_sum_list [of "length t" "map length (eventTexts e)"] that u
    by (intro length_cleaned) (auto simp: eventUnits_def)
  then have t: "list_all (\<lambda>t. length (quoted (clean t)) \<le> 96254) (eventTexts e)" by (simp add: list_all_iff)
  note defs = eventValue_def clamp_def
  show ?thesis
  proof (cases e)
    case (TurnDone usage)
    have "length (stringify (usageValue a)) \<le> 1000" if "usage = Some a" for a
      by (rule length_usage) (use n TurnDone that in simp)
    then show ?thesis
      unfolding TurnDone by (cases usage) (auto simp: defs length_optMember intro!: event_bound)
  next
    case (NoticeEvent l t)
    then show ?thesis
      using t length_quoted [of "lit ''info''"] length_quoted [of "lit ''warn''"]
      by (cases l) (auto simp: defs eventTexts_def intro!: event_bound)
  next
    case (ErrorEvent m code)
    have "length (quoted []) = 2" by (simp add: quoted_def)
    then show ?thesis
      using t ErrorEvent by (cases code) (auto simp: defs eventTexts_def length_optMember intro!: event_bound)
  next
    case (ToolFinished i nm input out er ex)
    then show ?thesis
      using t n ToolFinished
      by (cases input; cases ex; cases er)
        (auto simp: defs eventTexts_def eventNumbers_def length_optMember dest!: length_decimalInt intro!: event_bound)
  next
    case (MessageSentNow m tool)
    then show ?thesis using t by (cases tool) (auto simp: defs eventTexts_def length_optMember intro!: event_bound)
  qed (use t in \<open>auto simp: defs eventTexts_def intro!: event_bound\<close>)
qed

section \<open>Batches on the wire\<close>

definition MAX_EVENT_BATCH_CHARS :: nat where
  "MAX_EVENT_BATCH_CHARS = 1000000"

definition batchJson :: "agent_event list \<Rightarrow> text16" where
  "batchJson events = lit ''['' @ commaJoin (map (\<lambda>e. stringify (eventValue e)) events) @ lit '']''"

text \<open>What the schema of the control plane accepts as the events of one post.\<close>

definition wireAccepts :: "agent_event list \<Rightarrow> bool" where
  "wireAccepts events \<longleftrightarrow>
     1 \<le> length events \<and> length events \<le> 100 \<and> length (batchJson events) \<le> MAX_EVENT_BATCH_CHARS"

lemma length_batchJson: "es \<noteq> [] \<Longrightarrow> length (batchJson es) = costs es + 1"
proof -
  assume "es \<noteq> []"
  moreover have "sum_list (map (length \<circ> (\<lambda>e. stringify (eventValue e))) es) + length es = costs es" for es
    by (induction es) (auto simp: eventCost_def)
  ultimately show ?thesis
    using length_commaJoin [of "map (\<lambda>e. stringify (eventValue e)) es"] by (simp add: batchJson_def)
qed

text \<open>Merging adds nothing: the units and the numbers are those of the parts.\<close>

lemma coalesce_units: "sum_list (map eventUnits (coalesce es)) = sum_list (map eventUnits es)"
proof (induction es rule: rev_induct)
  case (snoc e es)
  have m: "mergedText l e = Some m \<Longrightarrow> eventUnits m = eventUnits l + eventUnits e" for l m
    by (auto simp: mergedText_Some eventUnits_def eventTexts_def)
  show ?case
    by (rule coalesceStep_shape [of "coalesce es" e]) (use snoc m in \<open>auto simp: coalesce_snoc\<close>)
qed (simp add: coalesce_def)

lemma coalesce_numbers:
  "list_all (\<lambda>e. list_all safeNumber (eventNumbers e)) es \<Longrightarrow>
   list_all (\<lambda>e. list_all safeNumber (eventNumbers e)) (coalesce es)"
proof (induction es rule: rev_induct)
  case (snoc e es)
  have m: "mergedText l e = Some m \<Longrightarrow> eventNumbers m = []" for l m
    by (auto simp: mergedText_Some eventNumbers_def)
  show ?case
    by (rule coalesceStep_shape [of "coalesce es" e]) (use snoc m in \<open>auto simp: coalesce_snoc\<close>)
qed (simp add: coalesce_def)

definition boundedRun :: "agent_event list \<Rightarrow> bool" where
  "boundedRun es \<longleftrightarrow>
     sum_list (map eventUnits es) < 10 ^ 16 \<and> list_all (\<lambda>e. list_all safeNumber (eventNumbers e)) es"

lemma prepared_accepted:
  assumes "boundedRun es" and "b \<in> set (preparedBatches es)"
  shows "wireAccepts b"
proof -
  have "eventUnits e \<le> sum_list (map eventUnits es)" if "e \<in> set (coalesce es)" for e
    using member_le_sum_list [of "eventUnits e" "map eventUnits (coalesce es)"] that by (simp add: coalesce_units)
  then have "boundedEvent e" if "e \<in> set (coalesce es)" for e
    using that assms(1) coalesce_numbers [of es] by (fastforce simp: boundedRun_def boundedEvent_def list_all_iff)
  then have cost: "\<forall>e\<in>set (map clamp (coalesce es)). eventCost e \<le> 400001"
    using clamped_length by (simp add: eventCost_def)
  have "set b \<subseteq> set (map clamp (coalesce es))"
    using assms(2) preparedBatches_concat [of es] by (metis UN_upper set_concat)
  then have "length b = 1 \<Longrightarrow> costs b \<le> 400001"
    using cost by (cases b) auto
  then have "costs b \<le> 400001" using preparedBatches_each(3) [OF assms(2)] by (auto simp: fitting_def MAX_BATCH_CHARS_def)
  then show ?thesis
    using preparedBatches_each(1,2) [OF assms(2)]
    by (cases b) (auto simp: wireAccepts_def length_batchJson MAX_EVENTS_PER_POST_def MAX_EVENT_BATCH_CHARS_def)
qed

end
