(* ===== verification/TurnTheorems.thy ===== *)
theory TurnTheorems
  imports TurnSize
begin

text \<open>What the runner promises about the transcript events it posts.\<close>

section \<open>Lemmas\<close>

text \<open>The event added last stays the last of its turn's buffer while other turns are flushed.\<close>

lemma flushConversation_own: "map_of (co_buffers (flushConversation v t c)) t = map_of (co_buffers c) t"
proof -
  have "map_of (co_buffers (foldl (\<lambda>c' (u, b). if u \<noteq> t \<and> tb_conversationId b = v then flush u c' else c') c' bs)) t =
      map_of (co_buffers c') t" for c' bs
    by (induction bs arbitrary: c') (auto simp: flush_buffers map_of_without)
  then show ?thesis by (simp add: flushConversation_def)
qed

lemma last_event_kept:
  "\<exists>b es. map_of (co_buffers (flushConversation v t (bufferedEvent s v t e armed c))) t = Some b \<and> tb_events b = es @ [e]"
  using flushConversation_own [of v t "bufferedEvent s v t e armed c"]
  by (auto simp: bufferedEvent_def map_of_mapSet)

lemma prepared_last:
  assumes "isTerminalEvent e"
  shows "preparedBatches (es @ [e]) \<noteq> [] \<and> last (preparedBatches (es @ [e])) \<noteq> [] \<and>
         last (last (preparedBatches (es @ [e]))) = clamp e"
proof -
  have "mergedText l e = None" for l using assms by (auto simp: mergedText_def isTerminalEvent_def split: agent_event.splits)
  then have "coalesce (es @ [e]) = coalesce es @ [e]"
    by (cases "coalesce es" rule: rev_cases) (simp_all add: coalesce_snoc coalesceStep_cases)
  then have c: "concat (preparedBatches (es @ [e])) = map clamp (coalesce es) @ [clamp e]"
    by (simp add: preparedBatches_concat)
  then have "preparedBatches (es @ [e]) \<noteq> []" by auto
  moreover from this have n: "last (preparedBatches (es @ [e])) \<noteq> []" using preparedBatches_each(1) last_in_set by blast
  moreover have "last (concat (preparedBatches (es @ [e]))) = last (last (preparedBatches (es @ [e])))"
    using calculation by (metis append_butlast_last_id concat.simps concat_append append_Nil2 last_appendR)
  ultimately show ?thesis by (simp add: c)
qed

lemma prepared_single: "preparedBatches [e] = [[clamp e]]"
proof -
  have c: "concat (preparedBatches [e]) = [clamp e]"
    by (simp add: preparedBatches_concat coalesce_def coalesceStep_def)
  have ne: "\<forall>b\<in>set (preparedBatches [e]). b \<noteq> []" using preparedBatches_each(1) by blast
  show ?thesis
  proof (cases "preparedBatches [e]")
    case (Cons b bs)
    moreover have "bs = []" using c ne Cons by (cases bs) (auto simp: Cons_eq_append_conv append_eq_Cons_conv)
    ultimately show ?thesis using c by simp
  qed (use c in simp)
qed

text \<open>With one sandbox per turn id, every buffer and every post carries the right one.\<close>

definition attributed :: "(string \<Rightarrow> string) \<Rightarrow> turn_collector \<Rightarrow> bool" where
  "attributed own c \<longleftrightarrow>
     (\<forall>(t, b)\<in>set (co_buffers c). tb_sandboxId b = own t) \<and> (\<forall>p\<in>set (co_posted c). tp_sandboxId p = own (tp_turnId p))"

lemma flush_attributed: "attributed own c \<Longrightarrow> attributed own (flush t c)"
  by (auto simp: attributed_def flush_def Let_def dest!: map_of_SomeD split: option.splits)

lemma bufferedEvent_attributed:
  assumes "attributed own c" and "s = own t"
  shows "attributed own (bufferedEvent s v t e armed c)"
proof -
  have "tb_sandboxId b = own t" if "map_of (co_buffers c) t = Some b" for b
    using assms(1) map_of_SomeD [OF that] by (auto simp: attributed_def)
  then show ?thesis
    using assms set_mapSet by (fastforce simp: attributed_def bufferedEvent_def split: option.splits)
qed

lemma collected_attributed:
  "\<forall>call\<in>set calls. case call of Add s v t e \<Rightarrow> s = own t | _ \<Rightarrow> True \<Longrightarrow> attributed own (collected calls)"
proof (induction calls rule: rev_induct)
  case Nil
  then show ?case by (simp add: collected_def emptyCollector_def attributed_def)
next
  case (snoc call calls)
  then have a: "attributed own (collected calls)" by simp
  have step: "collected (calls @ [k]) = collectorCall (collected calls) k" for k by (simp add: collected_def)
  show ?case
  proof (cases call)
    case (Add s v t e)
    then have "attributed own (bufferedEvent s v t e armed (collected calls))" for armed
      using snoc.prems bufferedEvent_attributed [OF a] by simp
    then show ?thesis
      using addEvent_shape [of s v t e "collected calls"] flushConversation_keeps [of "attributed own", OF flush_attributed]
        flush_attributed by (metis Add collectorCall.simps(1) step)
  next
    case FlushAll
    then show ?thesis using flushAll_keeps [of "attributed own", OF flush_attributed a] by (simp add: step)
  qed (use a flush_attributed in \<open>auto simp: step timerFires_def split: option.splits\<close>)
qed

section \<open>Claims\<close>

text \<open>
  C17: nothing a turn says is lost or moved.  After any sequence of adds, flushes and timer firings that
  ends in the shutdown flush, no event is left in a buffer, and the batches posted for each turn
  are, in order, those of consecutive runs that make up exactly the events added for it, each
  run merged and bounded.
\<close>

theorem posted_events_complete:
  "co_buffers (collected (calls @ [FlushAll])) = [] \<and>
   (\<exists>runs. concat runs = addedOf t calls \<and>
      concat (batchesOf t (collected (calls @ [FlushAll]))) = concat (map (\<lambda>run. map clamp (coalesce run)) runs))"
proof -
  have fin: "collected (calls @ [FlushAll]) = flushAll (collected calls)" by (simp add: collected_def)
  have "delivered t (addedOf t calls) (flushAll (collected calls))"
    using collected_delivered [of t "calls @ [FlushAll]"] by (simp add: fin)
  moreover have "pending t (flushAll (collected calls)) = []" by (simp add: pending_def flushAll_empty)
  moreover have "concat (concat (map preparedBatches runs)) = concat (map (\<lambda>run. map clamp (coalesce run)) runs)" for runs
    by (induction runs) (simp_all add: preparedBatches_concat)
  ultimately show ?thesis by (auto simp: fin delivered_def flushAll_empty)
qed

text \<open>
  C27: merging never changes what is read.  The merged events show a reader the same text unit by unit
  and the same other events in the same places, no two neighbours can be merged any more, and
  merging again changes nothing.
\<close>

theorem coalesce_reads_the_same:
  "concat (map streamOf (coalesce events)) = concat (map streamOf events) \<and>
   successively unmergeable (coalesce events) \<and> coalesce (coalesce events) = coalesce events"
  by (simp add: coalesce_stream coalesce_successive coalesce_fixed)

text \<open>
  C28: every post is one the control plane accepts: between one and a hundred events and at most a
  million characters of JSON, however long the events were, provided their numbers are safe
  integers and a turn's text stays under 10 to the 16 units.  The bound holds because the
  texts of an event are cut before its size is taken; it leaves room for every control
  character to be escaped.
\<close>

theorem posts_fit_the_wire:
  assumes "boundedRun (addedOf t calls)" and "p \<in> set (co_posted (collected calls))" and "tp_turnId p = t"
  shows "wireAccepts (tp_events p)"
proof -
  obtain runs where r: "concat runs @ pending t (collected calls) = addedOf t calls"
    "batchesOf t (collected calls) = concat (map preparedBatches runs)"
    using collected_delivered [of t calls] by (auto simp: delivered_def)
  have "tp_events p \<in> set (batchesOf t (collected calls))" using assms(2,3) by (auto simp: batchesOf_def)
  then obtain run where run: "run \<in> set runs" "tp_events p \<in> set (preparedBatches run)" by (auto simp: r(2))
  obtain pre post where "runs = pre @ run # post" using run(1) by (meson split_list)
  then have "addedOf t calls = concat pre @ run @ concat post @ pending t (collected calls)" using r(1) by simp
  then have "boundedRun run" using assms(1) by (simp add: boundedRun_def)
  then show ?thesis using run(2) by (rule prepared_accepted)
qed

theorem posts_fit_the_wire_witness:
  "wireAccepts [clamp (TextDelta [65, 66])]"
proof -
  let ?calls = "[Add ''s'' ''c'' ''t'' (TextDelta [65, 66]), FlushAll]"
  let ?post = "\<lparr>tp_sandboxId = ''s'', tp_conversationId = ''c'', tp_turnId = ''t'', tp_events = [clamp (TextDelta [65, 66])]\<rparr>"
  have "co_posted (collected ?calls) = [?post]"
    by (simp add: collected_def emptyCollector_def addEvent_def isTerminalEvent_def flushAll_def flush_def Let_def
        prepared_single)
  moreover have "boundedRun (addedOf ''t'' ?calls)"
    by (simp add: boundedRun_def addedOf_def eventUnits_def eventTexts_def eventNumbers_def)
  ultimately show ?thesis using posts_fit_the_wire [of "''t''" ?calls ?post] by simp
qed

text \<open>
  A turn's last event goes out at once and behind everything its conversation still held.  When a
  terminal event is added, the last post of the call ends with that event, and no buffer of the
  conversation remains.
\<close>

theorem terminal_event_goes_last:
  assumes "isTerminalEvent e"
  shows "(\<forall>(k, b) \<in> set (co_buffers (addEvent s v t e c)). k \<noteq> t \<and> tb_conversationId b \<noteq> v) \<and>
         co_posted (addEvent s v t e c) \<noteq> [] \<and>
         tp_turnId (last (co_posted (addEvent s v t e c))) = t \<and>
         last (tp_events (last (co_posted (addEvent s v t e c)))) = clamp e"
proof -
  obtain armed where a: "addEvent s v t e c = flush t (flushConversation v t (bufferedEvent s v t e armed c))"
    using addEvent_shape [of s v t e c] assms by metis
  define c1 where "c1 = flushConversation v t (bufferedEvent s v t e armed c)"
  obtain b es where b: "map_of (co_buffers c1) t = Some b" "tb_events b = es @ [e]"
    using last_event_kept unfolding c1_def by blast
  note l = prepared_last [OF assms, of es]
  have "co_posted (flush t c1) = co_posted c1 @ map (\<lambda>batch. \<lparr>tp_sandboxId = tb_sandboxId b,
      tp_conversationId = tb_conversationId b, tp_turnId = t, tp_events = batch\<rparr>) (preparedBatches (es @ [e]))"
    using b by (simp add: flush_def Let_def)
  then have p: "co_posted (flush t c1) \<noteq> []" "tp_turnId (last (co_posted (flush t c1))) = t"
    "tp_events (last (co_posted (flush t c1))) = last (preparedBatches (es @ [e]))"
    using l by (simp_all add: last_map)
  moreover have "\<forall>(k, b) \<in> set (co_buffers (flush t c1)). k \<noteq> t \<and> tb_conversationId b \<noteq> v"
    using flushConversation_buffers [of _ _ v t] by (auto simp: flush_buffers c1_def)
  ultimately show ?thesis using l by (simp add: a c1_def [symmetric])
qed

text \<open>
  \<^verbatim>\<open>chunk\<close> returns exactly when its step is positive or there is nothing to cut, and then with
  slices of at most that length that make up the list again.
\<close>

theorem chunk_terminates:
  "(chunk items step \<noteq> None \<longleftrightarrow> 0 < step \<or> items = []) \<and>
   (\<forall>cs. chunk items step = Some cs \<longrightarrow> concat cs = items \<and> (\<forall>c\<in>set cs. c \<noteq> [] \<and> length c \<le> step))"
proof (cases "0 < step")
  case True
  then show ?thesis using chunk_some [OF True, of items] by auto
next
  case False
  show ?thesis
  proof (cases "items = []")
    case True
    then have "chunk items step = Some []" by (simp add: chunk_def chunkFrom.simps)
    then show ?thesis using True by simp
  next
    case nonempty: False
    then have "chunk items step = None" using False chunkFrom_diverges [of 0 items] by (simp add: chunk_def)
    then show ?thesis using False nonempty by simp
  qed
qed

theorem chunk_terminates_witness:
  "\<exists>cs. chunk [1 :: nat, 2, 3] 2 = Some cs \<and> concat cs = [1, 2, 3]"
  using chunk_terminates [of "[1, 2, 3 :: nat]" 2] by auto

theorem terminal_event_goes_last_witness:
  "isTerminalEvent (TurnDone None) \<and>
   tp_turnId (last (co_posted (addEvent ''s'' ''c'' ''t'' (TurnDone None) emptyCollector))) = ''t''"
proof -
  have "isTerminalEvent (TurnDone None)" by (simp add: isTerminalEvent_def)
  then show ?thesis using terminal_event_goes_last [of "TurnDone None" "''s''" "''c''" "''t''" emptyCollector] by blast
qed

text \<open>
  A post names the sandbox that said it, as long as no two sandboxes use the same turn id.  The
  buffer of a turn keeps the sandbox of its first event.
\<close>

theorem posts_name_their_sandbox:
  assumes "\<forall>call\<in>set calls. case call of Add s v t e \<Rightarrow> s = sandboxOf t | _ \<Rightarrow> True"
    and "p \<in> set (co_posted (collected calls))"
  shows "tp_sandboxId p = sandboxOf (tp_turnId p)"
  using collected_attributed [OF assms(1)] assms(2) by (simp add: attributed_def)

theorem posts_name_their_sandbox_witness:
  "\<forall>p\<in>set (co_posted (collected [Add ''s'' ''c'' ''t'' TurnStarted, Add ''r'' ''d'' ''u'' TurnStarted, FlushAll])).
     tp_sandboxId p = (if tp_turnId p = ''t'' then ''s'' else ''r'')"
  using posts_name_their_sandbox [of "[Add ''s'' ''c'' ''t'' TurnStarted, Add ''r'' ''d'' ''u'' TurnStarted, FlushAll]"
      "\<lambda>t. if t = ''t'' then ''s'' else ''r''"] by simp

text \<open>
  Turn ids are chosen by the supervisors, and the collector of the process is keyed by them alone.
  While sandbox \<^verbatim>\<open>a\<close> has an event of a turn buffered, an event that sandbox \<^verbatim>\<open>b\<close> sends under the
  same turn id is posted as said by \<^verbatim>\<open>a\<close>, in the conversation of \<^verbatim>\<open>a\<close>.
\<close>

theorem shared_turn_id_misattributes:
  "co_posted (collected [Add ''a'' ''c'' ''t'' TurnStarted, Add ''b'' ''d'' ''t'' (TextWhole x), FlushAll]) \<noteq> [] \<and>
   (\<forall>p\<in>set (co_posted (collected [Add ''a'' ''c'' ''t'' TurnStarted, Add ''b'' ''d'' ''t'' (TextWhole x), FlushAll])).
      tp_sandboxId p = ''a'' \<and> tp_conversationId p = ''c'') \<and>
   concat (map tp_events (co_posted (collected [Add ''a'' ''c'' ''t'' TurnStarted, Add ''b'' ''d'' ''t'' (TextWhole x), FlushAll]))) =
     [TurnStarted, TextWhole (clean x)]"
proof -
  have posted: "co_posted (collected [Add ''a'' ''c'' ''t'' TurnStarted, Add ''b'' ''d'' ''t'' (TextWhole x), FlushAll]) =
      map (\<lambda>batch. \<lparr>tp_sandboxId = ''a'', tp_conversationId = ''c'', tp_turnId = ''t'', tp_events = batch\<rparr>)
        (preparedBatches [TurnStarted, TextWhole x])"
    by (simp add: collected_def emptyCollector_def addEvent_def isTerminalEvent_def flushAll_def flush_def Let_def)
  have "concat (preparedBatches [TurnStarted, TextWhole x]) = [TurnStarted, TextWhole (clean x)]"
    by (simp add: preparedBatches_concat coalesce_def coalesceStep_def mergedText_def clamp_def)
  then show ?thesis unfolding posted by (auto simp: o_def)
qed

text \<open>
  A single event can be larger than the target of one post, although its texts are bounded: three texts
  of control characters, each escaped into six characters, exceed it, and the event is posted
  alone.  The cap of the wire is not reached.
\<close>

theorem one_event_can_exceed_the_batch_target:
  "\<exists>e. preparedBatches [e] = [[clamp e]] \<and> MAX_BATCH_CHARS < length (batchJson [clamp e]) \<and> wireAccepts [clamp e]"
proof -
  define t :: text16 where "t = replicate 16000 1"
  define e where "e = ToolFinished t t None t None None"
  have "filter (\<lambda>u. u \<noteq> 0) t = t" by (simp add: t_def)
  then have "clean t = t" by (simp add: clean_def MAX_EVENT_TEXT_CHARS_def) (simp add: t_def)
  then have c: "clamp e = e" by (simp add: e_def clamp_def)
  have "length (quoteUnits (replicate n 1)) = 6 * n" for n
    by (induction n rule: induct_nat_012) (simp_all add: quoteUnit_def unicodeEscape_def word_le_nat_alt)
  then have "96002 \<le> length (quoted t)" by (simp add: quoted_def t_def)
  then have "MAX_BATCH_CHARS < length (stringify (eventValue e))"
    by (simp add: e_def eventValue_def eventMembers_def optMember_def commaJoin_def MAX_BATCH_CHARS_def)
  then have "MAX_BATCH_CHARS < length (batchJson [clamp e])" by (simp add: c length_batchJson eventCost_def)
  moreover have "boundedRun [e]" by (simp add: boundedRun_def e_def eventUnits_def eventTexts_def eventNumbers_def t_def)
  then have "wireAccepts [clamp e]" using prepared_accepted [of "[e]" "[clamp e]"] by (simp add: prepared_single)
  ultimately show ?thesis using prepared_single by blast
qed

end
