(* ===== verification/ReportChain.thy ===== *)
theory ReportChain
  imports JsPrelude
begin

text \<open>
  The runner's report chain (\<^verbatim>\<open>apps/runner/src/report-chain.ts\<close>): every report is posted in the order
  it was made, a turn's end whose post provably never applied is sent again.  The promise chain is
  the queue of its sends, the head in flight; a re-send sleeps, then joins the queue at its end.
  The state also keeps, for the statements, the reports accepted and the control plane's log of
  what it applied, both by the number of the report.
\<close>

section \<open>Reports and failures\<close>

datatype runner_event =
    TurnFinished (re_sandboxId: string) (re_turnId: string) (re_errorCode: "string option")
  | OtherEvent (re_kind: string) (re_sandboxId: string) (re_body: string)

text \<open>
  A failed post: an answer of the control plane with its status, a failed request with the socket
  codes of its attempts, or anything else.
\<close>

datatype post_error = ControlPlaneError int | FetchFailed "string option list" | OtherError

definition RETRYABLE_EVENT_STATUSES :: "int list" where
  "RETRYABLE_EVENT_STATUSES = [429, 500, 503]"

definition NEVER_SENT_CODES :: "string list" where
  "NEVER_SENT_CODES = [''ECONNREFUSED'', ''ENOTFOUND'', ''EAI_AGAIN'']"

definition neverLeft :: "string option \<Rightarrow> bool" where
  "neverLeft attempt = (case attempt of None \<Rightarrow> False | Some code \<Rightarrow> code \<in> set NEVER_SENT_CODES)"

definition requestNeverSent :: "post_error \<Rightarrow> bool" where
  "requestNeverSent error =
     (case error of FetchFailed attempts \<Rightarrow> 0 < length attempts \<and> list_all neverLeft attempts | _ \<Rightarrow> False)"

definition isProvablyUnapplied :: "post_error \<Rightarrow> bool" where
  "isProvablyUnapplied error =
     (case error of ControlPlaneError status \<Rightarrow> status \<in> set RETRYABLE_EVENT_STATUSES | _ \<Rightarrow> requestNeverSent error)"

text \<open>
  One post of \<^verbatim>\<open>postEvents\<close> (\<^verbatim>\<open>control-plane.ts\<close>): up to four attempts, again only after a failure
  that provably applied nothing.  An attempt is its error, if any, and whether the control plane
  applied it; the result is the final error and how often the report was applied.
\<close>

definition EVENT_POST_ATTEMPTS :: nat where
  "EVENT_POST_ATTEMPTS = 4"

record attempt_outcome =
  at_error :: "post_error option"
  at_applied :: bool

fun postAttempts :: "nat \<Rightarrow> nat \<Rightarrow> attempt_outcome list \<Rightarrow> (post_error option \<times> nat) option" where
  "postAttempts attempt applied [] = None"
| "postAttempts attempt applied (a # as) =
     (let applied' = applied + (if at_applied a then 1 else 0) in
      case at_error a of
        None \<Rightarrow> Some (None, applied')
      | Some error \<Rightarrow>
          if attempt \<ge> EVENT_POST_ATTEMPTS \<or> \<not> isProvablyUnapplied error then Some (Some error, applied')
          else postAttempts (attempt + 1) applied' as)"

text \<open>What the control plane promises: success means applied, a provable failure means not.\<close>

definition honest :: "attempt_outcome \<Rightarrow> bool" where
  "honest a = (case at_error a of None \<Rightarrow> at_applied a | Some e \<Rightarrow> isProvablyUnapplied e \<longrightarrow> \<not> at_applied a)"

section \<open>Chain\<close>

definition MAX_QUEUED_REPORTS :: nat where
  "MAX_QUEUED_REPORTS = 200"

definition TERMINAL_RESERVE :: nat where
  "TERMINAL_RESERVE = 64"

definition MAX_PENDING_RESENDS :: nat where
  "MAX_PENDING_RESENDS = 64"

definition MAX_PENDING_RESENDS_PER_SANDBOX :: nat where
  "MAX_PENDING_RESENDS_PER_SANDBOX = 8"

definition MAX_RESENDS :: nat where
  "MAX_RESENDS = 64"

definition DEATH_CODES :: "string list" where
  "DEATH_CODES = [''agent_start_failed'', ''agent_restarted'']"

definition isResendable :: "runner_event \<Rightarrow> bool" where
  "isResendable event = (case event of
       TurnFinished s t code \<Rightarrow> \<not> (case code of None \<Rightarrow> False | Some c \<Rightarrow> c \<in> set DEATH_CODES)
     | OtherEvent k s b \<Rightarrow> False)"

datatype send_kind = FirstPost | Resend nat

record chain_send =
  cs_number :: nat
  cs_event :: runner_event
  cs_kind :: send_kind

record report_chain =
  ch_queue :: "chain_send list"
  ch_sleeping :: "chain_send list"
  ch_pending :: "string \<Rightarrow> nat option"
  ch_total :: nat
  ch_accepted :: "runner_event list"
  ch_applied :: "nat list"
  ch_warnings :: "string list"

definition emptyChain :: report_chain where
  "emptyChain = \<lparr>ch_queue = [], ch_sleeping = [], ch_pending = Map.empty, ch_total = 0,
     ch_accepted = [], ch_applied = [], ch_warnings = []\<rparr>"

definition warn :: "string \<Rightarrow> report_chain \<Rightarrow> report_chain" where
  "warn message c = c\<lparr>ch_warnings := ch_warnings c @ [message]\<rparr>"

definition enqueue :: "chain_send \<Rightarrow> report_chain \<Rightarrow> report_chain" where
  "enqueue send c = c\<lparr>ch_queue := ch_queue c @ [send]\<rparr>"

definition heldOf :: "string \<Rightarrow> report_chain \<Rightarrow> nat" where
  "heldOf sandboxId c = (case ch_pending c sandboxId of None \<Rightarrow> 0 | Some n \<Rightarrow> n)"

definition holdResend :: "string \<Rightarrow> report_chain \<Rightarrow> report_chain option" where
  "holdResend sandboxId c =
     (let held = heldOf sandboxId c in
      if ch_total c \<ge> MAX_PENDING_RESENDS \<or> held \<ge> MAX_PENDING_RESENDS_PER_SANDBOX then None
      else Some (c\<lparr>ch_pending := (ch_pending c)(sandboxId \<mapsto> held + 1), ch_total := ch_total c + 1\<rparr>))"

definition releaseResend :: "string \<Rightarrow> report_chain \<Rightarrow> report_chain" where
  "releaseResend sandboxId c =
     (let left = (case ch_pending c sandboxId of None \<Rightarrow> 1 | Some n \<Rightarrow> n) - 1 in
      c\<lparr>ch_pending := (if left > 0 then (ch_pending c)(sandboxId \<mapsto> left) else (ch_pending c)(sandboxId := None)),
        ch_total := ch_total c - 1\<rparr>)"

definition reportCap :: "runner_event \<Rightarrow> nat" where
  "reportCap event = (case event of
       TurnFinished s t code \<Rightarrow> MAX_QUEUED_REPORTS + TERMINAL_RESERVE
     | OtherEvent k s b \<Rightarrow> MAX_QUEUED_REPORTS)"

definition report :: "runner_event \<Rightarrow> report_chain \<Rightarrow> report_chain" where
  "report event c =
     (if length (ch_queue c) \<ge> reportCap event then warn ''report queue full; dropping an event'' c
      else enqueue \<lparr>cs_number = length (ch_accepted c), cs_event = event, cs_kind = FirstPost\<rparr>
             (c\<lparr>ch_accepted := ch_accepted c @ [event]\<rparr>))"

definition failed :: "chain_send \<Rightarrow> post_error \<Rightarrow> report_chain \<Rightarrow> report_chain" where
  "failed send error c =
     (case (if isResendable (cs_event send) \<and> isProvablyUnapplied error
            then holdResend (re_sandboxId (cs_event send)) c else None) of
        Some held \<Rightarrow>
          warn ''failed to report a turn's end; re-sending it''
            (held\<lparr>ch_sleeping := ch_sleeping held @ [send\<lparr>cs_kind := Resend 0\<rparr>]\<rparr>)
      | None \<Rightarrow> warn ''failed to report a supervisor message'' c)"

text \<open>What the loop of a re-send does with the outcome of its attempt.\<close>

definition resent :: "chain_send \<Rightarrow> nat \<Rightarrow> post_error option \<Rightarrow> report_chain \<Rightarrow> report_chain" where
  "resent send attempt result c =
     (let finished = releaseResend (re_sandboxId (cs_event send)) in
      case result of
        None \<Rightarrow> finished c
      | Some error \<Rightarrow>
          if \<not> isProvablyUnapplied error then finished (warn ''a turn's end may have landed; not re-sending it'' c)
          else if attempt + 1 < MAX_RESENDS then c\<lparr>ch_sleeping := ch_sleeping c @ [send\<lparr>cs_kind := Resend (attempt + 1)\<rparr>]\<rparr>
          else finished (warn ''gave up re-sending a turn's end'' c))"

text \<open>The post of the head settles; the control plane applied it \<^term>\<open>applied\<close> times.\<close>

definition settleHead :: "post_error option \<Rightarrow> nat \<Rightarrow> report_chain \<Rightarrow> report_chain" where
  "settleHead result applied c =
     (case ch_queue c of
        [] \<Rightarrow> c
      | send # rest \<Rightarrow>
          (let c1 = c\<lparr>ch_queue := rest, ch_applied := ch_applied c @ replicate applied (cs_number send)\<rparr> in
           case cs_kind send of
             FirstPost \<Rightarrow> (case result of None \<Rightarrow> c1 | Some error \<Rightarrow> failed send error c1)
           | Resend attempt \<Rightarrow> resent send attempt result c1))"

text \<open>The sleep of a re-send ends.\<close>

definition wakeResend :: "nat \<Rightarrow> report_chain \<Rightarrow> report_chain" where
  "wakeResend i c =
     (if i < length (ch_sleeping c) then
        enqueue (ch_sleeping c ! i) (c\<lparr>ch_sleeping := take i (ch_sleeping c) @ drop (Suc i) (ch_sleeping c)\<rparr>)
      else c)"

text \<open>The events of a run: a report made, the post in flight settling, a sleeper waking.\<close>

inductive chain_step :: "report_chain \<Rightarrow> report_chain \<Rightarrow> bool" where
  reported: "chain_step c (report event c)"
| settled: "ch_queue c \<noteq> [] \<Longrightarrow> list_all honest outcomes \<Longrightarrow> postAttempts 1 0 outcomes = Some (result, applied) \<Longrightarrow>
    chain_step c (settleHead result applied c)"
| woken: "i < length (ch_sleeping c) \<Longrightarrow> chain_step c (wakeResend i c)"

inductive chain_reachable :: "report_chain \<Rightarrow> bool" where
  start: "chain_reachable emptyChain"
| continue: "chain_reachable c \<Longrightarrow> chain_step c c' \<Longrightarrow> chain_reachable c'"

end
