(* ===== verification/ReportFacts.thy ===== *)
theory ReportFacts
  imports ReportChain
begin

text \<open>
  Invariants of the report chain.  Every step is one of six moves of a send; the invariants are proved
  over these moves.
\<close>

section \<open>One post\<close>

lemma postAttempts_honest:
  "postAttempts n k as = Some (r, m) \<Longrightarrow> list_all honest as \<Longrightarrow>
     m \<le> k + 1 \<and> (r = None \<longrightarrow> m = k + 1) \<and> (\<forall>e. r = Some e \<and> isProvablyUnapplied e \<longrightarrow> m = k)"
proof (induction n k as rule: postAttempts.induct)
  case (2 n k a as)
  have h: "at_error a = None \<Longrightarrow> at_applied a" "at_error a = Some e \<Longrightarrow> isProvablyUnapplied e \<Longrightarrow> \<not> at_applied a" for e
    using 2(3) by (auto simp: honest_def)
  show ?case
  proof (cases "at_error a")
    case None
    then show ?thesis using 2(2) h(1) by simp
  next
    case (Some e)
    show ?thesis
    proof (cases "n \<ge> EVENT_POST_ATTEMPTS \<or> \<not> isProvablyUnapplied e")
      case True
      then show ?thesis using 2(2) h(2) by (auto simp: Some split: if_splits)
    next
      case False
      then have "\<not> at_applied a" using h(2) Some by blast
      then show ?thesis using 2(1) [OF refl Some False] 2(2,3) Some False by simp
    qed
  qed
qed simp

section \<open>Moves\<close>

definition isResend :: "chain_send \<Rightarrow> bool" where
  "isResend s \<longleftrightarrow> (\<exists>k. cs_kind s = Resend k)"

lemma isResend_simps [simp]:
  "cs_kind s = FirstPost \<Longrightarrow> \<not> isResend s" "cs_kind s = Resend k \<Longrightarrow> isResend s"
  "isResend (s\<lparr>cs_kind := Resend k\<rparr>)"
  by (simp_all add: isResend_def)

text \<open>
  The moves: a report accepted, a send that is finished with its number applied \<^term>\<open>m\<close> times, a first
  post or a re-send that goes to sleep unapplied, a sleeper that joins the queue, and nothing.
\<close>

inductive chain_move :: "report_chain \<Rightarrow> report_chain \<Rightarrow> bool" where
  accepted: "length (ch_queue c) < MAX_QUEUED_REPORTS + TERMINAL_RESERVE \<Longrightarrow>
    chain_move c (c\<lparr>ch_accepted := ch_accepted c @ [e],
      ch_queue := ch_queue c @ [\<lparr>cs_number = length (ch_accepted c), cs_event = e, cs_kind = FirstPost\<rparr>]\<rparr>)"
| finished: "ch_queue c = s # q \<Longrightarrow> \<not> isResend s \<Longrightarrow> m \<le> 1 \<Longrightarrow>
    chain_move c (c\<lparr>ch_queue := q, ch_applied := ch_applied c @ replicate m (cs_number s), ch_warnings := w\<rparr>)"
| finishedAgain: "ch_queue c = s # q \<Longrightarrow> isResend s \<Longrightarrow> m \<le> 1 \<Longrightarrow>
    chain_move c (releaseResend (re_sandboxId (cs_event s))
      (c\<lparr>ch_queue := q, ch_applied := ch_applied c @ replicate m (cs_number s), ch_warnings := w\<rparr>))"
| sleeps: "ch_queue c = s # q \<Longrightarrow> \<not> isResend s \<Longrightarrow> isResendable (cs_event s) \<Longrightarrow>
    holdResend (re_sandboxId (cs_event s)) (c\<lparr>ch_queue := q\<rparr>) = Some c1 \<Longrightarrow>
    chain_move c (c1\<lparr>ch_sleeping := ch_sleeping c @ [s\<lparr>cs_kind := Resend 0\<rparr>], ch_warnings := w\<rparr>)"
| sleepsAgain: "ch_queue c = s # q \<Longrightarrow> cs_kind s = Resend k \<Longrightarrow> Suc k < MAX_RESENDS \<Longrightarrow>
    chain_move c (c\<lparr>ch_queue := q, ch_sleeping := ch_sleeping c @ [s\<lparr>cs_kind := Resend (Suc k)\<rparr>]\<rparr>)"
| woken: "ch_sleeping c = a @ s # b \<Longrightarrow>
    chain_move c (c\<lparr>ch_sleeping := a @ b, ch_queue := ch_queue c @ [s]\<rparr>)"
| dropped: "chain_move c (c\<lparr>ch_warnings := w\<rparr>)"

lemma hold_fields:
  "holdResend s c = Some c1 \<Longrightarrow>
     ch_queue c1 = ch_queue c \<and> ch_sleeping c1 = ch_sleeping c \<and> ch_accepted c1 = ch_accepted c \<and>
     ch_applied c1 = ch_applied c \<and> ch_warnings c1 = ch_warnings c"
  by (auto simp: holdResend_def Let_def split: if_splits)

lemma hold_queue: "holdResend s (c\<lparr>ch_applied := ch_applied c, ch_queue := q\<rparr>) = holdResend s (c\<lparr>ch_queue := q\<rparr>)"
  by (simp add: holdResend_def)

lemma settle_move:
  assumes q: "ch_queue c = s # q" and r: "m \<le> 1" "r = None \<Longrightarrow> m = 1" "\<And>e. r = Some e \<Longrightarrow> isProvablyUnapplied e \<Longrightarrow> m = 0"
  shows "chain_move c (settleHead r m c)"
proof (cases "cs_kind s")
  case FirstPost
  show ?thesis
  proof (cases r)
    case None
    then show ?thesis using chain_move.finished [OF q, of m "ch_warnings c"] FirstPost r by (simp add: settleHead_def q)
  next
    case (Some e)
    show ?thesis
    proof (cases "isResendable (cs_event s) \<and> isProvablyUnapplied e")
      case True
      then have m: "m = 0" using r(3) Some by blast
      show ?thesis
      proof (cases "holdResend (re_sandboxId (cs_event s)) (c\<lparr>ch_queue := q\<rparr>)")
        case None
        then show ?thesis
          using chain_move.finished [OF q, of 0] FirstPost True Some m
          by (simp add: settleHead_def q failed_def warn_def)
      next
        case (Some c1)
        then show ?thesis
          using chain_move.sleeps [OF q _ _ Some] FirstPost True \<open>r = Some e\<close> m hold_fields [OF Some]
          by (simp add: settleHead_def q failed_def warn_def)
      qed
    next
      case False
      then show ?thesis
        using chain_move.finished [OF q, of m] FirstPost Some r(1)
        by (auto simp: settleHead_def q failed_def warn_def)
    qed
  qed
next
  case (Resend k)
  then have s: "isResend s" by simp
  show ?thesis
  proof (cases "\<exists>e. r = Some e \<and> isProvablyUnapplied e \<and> k + 1 < MAX_RESENDS")
    case True
    then have "m = 0" using r(3) by blast
    then show ?thesis
      using chain_move.sleepsAgain [OF q Resend] True Resend by (auto simp: settleHead_def q resent_def Let_def)
  next
    case False
    then show ?thesis
      using chain_move.finishedAgain [OF q s r(1)] chain_move.finishedAgain [OF q s r(1), of "ch_warnings c"] Resend
      by (auto simp: settleHead_def q resent_def Let_def warn_def split: option.splits)
  qed
qed

lemma step_moves: "chain_step c c' \<Longrightarrow> chain_move c c'"
proof (induction rule: chain_step.induct)
  case (reported c event)
  have "reportCap event \<le> MAX_QUEUED_REPORTS + TERMINAL_RESERVE" by (cases event) (simp_all add: reportCap_def)
  then show ?case
    using chain_move.accepted [of c event] chain_move.dropped [of c]
    by (auto simp: report_def warn_def enqueue_def)
next
  case (settled c outcomes result applied)
  obtain s q where q: "ch_queue c = s # q" using settled(1) by (cases "ch_queue c") auto
  show ?case using postAttempts_honest [OF settled(3,2)] by (intro settle_move [OF q]) auto
next
  case (woken i c)
  then show ?case
    using chain_move.woken [OF id_take_nth_drop] by (simp add: wakeResend_def enqueue_def)
qed

section \<open>Invariants\<close>

text \<open>The sends not finished yet.\<close>

definition liveSends :: "report_chain \<Rightarrow> chain_send list" where
  "liveSends c = ch_queue c @ ch_sleeping c"

definition numbersOk :: "report_chain \<Rightarrow> bool" where
  "numbersOk c \<longleftrightarrow>
     (\<forall>s\<in>set (ch_sleeping c). isResend s) \<and> distinct (map cs_number (liveSends c)) \<and> distinct (ch_applied c) \<and>
     (\<forall>s\<in>set (liveSends c). cs_number s < length (ch_accepted c) \<and> ch_accepted c ! cs_number s = cs_event s \<and>
        cs_number s \<notin> set (ch_applied c) \<and> (isResend s \<longrightarrow> isResendable (cs_event s))) \<and>
     (\<forall>n\<in>set (ch_applied c). n < length (ch_accepted c))"

definition orderOk :: "report_chain \<Rightarrow> bool" where
  "orderOk c \<longleftrightarrow>
     sorted_wrt (\<lambda>a b. a < b \<or> isResendable (ch_accepted c ! b)) (ch_applied c) \<and>
     sorted_wrt (\<lambda>s t. cs_number s < cs_number t) (filter (\<lambda>s. \<not> isResend s) (ch_queue c)) \<and>
     (\<forall>s\<in>set (ch_queue c). \<not> isResend s \<longrightarrow>
        (\<forall>n\<in>set (ch_applied c). n < cs_number s) \<and> (\<forall>t\<in>set (liveSends c). isResend t \<longrightarrow> cs_number t < cs_number s))"

definition resendsOf :: "string \<Rightarrow> report_chain \<Rightarrow> nat" where
  "resendsOf sandbox c = length (filter (\<lambda>s. isResend s \<and> re_sandboxId (cs_event s) = sandbox) (liveSends c))"

definition boundsOk :: "report_chain \<Rightarrow> bool" where
  "boundsOk c \<longleftrightarrow>
     ch_total c = length (filter isResend (liveSends c)) \<and> ch_total c \<le> MAX_PENDING_RESENDS \<and>
     (\<forall>sandbox. heldOf sandbox c = resendsOf sandbox c \<and> resendsOf sandbox c \<le> MAX_PENDING_RESENDS_PER_SANDBOX) \<and>
     length (filter (\<lambda>s. \<not> isResend s) (ch_queue c)) \<le> MAX_QUEUED_REPORTS + TERMINAL_RESERVE"

lemmas move_defs = liveSends_def releaseResend_def holdResend_def Let_def

lemma move_numbers: "chain_move c c' \<Longrightarrow> numbersOk c \<Longrightarrow> numbersOk c'"
proof (induction rule: chain_move.induct)
  case (accepted c e)
  then have "\<forall>s\<in>set (liveSends c). cs_number s < length (ch_accepted c)" "\<forall>n\<in>set (ch_applied c). n < length (ch_accepted c)"
    by (auto simp: numbersOk_def)
  then have "\<forall>s\<in>set (liveSends c). cs_number s < Suc (length (ch_accepted c)) \<and> cs_number s \<noteq> length (ch_accepted c)"
    "\<forall>n\<in>set (ch_applied c). n < Suc (length (ch_accepted c)) \<and> n \<noteq> length (ch_accepted c)"
    by (auto intro: less_SucI)
  then show ?case using accepted by (auto simp: numbersOk_def liveSends_def nth_append)
next
  case (finished c s q m w)
  then have "m = 0 \<or> m = 1" by auto
  then show ?case using finished by (auto simp: numbersOk_def liveSends_def) (metis imageI)+
next
  case (finishedAgain c s q m w)
  then have "m = 0 \<or> m = 1" by auto
  then show ?case using finishedAgain by (auto simp: numbersOk_def liveSends_def releaseResend_def Let_def) (metis imageI)+
next
  case (sleeps c s q c1 w)
  then show ?case using hold_fields [OF sleeps(4)] by (auto simp: numbersOk_def liveSends_def)
qed (auto simp: numbersOk_def liveSends_def)

lemma resendable_grows:
  assumes "sorted_wrt (\<lambda>a b. a < b \<or> isResendable (xs ! b)) ns" and "\<forall>n\<in>set ns. n < length xs"
  shows "sorted_wrt (\<lambda>a b. a < b \<or> isResendable ((xs @ [x]) ! b)) ns"
  using assms by (induction ns) (auto simp: nth_append)

lemma move_order: "chain_move c c' \<Longrightarrow> numbersOk c \<Longrightarrow> orderOk c \<Longrightarrow> orderOk c'"
proof (induction rule: chain_move.induct)
  case (accepted c e)
  then have "\<forall>s\<in>set (liveSends c). cs_number s < length (ch_accepted c)" "\<forall>n\<in>set (ch_applied c). n < length (ch_accepted c)"
    by (auto simp: numbersOk_def)
  then show ?case
    using accepted(3) resendable_grows [of "ch_accepted c" "ch_applied c" e]
    by (auto simp: orderOk_def liveSends_def sorted_wrt_append)
next
  case (finished c s q m w)
  then have "m = 0 \<or> m = 1" by auto
  then show ?case using finished by (auto simp: orderOk_def liveSends_def sorted_wrt_append)
next
  case (finishedAgain c s q m w)
  then have "m = 0 \<or> m = 1" by auto
  moreover have "isResendable (ch_accepted c ! cs_number s)"
    using finishedAgain by (auto simp: numbersOk_def liveSends_def)
  ultimately show ?case
    using finishedAgain by (auto simp: orderOk_def liveSends_def releaseResend_def Let_def sorted_wrt_append)
next
  case (sleeps c s q c1 w)
  then show ?case using hold_fields [OF sleeps(4)] by (auto simp: orderOk_def liveSends_def)
next
  case (woken c a s b)
  then have "isResend s" by (simp add: numbersOk_def)
  then show ?case using woken by (auto simp: orderOk_def liveSends_def)
qed (auto simp: orderOk_def liveSends_def)

lemma held_release:
  "heldOf box (releaseResend sandbox c) = (if box = sandbox then heldOf box c - 1 else heldOf box c)"
  "ch_total (releaseResend sandbox c) = ch_total c - 1"
  "ch_queue (releaseResend sandbox c) = ch_queue c" "ch_sleeping (releaseResend sandbox c) = ch_sleeping c"
  by (auto simp: heldOf_def releaseResend_def Let_def split: option.splits)

lemma held_hold:
  "holdResend sandbox c = Some c1 \<Longrightarrow>
     heldOf box c1 = (if box = sandbox then heldOf box c + 1 else heldOf box c) \<and> ch_total c1 = ch_total c + 1 \<and>
     heldOf sandbox c < MAX_PENDING_RESENDS_PER_SANDBOX \<and> ch_total c < MAX_PENDING_RESENDS"
  by (auto simp: heldOf_def holdResend_def Let_def split: if_splits)

lemma held_fields [simp]:
  "heldOf box (c\<lparr>ch_queue := q\<rparr>) = heldOf box c" "heldOf box (c\<lparr>ch_sleeping := q\<rparr>) = heldOf box c"
  "heldOf box (c\<lparr>ch_accepted := a\<rparr>) = heldOf box c" "heldOf box (c\<lparr>ch_applied := n\<rparr>) = heldOf box c"
  "heldOf box (c\<lparr>ch_warnings := w\<rparr>) = heldOf box c"
  by (simp_all add: heldOf_def)

lemma move_bounds: "chain_move c c' \<Longrightarrow> numbersOk c \<Longrightarrow> boundsOk c \<Longrightarrow> boundsOk c'"
proof (induction rule: chain_move.induct)
  case (accepted c e)
  have "length (filter (\<lambda>s. \<not> isResend s) (ch_queue c)) \<le> length (ch_queue c)" by simp
  then have "Suc (length (filter (\<lambda>s. \<not> isResend s) (ch_queue c))) \<le> MAX_QUEUED_REPORTS + TERMINAL_RESERVE"
    using accepted(1) by linarith
  then show ?case using accepted(3) by (simp add: boundsOk_def liveSends_def resendsOf_def)
next
  case (finished c s q m w)
  then show ?case by (simp add: boundsOk_def liveSends_def resendsOf_def)
next
  case (finishedAgain c s q m w)
  let ?box = "re_sandboxId (cs_event s)"
  let ?c = "releaseResend ?box (c\<lparr>ch_queue := q, ch_applied := ch_applied c @ replicate m (cs_number s), ch_warnings := w\<rparr>)"
  have r: "resendsOf box c = resendsOf box ?c + (if box = ?box then 1 else 0)" for box
    using finishedAgain by (simp add: resendsOf_def liveSends_def held_release)
  have b: "heldOf box c = resendsOf box c" "resendsOf box c \<le> MAX_PENDING_RESENDS_PER_SANDBOX" for box
    using finishedAgain by (simp_all add: boundsOk_def)
  have "heldOf box ?c = resendsOf box ?c \<and> resendsOf box ?c \<le> MAX_PENDING_RESENDS_PER_SANDBOX" for box
    using r [of box] b [of box] by (simp add: held_release split: if_splits)
  then show ?case
    using finishedAgain unfolding boundsOk_def by (simp add: held_release liveSends_def)
next
  case (sleeps c s q c1 w)
  let ?box = "re_sandboxId (cs_event s)"
  let ?c = "c1\<lparr>ch_sleeping := ch_sleeping c @ [s\<lparr>cs_kind := Resend 0\<rparr>], ch_warnings := w\<rparr>"
  note h = hold_fields [OF sleeps(4)]
  have r: "resendsOf box ?c = resendsOf box c + (if box = ?box then 1 else 0)" for box
    using sleeps h by (simp add: resendsOf_def liveSends_def)
  have b: "heldOf box c = resendsOf box c" "resendsOf box c \<le> MAX_PENDING_RESENDS_PER_SANDBOX" for box
    using sleeps by (simp_all add: boundsOk_def)
  have "heldOf box ?c = resendsOf box ?c \<and> resendsOf box ?c \<le> MAX_PENDING_RESENDS_PER_SANDBOX" for box
    using r [of box] b [of box] held_hold [OF sleeps(4), of box] by (auto split: if_splits)
  then show ?case
    using sleeps held_hold [OF sleeps(4), of ?box] hold_fields [OF sleeps(4)]
    unfolding boundsOk_def by (simp add: liveSends_def)
next
  case (sleepsAgain c s q k)
  have "resendsOf box (c\<lparr>ch_queue := q, ch_sleeping := ch_sleeping c @ [s\<lparr>cs_kind := Resend (Suc k)\<rparr>]\<rparr>) = resendsOf box c" for box
    using sleepsAgain by (simp add: resendsOf_def liveSends_def)
  then show ?case using sleepsAgain by (simp add: boundsOk_def liveSends_def)
next
  case (woken c a s b)
  then have "isResend s" by (simp add: numbersOk_def)
  moreover have "resendsOf box (c\<lparr>ch_sleeping := a @ b, ch_queue := ch_queue c @ [s]\<rparr>) = resendsOf box c" for box
    using woken by (simp add: resendsOf_def liveSends_def)
  ultimately show ?case using woken by (simp add: boundsOk_def liveSends_def)
next
  case (dropped c w)
  then show ?case by (simp add: boundsOk_def liveSends_def resendsOf_def)
qed

text \<open>All of them hold in every reachable state.\<close>

lemma reachable_invariants: "chain_reachable c \<Longrightarrow> numbersOk c \<and> orderOk c \<and> boundsOk c"
proof (induction rule: chain_reachable.induct)
  case start
  show ?case
    by (simp add: emptyChain_def numbersOk_def orderOk_def boundsOk_def liveSends_def heldOf_def resendsOf_def)
next
  case (continue c c')
  then show ?case using step_moves move_numbers move_order move_bounds by blast
qed

end
