(* ===== verification/ReportTheorems.thy ===== *)
theory ReportTheorems
  imports ReportFacts
begin

text \<open>What the report chain promises of every run.\<close>

section \<open>Work\<close>








section \<open>Example\<close>

text \<open>A turn's end is refused with 503 after all its attempts, an event made later is applied, the end is sent again.\<close>

definition exampleChain :: report_chain where
  "exampleChain =
     settleHead None 1 (wakeResend 0 (settleHead None 1 (settleHead (Some (ControlPlaneError 503)) 0
       (report (OtherEvent ''home.synced'' ''box'' ''1'') (report (TurnFinished ''box'' ''turn'' None) emptyChain)))))"

lemma example_reachable: "chain_reachable exampleChain"
proof -
  have ok: "list_all honest [\<lparr>at_error = None, at_applied = True\<rparr>]"
    "postAttempts 1 0 [\<lparr>at_error = None, at_applied = True\<rparr>] = Some (None, 1)"
    by (simp_all add: honest_def)
  have refused: "list_all honest (replicate 4 \<lparr>at_error = Some (ControlPlaneError 503), at_applied = False\<rparr>)"
    "postAttempts 1 0 (replicate 4 \<lparr>at_error = Some (ControlPlaneError 503), at_applied = False\<rparr>) =
       Some (Some (ControlPlaneError 503), 0)"
    by (simp add: honest_def list_all_iff) code_simp
  show ?thesis
    unfolding exampleChain_def
    by (intro chain_reachable.continue [OF _ chain_step.settled [OF _ ok]] chain_reachable.continue [OF _ chain_step.woken]
        chain_reachable.continue [OF _ chain_step.settled [OF _ refused]] chain_reachable.continue [OF _ chain_step.reported]
        chain_reachable.start)
      code_simp+
qed

section \<open>Claims\<close>

text \<open>
  C15: no report is ever applied twice.  In every run the control plane's log names each accepted report
  at most once, whatever is re-sent, as long as the control plane keeps to its word: an answer
  of success means applied, and a failure of the retried kind means not applied.
\<close>

theorem reports_applied_at_most_once:
  assumes "chain_reachable c"
  shows "distinct (ch_applied c) \<and> (\<forall>n\<in>set (ch_applied c). n < length (ch_accepted c))"
  using reachable_invariants [OF assms] by (simp add: numbersOk_def)

theorem reports_applied_at_most_once_witness:
  "distinct (ch_applied exampleChain) \<and> length (ch_applied exampleChain) = 2"
  using reports_applied_at_most_once [OF example_reachable] by (simp, code_simp)

text \<open>
  Reports are applied in the order they were made, and only a turn's end that had to be sent again can
  come late.  When a report is applied after one made later, it is a turn's end that is not a
  death report.  So no transcript event is applied behind the end of its turn.
\<close>

theorem only_resent_ends_come_late:
  assumes "chain_reachable c" and "i < j" and "j < length (ch_applied c)"
    and "ch_applied c ! j < ch_applied c ! i"
  shows "isResendable (ch_accepted c ! (ch_applied c ! j))"
  using reachable_invariants [OF assms(1)] assms(2-4)
  by (auto simp: orderOk_def dest!: sorted_wrt_nth_less [of _ _ i j])

theorem only_resent_ends_come_late_witness:
  "ch_applied exampleChain = [1, 0] \<and> isResendable (ch_accepted exampleChain ! 0)"
proof -
  have "ch_applied exampleChain = [1, 0]" by code_simp
  then show ?thesis using only_resent_ends_come_late [OF example_reachable, of 0 1] by simp
qed

text \<open>
  C29: an untrusted sandbox cannot grow the chain.  The sends queued never exceed 328, the turn ends waiting to
  be sent again never exceed 64, and those of one sandbox never exceed 8.
\<close>

theorem chain_bounded:
  assumes "chain_reachable c"
  shows "length (ch_queue c) \<le> MAX_QUEUED_REPORTS + TERMINAL_RESERVE + MAX_PENDING_RESENDS \<and>
         length (ch_sleeping c) \<le> MAX_PENDING_RESENDS \<and>
         length (filter (\<lambda>s. re_sandboxId (cs_event s) = sandbox) (ch_sleeping c)) \<le> MAX_PENDING_RESENDS_PER_SANDBOX"
proof -
  note inv = reachable_invariants [OF assms]
  have sleeping: "filter isResend (ch_sleeping c) = ch_sleeping c"
    using inv by (simp add: numbersOk_def filter_id_conv)
  have "length (filter isResend (ch_queue c)) + length (ch_sleeping c) \<le> MAX_PENDING_RESENDS"
    using inv sleeping by (simp add: boundsOk_def liveSends_def)
  moreover have "length (ch_queue c) = length (filter isResend (ch_queue c)) + length (filter (\<lambda>s. \<not> isResend s) (ch_queue c))"
    by (simp add: sum_length_filter_compl)
  moreover have "resendsOf sandbox c \<le> MAX_PENDING_RESENDS_PER_SANDBOX" using inv by (simp add: boundsOk_def)
  moreover have "filter (\<lambda>s. isResend s \<and> re_sandboxId (cs_event s) = sandbox) (ch_sleeping c) =
      filter (\<lambda>s. re_sandboxId (cs_event s) = sandbox) (ch_sleeping c)"
    using inv by (auto simp: numbersOk_def intro!: filter_cong)
  ultimately show ?thesis
    using inv by (simp add: boundsOk_def resendsOf_def liveSends_def)
qed

theorem chain_bounded_witness:
  "length (ch_queue exampleChain) \<le> MAX_QUEUED_REPORTS + TERMINAL_RESERVE + MAX_PENDING_RESENDS"
  using chain_bounded [OF example_reachable, of "''box''"] by simp



end
