(* ===== verification/Reconcile.thy ===== *)
theory Reconcile
  imports JsPrelude
begin

text \<open>
  The reconciler's verdicts (\<^verbatim>\<open>apps/runner/src/reconcile-classify.ts\<close>) over the control plane's
  facts about a sandbox's channel.  Times are milliseconds.
\<close>

section \<open>Verdicts\<close>

datatype reconcile_verdict = Leave | BootCrash | Channelless | Stray | Dead

record reconcile_graces =
  gr_bootDialInMs :: int
  gr_droppedMs :: int
  gr_inheritedMs :: int

record runner_sandbox_channel =
  rs_containerRef :: "string option"
  rs_channel :: string
  rs_since :: "int option"

record classify_input =
  cl_containerRef :: string
  cl_running :: bool
  cl_phase :: "string option"
  cl_resumable :: bool
  cl_believed :: "string option"
  cl_channel :: "runner_sandbox_channel option"
  cl_now :: int
  cl_reconcilerSince :: int
  cl_sessions :: bool
  cl_graces :: reconcile_graces

definition terminalPhase :: "string option \<Rightarrow> bool" where
  "terminalPhase phase = (phase = None \<or> phase = Some ''Failed'' \<or> phase = Some ''Succeeded'')"

definition reconnecting :: "string \<Rightarrow> int option \<Rightarrow> classify_input \<Rightarrow> bool" where
  "reconnecting state since input =
     (if \<not> cl_sessions input \<or> \<not> cl_resumable input then False
      else if state = ''dropped'' then
        (case since of None \<Rightarrow> False | Some t \<Rightarrow> cl_now input - t < gr_droppedMs (cl_graces input))
      else
        (let anchor = max (if state = ''lost'' then (case since of None \<Rightarrow> 0 | Some t \<Rightarrow> t) else 0) (cl_reconcilerSince input) in
         cl_now input - anchor < gr_inheritedMs (cl_graces input)))"

definition classifySandbox :: "classify_input \<Rightarrow> reconcile_verdict" where
  "classifySandbox input =
     (if (case cl_channel input of None \<Rightarrow> False
          | Some ch \<Rightarrow> (case rs_containerRef ch of None \<Rightarrow> False | Some ref \<Rightarrow> ref \<noteq> cl_containerRef input))
      then Leave
      else
        (let state = (case cl_channel input of None \<Rightarrow> ''none'' | Some ch \<Rightarrow> rs_channel ch);
             since = (case cl_channel input of None \<Rightarrow> None | Some ch \<Rightarrow> rs_since ch) in
         if \<not> cl_running input then
           (if state = ''awaiting'' then
              (if (case since of None \<Rightarrow> False
                   | Some t \<Rightarrow> terminalPhase (cl_phase input) \<and> cl_now input - t > gr_bootDialInMs (cl_graces input))
               then BootCrash else Leave)
            else if state = ''held'' \<or> state = ''starting'' then Leave
            else Dead)
         else if state = ''held'' \<or> state = ''awaiting'' \<or> state = ''starting'' then Leave
         else if reconnecting state since input then Leave
         else if cl_believed input = Some ''stopped'' \<or> cl_believed input = Some ''failed'' then Stray
         else Channelless))"

section \<open>Vanished sandboxes\<close>

definition vanishedSandboxes ::
    "(string \<times> string) list option \<Rightarrow> string set \<Rightarrow> string set \<Rightarrow> string list \<times> string set" where
  "vanishedSandboxes statuses present previous =
     foldl (\<lambda>(report, missing) (sandboxId, status).
         if status \<noteq> ''running'' \<or> sandboxId \<in> present then (report, missing)
         else if sandboxId \<in> previous then (report @ [sandboxId], missing)
         else (report, insert sandboxId missing))
       ([], {}) (case statuses of None \<Rightarrow> [] | Some s \<Rightarrow> s)"

text \<open>The passes of the reconciler, each with the memory of the one before.\<close>

fun reconcilePasses :: "string set \<Rightarrow> ((string \<times> string) list option \<times> string set) list \<Rightarrow> string list list" where
  "reconcilePasses previous [] = []"
| "reconcilePasses previous ((statuses, present) # passes) =
     (let (report, missing) = vanishedSandboxes statuses present previous in
      report # reconcilePasses missing passes)"

section \<open>Lemmas\<close>

definition believedMissing :: "(string \<times> string) list option \<Rightarrow> string set \<Rightarrow> string \<Rightarrow> bool" where
  "believedMissing statuses present s \<longleftrightarrow>
     (s, ''running'') \<in> set (case statuses of None \<Rightarrow> [] | Some ss \<Rightarrow> ss) \<and> s \<notin> present"

lemma vanished_sets:
  "set (fst (vanishedSandboxes statuses present previous)) = {s. believedMissing statuses present s \<and> s \<in> previous}"
  "snd (vanishedSandboxes statuses present previous) = {s. believedMissing statuses present s \<and> s \<notin> previous}"
proof -
  let ?f = "\<lambda>(report, missing) (sandboxId, status).
         if status \<noteq> ''running'' \<or> sandboxId \<in> present then (report, missing)
         else if sandboxId \<in> previous then (report @ [sandboxId], missing)
         else (report, insert sandboxId missing)"
  have "set (fst (foldl ?f rm ss)) = set (fst rm) \<union> {s. (s, ''running'') \<in> set ss \<and> s \<notin> present \<and> s \<in> previous} \<and>
      snd (foldl ?f rm ss) = snd rm \<union> {s. (s, ''running'') \<in> set ss \<and> s \<notin> present \<and> s \<notin> previous}" for rm ss
  proof (induction ss arbitrary: rm)
    case (Cons e ss)
    obtain s status where e: "e = (s, status)" by (cases e)
    obtain r m where rm: "rm = (r, m)" by (cases rm)
    show ?case using Cons [of "?f rm e"] by (auto simp: e rm split: if_splits)
  qed simp
  from this [of "([], {})"] show
    "set (fst (vanishedSandboxes statuses present previous)) = {s. believedMissing statuses present s \<and> s \<in> previous}"
    "snd (vanishedSandboxes statuses present previous) = {s. believedMissing statuses present s \<and> s \<notin> previous}"
    by (simp_all add: vanishedSandboxes_def believedMissing_def)
qed

text \<open>The memory a pass starts from.\<close>

fun memoryBefore :: "nat \<Rightarrow> string set \<Rightarrow> ((string \<times> string) list option \<times> string set) list \<Rightarrow> string set" where
  "memoryBefore 0 previous passes = previous"
| "memoryBefore (Suc k) previous [] = {}"
| "memoryBefore (Suc k) previous ((statuses, present) # passes) =
     memoryBefore k (snd (vanishedSandboxes statuses present previous)) passes"

definition missingIn :: "((string \<times> string) list option \<times> string set) list \<Rightarrow> nat \<Rightarrow> string \<Rightarrow> bool" where
  "missingIn passes k s \<longleftrightarrow> believedMissing (fst (passes ! k)) (snd (passes ! k)) s"

lemma length_passes [simp]: "length (reconcilePasses previous passes) = length passes"
  by (induction passes arbitrary: previous) (auto simp: case_prod_unfold Let_def)

lemma reported_iff:
  "k < length passes \<Longrightarrow>
     s \<in> set (reconcilePasses previous passes ! k) \<longleftrightarrow> missingIn passes k s \<and> s \<in> memoryBefore k previous passes"
proof (induction k previous passes rule: memoryBefore.induct)
  case (1 previous passes)
  then show ?case
    by (cases passes) (auto simp: vanished_sets missingIn_def case_prod_unfold Let_def)
qed (auto simp: missingIn_def case_prod_unfold Let_def)

lemma memory_Suc:
  "k < length passes \<Longrightarrow>
     s \<in> memoryBefore (Suc k) previous passes \<longleftrightarrow> missingIn passes k s \<and> s \<notin> memoryBefore k previous passes"
proof (induction k previous passes rule: memoryBefore.induct)
  case (1 previous passes)
  then show ?case by (cases passes) (auto simp: vanished_sets missingIn_def)
qed (auto simp: missingIn_def)

section \<open>Claims\<close>

text \<open>
  C31: a sandbox is reported vanished exactly on the second of consecutive passes that miss it.  A pass
  reports it when it is believed running and has no container there, the pass before missed it
  too, and that pass did not report it; so one stale read reports nothing, and of two
  consecutive passes that miss it one does.
\<close>

theorem vanished_on_second_pass:
  assumes "Suc k < length passes"
  shows "s \<in> set (reconcilePasses {} passes ! Suc k) \<longleftrightarrow>
           missingIn passes (Suc k) s \<and> missingIn passes k s \<and> s \<notin> set (reconcilePasses {} passes ! k)"
  using assms reported_iff [of "Suc k" passes s "{}"] reported_iff [of k passes s "{}"] memory_Suc [of k passes s "{}"]
  by auto

theorem vanished_on_second_pass_witness:
  "reconcilePasses {} (replicate 4 (Some [(''box'', ''running'')], {})) = [[], [''box''], [], [''box'']] \<and>
   ''box'' \<in> set (reconcilePasses {} (replicate 4 (Some [(''box'', ''running'')], {})) ! Suc 0)"
proof -
  have passes: "reconcilePasses {} (replicate 4 (Some [(''box'', ''running'')], {})) = [[], [''box''], [], [''box'']]"
    by (simp add: numeral_eq_Suc vanishedSandboxes_def)
  then show ?thesis
    using vanished_on_second_pass [of 0 "replicate 4 (Some [(''box'', ''running'')], {})" "''box''"]
    by (simp add: missingIn_def believedMissing_def numeral_eq_Suc)
qed

text \<open>
  A verdict does not depend on when it is looked at, once there is one.  With the same facts, a
  container that is not left alone now is judged the same at any later time: every grace only
  ever runs out.
\<close>

theorem reconcile_verdict_stable:
  assumes "classifySandbox input \<noteq> Leave" and "cl_now input \<le> later"
  shows "classifySandbox (input\<lparr>cl_now := later\<rparr>) = classifySandbox input"
proof -
  have r: "reconnecting state since (input\<lparr>cl_now := later\<rparr>) \<Longrightarrow> reconnecting state since input" for state since
    using assms(2) by (auto simp: reconnecting_def Let_def split: if_splits option.splits)
  show ?thesis
    using assms r by (auto simp: classifySandbox_def Let_def split: if_splits option.splits)
qed

text \<open>
  A running container without a channel is not left for ever.  Once its facts are its own and no copy
  holds, awaits or starts it, the verdict comes at the latest when the longer grace has passed
  since the drop or the takeover: a container the control plane already parked is stray, any
  other is channelless.
\<close>

theorem channel_grace_ends:
  assumes "cl_running input" and "cl_channel input = Some ch"
    and "rs_containerRef ch = None \<or> rs_containerRef ch = Some (cl_containerRef input)"
    and "rs_channel ch \<notin> {''held'', ''awaiting'', ''starting''}"
    and "cl_now input \<ge> max (max 0 (cl_reconcilerSince input)) (case rs_since ch of None \<Rightarrow> 0 | Some t \<Rightarrow> t) +
           max (gr_droppedMs (cl_graces input)) (gr_inheritedMs (cl_graces input))"
  shows "classifySandbox input =
           (if cl_believed input \<in> {Some ''stopped'', Some ''failed''} then Stray else Channelless)"
proof -
  have "\<not> reconnecting (rs_channel ch) (rs_since ch) input"
    using assms(5) by (auto simp: reconnecting_def Let_def max_def split: if_splits option.splits)
  then show ?thesis using assms(1-4) by (auto simp: classifySandbox_def Let_def)
qed

text \<open>
  A container is never judged while someone owns its channel, or on the facts of another container.
\<close>

theorem owned_channel_is_left:
  assumes "cl_channel input = Some ch"
    and "rs_channel ch \<in> {''held'', ''starting''} \<or> (\<exists>ref. rs_containerRef ch = Some ref \<and> ref \<noteq> cl_containerRef input) \<or>
         (rs_channel ch = ''dropped'' \<and> cl_running input \<and> cl_sessions input \<and> cl_resumable input \<and>
          (\<exists>t. rs_since ch = Some t \<and> cl_now input < t + gr_droppedMs (cl_graces input)))"
  shows "classifySandbox input = Leave"
  using assms(2)
proof (elim disjE)
  assume "rs_channel ch \<in> {''held'', ''starting''}"
  then show ?thesis by (auto simp: classifySandbox_def assms(1) Let_def)
next
  assume "\<exists>ref. rs_containerRef ch = Some ref \<and> ref \<noteq> cl_containerRef input"
  then show ?thesis by (auto simp: classifySandbox_def assms(1))
next
  assume d: "rs_channel ch = ''dropped'' \<and> cl_running input \<and> cl_sessions input \<and> cl_resumable input \<and>
    (\<exists>t. rs_since ch = Some t \<and> cl_now input < t + gr_droppedMs (cl_graces input))"
  then have "reconnecting (rs_channel ch) (rs_since ch) input" by (auto simp: reconnecting_def)
  then show ?thesis using d by (simp add: classifySandbox_def assms(1))
qed

definition exampleInput :: "string \<Rightarrow> int \<Rightarrow> classify_input" where
  "exampleInput state at =
     \<lparr>cl_containerRef = ''c'', cl_running = True, cl_phase = None, cl_resumable = True, cl_believed = Some ''running'',
      cl_channel = Some \<lparr>rs_containerRef = Some ''c'', rs_channel = state, rs_since = Some 1000\<rparr>, cl_now = at,
      cl_reconcilerSince = 500, cl_sessions = True,
      cl_graces = \<lparr>gr_bootDialInMs = 600, gr_droppedMs = 300, gr_inheritedMs = 60\<rparr>\<rparr>"

theorem reconcile_verdict_stable_witness:
  "classifySandbox (exampleInput ''dropped'' 1300) = Channelless \<and> classifySandbox (exampleInput ''dropped'' 9999) = Channelless"
proof -
  have c: "classifySandbox (exampleInput ''dropped'' 1300) = Channelless" by code_simp
  show ?thesis
    using reconcile_verdict_stable [of "exampleInput ''dropped'' 1300" 9999] c by (simp add: exampleInput_def)
qed

theorem channel_grace_ends_witness: "classifySandbox (exampleInput ''lost'' 1300) = Channelless"
  using channel_grace_ends [of "exampleInput ''lost'' 1300"] by (simp add: exampleInput_def)

theorem owned_channel_is_left_witness: "classifySandbox (exampleInput ''dropped'' 1299) = Leave"
  using owned_channel_is_left [of "exampleInput ''dropped'' 1299"] by (simp add: exampleInput_def)

end
