(* ===== verification/SupervisorMessages.thy ===== *)
theory SupervisorMessages
  imports TurnEvents
begin

text \<open>
  The runner's handler of supervisor messages (\<^verbatim>\<open>apps/runner/src/supervisor-messages.ts\<close>), the one place
  where a message of a sandbox becomes reports for the control plane.  It feeds the turn event
  collector, relays tool calls, memory writes and files, and answers each of them.  A relay that
  is awaited is an entry of the state until it settles.  The control plane's answers, the base64
  coding and the hash are parameters.
\<close>

section \<open>Messages\<close>

type_synonym bytes = "8 word list"

record file_part =
  fp_uploadId :: string
  fp_conversationId :: string
  fp_turnId :: string
  fp_name :: string
  fp_mimeType :: string
  fp_sizeBytes :: nat
  fp_sha256 :: string
  fp_caption :: "string option"
  fp_purpose :: "string option"
  fp_part :: nat
  fp_of :: nat
  fp_dataBase64 :: string

record turn_result =
  tr_conversationId :: string
  tr_turnId :: string
  tr_status :: string
  tr_error :: "text16 option"
  tr_errorCode :: "string option"
  tr_usage :: "turn_usage option"
  tr_sessionRef :: "string option"
  tr_followUps :: "(string \<times> string) list option"

datatype supervisor_message =
    FilePart file_part
  | ToolCall string string
  | MemoryWrite string string
  | SupervisorReady
  | HomeSynced nat
  | ProcessState string
  | EventMessage string string agent_event
  | ProgressMessage string string "string option"
  | TurnResult turn_result
  | Unhealthy text16 "string option"
  | PortFrame string
  | PortsState string
  | DesktopState bool
  | Heartbeat

text \<open>A message as it arrives: the sandbox its channel authenticated, the clock, and what the runner's
  own maps say of the sandbox's container and machine.\<close>

record arrival =
  ar_sandboxId :: string
  ar_now :: int
  ar_containerRef :: "string option"
  ar_node :: "string option"

section \<open>Reports and answers\<close>

datatype runner_report =
    TurnEventsReport turn_events_post
  | ReadyReport string
  | HomeSyncedReport string nat
  | ProcessReport string string string
  | ProgressReport string string string "string option"
  | TurnFinishedReport string turn_result
  | StoppedReport string text16 string "string option" "string option"
  | PortsReport string string string
  | DesktopReport string string bool

record tool_outcome =
  to_ok :: bool
  to_result :: "text16 option"
  to_error :: "text16 option"

record memory_outcome =
  mo_ok :: bool
  mo_created :: "bool option"
  mo_revisionSeq :: "nat option"
  mo_noop :: "bool option"
  mo_retryable :: "bool option"
  mo_error :: "text16 option"

record upload_outcome =
  uo_ok :: bool
  uo_attachmentId :: "string option"
  uo_retryable :: "bool option"
  uo_error :: "text16 option"

datatype work_item =
    ToolResult string tool_outcome
  | MemoryWriteResult string memory_outcome
  | FileResult string upload_outcome

text \<open>A file that is complete, and a run of parts in progress.\<close>

record outbound_file =
  of_uploadId :: string
  of_conversationId :: string
  of_turnId :: string
  of_name :: string
  of_mimeType :: string
  of_sha256 :: string
  of_caption :: "string option"
  of_purpose :: "string option"
  of_bytes :: bytes

record file_run =
  fr_uploadId :: string
  fr_nextPart :: nat
  fr_of :: nat
  fr_sizeBytes :: nat
  fr_chunks :: "bytes list"
  fr_total :: nat
  fr_lastPartAt :: int

record handler_state =
  hs_collector :: turn_collector
  hs_runs :: "(string \<times> file_run) list"
  hs_memoryCount :: "string \<Rightarrow> nat option"
  hs_uploadCount :: "string \<Rightarrow> nat option"
  hs_toolCalls :: "(string \<times> string) list"
  hs_memoryCalls :: "(string \<times> string) list"
  hs_uploadCalls :: "(string \<times> outbound_file) list"
  hs_reports :: "runner_report list"
  hs_sent :: "(string \<times> work_item) list"
  hs_ports :: "(string \<times> string) list"
  hs_ready :: "string list"

definition emptyHandler :: handler_state where
  "emptyHandler = \<lparr>hs_collector = emptyCollector, hs_runs = [], hs_memoryCount = Map.empty, hs_uploadCount = Map.empty,
     hs_toolCalls = [], hs_memoryCalls = [], hs_uploadCalls = [], hs_reports = [], hs_sent = [], hs_ports = [], hs_ready = []\<rparr>"

definition MAX_INFLIGHT_MEMORY_WRITES_PER_SANDBOX :: nat where
  "MAX_INFLIGHT_MEMORY_WRITES_PER_SANDBOX = 8"

definition MAX_INFLIGHT_FILE_UPLOADS_PER_SANDBOX :: nat where
  "MAX_INFLIGHT_FILE_UPLOADS_PER_SANDBOX = 2"

definition FILE_UPLOAD_STALE_MS :: int where
  "FILE_UPLOAD_STALE_MS = 60000"

definition MAX_OUTBOUND_ATTACHMENT_BYTES :: nat where
  "MAX_OUTBOUND_ATTACHMENT_BYTES = 25 * 1024 * 1024"

definition MAX_TOOL_RESULT_CHARS :: nat where
  "MAX_TOOL_RESULT_CHARS = 64000"

definition MAX_TOOL_ERROR_CHARS :: nat where
  "MAX_TOOL_ERROR_CHARS = 2000"

definition MAX_SESSION_REF_CHARS :: nat where
  "MAX_SESSION_REF_CHARS = 500"

text \<open>The code of a sandbox whose home went read-only (\<^verbatim>\<open>TURN_FAILURE_CODES.homeReadOnly\<close>).\<close>

definition HOME_READ_ONLY :: string where
  "HOME_READ_ONLY = ''home_read_only''"

definition queueReport :: "runner_report \<Rightarrow> handler_state \<Rightarrow> handler_state" where
  "queueReport r s = s\<lparr>hs_reports := hs_reports s @ [r]\<rparr>"

definition sendToSandbox :: "string \<Rightarrow> work_item \<Rightarrow> handler_state \<Rightarrow> handler_state" where
  "sendToSandbox sandboxId item s = s\<lparr>hs_sent := hs_sent s @ [(sandboxId, item)]\<rparr>"

text \<open>A call of the collector; what it posts goes to the reports, in order.\<close>

definition withCollector :: "(turn_collector \<Rightarrow> turn_collector) \<Rightarrow> handler_state \<Rightarrow> handler_state" where
  "withCollector f s =
     (let c = f (hs_collector s) in
      s\<lparr>hs_collector := c,
        hs_reports := hs_reports s @ map TurnEventsReport (drop (length (co_posted (hs_collector s))) (co_posted c))\<rparr>)"

section \<open>Tool calls\<close>

text \<open>A result is the text it is serialized to, or absent.\<close>

definition boundedResult :: "text16 option \<Rightarrow> text16 option \<times> text16 option" where
  "boundedResult result =
     (let serialized = (case result of None \<Rightarrow> lit ''null'' | Some t \<Rightarrow> t) in
      if length serialized \<le> MAX_TOOL_RESULT_CHARS then (result, None)
      else (None, Some (lit ''The tool result was too large to deliver ('' @ decimal (length serialized) @ lit '' chars).'')))"

definition unreachableError :: "text16 \<Rightarrow> text16" where
  "unreachableError error = lit ''The platform could not be reached: '' @ take 200 error"

definition toolAnswer :: "tool_outcome \<Rightarrow> tool_outcome" where
  "toolAnswer outcome =
     (let bounded = (if to_ok outcome then boundedResult (to_result outcome) else (None, None));
          failedBounding = (to_ok outcome \<and> snd bounded \<noteq> None) in
      \<lparr>to_ok = (to_ok outcome \<and> \<not> failedBounding),
       to_result = (if to_ok outcome \<and> \<not> failedBounding then fst bounded else None),
       to_error = (if failedBounding then snd bounded
         else if \<not> to_ok outcome then
           Some (take MAX_TOOL_ERROR_CHARS (case to_error outcome of None \<Rightarrow> lit ''Tool call failed'' | Some e \<Rightarrow> e))
         else None)\<rparr>)"

definition relayToolCall :: "string \<Rightarrow> string \<Rightarrow> handler_state \<Rightarrow> handler_state" where
  "relayToolCall sandboxId callId s = s\<lparr>hs_toolCalls := hs_toolCalls s @ [(sandboxId, callId)]\<rparr>"

text \<open>The relay at a position settles with an answer, or with the text of the error it threw.\<close>

definition dropAt :: "nat \<Rightarrow> 'a list \<Rightarrow> 'a list" where
  "dropAt i xs = take i xs @ drop (Suc i) xs"

definition toolSettles :: "nat \<Rightarrow> text16 + tool_outcome \<Rightarrow> handler_state \<Rightarrow> handler_state" where
  "toolSettles i answer s =
     (if i < length (hs_toolCalls s) then
        (let (sandboxId, callId) = hs_toolCalls s ! i;
             outcome = (case answer of
               Inr o' \<Rightarrow> o'
             | Inl e \<Rightarrow> \<lparr>to_ok = False, to_result = None, to_error = Some (unreachableError e)\<rparr>) in
         sendToSandbox sandboxId (ToolResult callId (toolAnswer outcome)) (s\<lparr>hs_toolCalls := dropAt i (hs_toolCalls s)\<rparr>))
      else s)"

section \<open>Memory writes\<close>

text \<open>The number of relays in flight, and its decrement when one settles.\<close>

definition inflight :: "(string \<Rightarrow> nat option) \<Rightarrow> string \<Rightarrow> nat" where
  "inflight counts sandboxId = (case counts sandboxId of None \<Rightarrow> 0 | Some n \<Rightarrow> n)"

definition released :: "(string \<Rightarrow> nat option) \<Rightarrow> string \<Rightarrow> (string \<Rightarrow> nat option)" where
  "released counts sandboxId =
     (let remaining = (case counts sandboxId of None \<Rightarrow> 1 | Some n \<Rightarrow> n) - 1 in
      if remaining \<le> 0 then counts(sandboxId := None) else counts(sandboxId \<mapsto> remaining))"

definition refusedMemory :: "text16 \<Rightarrow> memory_outcome" where
  "refusedMemory error = \<lparr>mo_ok = False, mo_created = None, mo_revisionSeq = None, mo_noop = None,
     mo_retryable = Some True, mo_error = Some error\<rparr>"

definition relayMemoryWrite :: "string \<Rightarrow> string \<Rightarrow> handler_state \<Rightarrow> handler_state" where
  "relayMemoryWrite sandboxId writeId s =
     (let n = inflight (hs_memoryCount s) sandboxId in
      if n \<ge> MAX_INFLIGHT_MEMORY_WRITES_PER_SANDBOX then
        sendToSandbox sandboxId
          (MemoryWriteResult writeId (refusedMemory (lit ''Too many memory writes in flight '' @ [0x2014] @ lit '' retry shortly.''))) s
      else s\<lparr>hs_memoryCount := (hs_memoryCount s)(sandboxId \<mapsto> n + 1),
             hs_memoryCalls := hs_memoryCalls s @ [(sandboxId, writeId)]\<rparr>)"

definition memorySettles :: "nat \<Rightarrow> text16 + memory_outcome \<Rightarrow> handler_state \<Rightarrow> handler_state" where
  "memorySettles i answer s =
     (if i < length (hs_memoryCalls s) then
        (let (sandboxId, writeId) = hs_memoryCalls s ! i;
             outcome = (case answer of Inr o' \<Rightarrow> o' | Inl e \<Rightarrow> refusedMemory (unreachableError e)) in
         sendToSandbox sandboxId
           (MemoryWriteResult writeId (outcome\<lparr>mo_error := map_option (take MAX_TOOL_ERROR_CHARS) (mo_error outcome)\<rparr>))
           (s\<lparr>hs_memoryCalls := dropAt i (hs_memoryCalls s), hs_memoryCount := released (hs_memoryCount s) sandboxId\<rparr>))
      else s)"

section \<open>Files\<close>

definition fileResult :: "string \<Rightarrow> string \<Rightarrow> upload_outcome \<Rightarrow> handler_state \<Rightarrow> handler_state" where
  "fileResult sandboxId uploadId outcome s =
     sendToSandbox sandboxId
       (FileResult uploadId (outcome\<lparr>uo_error := map_option (take MAX_TOOL_ERROR_CHARS) (uo_error outcome)\<rparr>)) s"

definition refusedFile :: "text16 \<Rightarrow> upload_outcome" where
  "refusedFile error = \<lparr>uo_ok = False, uo_attachmentId = None, uo_retryable = None, uo_error = Some error\<rparr>"

definition retryableFile :: "text16 \<Rightarrow> upload_outcome" where
  "retryableFile error = (refusedFile error)\<lparr>uo_retryable := Some True\<rparr>"

definition relayFile :: "string \<Rightarrow> outbound_file \<Rightarrow> handler_state \<Rightarrow> handler_state" where
  "relayFile sandboxId file s =
     (let n = inflight (hs_uploadCount s) sandboxId in
      if n \<ge> MAX_INFLIGHT_FILE_UPLOADS_PER_SANDBOX then
        fileResult sandboxId (of_uploadId file)
          (retryableFile (lit ''Too many files in flight '' @ [0x2014] @ lit '' retry shortly.'')) s
      else s\<lparr>hs_uploadCount := (hs_uploadCount s)(sandboxId \<mapsto> n + 1),
             hs_uploadCalls := hs_uploadCalls s @ [(sandboxId, file)]\<rparr>)"

definition uploadSettles :: "nat \<Rightarrow> text16 + upload_outcome \<Rightarrow> handler_state \<Rightarrow> handler_state" where
  "uploadSettles i answer s =
     (if i < length (hs_uploadCalls s) then
        (let (sandboxId, file) = hs_uploadCalls s ! i;
             outcome = (case answer of Inr o' \<Rightarrow> o' | Inl e \<Rightarrow> retryableFile (unreachableError e)) in
         fileResult sandboxId (of_uploadId file) outcome
           (s\<lparr>hs_uploadCalls := dropAt i (hs_uploadCalls s), hs_uploadCount := released (hs_uploadCount s) sandboxId\<rparr>))
      else s)"

definition abandonRun :: "string \<Rightarrow> string \<Rightarrow> handler_state \<Rightarrow> handler_state" where
  "abandonRun sandboxId why s =
     (case map_of (hs_runs s) sandboxId of
        None \<Rightarrow> s
      | Some run \<Rightarrow>
          fileResult sandboxId (fr_uploadId run) (refusedFile (lit why))
            (s\<lparr>hs_runs := filter (\<lambda>(k, _). k \<noteq> sandboxId) (hs_runs s)\<rparr>))"

text \<open>The sweep at the next part from any sandbox; only abandoned runs leave the map meanwhile.\<close>

definition sweepStale :: "int \<Rightarrow> handler_state \<Rightarrow> handler_state" where
  "sweepStale clock s =
     foldl (\<lambda>s' (other, run).
         if clock - fr_lastPartAt run > FILE_UPLOAD_STALE_MS
         then abandonRun other ''The upload stalled and was dropped; send it again.'' s' else s')
       s (hs_runs s)"

definition newRun :: "int \<Rightarrow> file_part \<Rightarrow> file_run" where
  "newRun clock part = \<lparr>fr_uploadId = fp_uploadId part, fr_nextPart = 1, fr_of = fp_of part, fr_sizeBytes = fp_sizeBytes part,
     fr_chunks = [], fr_total = 0, fr_lastPartAt = clock\<rparr>"

definition continues :: "file_run \<Rightarrow> file_part \<Rightarrow> bool" where
  "continues run part \<longleftrightarrow>
     fr_uploadId run = fp_uploadId part \<and> fr_nextPart run = fp_part part \<and> fr_of run = fp_of part"

definition completeFile :: "file_part \<Rightarrow> bytes \<Rightarrow> outbound_file" where
  "completeFile part bytes = \<lparr>of_uploadId = fp_uploadId part, of_conversationId = fp_conversationId part,
     of_turnId = fp_turnId part, of_name = fp_name part, of_mimeType = fp_mimeType part, of_sha256 = fp_sha256 part,
     of_caption = fp_caption part, of_purpose = fp_purpose part, of_bytes = bytes\<rparr>"

text \<open>The last part of a run: the checks before the file is relayed.\<close>

definition finishRun :: "(bytes \<Rightarrow> string) \<Rightarrow> string \<Rightarrow> file_part \<Rightarrow> bytes list \<Rightarrow> handler_state \<Rightarrow> handler_state" where
  "finishRun sha256 sandboxId part chunks s =
     (let s1 = s\<lparr>hs_runs := filter (\<lambda>(k, _). k \<noteq> sandboxId) (hs_runs s)\<rparr>; bytes = concat chunks in
      if length bytes \<noteq> fp_sizeBytes part then
        fileResult sandboxId (fp_uploadId part) (refusedFile (lit ''The upload was shorter than its declared size.'')) s1
      else if sha256 bytes \<noteq> fp_sha256 part then
        fileResult sandboxId (fp_uploadId part)
          (refusedFile (lit ''The file's bytes did not match its checksum; send it again.'')) s1
      else relayFile sandboxId (completeFile part bytes) s1)"

text \<open>A part taken by the run it continues.\<close>

definition takePart ::
    "(string \<Rightarrow> bytes) \<Rightarrow> (bytes \<Rightarrow> string) \<Rightarrow> int \<Rightarrow> string \<Rightarrow> file_part \<Rightarrow> file_run \<Rightarrow> handler_state \<Rightarrow> handler_state" where
  "takePart fromBase64 sha256 clock sandboxId part run s =
     (let chunk = fromBase64 (fp_dataBase64 part); total = fr_total run + length chunk in
      if total > fr_sizeBytes run then
        abandonRun sandboxId ''The upload exceeded its declared size.'' s
      else
        (let run1 = run\<lparr>fr_total := total, fr_chunks := fr_chunks run @ [chunk], fr_nextPart := fr_nextPart run + 1,
                        fr_lastPartAt := clock\<rparr>;
             s1 = s\<lparr>hs_runs := mapSet sandboxId run1 (hs_runs s)\<rparr> in
         if fp_part part < fp_of part then s1
         else finishRun sha256 sandboxId part (fr_chunks run1) s1))"

definition applyFilePart ::
    "(string \<Rightarrow> bytes) \<Rightarrow> (bytes \<Rightarrow> string) \<Rightarrow> int \<Rightarrow> string \<Rightarrow> file_part \<Rightarrow> handler_state \<Rightarrow> handler_state" where
  "applyFilePart fromBase64 sha256 clock sandboxId part s =
     (let s0 = sweepStale clock s;
          s1 = (if fp_part part = 1 then
                  abandonRun sandboxId ''A new upload started before this one finished; send it again.'' s0
                else s0) in
      if fp_part part = 1 \<and> fp_sizeBytes part > MAX_OUTBOUND_ATTACHMENT_BYTES then
        fileResult sandboxId (fp_uploadId part) (refusedFile (lit ''Files are capped at 25MB.'')) s1
      else
        (let s2 = (if fp_part part = 1 then s1\<lparr>hs_runs := mapSet sandboxId (newRun clock part) (hs_runs s1)\<rparr> else s1) in
         case map_of (hs_runs s2) sandboxId of
           Some run \<Rightarrow>
             if continues run part then takePart fromBase64 sha256 clock sandboxId part run s2
             else
               (let s3 = abandonRun sandboxId ''The upload arrived out of order; send it again.'' s2 in
                if fr_uploadId run \<noteq> fp_uploadId part then
                  fileResult sandboxId (fp_uploadId part) (refusedFile (lit ''The upload arrived out of order; send it again.'')) s3
                else s3)
         | None \<Rightarrow>
             fileResult sandboxId (fp_uploadId part) (refusedFile (lit ''The upload arrived out of order; send it again.'')) s2))"

section \<open>Handler\<close>

definition relayableSessionRef :: "string option \<Rightarrow> string option" where
  "relayableSessionRef sessionRef =
     (case sessionRef of None \<Rightarrow> None | Some r \<Rightarrow> if r \<noteq> [] \<and> length r \<le> MAX_SESSION_REF_CHARS then Some r else None)"

text \<open>An optional text that is there and not empty.\<close>

definition truthy :: "'a list option \<Rightarrow> 'a list option" where
  "truthy t = (case t of None \<Rightarrow> None | Some s \<Rightarrow> if s = [] then None else Some s)"

text \<open>An optional text that is kept when it is not empty, cut to a length.\<close>

definition truthyCut :: "nat \<Rightarrow> 'a list option \<Rightarrow> 'a list option" where
  "truthyCut n t = map_option (take n) (truthy t)"

definition finishedReport :: "string \<Rightarrow> turn_result \<Rightarrow> runner_report" where
  "finishedReport sandboxId r =
     TurnFinishedReport sandboxId
       (r\<lparr>tr_error := truthyCut 2000 (tr_error r), tr_errorCode := truthyCut 64 (tr_errorCode r),
          tr_sessionRef := relayableSessionRef (tr_sessionRef r)\<rparr>)"

definition turnResult :: "string \<Rightarrow> turn_result \<Rightarrow> handler_state \<Rightarrow> handler_state" where
  "turnResult sandboxId r s =
     (let s1 = foldl (\<lambda>s' (turnId, outcome). withCollector (flush turnId) s') s
                 (case tr_followUps r of None \<Rightarrow> [] | Some fs \<Rightarrow> fs) in
      queueReport (finishedReport sandboxId r) (withCollector (flush (tr_turnId r)) s1))"

definition unhealthy :: "arrival \<Rightarrow> text16 \<Rightarrow> string option \<Rightarrow> handler_state \<Rightarrow> handler_state" where
  "unhealthy a reason code s =
     (case truthy (ar_containerRef a) of
        None \<Rightarrow> s
      | Some ref \<Rightarrow>
          (let readOnly = (code = Some HOME_READ_ONLY) in
           queueReport (StoppedReport (ar_sandboxId a) reason ref
             (if readOnly then Some HOME_READ_ONLY else None) (if readOnly then truthy (ar_node a) else None)) s))"

definition stamped :: "arrival \<Rightarrow> (string \<Rightarrow> runner_report) \<Rightarrow> handler_state \<Rightarrow> handler_state" where
  "stamped a r s = (case truthy (ar_containerRef a) of None \<Rightarrow> s | Some ref \<Rightarrow> queueReport (r ref) s)"

definition handleMessage ::
    "(string \<Rightarrow> bytes) \<Rightarrow> (bytes \<Rightarrow> string) \<Rightarrow> arrival \<Rightarrow> supervisor_message \<Rightarrow> handler_state \<Rightarrow> handler_state" where
  "handleMessage fromBase64 sha256 a message s =
     (let sandboxId = ar_sandboxId a in
      case message of
        FilePart part \<Rightarrow> applyFilePart fromBase64 sha256 (ar_now a) sandboxId part s
      | ToolCall callId body \<Rightarrow> relayToolCall sandboxId callId s
      | MemoryWrite writeId body \<Rightarrow> relayMemoryWrite sandboxId writeId s
      | SupervisorReady \<Rightarrow> (let s1 = queueReport (ReadyReport sandboxId) s in s1\<lparr>hs_ready := hs_ready s1 @ [sandboxId]\<rparr>)
      | HomeSynced generation \<Rightarrow> queueReport (HomeSyncedReport sandboxId generation) s
      | ProcessState proc \<Rightarrow> stamped a (\<lambda>ref. ProcessReport sandboxId ref proc) s
      | EventMessage conversationId turnId event \<Rightarrow> withCollector (addEvent sandboxId conversationId turnId event) s
      | ProgressMessage conversationId turnId sessionRef \<Rightarrow>
          queueReport (ProgressReport sandboxId conversationId turnId (relayableSessionRef sessionRef)) (withCollector (flush turnId) s)
      | TurnResult r \<Rightarrow> turnResult sandboxId r s
      | Unhealthy reason code \<Rightarrow> unhealthy a reason code s
      | PortFrame frame \<Rightarrow> s\<lparr>hs_ports := hs_ports s @ [(sandboxId, frame)]\<rparr>
      | PortsState ports \<Rightarrow> stamped a (\<lambda>ref. PortsReport sandboxId ref ports) s
      | DesktopState viewable \<Rightarrow> stamped a (\<lambda>ref. DesktopReport sandboxId ref viewable) s
      | Heartbeat \<Rightarrow> s)"

text \<open>What happens to the handler: messages, relays that settle, the collector's timers, the shutdown.\<close>

datatype handler_input =
    Arrives arrival supervisor_message
  | ToolSettles nat "text16 + tool_outcome"
  | MemorySettles nat "text16 + memory_outcome"
  | UploadSettles nat "text16 + upload_outcome"
  | TimerRings string
  | ShutsDown

fun handle :: "(string \<Rightarrow> bytes) \<Rightarrow> (bytes \<Rightarrow> string) \<Rightarrow> handler_state \<Rightarrow> handler_input \<Rightarrow> handler_state" where
  "handle fromBase64 sha256 s (Arrives a message) = handleMessage fromBase64 sha256 a message s"
| "handle fromBase64 sha256 s (ToolSettles i answer) = toolSettles i answer s"
| "handle fromBase64 sha256 s (MemorySettles i answer) = memorySettles i answer s"
| "handle fromBase64 sha256 s (UploadSettles i answer) = uploadSettles i answer s"
| "handle fromBase64 sha256 s (TimerRings turnId) = withCollector (timerFires turnId) s"
| "handle fromBase64 sha256 s ShutsDown = withCollector flushAll s"

definition handled :: "(string \<Rightarrow> bytes) \<Rightarrow> (bytes \<Rightarrow> string) \<Rightarrow> handler_input list \<Rightarrow> handler_state" where
  "handled fromBase64 sha256 inputs = foldl (handle fromBase64 sha256) emptyHandler inputs"

end
