(* ===== verification/SupervisorFacts.thy ===== *)
theory SupervisorFacts
  imports SupervisorMessages TurnDelivery "HOL-Library.Sublist"
begin

text \<open>
  Facts about the handler of supervisor messages: what each input does to the collector and the reports, the
  answers still owed, the counters of relays in flight, and the runs of file parts.
\<close>

section \<open>Shape of the operations\<close>

text \<open>The parts of the state that the handling of files leaves alone.\<close>

definition offFiles :: "handler_state \<Rightarrow> turn_collector \<times> runner_report list \<times> (string \<times> string) list \<times> (string \<times> string) list \<times> (string \<Rightarrow> nat option)" where
  "offFiles s = (hs_collector s, hs_reports s, hs_toolCalls s, hs_memoryCalls s, hs_memoryCount s)"

lemma offFiles_send [simp]: "offFiles (sendToSandbox sb item s) = offFiles s"
  by (simp add: offFiles_def sendToSandbox_def)

lemma offFiles_result [simp]: "offFiles (fileResult sb u r s) = offFiles s"
  by (simp add: fileResult_def)

lemma offFiles_fields [simp]:
  "offFiles (s\<lparr>hs_runs := r\<rparr>) = offFiles s" "offFiles (s\<lparr>hs_uploadCalls := c\<rparr>) = offFiles s"
  "offFiles (s\<lparr>hs_uploadCount := n\<rparr>) = offFiles s"
  by (simp_all add: offFiles_def)

lemma offFiles_abandon [simp]: "offFiles (abandonRun sb why s) = offFiles s"
  by (simp add: abandonRun_def split: option.splits)

lemma sweep_keeps:
  assumes "\<And>sb why s. P s \<Longrightarrow> P (abandonRun sb why s)" and "P s"
  shows "P (sweepStale clock s)"
proof -
  have "P s' \<Longrightarrow> P (foldl (\<lambda>s' (other, run). if clock - fr_lastPartAt run > FILE_UPLOAD_STALE_MS
      then abandonRun other ''The upload stalled and was dropped; send it again.'' s' else s') s' rs)" for s' rs
    by (induction rs arbitrary: s') (auto simp: assms(1))
  then show ?thesis using assms(2) by (simp add: sweepStale_def)
qed

lemma offFiles_sweep [simp]: "offFiles (sweepStale clock s) = offFiles s"
  by (rule sweep_keeps [of "\<lambda>s'. offFiles s' = offFiles s"]) simp_all

lemma offFiles_relay [simp]: "offFiles (relayFile sb f s) = offFiles s"
  by (simp add: relayFile_def Let_def)

lemma offFiles_finish [simp]: "offFiles (finishRun h sb p cs s) = offFiles s"
  by (simp add: finishRun_def Let_def)

lemma offFiles_take [simp]: "offFiles (takePart d h clock sb p run s) = offFiles s"
  by (simp add: takePart_def Let_def)

lemma offFiles_part [simp]: "offFiles (applyFilePart d h clock sb p s) = offFiles s"
  by (simp add: applyFilePart_def Let_def split: option.splits)

lemma offFiles_upload [simp]: "offFiles (uploadSettles i answer s) = offFiles s"
  by (auto simp: uploadSettles_def Let_def split: sum.splits prod.splits)

lemma applyFilePart_fields [simp]:
  "hs_collector (applyFilePart d h clock sb p s) = hs_collector s" "hs_reports (applyFilePart d h clock sb p s) = hs_reports s"
  "hs_toolCalls (applyFilePart d h clock sb p s) = hs_toolCalls s" "hs_memoryCalls (applyFilePart d h clock sb p s) = hs_memoryCalls s"
  "hs_memoryCount (applyFilePart d h clock sb p s) = hs_memoryCount s"
  using offFiles_part [of d h clock sb p s] unfolding offFiles_def by simp_all

lemma uploadSettles_fields [simp]:
  "hs_collector (uploadSettles i answer s) = hs_collector s" "hs_reports (uploadSettles i answer s) = hs_reports s"
  "hs_toolCalls (uploadSettles i answer s) = hs_toolCalls s" "hs_memoryCalls (uploadSettles i answer s) = hs_memoryCalls s"
  "hs_memoryCount (uploadSettles i answer s) = hs_memoryCount s"
  using offFiles_upload [of i answer s] unfolding offFiles_def by simp_all

section \<open>Collector and reports\<close>

fun callsOf :: "handler_input \<Rightarrow> collector_call list" where
  "callsOf (Arrives a message) = (case message of
       EventMessage conversationId turnId event \<Rightarrow> [Add (ar_sandboxId a) conversationId turnId event]
     | ProgressMessage conversationId turnId sessionRef \<Rightarrow> [Flush turnId]
     | TurnResult r \<Rightarrow> map (\<lambda>(turnId, outcome). Flush turnId) (case tr_followUps r of None \<Rightarrow> [] | Some fs \<Rightarrow> fs) @ [Flush (tr_turnId r)]
     | _ \<Rightarrow> [])"
| "callsOf (TimerRings turnId) = [TimerFires turnId]"
| "callsOf ShutsDown = [FlushAll]"
| "callsOf _ = []"

definition turnPosts :: "runner_report list \<Rightarrow> turn_events_post list" where
  "turnPosts rs = concat (map (\<lambda>r. case r of TurnEventsReport p \<Rightarrow> [p] | _ \<Rightarrow> []) rs)"

lemma turnPosts_simps [simp]:
  "turnPosts (rs @ qs) = turnPosts rs @ turnPosts qs" "turnPosts [] = []" "turnPosts (map TurnEventsReport ps) = ps"
  by (simp_all add: turnPosts_def o_def concat_map_singleton [of id, simplified])

lemma flush_posts: "\<exists>new. co_posted (flush t c) = co_posted c @ new"
  by (auto simp: flush_def Let_def split: option.splits)

definition postsExtend :: "turn_collector \<Rightarrow> turn_collector \<Rightarrow> bool" where
  "postsExtend c c' \<longleftrightarrow> prefix (co_posted c) (co_posted c')"

lemma postsExtend_flush: "postsExtend c c' \<Longrightarrow> postsExtend c (flush t c')"
  using flush_posts [of t c'] by (auto simp: postsExtend_def prefix_def)

lemma collectorCall_extends: "postsExtend c (collectorCall c call)"
proof (cases call)
  case (Add s v t e)
  obtain armed where a: "addEvent s v t e c =
      (if isTerminalEvent e then flush t (flushConversation v t (bufferedEvent s v t e armed c)) else bufferedEvent s v t e armed c)"
    by (rule addEvent_shape)
  have b: "postsExtend c (bufferedEvent s v t e armed c)" by (simp add: postsExtend_def bufferedEvent_def)
  then have "postsExtend c (flushConversation v t (bufferedEvent s v t e armed c))"
    using postsExtend_flush by (rule flushConversation_keeps [rotated])
  then show ?thesis using Add a b postsExtend_flush by simp
next
  case (Flush t)
  then show ?thesis by (simp add: postsExtend_flush postsExtend_def [of c c])
next
  case FlushAll
  have "postsExtend c c" by (simp add: postsExtend_def)
  then show ?thesis using FlushAll postsExtend_flush flushAll_keeps [of "postsExtend c"] by simp
next
  case (TimerFires t)
  then show ?thesis by (auto simp: timerFires_def postsExtend_flush postsExtend_def [of c c] split: option.splits)
qed

definition reportsOk :: "handler_state \<Rightarrow> bool" where
  "reportsOk s \<longleftrightarrow> turnPosts (hs_reports s) = co_posted (hs_collector s)"

lemma withCollector_ok:
  assumes "reportsOk s"
  shows "reportsOk (withCollector (\<lambda>c. collectorCall c call) s)"
  using collectorCall_extends [of "hs_collector s" call] assms
  by (auto simp: reportsOk_def withCollector_def Let_def postsExtend_def prefix_def)

lemma withCollector_oks [simp]:
  "reportsOk s \<Longrightarrow> reportsOk (withCollector (flush t) s)"
  "reportsOk s \<Longrightarrow> reportsOk (withCollector (addEvent sb v t e) s)"
  "reportsOk s \<Longrightarrow> reportsOk (withCollector (timerFires t) s)"
  "reportsOk s \<Longrightarrow> reportsOk (withCollector flushAll s)"
  using withCollector_ok [of s "Flush t"] withCollector_ok [of s "Add sb v t e"]
    withCollector_ok [of s "TimerFires t"] withCollector_ok [of s FlushAll] by simp_all

lemma withCollector_fields [simp]:
  "hs_collector (withCollector f s) = f (hs_collector s)" "hs_sent (withCollector f s) = hs_sent s"
  "hs_runs (withCollector f s) = hs_runs s" "hs_toolCalls (withCollector f s) = hs_toolCalls s"
  "hs_memoryCalls (withCollector f s) = hs_memoryCalls s" "hs_uploadCalls (withCollector f s) = hs_uploadCalls s"
  "hs_memoryCount (withCollector f s) = hs_memoryCount s" "hs_uploadCount (withCollector f s) = hs_uploadCount s"
  by (simp_all add: withCollector_def Let_def)

lemma queueReport_fields [simp]:
  "hs_collector (queueReport r s) = hs_collector s" "hs_sent (queueReport r s) = hs_sent s"
  "hs_runs (queueReport r s) = hs_runs s" "hs_toolCalls (queueReport r s) = hs_toolCalls s"
  "hs_memoryCalls (queueReport r s) = hs_memoryCalls s" "hs_uploadCalls (queueReport r s) = hs_uploadCalls s"
  "hs_memoryCount (queueReport r s) = hs_memoryCount s" "hs_uploadCount (queueReport r s) = hs_uploadCount s"
  "hs_reports (queueReport r s) = hs_reports s @ [r]"
  by (simp_all add: queueReport_def)

text \<open>The flushes before the report of a turn's end.\<close>

definition flushEach :: "string list \<Rightarrow> handler_state \<Rightarrow> handler_state" where
  "flushEach ts s = foldl (\<lambda>s' t. withCollector (flush t) s') s ts"

definition followUpTurns :: "turn_result \<Rightarrow> string list" where
  "followUpTurns r = map fst (case tr_followUps r of None \<Rightarrow> [] | Some fs \<Rightarrow> fs)"

lemma turnResult_shape:
  "turnResult sb r s = queueReport (finishedReport sb r) (flushEach (followUpTurns r @ [tr_turnId r]) s)"
  by (simp add: turnResult_def Let_def flushEach_def followUpTurns_def foldl_map case_prod_unfold)

lemma flushEach_fields [simp]:
  "hs_sent (flushEach ts s) = hs_sent s" "hs_runs (flushEach ts s) = hs_runs s" "hs_toolCalls (flushEach ts s) = hs_toolCalls s"
  "hs_memoryCalls (flushEach ts s) = hs_memoryCalls s" "hs_uploadCalls (flushEach ts s) = hs_uploadCalls s"
  "hs_memoryCount (flushEach ts s) = hs_memoryCount s" "hs_uploadCount (flushEach ts s) = hs_uploadCount s"
  "hs_collector (flushEach ts s) = foldl (\<lambda>c t. flush t c) (hs_collector s) ts"
  unfolding flushEach_def by (induction ts arbitrary: s) simp_all

lemma flushEach_ok: "reportsOk s \<Longrightarrow> reportsOk (flushEach ts s)"
  unfolding flushEach_def by (induction ts arbitrary: s) simp_all

lemma reportsOk_offFiles: "offFiles s' = offFiles s \<Longrightarrow> reportsOk s' = reportsOk s"
  by (simp add: offFiles_def reportsOk_def)

lemma queueReport_ok: "reportsOk s \<Longrightarrow> (\<And>p. r \<noteq> TurnEventsReport p) \<Longrightarrow> reportsOk (queueReport r s)"
  by (simp add: reportsOk_def turnPosts_def split: runner_report.split)

text \<open>Everything that is not a file, a flush or a report of a turn's end.\<close>

lemmas handler_defs = handleMessage_def stamped_def unhealthy_def relayToolCall_def relayMemoryWrite_def toolSettles_def
  memorySettles_def sendToSandbox_def Let_def

lemma handle_collector: "hs_collector (handle d h s input) = foldl collectorCall (hs_collector s) (callsOf input)"
proof (cases input)
  case (Arrives a m)
  then show ?thesis
    by (cases m) (simp_all add: handler_defs turnResult_shape followUpTurns_def foldl_map case_prod_unfold split: option.splits)
qed (simp_all add: handler_defs split: option.splits sum.splits prod.splits)

lemma handle_reportsOk:
  assumes "reportsOk s"
  shows "reportsOk (handle d h s input)"
proof (cases input)
  case (Arrives a m)
  have keeps: "hs_collector s' = hs_collector s \<Longrightarrow> hs_reports s' = hs_reports s \<Longrightarrow> reportsOk s'" for s'
    using assms by (simp add: reportsOk_def)
  have noted: "reportsOk (queueReport r s)" "reportsOk (queueReport r s\<lparr>hs_ready := l\<rparr>)"
    if "\<And>p. r \<noteq> TurnEventsReport p" for r l
    using queueReport_ok [OF assms that] by (simp_all add: reportsOk_def)
  show ?thesis
  proof (cases m)
    case (TurnResult r)
    then show ?thesis
      using Arrives assms by (simp add: handleMessage_def turnResult_shape finishedReport_def flushEach_ok queueReport_ok)
  qed (simp_all add: Arrives handler_defs keeps noted assms queueReport_ok split: option.splits)
next
  case (UploadSettles i answer)
  then show ?thesis using assms by (simp add: reportsOk_def)
next
  case (ToolSettles i answer)
  then show ?thesis using assms by (simp add: toolSettles_def sendToSandbox_def reportsOk_def Let_def split: prod.splits)
next
  case (MemorySettles i answer)
  then show ?thesis using assms by (simp add: memorySettles_def sendToSandbox_def reportsOk_def Let_def split: prod.splits)
qed (simp_all add: assms)

lemma handled_snoc: "handled d h (inputs @ [input]) = handle d h (handled d h inputs) input"
  by (simp add: handled_def)

lemma handled_collector: "hs_collector (handled d h inputs) = collected (concat (map callsOf inputs))"
proof (induction inputs rule: rev_induct)
  case (snoc input inputs)
  then show ?case by (simp add: handled_snoc handle_collector collected_def)
qed (simp add: handled_def emptyHandler_def collected_def)

lemma handled_reportsOk: "reportsOk (handled d h inputs)"
proof (induction inputs rule: rev_induct)
  case (snoc input inputs)
  then show ?case by (simp add: handled_snoc handle_reportsOk)
qed (simp add: handled_def emptyHandler_def reportsOk_def emptyCollector_def)

end
