(* ===== verification/SupervisorAnswers.thy ===== *)
theory SupervisorAnswers
  imports SupervisorFacts
begin

text \<open>
  What the handler owes its sandboxes: an answer for every tool call, memory write and file; and what it holds
  for them: counted relays, and at most one run of file parts each.
\<close>

section \<open>Answers owed\<close>

definition answers :: "(work_item \<Rightarrow> bool) \<Rightarrow> handler_state \<Rightarrow> string \<Rightarrow> nat" where
  "answers P s sb = length (filter (\<lambda>(b, i). b = sb \<and> P i) (hs_sent s))"

fun toolAnswer_to :: "string \<Rightarrow> work_item \<Rightarrow> bool" where
  "toolAnswer_to c (ToolResult c' r) = (c' = c)"
| "toolAnswer_to c _ = False"

fun memoryAnswer_to :: "string \<Rightarrow> work_item \<Rightarrow> bool" where
  "memoryAnswer_to w (MemoryWriteResult w' r) = (w' = w)"
| "memoryAnswer_to w _ = False"

fun fileAnswer_to :: "string \<Rightarrow> work_item \<Rightarrow> bool" where
  "fileAnswer_to u (FileResult u' r) = (u' = u)"
| "fileAnswer_to u _ = False"

definition inProgress :: "handler_state \<Rightarrow> string \<Rightarrow> string \<Rightarrow> bool" where
  "inProgress s sb u = (case map_of (hs_runs s) sb of None \<Rightarrow> False | Some run \<Rightarrow> fr_uploadId run = u)"

definition awaitedFiles :: "handler_state \<Rightarrow> string \<Rightarrow> string \<Rightarrow> nat" where
  "awaitedFiles s sb u = length (filter (\<lambda>(b, f). b = sb \<and> of_uploadId f = u) (hs_uploadCalls s))"

definition owedFile :: "handler_state \<Rightarrow> string \<Rightarrow> string \<Rightarrow> nat" where
  "owedFile s sb u = answers (fileAnswer_to u) s sb + awaitedFiles s sb u + (if inProgress s sb u then 1 else 0)"

lemma filter_dropAt:
  assumes "i < length xs"
  shows "length (filter P (dropAt i xs)) + (if P (xs ! i) then 1 else 0) = length (filter P xs)"
  by (subst (3) id_take_nth_drop [OF assms]) (simp add: dropAt_def)

lemma count_dropAt:
  assumes "i < length xs"
  shows "count_list (dropAt i xs) x + (if xs ! i = x then 1 else 0) = count_list xs x"
  by (subst (3) id_take_nth_drop [OF assms]) (simp add: dropAt_def)

lemma answers_send [simp]:
  "answers P (sendToSandbox b i s) sb = answers P s sb + (if b = sb \<and> P i then 1 else 0)"
  by (simp add: answers_def sendToSandbox_def)

lemma answers_fields [simp]:
  "answers P (s\<lparr>hs_runs := r\<rparr>) sb = answers P s sb" "answers P (s\<lparr>hs_uploadCalls := c\<rparr>) sb = answers P s sb"
  "answers P (s\<lparr>hs_uploadCount := n\<rparr>) sb = answers P s sb" "answers P (s\<lparr>hs_toolCalls := tc\<rparr>) sb = answers P s sb"
  "answers P (s\<lparr>hs_memoryCalls := mc\<rparr>) sb = answers P s sb" "answers P (s\<lparr>hs_memoryCount := n'\<rparr>) sb = answers P s sb"
  "answers P (s\<lparr>hs_ports := p\<rparr>) sb = answers P s sb" "answers P (s\<lparr>hs_ready := y\<rparr>) sb = answers P s sb"
  "answers P (queueReport q s) sb = answers P s sb" "answers P (withCollector f s) sb = answers P s sb"
  "answers P (flushEach ts s) sb = answers P s sb"
  by (simp_all add: answers_def)

lemma send_fields [simp]:
  "hs_runs (sendToSandbox b i s) = hs_runs s" "hs_uploadCalls (sendToSandbox b i s) = hs_uploadCalls s"
  "hs_uploadCount (sendToSandbox b i s) = hs_uploadCount s" "hs_toolCalls (sendToSandbox b i s) = hs_toolCalls s"
  "hs_memoryCalls (sendToSandbox b i s) = hs_memoryCalls s" "hs_memoryCount (sendToSandbox b i s) = hs_memoryCount s"
  "hs_reports (sendToSandbox b i s) = hs_reports s"
  by (simp_all add: sendToSandbox_def)

text \<open>Only files change what is owed for files, and nothing else is owed by them.\<close>

definition onlyFiles :: "handler_state \<Rightarrow> handler_state \<Rightarrow> bool" where
  "onlyFiles s s' \<longleftrightarrow> (\<forall>P sb. (\<forall>u r. \<not> P (FileResult u r)) \<longrightarrow> answers P s' sb = answers P s sb)"

lemma onlyFiles_result: "onlyFiles s s' \<Longrightarrow> onlyFiles s (fileResult sb u r s')"
  by (simp add: onlyFiles_def fileResult_def)

lemma onlyFiles_abandon: "onlyFiles s s' \<Longrightarrow> onlyFiles s (abandonRun sb why s')"
  by (auto simp: abandonRun_def onlyFiles_def fileResult_def split: option.splits)

lemma onlyFiles_fields:
  "onlyFiles s (s'\<lparr>hs_runs := r\<rparr>) = onlyFiles s s'" "onlyFiles s (s'\<lparr>hs_uploadCalls := c\<rparr>) = onlyFiles s s'"
  "onlyFiles s (s'\<lparr>hs_uploadCount := n\<rparr>) = onlyFiles s s'"
  by (simp_all add: onlyFiles_def)

lemma onlyFiles_relay: "onlyFiles s s' \<Longrightarrow> onlyFiles s (relayFile sb f s')"
  by (simp add: relayFile_def Let_def onlyFiles_result onlyFiles_fields)

lemma onlyFiles_finish: "onlyFiles s s' \<Longrightarrow> onlyFiles s (finishRun h sb p cs s')"
  by (simp add: finishRun_def Let_def onlyFiles_result onlyFiles_relay onlyFiles_fields)

lemma onlyFiles_take: "onlyFiles s s' \<Longrightarrow> onlyFiles s (takePart d h clock sb p run s')"
  by (simp add: takePart_def Let_def onlyFiles_abandon onlyFiles_finish onlyFiles_fields)

lemma onlyFiles_refl: "onlyFiles s s"
  by (simp add: onlyFiles_def)

lemma onlyFiles_part: "onlyFiles s (applyFilePart d h clock sb p s)"
proof -
  have "onlyFiles s (sweepStale clock s)" by (rule sweep_keeps [of "onlyFiles s"]) (simp_all add: onlyFiles_abandon onlyFiles_refl)
  then show ?thesis
    by (simp add: applyFilePart_def Let_def onlyFiles_abandon onlyFiles_result onlyFiles_take onlyFiles_fields split: option.splits)
qed

lemma onlyFiles_upload: "onlyFiles s (uploadSettles i answer s)"
  by (simp add: uploadSettles_def Let_def onlyFiles_result onlyFiles_fields onlyFiles_refl split: prod.splits sum.splits)

section \<open>Tool calls and memory writes\<close>

fun asksTool :: "string \<Rightarrow> string \<Rightarrow> handler_input \<Rightarrow> bool" where
  "asksTool sb c (Arrives a (ToolCall c' body)) = (ar_sandboxId a = sb \<and> c' = c)"
| "asksTool sb c _ = False"

fun asksMemory :: "string \<Rightarrow> string \<Rightarrow> handler_input \<Rightarrow> bool" where
  "asksMemory sb w (Arrives a (MemoryWrite w' body)) = (ar_sandboxId a = sb \<and> w' = w)"
| "asksMemory sb w _ = False"

definition owedTool :: "handler_state \<Rightarrow> string \<Rightarrow> string \<Rightarrow> nat" where
  "owedTool s sb c = answers (toolAnswer_to c) s sb + count_list (hs_toolCalls s) (sb, c)"

definition owedMemory :: "handler_state \<Rightarrow> string \<Rightarrow> string \<Rightarrow> nat" where
  "owedMemory s sb w = answers (memoryAnswer_to w) s sb + count_list (hs_memoryCalls s) (sb, w)"

lemma answers_part [simp]:
  "answers (toolAnswer_to c) (applyFilePart d h clock sb p s) b = answers (toolAnswer_to c) s b"
  "answers (memoryAnswer_to w) (applyFilePart d h clock sb p s) b = answers (memoryAnswer_to w) s b"
  "answers (toolAnswer_to c) (uploadSettles i answer s) b = answers (toolAnswer_to c) s b"
  "answers (memoryAnswer_to w) (uploadSettles i answer s) b = answers (memoryAnswer_to w) s b"
  using onlyFiles_part [of s d h clock sb p] onlyFiles_upload [of s i answer] by (simp_all add: onlyFiles_def)

lemma handle_owedTool: "owedTool (handle d h s input) sb c = owedTool s sb c + (if asksTool sb c input then 1 else 0)"
proof (cases input)
  case (Arrives a m)
  then show ?thesis
    by (cases m) (auto simp: owedTool_def handleMessage_def stamped_def unhealthy_def relayToolCall_def relayMemoryWrite_def
        turnResult_shape Let_def split: option.splits)
next
  case (ToolSettles i answer)
  then show ?thesis
    using count_dropAt [of i "hs_toolCalls s" "(sb, c)"]
    by (auto simp: owedTool_def toolSettles_def Let_def split: prod.splits)
qed (simp_all add: owedTool_def memorySettles_def Let_def split: prod.splits)

lemma handle_owedMemory: "owedMemory (handle d h s input) sb w = owedMemory s sb w + (if asksMemory sb w input then 1 else 0)"
proof (cases input)
  case (Arrives a m)
  then show ?thesis
    by (cases m) (auto simp: owedMemory_def handleMessage_def stamped_def unhealthy_def relayToolCall_def relayMemoryWrite_def
        turnResult_shape Let_def split: option.splits)
next
  case (MemorySettles i answer)
  then show ?thesis
    using count_dropAt [of i "hs_memoryCalls s" "(sb, w)"]
    by (auto simp: owedMemory_def memorySettles_def Let_def split: prod.splits)
qed (simp_all add: owedMemory_def toolSettles_def Let_def split: prod.splits)

section \<open>Files\<close>

lemma owedFile_result [simp]: "owedFile (fileResult b v r s) sb u = owedFile s sb u + (if b = sb \<and> v = u then 1 else 0)"
  by (simp add: owedFile_def fileResult_def awaitedFiles_def inProgress_def)

lemma fileResult_fields [simp]:
  "hs_runs (fileResult b v r s) = hs_runs s" "hs_uploadCalls (fileResult b v r s) = hs_uploadCalls s"
  "hs_uploadCount (fileResult b v r s) = hs_uploadCount s"
  by (simp_all add: fileResult_def)

lemma owedFile_runs: "owedFile (s\<lparr>hs_runs := r\<rparr>) sb u + (if inProgress s sb u then 1 else 0) =
    owedFile s sb u + (if inProgress (s\<lparr>hs_runs := r\<rparr>) sb u then 1 else 0)"
  by (simp add: owedFile_def awaitedFiles_def)

lemma abandonRun_runs: "map_of (hs_runs (abandonRun sb why s)) = (map_of (hs_runs s))(sb := None)"
  by (auto simp: abandonRun_def map_of_without fun_eq_iff split: option.splits)

lemma owedFile_abandon [simp]: "owedFile (abandonRun b why s) sb u = owedFile s sb u"
proof (cases "map_of (hs_runs s) b")
  case (Some run)
  then show ?thesis
    using owedFile_runs [of "filter (\<lambda>(k, _). k \<noteq> b) (hs_runs s)" s sb u]
    by (auto simp: abandonRun_def inProgress_def map_of_without split: if_splits)
qed (simp add: abandonRun_def)

lemma owedFile_sweep [simp]: "owedFile (sweepStale clock s) sb u = owedFile s sb u"
  by (rule sweep_keeps [of "\<lambda>s'. owedFile s' sb u = owedFile s sb u"]) simp_all

lemma owedFile_relay [simp]:
  "owedFile (relayFile b f s) sb u = owedFile s sb u + (if b = sb \<and> of_uploadId f = u then 1 else 0)"
  by (auto simp: relayFile_def Let_def) (simp_all add: owedFile_def awaitedFiles_def inProgress_def)

lemma owedFile_finish:
  assumes "inProgress s b (fp_uploadId p)"
  shows "owedFile (finishRun h b p cs s) sb u = owedFile s sb u"
  using owedFile_runs [of "filter (\<lambda>(k, _). k \<noteq> b) (hs_runs s)" s sb u] assms
  by (auto simp: finishRun_def Let_def completeFile_def inProgress_def map_of_without split: if_splits option.splits)

lemma owedFile_take:
  assumes "map_of (hs_runs s) b = Some run" and "continues run p"
  shows "owedFile (takePart d h clock b p run s) sb u = owedFile s sb u"
proof -
  define s1 where "s1 = s\<lparr>hs_runs := mapSet b (run\<lparr>fr_total := fr_total run + length (d (fp_dataBase64 p)),
    fr_chunks := fr_chunks run @ [d (fp_dataBase64 p)], fr_nextPart := Suc (fr_nextPart run), fr_lastPartAt := clock\<rparr>) (hs_runs s)\<rparr>"
  have same: "inProgress s1 sb u = inProgress s sb u" using assms(1) by (simp add: s1_def inProgress_def map_of_mapSet)
  have "owedFile s1 sb u = owedFile s sb u"
    using owedFile_runs [of "hs_runs s1" s sb u] same by (simp add: s1_def)
  moreover have "inProgress s1 b (fp_uploadId p)"
    using assms by (simp add: s1_def inProgress_def map_of_mapSet continues_def)
  ultimately show ?thesis by (simp add: takePart_def Let_def s1_def [symmetric] owedFile_finish)
qed

definition opensUpload :: "handler_state \<Rightarrow> handler_input \<Rightarrow> string \<Rightarrow> string \<Rightarrow> bool" where
  "opensUpload s input sb u = (case input of
       Arrives a m \<Rightarrow> (case m of
           FilePart p \<Rightarrow> ar_sandboxId a = sb \<and> fp_uploadId p = u \<and> (fp_part p = 1 \<or> \<not> inProgress (sweepStale (ar_now a) s) sb u)
         | _ \<Rightarrow> False)
     | _ \<Rightarrow> False)"

lemma owedFile_first:
  assumes "fp_part p = 1"
  shows "owedFile (applyFilePart d h clock b p s) sb u = owedFile s sb u + (if b = sb \<and> fp_uploadId p = u then 1 else 0)"
proof -
  define s1 where "s1 = abandonRun b ''A new upload started before this one finished; send it again.'' (sweepStale clock s)"
  define s2 where "s2 = s1\<lparr>hs_runs := mapSet b (newRun clock p) (hs_runs s1)\<rparr>"
  have none: "map_of (hs_runs s1) b = None" by (simp add: s1_def abandonRun_runs)
  have run: "map_of (hs_runs s2) b = Some (newRun clock p)" by (simp add: s2_def map_of_mapSet)
  have "owedFile s2 sb u = owedFile s1 sb u + (if b = sb \<and> fp_uploadId p = u then 1 else 0)"
    using owedFile_runs [of "mapSet b (newRun clock p) (hs_runs s1)" s1 sb u] none
    by (auto simp: s2_def [symmetric]) (auto simp: s2_def inProgress_def map_of_mapSet newRun_def split: if_splits)
  moreover have c: "continues (newRun clock p) p" by (simp add: continues_def newRun_def assms)
  moreover have "applyFilePart d h clock b p s =
      (if fp_sizeBytes p > MAX_OUTBOUND_ATTACHMENT_BYTES
       then fileResult b (fp_uploadId p) (refusedFile (lit ''Files are capped at 25MB.'')) s1
       else takePart d h clock b p (newRun clock p) s2)"
    using assms c by (simp add: applyFilePart_def Let_def s1_def s2_def map_of_mapSet)
  moreover have "owedFile s1 sb u = owedFile s sb u" by (simp add: s1_def)
  ultimately show ?thesis using owedFile_take [OF run c] by auto
qed

lemma owedFile_later:
  assumes "fp_part p \<noteq> 1"
  shows "owedFile (applyFilePart d h clock b p s) sb u = owedFile s sb u +
    (if b = sb \<and> fp_uploadId p = u \<and> \<not> inProgress (sweepStale clock s) sb u then 1 else 0)"
proof (cases "map_of (hs_runs (sweepStale clock s)) b")
  case None
  then have "applyFilePart d h clock b p s =
      fileResult b (fp_uploadId p) (refusedFile (lit ''The upload arrived out of order; send it again.'')) (sweepStale clock s)"
    using assms by (simp add: applyFilePart_def Let_def)
  then show ?thesis using None by (auto simp: inProgress_def)
next
  case (Some run)
  have "owedFile (applyFilePart d h clock b p s) sb u =
      owedFile s sb u + (if b = sb \<and> fp_uploadId p = u \<and> fr_uploadId run \<noteq> fp_uploadId p then 1 else 0)"
  proof (cases "continues run p")
    case True
    then show ?thesis
      using owedFile_take [OF Some True] assms by (simp add: applyFilePart_def Some) (simp add: continues_def)
  next
    case False
    then show ?thesis using assms by (simp add: applyFilePart_def Some Let_def)
  qed
  then show ?thesis using Some by (auto simp: inProgress_def)
qed

lemma owedFile_cong:
  "hs_runs s' = hs_runs s \<Longrightarrow> hs_uploadCalls s' = hs_uploadCalls s \<Longrightarrow>
   answers (fileAnswer_to u) s' sb = answers (fileAnswer_to u) s sb \<Longrightarrow> owedFile s' sb u = owedFile s sb u"
  by (simp add: owedFile_def awaitedFiles_def inProgress_def)

lemma handle_owedFile: "owedFile (handle d h s input) sb u = owedFile s sb u + (if opensUpload s input sb u then 1 else 0)"
proof (cases input)
  case (Arrives a m)
  show ?thesis
  proof (cases m)
    case (FilePart p)
    then show ?thesis
      using Arrives by (cases "fp_part p = 1") (auto simp: handleMessage_def opensUpload_def owedFile_first owedFile_later)
  qed (auto simp: Arrives opensUpload_def handleMessage_def stamped_def unhealthy_def relayToolCall_def relayMemoryWrite_def
      turnResult_shape Let_def intro!: owedFile_cong split: option.splits)
next
  case (UploadSettles i answer)
  have "owedFile (uploadSettles i answer s) sb u = owedFile s sb u"
    using filter_dropAt [of i "hs_uploadCalls s" "\<lambda>(b, f). b = sb \<and> of_uploadId f = u"]
    by (auto simp: uploadSettles_def Let_def split: prod.splits if_splits)
      (auto simp: owedFile_def awaitedFiles_def inProgress_def)
  then show ?thesis using UploadSettles by (simp add: opensUpload_def)
qed (auto simp: opensUpload_def toolSettles_def memorySettles_def Let_def intro!: owedFile_cong split: prod.splits)

end
