(* ===== verification/SupervisorRuns.thy ===== *)
theory SupervisorRuns
  imports SupervisorAnswers
begin

text \<open>
  What the handler holds for its sandboxes: the relays in flight are counted and bounded, and a run of file
  parts, or a file on its way, consists of the last parts its sandbox sent, in order.
\<close>

section \<open>Relays in flight\<close>

definition countedAs :: "nat \<Rightarrow> (string \<Rightarrow> nat option) \<Rightarrow> (string \<times> 'a) list \<Rightarrow> bool" where
  "countedAs m counts calls \<longleftrightarrow>
     (\<forall>sb. let n = length (filter (\<lambda>(b, _). b = sb) calls) in
        counts sb = (if n = 0 then None else Some n) \<and> n \<le> m)"

lemma countedAs_inflight: "countedAs m counts calls \<Longrightarrow> inflight counts sb = length (filter (\<lambda>(b, _). b = sb) calls)"
  by (auto simp: countedAs_def inflight_def Let_def)

lemma countedAs_snoc:
  assumes "countedAs m counts calls" and "inflight counts sb < m"
  shows "countedAs m (counts(sb \<mapsto> Suc (inflight counts sb))) (calls @ [(sb, x)])"
  using assms countedAs_inflight [OF assms(1), of sb] by (auto simp: countedAs_def Let_def)

lemma countedAs_release:
  assumes "countedAs m counts calls" and "i < length calls" and "calls ! i = (sb, x)"
  shows "countedAs m (released counts sb) (dropAt i calls)"
proof -
  have "let n = length (filter (\<lambda>(b, _). b = c) (dropAt i calls)) in
      released counts sb c = (if n = 0 then None else Some n) \<and> n \<le> m" for c
  proof -
    define old where "old = length (filter (\<lambda>(b, _). b = c) calls)"
    define new where "new = length (filter (\<lambda>(b, _). b = c) (dropAt i calls))"
    have n: "new + (if sb = c then 1 else 0) = old"
      using filter_dropAt [OF assms(2), of "\<lambda>(b, _). b = c"] assms(3) by (simp add: old_def new_def)
    have "counts c = (if old = 0 then None else Some old)" "old \<le> m"
      using assms(1) by (simp_all add: countedAs_def Let_def old_def)
    then have "released counts sb c = (if new = 0 then None else Some new) \<and> new \<le> m"
      using n by (cases "sb = c") (auto simp: released_def Let_def)
    then show ?thesis by (simp only: new_def Let_def)
  qed
  then show ?thesis by (simp add: countedAs_def)
qed

definition countsOk :: "handler_state \<Rightarrow> bool" where
  "countsOk s \<longleftrightarrow>
     countedAs MAX_INFLIGHT_MEMORY_WRITES_PER_SANDBOX (hs_memoryCount s) (hs_memoryCalls s) \<and>
     countedAs MAX_INFLIGHT_FILE_UPLOADS_PER_SANDBOX (hs_uploadCount s) (hs_uploadCalls s)"

lemma countsOk_send [simp]: "countsOk (sendToSandbox sb i s) = countsOk s"
  by (simp add: countsOk_def)

lemma countsOk_result [simp]: "countsOk (fileResult sb u r s) = countsOk s"
  by (simp add: fileResult_def)

lemma countsOk_runs [simp]: "countsOk (s\<lparr>hs_runs := r\<rparr>) = countsOk s"
  by (simp add: countsOk_def)

lemma countsOk_abandon [simp]: "countsOk (abandonRun sb why s) = countsOk s"
  by (simp add: abandonRun_def split: option.splits)

lemma countsOk_sweep [simp]: "countsOk (sweepStale clock s) = countsOk s"
  by (rule sweep_keeps [of "\<lambda>s'. countsOk s' = countsOk s"]) simp_all

lemma countsOk_relay [simp]: "countsOk s \<Longrightarrow> countsOk (relayFile sb f s)"
  by (auto simp: relayFile_def Let_def not_le) (simp add: countsOk_def countedAs_snoc)

lemma countsOk_take: "countsOk s \<Longrightarrow> countsOk (takePart d h clock sb p run s)"
  by (simp add: takePart_def finishRun_def Let_def)

lemma countsOk_part: "countsOk s \<Longrightarrow> countsOk (applyFilePart d h clock sb p s)"
  by (simp add: applyFilePart_def Let_def countsOk_take split: option.splits)

lemma countsOk_cong:
  "hs_memoryCount s' = hs_memoryCount s \<Longrightarrow> hs_memoryCalls s' = hs_memoryCalls s \<Longrightarrow>
   hs_uploadCount s' = hs_uploadCount s \<Longrightarrow> hs_uploadCalls s' = hs_uploadCalls s \<Longrightarrow> countsOk s \<Longrightarrow> countsOk s'"
  by (simp add: countsOk_def)

lemma handle_countsOk:
  assumes "countsOk s"
  shows "countsOk (handle d h s input)"
proof (cases input)
  case (Arrives a m)
  show ?thesis
  proof (cases m)
    case (FilePart p)
    then show ?thesis using Arrives assms by (simp add: handleMessage_def countsOk_part)
  next
    case (MemoryWrite w body)
    then show ?thesis
      using Arrives assms by (auto simp: handleMessage_def relayMemoryWrite_def Let_def not_le) (simp add: countsOk_def countedAs_snoc)
  qed (auto simp: Arrives handleMessage_def stamped_def unhealthy_def relayToolCall_def turnResult_shape Let_def
      intro!: countsOk_cong [OF _ _ _ _ assms] split: option.splits)
next
  case (MemorySettles i answer)
  then show ?thesis
    using assms by (auto simp: memorySettles_def Let_def split: prod.splits) (simp add: countsOk_def countedAs_release)
next
  case (UploadSettles i answer)
  then show ?thesis
    using assms by (auto simp: uploadSettles_def Let_def split: prod.splits) (simp add: countsOk_def countedAs_release)
qed (auto simp: toolSettles_def Let_def intro!: countsOk_cong [OF _ _ _ _ assms] split: prod.splits)

lemma handled_countsOk: "countsOk (handled d h inputs)"
proof (induction inputs rule: rev_induct)
  case (snoc input inputs)
  then show ?case by (simp add: handled_snoc handle_countsOk)
qed (simp add: handled_def emptyHandler_def countsOk_def countedAs_def)

section \<open>Runs\<close>

definition partsFrom :: "string \<Rightarrow> handler_input list \<Rightarrow> file_part list" where
  "partsFrom sb inputs = concat (map (\<lambda>i. case i of
       Arrives a m \<Rightarrow> (case m of FilePart p \<Rightarrow> if ar_sandboxId a = sb then [p] else [] | _ \<Rightarrow> [])
     | _ \<Rightarrow> []) inputs)"

definition runOf :: "(string \<Rightarrow> bytes) \<Rightarrow> file_part list \<Rightarrow> file_run \<Rightarrow> bool" where
  "runOf d ps run \<longleftrightarrow>
     map fp_part ps = [1..<fr_nextPart run] \<and> 1 \<le> fr_nextPart run \<and> fr_nextPart run \<le> max 1 (fr_of run) \<and>
     (\<forall>p\<in>set ps. fp_uploadId p = fr_uploadId run \<and> fp_of p = fr_of run) \<and>
     fr_chunks run = map (\<lambda>p. d (fp_dataBase64 p)) ps \<and> fr_total run = length (concat (fr_chunks run)) \<and>
     fr_total run \<le> fr_sizeBytes run \<and> fr_sizeBytes run \<le> MAX_OUTBOUND_ATTACHMENT_BYTES"

definition fileOf :: "(string \<Rightarrow> bytes) \<Rightarrow> (bytes \<Rightarrow> string) \<Rightarrow> file_part list \<Rightarrow> outbound_file \<Rightarrow> bool" where
  "fileOf d h ps f \<longleftrightarrow>
     ps \<noteq> [] \<and> map fp_part ps = [1..<Suc (length ps)] \<and> length ps = max 1 (fp_of (last ps)) \<and>
     (\<forall>p\<in>set ps. fp_uploadId p = of_uploadId f \<and> fp_of p = fp_of (last ps)) \<and>
     f = completeFile (last ps) (concat (map (\<lambda>p. d (fp_dataBase64 p)) ps)) \<and>
     h (of_bytes f) = of_sha256 f \<and> length (of_bytes f) = fp_sizeBytes (last ps) \<and>
     length (of_bytes f) \<le> MAX_OUTBOUND_ATTACHMENT_BYTES"

definition holds :: "(string \<Rightarrow> file_run \<Rightarrow> bool) \<Rightarrow> (string \<Rightarrow> outbound_file \<Rightarrow> bool) \<Rightarrow> handler_state \<Rightarrow> bool" where
  "holds P Q s \<longleftrightarrow>
     (\<forall>sb run. map_of (hs_runs s) sb = Some run \<longrightarrow> P sb run) \<and> (\<forall>(sb, f)\<in>set (hs_uploadCalls s). Q sb f) \<and>
     distinct (map fst (hs_runs s))"

lemma distinct_without: "distinct (map fst m) \<Longrightarrow> distinct (map fst (filter Q m))"
  by (rule distinct_map_filter)

lemma holds_result [simp]: "holds P Q (fileResult sb u r s) = holds P Q s"
  by (simp add: holds_def)

lemma holds_without:
  "holds P Q s \<Longrightarrow> holds P Q (s\<lparr>hs_runs := filter (\<lambda>(k, _). k \<noteq> sb) (hs_runs s)\<rparr>)"
  by (auto simp: holds_def map_of_without distinct_without split: if_splits)

lemma holds_abandon: "holds P Q s \<Longrightarrow> holds P Q (abandonRun sb why s)"
  by (auto simp: abandonRun_def holds_without split: option.splits)

lemma holds_sweep: "holds P Q s \<Longrightarrow> holds P Q (sweepStale clock s)"
  by (rule sweep_keeps) (simp_all add: holds_abandon)

lemma holds_set: "holds P Q s \<Longrightarrow> P sb run \<Longrightarrow> holds P Q (s\<lparr>hs_runs := mapSet sb run (hs_runs s)\<rparr>)"
  by (auto simp: holds_def map_of_mapSet distinct_mapSet split: if_splits)

lemma holds_relay: "holds P Q s \<Longrightarrow> Q sb f \<Longrightarrow> holds P Q (relayFile sb f s)"
  by (auto simp: relayFile_def Let_def) (auto simp: holds_def)

lemma holds_mono: "holds P Q s \<Longrightarrow> (\<And>sb run. P sb run \<Longrightarrow> P' sb run) \<Longrightarrow> (\<And>sb f. Q sb f \<Longrightarrow> Q' sb f) \<Longrightarrow> holds P' Q' s"
  by (fastforce simp: holds_def)

abbreviation without :: "string \<Rightarrow> handler_state \<Rightarrow> handler_state" where
  "without sb s \<equiv> s\<lparr>hs_runs := filter (\<lambda>(k, _). k \<noteq> sb) (hs_runs s)\<rparr>"

lemma holds_put:
  assumes "holds P Q (without sb s)" and "distinct (map fst (hs_runs s))" and "P sb run"
  shows "holds P Q (s\<lparr>hs_runs := mapSet sb run (hs_runs s)\<rparr>)"
  using assms by (auto simp: holds_def map_of_mapSet map_of_without distinct_mapSet)

text \<open>A part that is taken: its run goes on, or ends in a file that is complete.\<close>

lemma holds_take:
  assumes "holds P Q (without sb s)" and "runOf d ps run" and "continues run p" and "map_of (hs_runs s) sb = Some run"
    and dist: "distinct (map fst (hs_runs s))"
    and P: "\<And>run'. runOf d (ps @ [p]) run' \<Longrightarrow> P sb run'" and Q: "\<And>f. fileOf d h (ps @ [p]) f \<Longrightarrow> Q sb f"
  shows "holds P Q (takePart d h clock sb p run s)"
proof (cases "fr_total run + length (d (fp_dataBase64 p)) > fr_sizeBytes run")
  case True
  then show ?thesis using assms(1,4) by (simp add: takePart_def abandonRun_def)
next
  case False
  define run1 where "run1 = run\<lparr>fr_total := fr_total run + length (d (fp_dataBase64 p)),
    fr_chunks := fr_chunks run @ [d (fp_dataBase64 p)], fr_nextPart := Suc (fr_nextPart run), fr_lastPartAt := clock\<rparr>"
  define s1 where "s1 = s\<lparr>hs_runs := mapSet sb run1 (hs_runs s)\<rparr>"
  have taken: "takePart d h clock sb p run s =
      (if fp_part p < fp_of p then s1 else finishRun h sb p (fr_chunks run @ [d (fp_dataBase64 p)]) s1)"
    using False by (simp add: takePart_def Let_def s1_def run1_def)
  have "length (map fp_part ps) = fr_nextPart run - 1" using assms(2) by (simp only: runOf_def length_upt)
  then have ps: "length ps = fr_nextPart run - 1" "map fp_part (ps @ [p]) = [1..<Suc (fr_nextPart run)]"
    using assms(2,3) by (simp_all add: runOf_def continues_def)
  show ?thesis
  proof (cases "fp_part p < fp_of p")
    case True
    have "runOf d (ps @ [p]) run1"
      using assms(2,3) False True ps(2) by (simp add: runOf_def run1_def continues_def)
    then show ?thesis using True holds_put [OF assms(1) dist] P by (simp add: taken s1_def)
  next
    case last: False
    have rest: "without sb s1 = without sb s" by (simp add: s1_def filter_mapSet)
    define whole where "whole = completeFile p (concat (fr_chunks run @ [d (fp_dataBase64 p)]))"
    have complete: "fileOf d h (ps @ [p]) whole"
      if "length (of_bytes whole) = fp_sizeBytes p" "h (of_bytes whole) = fp_sha256 p"
      using assms(2,3) False last ps that
      by (auto simp: fileOf_def runOf_def continues_def whole_def completeFile_def simp del: upt_Suc)
    show ?thesis
      using last Q [OF complete] assms(1)
      by (auto simp: taken finishRun_def Let_def rest whole_def completeFile_def intro!: holds_relay)
  qed
qed

text \<open>What the runs and the files on their way are made of, after some inputs.\<close>

definition fromParts :: "(string \<Rightarrow> bytes) \<Rightarrow> (bytes \<Rightarrow> string) \<Rightarrow> handler_input list \<Rightarrow> handler_state \<Rightarrow> bool" where
  "fromParts d h inputs =
     holds (\<lambda>sb run. \<exists>ps. suffix ps (partsFrom sb inputs) \<and> runOf d ps run)
           (\<lambda>sb f. \<exists>ps. sublist ps (partsFrom sb inputs) \<and> fileOf d h ps f)"

lemma holds_part:
  assumes "holds P Q s" and others: "\<And>b run. P b run \<Longrightarrow> b \<noteq> sb \<Longrightarrow> P' b run" and files: "\<And>b f. Q b f \<Longrightarrow> Q' b f"
    and step: "\<And>run. P sb run \<Longrightarrow> \<exists>ps. runOf d ps run \<and>
      (\<forall>run'. runOf d (ps @ [p]) run' \<longrightarrow> P' sb run') \<and> (\<forall>f. fileOf d h (ps @ [p]) f \<longrightarrow> Q' sb f)"
    and first: "\<And>run. runOf d [p] run \<Longrightarrow> P' sb run" "\<And>f. fileOf d h [p] f \<Longrightarrow> Q' sb f"
  shows "holds P' Q' (applyFilePart d h clock sb p s)"
proof -
  define s0 where "s0 = sweepStale clock s"
  have s0: "holds P Q s0" using assms(1) by (simp add: s0_def holds_sweep)
  have dist: "distinct (map fst (hs_runs s0))" using s0 by (simp add: holds_def)
  have gone: "holds P' Q' s'" if "holds P Q s'" "map_of (hs_runs s') sb = None" for s'
    using that others files by (fastforce simp: holds_def)
  have dropped: "holds P' Q' (abandonRun sb why s0)" for why
    by (rule gone) (simp_all add: holds_abandon s0 abandonRun_runs)
  have rest: "holds P' Q' (without sb s0)" by (rule gone) (simp_all add: holds_without s0 map_of_without)
  show ?thesis
  proof (cases "fp_part p = 1")
    case True
    define s1 where "s1 = abandonRun sb ''A new upload started before this one finished; send it again.'' s0"
    define s2 where "s2 = s1\<lparr>hs_runs := mapSet sb (newRun clock p) (hs_runs s1)\<rparr>"
    have s1: "holds P' Q' s1" by (simp add: s1_def dropped)
    have c: "continues (newRun clock p) p" using True by (simp add: continues_def newRun_def)
    have shape: "applyFilePart d h clock sb p s =
        (if fp_sizeBytes p > MAX_OUTBOUND_ATTACHMENT_BYTES
         then fileResult sb (fp_uploadId p) (refusedFile (lit ''Files are capped at 25MB.'')) s1
         else takePart d h clock sb p (newRun clock p) s2)"
      using True c by (simp add: applyFilePart_def Let_def s0_def s1_def s2_def map_of_mapSet)
    have "holds P' Q' (takePart d h clock sb p (newRun clock p) s2)"
      if "fp_sizeBytes p \<le> MAX_OUTBOUND_ATTACHMENT_BYTES"
    proof (rule holds_take [of _ _ _ _ d "[]"])
      show "holds P' Q' (without sb s2)" using holds_without [OF s1, of sb] by (simp add: s2_def filter_mapSet)
      show "runOf d [] (newRun clock p)" using that by (simp add: runOf_def newRun_def)
      show "distinct (map fst (hs_runs s2))" using s1 by (simp add: s2_def distinct_mapSet holds_def)
    qed (simp_all add: c s2_def map_of_mapSet first)
    then show ?thesis using s1 by (simp add: shape)
  next
    case later: False
    show ?thesis
    proof (cases "map_of (hs_runs s0) sb")
      case None
      then show ?thesis using later gone [OF s0 None] by (simp add: applyFilePart_def Let_def s0_def)
    next
      case (Some run)
      then obtain ps where ps: "runOf d ps run" "\<forall>run'. runOf d (ps @ [p]) run' \<longrightarrow> P' sb run'"
        "\<forall>f. fileOf d h (ps @ [p]) f \<longrightarrow> Q' sb f"
        using s0 step [of run] unfolding holds_def by blast
      have "holds P' Q' (takePart d h clock sb p run s0)" if "continues run p"
        using that ps by (intro holds_take [OF rest ps(1) _ Some dist]) blast+
      then show ?thesis
        using later Some dropped by (simp add: applyFilePart_def Let_def flip: s0_def)
    qed
  qed
qed

lemma partsFrom_snoc [simp]:
  "partsFrom sb (inputs @ [Arrives a (FilePart p)]) = partsFrom sb inputs @ (if ar_sandboxId a = sb then [p] else [])"
  "partsFrom sb [] = []"
  by (simp_all add: partsFrom_def)

lemma sublist_extend: "sublist ps xs \<Longrightarrow> sublist ps (xs @ ys)"
  unfolding sublist_def by (metis append.assoc)

lemma fromParts_part:
  assumes "fromParts d h inputs s"
  shows "fromParts d h (inputs @ [Arrives a (FilePart p)]) (applyFilePart d h (ar_now a) (ar_sandboxId a) p s)"
  using assms unfolding fromParts_def
proof (rule holds_part)
  fix run
  assume "\<exists>ps. suffix ps (partsFrom (ar_sandboxId a) inputs) \<and> runOf d ps run"
  then obtain ps where ps: "suffix ps (partsFrom (ar_sandboxId a) inputs)" "runOf d ps run" by blast
  have "suffix (ps @ [p]) (partsFrom (ar_sandboxId a) (inputs @ [Arrives a (FilePart p)]))" using ps(1) by simp
  then show "\<exists>ps. runOf d ps run \<and>
      (\<forall>run'. runOf d (ps @ [p]) run' \<longrightarrow>
         (\<exists>qs. suffix qs (partsFrom (ar_sandboxId a) (inputs @ [Arrives a (FilePart p)])) \<and> runOf d qs run')) \<and>
      (\<forall>f. fileOf d h (ps @ [p]) f \<longrightarrow>
         (\<exists>qs. sublist qs (partsFrom (ar_sandboxId a) (inputs @ [Arrives a (FilePart p)])) \<and> fileOf d h qs f))"
    using ps(2) suffix_imp_sublist by blast
qed (auto intro: exI [of _ "[p]"] sublist_extend simp: suffix_imp_sublist)

lemma fromParts_other:
  assumes "fromParts d h inputs s" and "hs_runs s' = hs_runs s" and "set (hs_uploadCalls s') \<subseteq> set (hs_uploadCalls s)"
    and "\<And>sb. partsFrom sb (inputs @ [input]) = partsFrom sb inputs"
  shows "fromParts d h (inputs @ [input]) s'"
  using assms by (fastforce simp: fromParts_def holds_def)

lemma handle_fromParts:
  assumes "fromParts d h inputs s"
  shows "fromParts d h (inputs @ [input]) (handle d h s input)"
proof (cases input)
  case (Arrives a m)
  show ?thesis
  proof (cases m)
    case (FilePart p)
    then show ?thesis using Arrives fromParts_part [OF assms] by (simp add: handleMessage_def)
  qed (auto simp: Arrives handleMessage_def stamped_def unhealthy_def relayToolCall_def relayMemoryWrite_def turnResult_shape
      Let_def partsFrom_def intro!: fromParts_other [OF assms] split: option.splits)
next
  case (UploadSettles i answer)
  have "set (dropAt i xs) \<subseteq> set xs" for xs :: "(string \<times> outbound_file) list"
    by (auto simp: dropAt_def dest: in_set_takeD in_set_dropD)
  then show ?thesis
    using UploadSettles
    by (intro fromParts_other [OF assms]) (auto simp: uploadSettles_def Let_def partsFrom_def split: prod.splits)
qed (auto simp: toolSettles_def memorySettles_def Let_def partsFrom_def intro!: fromParts_other [OF assms] split: prod.splits)

lemma handled_fromParts: "fromParts d h inputs (handled d h inputs)"
proof (induction inputs rule: rev_induct)
  case (snoc input inputs)
  then show ?case by (simp add: handled_snoc handle_fromParts)
qed (simp add: handled_def emptyHandler_def fromParts_def holds_def)

end
