(* ===== verification/Obligation.thy ===== *)
theory Obligation
  imports JsPrelude
begin

text \<open>
  The contract of a component that owes answers: a count that starts at nothing and grows by one exactly
  at the steps that open an obligation.  What is owed after a run is then the number of such
  steps, so nothing is answered twice and nothing is forgotten.
\<close>

locale obligation =
  fixes step :: "'s \<Rightarrow> 'i \<Rightarrow> 's"
    and start :: 's
    and owed :: "'s \<Rightarrow> nat"
    and opens :: "'s \<Rightarrow> 'i \<Rightarrow> bool"
  assumes owes_nothing: "owed start = 0"
    and owes_what_opens: "owed (step s i) = owed s + (if opens s i then 1 else 0)"
begin

lemma conserved:
  "owed (foldl step start is) = card {k. k < length is \<and> opens (foldl step start (take k is)) (is ! k)}"
proof (induction "is" rule: rev_induct)
  case (snoc i js)
  let ?A = "{k. k < length js \<and> opens (foldl step start (take k js)) (js ! k)}"
  let ?B = "{k. k < length (js @ [i]) \<and> opens (foldl step start (take k (js @ [i]))) ((js @ [i]) ! k)}"
  have "?B = ?A \<union> (if opens (foldl step start js) i then {length js} else {})"
    by (auto simp: nth_append less_Suc_eq split: if_splits)
  then have "card ?B = card ?A + (if opens (foldl step start js) i then 1 else 0)" by auto
  then show ?case using snoc owes_what_opens by simp
qed (simp add: owes_nothing)

lemma conserved_inputs:
  assumes "\<And>s i. opens s i = P i"
  shows "owed (foldl step start is) = length (filter P is)"
  by (induction "is" rule: rev_induct) (simp_all add: owes_nothing owes_what_opens assms)

end

end
