(* ===== verification/SupervisorTheorems.thy ===== *)
theory SupervisorTheorems
  imports SupervisorRuns TurnSize Obligation
begin

text \<open>
  What the handler of supervisor messages promises: an answer for everything asked, files relayed whole, memory
  bounded, reports in order and within the limits of the wire.
\<close>

section \<open>Lemmas\<close>

lemma emptyHandler_owes [simp]:
  "owedTool emptyHandler sb c = 0" "owedMemory emptyHandler sb c = 0" "owedFile emptyHandler sb u = 0"
  by (simp_all add: emptyHandler_def owedTool_def owedMemory_def owedFile_def answers_def awaitedFiles_def inProgress_def)

text \<open>The three obligations of the handler.\<close>

interpretation tools: obligation "handle d h" emptyHandler "\<lambda>s. owedTool s sb c" "\<lambda>s. asksTool sb c" for d h sb c
  by unfold_locales (simp_all add: handle_owedTool)

interpretation memories: obligation "handle d h" emptyHandler "\<lambda>s. owedMemory s sb w" "\<lambda>s. asksMemory sb w" for d h sb w
  by unfold_locales (simp_all add: handle_owedMemory)

interpretation files: obligation "handle d h" emptyHandler "\<lambda>s. owedFile s sb u" "\<lambda>s i. opensUpload s i sb u" for d h sb u
  by unfold_locales (simp_all add: handle_owedFile)

text \<open>The flushes of a turn's end leave nothing of its turns buffered.\<close>

lemma pending_flushes: "pending t (foldl (\<lambda>c t. flush t c) c ts) = (if t \<in> set ts then [] else pending t c)"
  by (induction ts arbitrary: c) (auto simp: flush_pending)

lemma turnResult_calls:
  "callsOf (Arrives a (TurnResult r)) = map Flush (followUpTurns r @ [tr_turnId r])"
  by (simp add: followUpTurns_def case_prod_unfold)

lemma addedOf_append: "addedOf t (xs @ ys) = addedOf t xs @ addedOf t ys"
  by (simp add: addedOf_def)

lemma addedOf_flushes: "addedOf t (map Flush ts) = []"
  by (simp add: addedOf_def o_def)

text \<open>What the wire takes: the limits on answers to a sandbox and on the reports of a turn.\<close>

definition within :: "nat \<Rightarrow> 'a list option \<Rightarrow> bool" where
  "within n t = (case t of None \<Rightarrow> True | Some x \<Rightarrow> length x \<le> n)"

fun itemFits :: "work_item \<Rightarrow> bool" where
  "itemFits (ToolResult c r) = (within MAX_TOOL_RESULT_CHARS (to_result r) \<and> within MAX_TOOL_ERROR_CHARS (to_error r))"
| "itemFits (MemoryWriteResult w r) = within MAX_TOOL_ERROR_CHARS (mo_error r)"
| "itemFits (FileResult u r) = within MAX_TOOL_ERROR_CHARS (uo_error r)"

fun reportFits :: "runner_report \<Rightarrow> bool" where
  "reportFits (TurnFinishedReport sb r) =
     (within 2000 (tr_error r) \<and> within 64 (tr_errorCode r) \<and> within MAX_SESSION_REF_CHARS (tr_sessionRef r))"
| "reportFits (ProgressReport sb v t ref) = within MAX_SESSION_REF_CHARS ref"
| "reportFits _ = True"

fun shortAnswer :: "handler_input \<Rightarrow> bool" where
  "shortAnswer (ToolSettles i (Inr r)) = within (10 ^ 16 - 1) (to_result r)"
| "shortAnswer _ = True"

definition fits :: "handler_state \<Rightarrow> bool" where
  "fits s \<longleftrightarrow> list_all (\<lambda>(b, i). itemFits i) (hs_sent s) \<and> list_all reportFits (hs_reports s)"

lemma within_take: "within n (map_option (take n) t)" "within n (truthyCut n t)" "within MAX_SESSION_REF_CHARS (relayableSessionRef ref)"
  by (auto simp: within_def truthyCut_def truthy_def relayableSessionRef_def split: option.splits)

lemma fits_send [simp]: "fits (sendToSandbox sb i s) \<longleftrightarrow> itemFits i \<and> fits s"
  by (auto simp: fits_def sendToSandbox_def)

lemma fits_result [simp]: "fits (fileResult sb u r s) = fits s"
  by (simp add: fileResult_def within_take)

lemma fits_fields [simp]:
  "fits (s\<lparr>hs_runs := r\<rparr>) = fits s" "fits (s\<lparr>hs_uploadCalls := c\<rparr>) = fits s" "fits (s\<lparr>hs_uploadCount := n\<rparr>) = fits s"
  "fits (s\<lparr>hs_toolCalls := tc\<rparr>) = fits s" "fits (s\<lparr>hs_memoryCalls := mc\<rparr>) = fits s" "fits (s\<lparr>hs_memoryCount := n'\<rparr>) = fits s"
  "fits (s\<lparr>hs_ports := p\<rparr>) = fits s" "fits (s\<lparr>hs_ready := y\<rparr>) = fits s"
  by (simp_all add: fits_def)

lemma fits_abandon [simp]: "fits (abandonRun sb why s) = fits s"
  by (simp add: abandonRun_def split: option.splits)

lemma fits_sweep [simp]: "fits (sweepStale clock s) = fits s"
  by (rule sweep_keeps [of "\<lambda>s'. fits s' = fits s"]) simp_all

lemma fits_relay [simp]: "fits (relayFile sb f s) = fits s"
  by (simp add: relayFile_def Let_def)

lemma fits_part [simp]: "fits (applyFilePart d h clock sb p s) = fits s"
  by (simp add: applyFilePart_def takePart_def finishRun_def Let_def split: option.splits)

lemma fits_report [simp]: "fits (queueReport r s) \<longleftrightarrow> reportFits r \<and> fits s"
  by (auto simp: fits_def)

lemma fits_collector [simp]: "fits (withCollector f s) = fits s"
  by (auto simp: fits_def withCollector_def Let_def list_all_iff)

lemma fits_flushes [simp]: "fits (flushEach ts s) = fits s"
  unfolding flushEach_def by (induction ts arbitrary: s) simp_all

lemma length_take_lit: "length e \<le> n \<Longrightarrow> within n (Some e)"
  by (simp add: within_def)

lemma unreachable_fits: "within MAX_TOOL_ERROR_CHARS (Some (unreachableError e))"
  by (simp add: within_def unreachableError_def MAX_TOOL_ERROR_CHARS_def)

lemma toolAnswer_fits:
  assumes "within (10 ^ 16 - 1) (to_result r)"
  shows "itemFits (ToolResult c (toolAnswer r))"
proof -
  have big: "within MAX_TOOL_ERROR_CHARS (Some (lit ''The tool result was too large to deliver ('' @ decimal (length t) @ lit '' chars).''))"
    if "to_result r = Some t" for t
    using length_decimal [of "length t" 16] assms that by (simp add: within_def MAX_TOOL_ERROR_CHARS_def)
  show ?thesis
    using big by (auto simp: toolAnswer_def boundedResult_def within_def Let_def MAX_TOOL_RESULT_CHARS_def split: option.splits)
qed

lemma handle_fits:
  assumes "fits s" and "shortAnswer input"
  shows "fits (handle d h s input)"
proof (cases input)
  case (Arrives a m)
  show ?thesis
    using Arrives assms(1)
    by (cases m) (simp_all add: handleMessage_def stamped_def unhealthy_def relayToolCall_def relayMemoryWrite_def refusedMemory_def
        turnResult_shape finishedReport_def within_take length_take_lit MAX_TOOL_ERROR_CHARS_def Let_def
        split: option.splits)
next
  case (ToolSettles i answer)
  have "itemFits (ToolResult c (toolAnswer (case answer of Inr r \<Rightarrow> r
      | Inl e \<Rightarrow> \<lparr>to_ok = False, to_result = None, to_error = Some (unreachableError e)\<rparr>)))" for c
    using assms(2) ToolSettles by (intro toolAnswer_fits) (auto simp: within_def split: sum.splits)
  then show ?thesis using ToolSettles assms(1) by (simp add: toolSettles_def Let_def split: prod.splits)
next
  case (MemorySettles i answer)
  then show ?thesis using assms(1) by (simp add: memorySettles_def Let_def within_take split: prod.splits)
next
  case (UploadSettles i answer)
  then show ?thesis using assms(1) by (simp add: uploadSettles_def Let_def split: prod.splits)
qed (simp_all add: assms(1))

section \<open>Claims\<close>

text \<open>
  C16: everything a sandbox asks for is answered exactly once.  At any moment the tool results sent to it
  for a call and the calls still awaited are as many as the calls it made; the same holds for
  memory writes; and for a file, the answers sent, the uploads awaited and the run in progress
  are together as many as the parts that opened an upload: a first part, or a part of an upload
  that is not in progress.
\<close>

theorem everything_asked_is_answered_once:
  fixes inputs d h
  defines "s \<equiv> handled d h inputs"
  shows "answers (toolAnswer_to c) s sb + count_list (hs_toolCalls s) (sb, c) = length (filter (asksTool sb c) inputs) \<and>
         answers (memoryAnswer_to w) s sb + count_list (hs_memoryCalls s) (sb, w) = length (filter (asksMemory sb w) inputs) \<and>
         answers (fileAnswer_to u) s sb + awaitedFiles s sb u + of_bool (inProgress s sb u) =
           card {k. k < length inputs \<and> opensUpload (handled d h (take k inputs)) (inputs ! k) sb u}"
proof -
  have "owedTool s sb c = length (filter (asksTool sb c) inputs)"
    unfolding s_def handled_def by (rule tools.conserved_inputs) simp
  moreover have "owedMemory s sb w = length (filter (asksMemory sb w) inputs)"
    unfolding s_def handled_def by (rule memories.conserved_inputs) simp
  moreover have "owedFile s sb u = card {k. k < length inputs \<and> opensUpload (handled d h (take k inputs)) (inputs ! k) sb u}"
    unfolding s_def handled_def by (rule files.conserved)
  ultimately show ?thesis by (simp add: owedTool_def owedMemory_def owedFile_def of_bool_def)
qed

text \<open>
  C32: a file that is uploaded is the file that was sent.  Its bytes are those of consecutive parts of one
  upload of that sandbox, numbered from 1 to the number declared, in order and complete; they
  match the declared checksum and size, and are at most 25 MB.
\<close>

theorem uploaded_file_is_whole:
  assumes "(sb, f) \<in> set (hs_uploadCalls (handled fromBase64 sha256 inputs))"
  shows "\<exists>ps. sublist ps (partsFrom sb inputs) \<and> ps \<noteq> [] \<and> map fp_part ps = [1..<Suc (length ps)] \<and>
           length ps = max 1 (fp_of (last ps)) \<and>
           (\<forall>p\<in>set ps. fp_uploadId p = of_uploadId f \<and> fp_of p = fp_of (last ps)) \<and>
           f = completeFile (last ps) (concat (map (\<lambda>p. fromBase64 (fp_dataBase64 p)) ps)) \<and>
           sha256 (of_bytes f) = of_sha256 f \<and> length (of_bytes f) = fp_sizeBytes (last ps) \<and>
           length (of_bytes f) \<le> MAX_OUTBOUND_ATTACHMENT_BYTES"
  using handled_fromParts [of fromBase64 sha256 inputs] assms unfolding fromParts_def holds_def fileOf_def by fastforce

text \<open>
  C33: a sandbox cannot make the handler hold more than its share.  There is at most one run of parts per
  sandbox, of at most 25 MB; at most eight memory writes and two uploads of one sandbox are in
  flight; and the counters that enforce it are exact.
\<close>

theorem handler_memory_bounded:
  fixes inputs d h
  defines "s \<equiv> handled d h inputs"
  shows "distinct (map fst (hs_runs s)) \<and>
         list_all (\<lambda>(sb, run). length (concat (fr_chunks run)) \<le> MAX_OUTBOUND_ATTACHMENT_BYTES) (hs_runs s) \<and>
         length (filter (\<lambda>(b, _). b = sb) (hs_memoryCalls s)) \<le> MAX_INFLIGHT_MEMORY_WRITES_PER_SANDBOX \<and>
         length (filter (\<lambda>(b, _). b = sb) (hs_uploadCalls s)) \<le> MAX_INFLIGHT_FILE_UPLOADS_PER_SANDBOX \<and>
         inflight (hs_memoryCount s) sb = length (filter (\<lambda>(b, _). b = sb) (hs_memoryCalls s)) \<and>
         inflight (hs_uploadCount s) sb = length (filter (\<lambda>(b, _). b = sb) (hs_uploadCalls s))"
proof -
  have c: "countsOk s" unfolding s_def by (rule handled_countsOk)
  have h: "fromParts d h inputs s" unfolding s_def by (rule handled_fromParts)
  then have "distinct (map fst (hs_runs s))" by (simp add: fromParts_def holds_def)
  moreover from this h have "list_all (\<lambda>(sb, run). length (concat (fr_chunks run)) \<le> MAX_OUTBOUND_ATTACHMENT_BYTES) (hs_runs s)"
    by (fastforce simp: list_all_iff fromParts_def holds_def runOf_def)
  ultimately show ?thesis using c by (auto simp: countsOk_def countedAs_inflight) (auto simp: countedAs_def Let_def)
qed

text \<open>
  C34: the end of a turn is reported behind everything the turn said.  When a supervisor reports the result
  of a turn, the last report is that result, and before it the reports hold, for the turn and
  for each of its follow-ups, every event handed over for it so far, in order, merged and
  bounded in consecutive runs.
\<close>

theorem turn_end_follows_its_events:
  fixes inputs d h a r
  defines "reports \<equiv> hs_reports (handled d h (inputs @ [Arrives a (TurnResult r)]))"
  assumes "t \<in> set (followUpTurns r @ [tr_turnId r])"
  shows "\<exists>earlier runs. reports = earlier @ [finishedReport (ar_sandboxId a) r] \<and>
           concat runs = addedOf t (concat (map callsOf inputs)) \<and>
           concat (map tp_events (filter (\<lambda>p. tp_turnId p = t) (turnPosts earlier))) =
             concat (map (\<lambda>run. map clamp (coalesce run)) runs)"
proof -
  define s where "s = handled d h inputs"
  define flushed where "flushed = flushEach (followUpTurns r @ [tr_turnId r]) s"
  have shape: "handled d h (inputs @ [Arrives a (TurnResult r)]) = queueReport (finishedReport (ar_sandboxId a) r) flushed"
    by (simp add: handled_snoc handleMessage_def turnResult_shape s_def flushed_def)
  define calls where "calls = concat (map callsOf inputs) @ map Flush (followUpTurns r @ [tr_turnId r])"
  have c: "hs_collector flushed = collected calls"
    using handled_collector [of d h "inputs @ [Arrives a (TurnResult r)]"]
    by (simp add: shape calls_def turnResult_calls del: callsOf.simps)
  have "pending t (hs_collector flushed) = []"
    using assms(2) by (simp add: flushed_def pending_flushes del: foldl_append)
  then obtain runs where runs: "concat runs = addedOf t calls" "batchesOf t (collected calls) = concat (map preparedBatches runs)"
    using collected_delivered [of t calls] by (auto simp: delivered_def c)
  have "turnPosts (hs_reports flushed) = co_posted (collected calls)"
    using flushEach_ok [OF handled_reportsOk [of d h inputs]] c by (simp add: reportsOk_def flushed_def s_def)
  then have "concat (map tp_events (filter (\<lambda>p. tp_turnId p = t) (turnPosts (hs_reports flushed)))) =
      concat (concat (map preparedBatches runs))"
    using runs(2) by (simp add: batchesOf_def)
  also have "\<dots> = concat (map (\<lambda>run. map clamp (coalesce run)) runs)"
    by (induction runs) (simp_all add: preparedBatches_concat)
  finally show ?thesis
    using runs(1) [unfolded calls_def addedOf_append addedOf_flushes]
    by (intro exI [of _ "hs_reports flushed"] exI [of _ runs]) (simp add: reports_def shape)
qed

text \<open>
  What the handler sends is never refused for its length.  Every answer to a sandbox and every report of
  a turn's progress or end stays within the limits of the schema that parses it, however long the
  error or the session reference the other side gave; a tool's result is assumed shorter than
  10 to the 16 units.
\<close>

theorem answers_fit_the_wire:
  assumes "list_all shortAnswer inputs"
  shows "list_all (\<lambda>(sb, item). itemFits item) (hs_sent (handled d h inputs)) \<and>
         list_all reportFits (hs_reports (handled d h inputs))"
proof -
  have "fits (handled d h inputs)"
    using assms
  proof (induction inputs rule: rev_induct)
    case (snoc input inputs)
    then show ?case by (simp add: handled_snoc handle_fits)
  qed (simp add: handled_def emptyHandler_def fits_def)
  then show ?thesis by (simp add: fits_def)
qed

section \<open>Examples\<close>

definition examplePart :: "nat \<Rightarrow> string \<Rightarrow> file_part" where
  "examplePart n bytes = \<lparr>fp_uploadId = ''u'', fp_conversationId = ''c'', fp_turnId = ''t'', fp_name = ''f'', fp_mimeType = ''m'',
     fp_sizeBytes = 3, fp_sha256 = ''h'', fp_caption = None, fp_purpose = None, fp_part = n, fp_of = 2, fp_dataBase64 = bytes\<rparr>"

definition exampleArrival :: arrival where
  "exampleArrival = \<lparr>ar_sandboxId = ''box'', ar_now = 0, ar_containerRef = None, ar_node = None\<rparr>"

definition exampleParts :: "handler_input list" where
  "exampleParts = [Arrives exampleArrival (FilePart (examplePart 1 ''ab'')), Arrives exampleArrival (FilePart (examplePart 2 ''c''))]"

abbreviation exampleBytes :: "string \<Rightarrow> bytes" where
  "exampleBytes \<equiv> map (\<lambda>c. word_of_nat (of_char c))"

theorem uploaded_file_is_whole_witness:
  "(''box'', completeFile (examplePart 2 ''c'') [97, 98, 99]) \<in> set (hs_uploadCalls (handled exampleBytes (\<lambda>b. ''h'') exampleParts)) \<and>
   length [97, 98, 99 :: 8 word] \<le> MAX_OUTBOUND_ATTACHMENT_BYTES"
proof -
  have a: "(''box'', completeFile (examplePart 2 ''c'') [97, 98, 99]) \<in> set (hs_uploadCalls (handled exampleBytes (\<lambda>b. ''h'') exampleParts))"
    by (simp add: handled_def emptyHandler_def exampleParts_def handleMessage_def applyFilePart_def sweepStale_def Let_def exampleArrival_def
        abandonRun_def examplePart_def newRun_def continues_def takePart_def finishRun_def relayFile_def completeFile_def inflight_def
        MAX_OUTBOUND_ATTACHMENT_BYTES_def MAX_INFLIGHT_FILE_UPLOADS_PER_SANDBOX_def FILE_UPLOAD_STALE_MS_def)
  show ?thesis using a uploaded_file_is_whole [OF a] by (auto simp: completeFile_def)
qed

definition exampleResult :: turn_result where
  "exampleResult = \<lparr>tr_conversationId = ''c'', tr_turnId = ''t'', tr_status = ''done'', tr_error = None, tr_errorCode = None,
     tr_usage = None, tr_sessionRef = None, tr_followUps = None\<rparr>"

theorem turn_end_follows_its_events_witness:
  "\<exists>earlier runs. hs_reports (handled exampleBytes (\<lambda>b. ''h'')
       [Arrives exampleArrival (EventMessage ''c'' ''t'' TurnStarted), Arrives exampleArrival (TurnResult exampleResult)]) =
       earlier @ [finishedReport ''box'' exampleResult] \<and>
     concat runs = [TurnStarted] \<and>
     concat (map tp_events (filter (\<lambda>p. tp_turnId p = ''t'') (turnPosts earlier))) =
       concat (map (\<lambda>run. map clamp (coalesce run)) runs)"
  using turn_end_follows_its_events [of "''t''" exampleResult exampleBytes "\<lambda>b. ''h''"
      "[Arrives exampleArrival (EventMessage ''c'' ''t'' TurnStarted)]" exampleArrival]
  by (simp add: exampleResult_def exampleArrival_def addedOf_def)

theorem answers_fit_the_wire_witness:
  "list_all shortAnswer [Arrives exampleArrival (ToolCall ''k'' ''b''), ToolSettles 0 (Inl (replicate 5000 65))] \<and>
   list_all (\<lambda>(sb, item). itemFits item)
     (hs_sent (handled exampleBytes (\<lambda>b. ''h'') [Arrives exampleArrival (ToolCall ''k'' ''b''), ToolSettles 0 (Inl (replicate 5000 65))]))"
  using answers_fit_the_wire [of "[Arrives exampleArrival (ToolCall ''k'' ''b''), ToolSettles 0 (Inl (replicate 5000 65))]"
      exampleBytes "\<lambda>b. ''h''"]
  by (simp del: handle.simps)

text \<open>
  An upload can be answered more than once: a first part that is longer than the size declared is refused, and
  the part behind it, which the sandbox had already sent, is refused again.
\<close>

theorem upload_answered_twice:
  "map (\<lambda>(sb, item). (sb, case item of FileResult u r \<Rightarrow> (u, uo_ok r) | _ \<Rightarrow> (sb, True)))
     (hs_sent (handled exampleBytes (\<lambda>b. ''h'')
       [Arrives exampleArrival (FilePart (examplePart 1 ''abcd'')), Arrives exampleArrival (FilePart (examplePart 2 ''e''))])) =
   [(''box'', (''u'', False)), (''box'', (''u'', False))]"
  by (simp add: handled_def emptyHandler_def handleMessage_def applyFilePart_def sweepStale_def Let_def exampleArrival_def
      abandonRun_def examplePart_def newRun_def continues_def takePart_def fileResult_def sendToSandbox_def refusedFile_def
      MAX_OUTBOUND_ATTACHMENT_BYTES_def FILE_UPLOAD_STALE_MS_def)

end
