(* ===== verification/Spec2Isabelle.thy ===== *)
theory Spec2Isabelle
  imports PolicyTheorems GraphqlSound SshSessionTheorems SshLimits DockerDemux TurnTheorems ReportTheorems Reconcile SupervisorTheorems
begin

text \<open>
  Verification of the policy core of OneCLI.

  OneCLI puts a gateway between AI agents and the services they call.  The gateway injects
  credentials an agent never sees, and decides for every request whether it is allowed, blocked
  or held for approval.  The decision logic is written in TypeScript under
  \<^verbatim>\<open>packages/api/src\<close>; this development models it as HOL functions and proves what it
  promises.

  Parts and theories:

  \<^item> \<^verbatim>\<open>JsPrelude\<close>, \<^verbatim>\<open>JsJson\<close>: the strings, arrays, sets, JSON values and the JSON parser
    of the language that the code relies on.  The parser takes fuel; two units per
    character are shown to be enough.
  \<^item> \<^verbatim>\<open>PathMatch\<close>: host and path patterns (\<^verbatim>\<open>lib/path-match.ts\<close>).
  \<^item> \<^verbatim>\<open>PolicyTypes\<close>, \<^verbatim>\<open>EndpointMatch\<close>, \<^verbatim>\<open>GraphqlClassify\<close>, \<^verbatim>\<open>GraphqlSound\<close>,
    \<^verbatim>\<open>Evaluator\<close>: the engine (\<^verbatim>\<open>services/policy-translation\<close>): rule and request shapes,
    endpoint patterns with the git discovery bridge, the GraphQL body classifier, the
    two-level first-match evaluator.
  \<^item> \<^verbatim>\<open>AppCatalog\<close>, \<^verbatim>\<open>Catalogs\<close>: the permission catalogs (\<^verbatim>\<open>apps/app-permissions\<close>) and
    four of the registered ones as data.
  \<^item> \<^verbatim>\<open>ResourceAxis\<close>: session policies that restrict a connection to resources
    (\<^verbatim>\<open>lib/resource-axis.ts\<close>).
  \<^item> \<^verbatim>\<open>SimRule\<close>: from database rows to engine rules (\<^verbatim>\<open>services/policy-simulate\<close>).
  \<^item> \<^verbatim>\<open>Injection\<close>: which credentials rules inject, and the organization's resource boundary
    (\<^verbatim>\<open>services/policy-reflect\<close>).
  \<^item> \<^verbatim>\<open>PolicyOverlap\<close>: the overlap analysis of the rule editor (\<^verbatim>\<open>lib/policy-overlap.ts\<close>).
  \<^item> \<^verbatim>\<open>GrantsCompile\<close>, \<^verbatim>\<open>GrantStack\<close>: the grants compiler (\<^verbatim>\<open>services/grants-compile.ts\<close>) and
    the rows \<^verbatim>\<open>services/grants-service.ts\<close> writes.
\<close>

end
